(* ===== verification/Prelude.thy ===== *)
theory Prelude
  imports Main "HOL-Library.Word" "HOL-Library.Sublist"
begin

text \<open>
  Shared vocabulary of the development: Go's \<^verbatim>\<open>int64\<close>, \<^verbatim>\<open>error\<close>, \<^verbatim>\<open>time.Time\<close>
  and \<^verbatim>\<open>string\<close> values, the result and input/output combinators the components are written
  with, the few functions of Go's standard library the code uses (\<^verbatim>\<open>strings.TrimSpace\<close>, the
  decimal printing and parsing behind \<^verbatim>\<open>fmt\<close> and \<^verbatim>\<open>strconv\<close>), and generic lemmas.
\<close>

section \<open>Collections of facts\<close>

named_theorems result_simps "evaluation of the result combinators"
named_theorems io_simps "evaluation of the input/output combinators"
named_theorems io_elims "inversion of successful input/output computations"

section \<open>Machine integers\<close>

type_synonym int64 = "64 word"
type_synonym byte = "8 word"

abbreviation max_int64 :: int64 where
  "max_int64 \<equiv> 9223372036854775807"

abbreviation min_int64 :: int64 where
  "min_int64 \<equiv> 9223372036854775808"

definition in_int64 :: "int \<Rightarrow> bool" where
  "in_int64 x \<longleftrightarrow> - 9223372036854775808 \<le> x \<and> x \<le> 9223372036854775807"

text \<open>
  The value \<^term>\<open>min_int64\<close> is written as the unsigned reading of its bit pattern: \<open>sint\<close>,
  the two's complement reading Go uses for \<^verbatim>\<open>int64\<close>, makes it \<open>- 2 ^ 63\<close>.
\<close>

section \<open>Errors\<close>

text \<open>
  The sentinel errors of the program, one constructor per \<^verbatim>\<open>errors.New\<close> variable, prefixed by
  its package. An error value is a sentinel, a pair of errors (\<^verbatim>\<open>fmt.Errorf\<close> with two
  \<^verbatim>\<open>%w\<close> verbs, \<^verbatim>\<open>errors.Join\<close>), an error of the PostgreSQL driver with its SQLSTATE
  code and constraint name, a transport failure, or an error no code path inspects. Message
  texts are not modelled; wrapping with one \<^verbatim>\<open>%w\<close> keeps the wrapped error's identity.
\<close>

datatype sentinel =
    money_ErrInvalidCurrency
  | money_ErrInvalidAmount
  | money_ErrNegativeAmount
  | money_ErrCurrencyMismatch
  | money_ErrOverflow
  | ledger_ErrInvalidEntry
  | ledger_ErrInvalidDirection
  | ledger_ErrBalanceEquation
  | wallet_ErrInvalidWallet
  | wallet_ErrNonPositiveAmount
  | wallet_ErrInsufficientFunds
  | wallet_ErrVersionOverflow
  | wagering_ErrInvalidTransaction
  | wagering_ErrInvalidKind
  | wagering_ErrInvalidStatus
  | wagering_ErrInvalidTransition
  | wagering_ErrInvalidReference
  | wagering_ErrInvalidFailureCode
  | event_ErrInvalidEvent
  | id_ErrInvalidUUID
  | app_ErrInvalidInput
  | app_ErrWalletNotFound
  | app_ErrWalletMismatch
  | app_ErrIdempotencyConflict
  | app_ErrExternalIDConflict
  | app_ErrIdentityRace
  | app_ErrConcurrentWrite
  | app_ErrTransactionNotFound
  | appwallet_ErrWalletAlreadyExists
  | appwallet_ErrWalletNotFound
  | appwallet_ErrInvalidInput
  | ingestion_ErrInvalidMessage
  | ingestion_ErrMessageConflict
  | ingestion_ErrInvalidConsumer
  | reference_ErrInvalidClaim
  | outbox_ErrInvalidClaim
  | reconciliation_ErrInvalidWalletID
  | reconciliation_ErrWalletNotFound
  | reconciliation_ErrOverflow
  | reconciliation_ErrInvalidSnapshot
  | pgx_ErrNoRows
  | postgres_ErrNotFound
  | postgres_ErrConcurrentWrite
  | postgres_ErrInvalidSchedule
  | auth_ErrMissingToken
  | auth_ErrInvalidToken

datatype transport =
    ContextCanceled
  | ContextDeadlineExceeded
  | ConnClosed
  | SafeToRetry
  | EOF
  | UnexpectedEOF
  | ConnRefused
  | ConnReset
  | BrokenPipe
  | NetError bool

datatype err =
    Sentinel sentinel
  | Join err err
  | PgError string string
  | Transport transport
  | Opaque string

fun errors_is :: "err \<Rightarrow> sentinel \<Rightarrow> bool" where
  "errors_is (Sentinel s) t \<longleftrightarrow> s = t"
| "errors_is (Join a b) t \<longleftrightarrow> errors_is a t \<or> errors_is b t"
| "errors_is _ t \<longleftrightarrow> False"

text \<open>\<^verbatim>\<open>errors.As(err, &pgErr)\<close>: the first driver error in the tree, its code and constraint.\<close>

fun errors_as_pg :: "err \<Rightarrow> (string \<times> string) option" where
  "errors_as_pg (PgError c n) = Some (c, n)"
| "errors_as_pg (Join a b) =
     (case errors_as_pg a of Some r \<Rightarrow> Some r | None \<Rightarrow> errors_as_pg b)"
| "errors_as_pg _ = None"

section \<open>Results\<close>

type_synonym 'a result = "err + 'a"

text \<open>\<^verbatim>\<open>x, err := f(); if err != nil { return ..., err }\<close>\<close>

definition and_then :: "'a result \<Rightarrow> ('a \<Rightarrow> 'b result) \<Rightarrow> 'b result" where
  "and_then r f = (case r of Inl e \<Rightarrow> Inl e | Inr x \<Rightarrow> f x)"

text \<open>\<^verbatim>\<open>if err := f(); err != nil { return ..., err }\<close>, for an \<^verbatim>\<open>f\<close> that returns only an error\<close>

definition unless_err :: "err option \<Rightarrow> 'b result \<Rightarrow> 'b result" where
  "unless_err e r = (case e of Some x \<Rightarrow> Inl x | None \<Rightarrow> r)"

lemma and_then_simps [simp, result_simps]:
  "and_then (Inl e) f = Inl e"
  "and_then (Inr x) f = f x"
  by (simp_all add: and_then_def)

lemma unless_err_simps [simp, result_simps]:
  "unless_err (Some e) r = Inl e"
  "unless_err None r = r"
  by (simp_all add: unless_err_def)

lemma and_then_eq_Inr:
  "and_then r f = Inr y \<longleftrightarrow> (\<exists>x. r = Inr x \<and> f x = Inr y)"
  by (cases r) auto

lemma unless_err_eq_Inr: "unless_err e r = Inr y \<longleftrightarrow> e = None \<and> r = Inr y"
  by (cases e) auto

lemma if_Inl_eq_Inr:
  "(if b then Inl e else r) = Inr y \<longleftrightarrow> \<not> b \<and> r = Inr y"
  by simp

lemma if_Some_eq_None: "(if b then Some e else r) = None \<longleftrightarrow> \<not> b \<and> r = None"
  by simp

lemma case_None_Some_eq_None:
  "(case x of None \<Rightarrow> r | Some e \<Rightarrow> Some e) = None \<longleftrightarrow> x = None \<and> r = None"
  by (cases x) simp_all

lemma case_option_eq_None:
  "(case x of None \<Rightarrow> None | Some y \<Rightarrow> f y) = None \<longleftrightarrow> (\<forall>y. x = Some y \<longrightarrow> f y = None)"
  by (cases x) simp_all

lemmas guard_None = if_Some_eq_None case_None_Some_eq_None

lemmas result_invert = and_then_eq_Inr unless_err_eq_Inr if_Inl_eq_Inr

section \<open>Input/output\<close>

text \<open>
  A Go function that reads clocks, draws random numbers or talks to the database is a function
  on the state of the world that returns its result or error together with the next state. The
  state is returned on errors too: rolling back is the business of the unit of work.
\<close>

type_synonym ('s, 'a) io = "'s \<Rightarrow> 'a result \<times> 's"

definition io_return :: "'a \<Rightarrow> ('s, 'a) io" where
  "io_return x = (\<lambda>s. (Inr x, s))"

definition io_throw :: "err \<Rightarrow> ('s, 'a) io" where
  "io_throw e = (\<lambda>s. (Inl e, s))"

definition io_lift :: "'a result \<Rightarrow> ('s, 'a) io" where
  "io_lift r = (\<lambda>s. (r, s))"

definition io_try :: "('s, 'a) io \<Rightarrow> ('a \<Rightarrow> ('s, 'b) io) \<Rightarrow> ('s, 'b) io" where
  "io_try m f = (\<lambda>s. case m s of (Inl e, s') \<Rightarrow> (Inl e, s') | (Inr x, s') \<Rightarrow> f x s')"

text \<open>\<^verbatim>\<open>x, err := f(); if errors.Is(err, ...) { ... }\<close>: the caller looks at the error.\<close>

definition io_catch :: "('s, 'a) io \<Rightarrow> ('a result \<Rightarrow> ('s, 'b) io) \<Rightarrow> ('s, 'b) io" where
  "io_catch m f = (\<lambda>s. case m s of (r, s') \<Rightarrow> f r s')"

lemma io_apply [simp, io_simps]:
  "io_return x s = (Inr x, s)"
  "io_throw e s = (Inl e, s)"
  "io_lift r s = (r, s)"
  by (simp_all add: io_return_def io_throw_def io_lift_def)

lemma io_try_apply:
  "io_try m f s = (case m s of (Inl e, s') \<Rightarrow> (Inl e, s') | (Inr x, s') \<Rightarrow> f x s')"
  by (simp add: io_try_def)

lemma io_try_run [io_simps]:
  "m s = (Inr x, s') \<Longrightarrow> io_try m f s = f x s'"
  "m s = (Inl e, s') \<Longrightarrow> io_try m f s = (Inl e, s')"
  by (simp_all add: io_try_def)

lemma io_try_lift [simp, io_simps]:
  "io_try (io_lift (Inr x)) f = f x"
  "io_try (io_lift (Inl e)) f = io_throw e"
  "io_try (io_return x) f = f x"
  "io_try (io_throw e) f = io_throw e"
  by (auto simp: io_try_def io_lift_def io_return_def io_throw_def)

lemma io_catch_apply: "io_catch m f s = (case m s of (r, s') \<Rightarrow> f r s')"
  by (simp add: io_catch_def)

lemma io_try_InrE [elim!, io_elims]:
  assumes "io_try m f s = (Inr y, s')"
  obtains x t where "m s = (Inr x, t)" and "f x t = (Inr y, s')"
  using assms by (auto simp: io_try_def split: prod.splits sum.splits)

lemma io_try_post:
  assumes "io_try m f s = (r, s')" "\<And>e t. m s = (Inl e, t) \<Longrightarrow> Q (Inl e) t"
    and "\<And>x t. m s = (Inr x, t) \<Longrightarrow> f x t = (r, s') \<Longrightarrow> Q r s'"
  shows "Q r s'"
proof -
  obtain q t where q: "m s = (q, t)" by fastforce
  show ?thesis
  proof (cases q)
    case (Inl e)
    with assms(1,2) q show ?thesis by (auto simp: io_try_def)
  next
    case (Inr x)
    with assms(1,3) q show ?thesis by (auto simp: io_try_def)
  qed
qed

lemma io_return_InrE [elim!, io_elims]:
  assumes "io_return x s = (Inr y, s')"
  obtains "y = x" and "s' = s"
  using assms by simp

lemma io_throw_InrE [elim!, io_elims]:
  assumes "io_throw e s = (Inr y, s')"
  obtains False
  using assms by simp

lemma io_lift_InrE [elim!, io_elims]:
  assumes "io_lift r s = (Inr y, s')"
  obtains "r = Inr y" and "s' = s"
  using assms by simp

text \<open>
  A relation between the state before and after, kept by every computation regardless of its
  outcome: the form in which frame conditions are stated.
\<close>

definition io_keeps :: "('s \<Rightarrow> 's \<Rightarrow> bool) \<Rightarrow> ('s, 'a) io \<Rightarrow> bool" where
  "io_keeps R m \<longleftrightarrow> (\<forall>s. R s (snd (m s)))"

lemma io_keepsI: "(\<And>s r s'. m s = (r, s') \<Longrightarrow> R s s') \<Longrightarrow> io_keeps R m"
  by (metis io_keeps_def prod.collapse)

lemma io_keepsD: "io_keeps R m \<Longrightarrow> m s = (r, s') \<Longrightarrow> R s s'"
  by (metis io_keeps_def snd_conv)

lemma io_keeps_basic [simp, intro]:
  assumes "\<And>s. R s s"
  shows "io_keeps R (io_return x)" "io_keeps R (io_throw e)" "io_keeps R (io_lift r)"
  using assms by (simp_all add: io_keeps_def)

lemma io_keeps_try [intro]:
  assumes "\<And>s t u. R s t \<Longrightarrow> R t u \<Longrightarrow> R s u"
    and "io_keeps R m" and "\<And>x. io_keeps R (f x)"
  shows "io_keeps R (io_try m f)"
proof (rule io_keepsI)
  fix s r s'
  assume run: "io_try m f s = (r, s')"
  obtain q t where q: "m s = (q, t)" by fastforce
  then have st: "R s t" using assms(2) by (rule io_keepsD [rotated])
  show "R s s'"
  proof (cases q)
    case (Inl e)
    with run q st show ?thesis by (simp add: io_try_def)
  next
    case (Inr x)
    with run q have "f x t = (r, s')" by (simp add: io_try_def)
    then have "R t s'" using assms(3) by (rule io_keepsD [rotated])
    with st show ?thesis by (rule assms(1))
  qed
qed

lemma io_keeps_if [intro]:
  "io_keeps R m \<Longrightarrow> io_keeps R m' \<Longrightarrow> io_keeps R (if b then m else m')"
  by simp

section \<open>Time\<close>

text \<open>
  A \<^verbatim>\<open>time.Time\<close> is its instant in nanoseconds, counted from Go's zero time. The location a
  value carries is not observed by the code: \<^verbatim>\<open>UTC()\<close> keeps the instant. A
  \<^verbatim>\<open>time.Duration\<close> is a number of nanoseconds.
\<close>

type_synonym time = int
type_synonym duration = int

definition is_zero_time :: "time \<Rightarrow> bool" where
  "is_zero_time t \<longleftrightarrow> t = 0"

definition time_second :: duration where
  "time_second = 1000000000"

definition time_minute :: duration where
  "time_minute = 60 * time_second"

definition time_hour :: duration where
  "time_hour = 60 * time_minute"

definition time_millisecond :: duration where
  "time_millisecond = 1000000"

section \<open>Strings\<close>

text \<open>
  A Go string is a sequence of bytes, as \<^typ>\<open>string\<close> is. \<^verbatim>\<open>strings.TrimSpace\<close> cuts
  Unicode white space from both ends: the UTF-8 encodings of the code points for which
  \<^verbatim>\<open>unicode.IsSpace\<close> holds.
\<close>

definition bytes_of :: "nat list \<Rightarrow> string" where
  "bytes_of ns = map (\<lambda>n. char_of n) ns"

definition space_encodings :: "string list" where
  "space_encodings =
     map bytes_of
      ([[9], [10], [11], [12], [13], [32], [194, 133], [194, 160], [225, 154, 128],
        [226, 128, 168], [226, 128, 169], [226, 128, 175], [226, 129, 159], [227, 128, 128]]
       @ map (\<lambda>n. [226, 128, n]) [128 ..< 139])"

lemma space_encodings_nonempty: "p \<in> set space_encodings \<Longrightarrow> p \<noteq> []"
  by (auto simp: space_encodings_def bytes_of_def)

lemma find_space_prefix_shorter:
  assumes "find (\<lambda>p. prefix p s) space_encodings = Some p"
  shows "length (drop (length p) s) < length s"
proof -
  from assms have "p \<in> set space_encodings" "prefix p s"
    by (auto simp: find_Some_iff)
  then have "0 < length p" "length p \<le> length s"
    using space_encodings_nonempty prefix_length_le by auto
  then show ?thesis unfolding length_drop by linarith
qed

lemma find_space_suffix_shorter:
  assumes "find (\<lambda>p. suffix p s) space_encodings = Some p"
  shows "length (take (length s - length p) s) < length s"
proof -
  from assms have "p \<in> set space_encodings" "suffix p s"
    by (auto simp: find_Some_iff)
  then have "0 < length p" "length p \<le> length s"
    using space_encodings_nonempty suffix_length_le by auto
  then show ?thesis unfolding length_take by linarith
qed

function trim_left :: "string \<Rightarrow> string" where
  "trim_left s = (case find (\<lambda>p. prefix p s) space_encodings of
     None \<Rightarrow> s | Some p \<Rightarrow> trim_left (drop (length p) s))"
  by pat_completeness auto
termination
  by (relation "measure length") (auto intro: find_space_prefix_shorter [simplified])

function trim_right :: "string \<Rightarrow> string" where
  "trim_right s = (case find (\<lambda>p. suffix p s) space_encodings of
     None \<Rightarrow> s | Some p \<Rightarrow> trim_right (take (length s - length p) s))"
  by pat_completeness auto
termination
  by (relation "measure length") (auto dest: find_space_suffix_shorter)

declare trim_left.simps [simp del] trim_right.simps [simp del]

definition trim_space :: "string \<Rightarrow> string" where
  "trim_space s = trim_right (trim_left s)"

lemma length_trim_left: "length (trim_left s) \<le> length s"
proof (induction s rule: trim_left.induct)
  case (1 s)
  then show ?case
    by (subst trim_left.simps) (fastforce split: option.splits)
qed

lemma length_trim_right: "length (trim_right s) \<le> length s"
proof (induction s rule: trim_right.induct)
  case (1 s)
  then show ?case
    by (subst trim_right.simps) (fastforce split: option.splits)
qed

lemma trim_left_id_iff:
  "trim_left s = s \<longleftrightarrow> (\<forall>p \<in> set space_encodings. \<not> prefix p s)"
proof (cases "find (\<lambda>p. prefix p s) space_encodings")
  case None
  then have "trim_left s = s" by (subst trim_left.simps) simp
  with None show ?thesis by (simp add: find_None_iff)
next
  case (Some p)
  then have "length (trim_left s) < length s"
    using length_trim_left [of "drop (length p) s"] find_space_prefix_shorter [OF Some]
    by (subst trim_left.simps) simp
  then have "trim_left s \<noteq> s" by auto
  with Some show ?thesis by (auto simp: find_Some_iff)
qed

lemma trim_right_id_iff:
  "trim_right s = s \<longleftrightarrow> (\<forall>p \<in> set space_encodings. \<not> suffix p s)"
proof (cases "find (\<lambda>p. suffix p s) space_encodings")
  case None
  then have "trim_right s = s" by (subst trim_right.simps) simp
  with None show ?thesis by (simp add: find_None_iff)
next
  case (Some p)
  then have "length (trim_right s) < length s"
    using length_trim_right [of "take (length s - length p) s"] find_space_suffix_shorter [OF Some]
    by (subst trim_right.simps) simp
  then have "trim_right s \<noteq> s" by auto
  with Some show ?thesis by (auto simp: find_Some_iff)
qed

lemma trim_space_id_iff:
  "trim_space s = s \<longleftrightarrow> (\<forall>p \<in> set space_encodings. \<not> prefix p s \<and> \<not> suffix p s)"
proof -
  have "trim_space s = s \<longleftrightarrow> trim_left s = s \<and> trim_right s = s"
  proof
    assume eq: "trim_space s = s"
    have "length s \<le> length (trim_left s)"
      using length_trim_right [of "trim_left s"] eq by (simp add: trim_space_def)
    have "trim_left s = s"
    proof (rule ccontr)
      assume "trim_left s \<noteq> s"
      then obtain p where "find (\<lambda>p. prefix p s) space_encodings = Some p"
        using trim_left_id_iff [of s] by (cases "find (\<lambda>p. prefix p s) space_encodings")
          (auto simp: find_None_iff)
      then have "length (trim_left s) < length s"
        using length_trim_left [of "drop (length p) s"] find_space_prefix_shorter
        by (subst trim_left.simps) fastforce
      with \<open>length s \<le> length (trim_left s)\<close> show False by simp
    qed
    with eq show "trim_left s = s \<and> trim_right s = s" by (simp add: trim_space_def)
  qed (simp add: trim_space_def)
  then show ?thesis by (auto simp: trim_left_id_iff trim_right_id_iff)
qed

definition is_ascii_graphic :: "char \<Rightarrow> bool" where
  "is_ascii_graphic c \<longleftrightarrow> 33 \<le> (of_char c :: nat) \<and> (of_char c :: nat) < 127"

lemma space_encodings_not_graphic:
  assumes "p \<in> set space_encodings"
  shows "\<not> is_ascii_graphic (hd p)" "\<not> is_ascii_graphic (last p)"
  using assms by (auto simp: space_encodings_def bytes_of_def is_ascii_graphic_def)

text \<open>What begins with a visible ASCII character does not begin with white space; a space is white space.\<close>

lemma no_space_prefix:
  assumes "is_ascii_graphic c"
  shows "find (\<lambda>p. prefix p (c # s)) space_encodings = None"
proof -
  have "\<not> prefix p (c # s)" if "p \<in> set space_encodings" for p
    using space_encodings_not_graphic(1) [OF that] space_encodings_nonempty [OF that] assms
    by (cases p) auto
  then show ?thesis by (simp add: find_None_iff)
qed

lemma find_space: "find (\<lambda>p. prefix p (CHR '' '' # s)) space_encodings = Some '' ''"
proof -
  have c: "map char_of [9, 10, 11, 12, 13, 32 :: nat] = [CHR 0x09, CHR 0x0A, CHR 0x0B, CHR 0x0C, CHR 0x0D, CHR '' '']"
    by (simp add: char_of_def bit_0)
  show ?thesis using c by (simp add: space_encodings_def bytes_of_def)
qed

lemma trim_space_Cons_space: "trim_space (CHR '' '' # s) = trim_space s"
  unfolding trim_space_def by (subst trim_left.simps) (simp add: find_space)

lemma trim_space_graphic:
  assumes "s \<noteq> []" "is_ascii_graphic (hd s)" "is_ascii_graphic (last s)"
  shows "trim_space s = s"
proof -
  have "\<not> prefix p s \<and> \<not> suffix p s" if p: "p \<in> set space_encodings" for p
  proof -
    from p have "p \<noteq> []" by (rule space_encodings_nonempty)
    then have "prefix p s \<Longrightarrow> hd p = hd s" "suffix p s \<Longrightarrow> last p = last s"
      by (auto simp: prefix_def suffix_def)
    then show ?thesis using space_encodings_not_graphic [OF p] assms by auto
  qed
  then show ?thesis by (simp add: trim_space_id_iff)
qed

text \<open>
  The helper every domain package repeats: \<^verbatim>\<open>validID\<close>, a non-empty string without
  surrounding white space.
\<close>

definition valid_id :: "string \<Rightarrow> bool" where
  "valid_id s \<longleftrightarrow> s \<noteq> [] \<and> trim_space s = s"

lemma valid_id_graphic:
  "s \<noteq> [] \<Longrightarrow> is_ascii_graphic (hd s) \<Longrightarrow> is_ascii_graphic (last s) \<Longrightarrow> valid_id s"
  by (simp add: valid_id_def trim_space_graphic)

lemma valid_id_nonempty: "valid_id s \<Longrightarrow> s \<noteq> []"
  by (simp add: valid_id_def)

lemma not_valid_id_Nil [simp]: "\<not> valid_id []"
  by (simp add: valid_id_def)

section \<open>Decimal numbers\<close>

definition is_digit :: "char \<Rightarrow> bool" where
  "is_digit c \<longleftrightarrow> 48 \<le> (of_char c :: nat) \<and> (of_char c :: nat) \<le> 57"

definition digit_char :: "nat \<Rightarrow> char" where
  "digit_char d = char_of (48 + d)"

definition digit_val :: "char \<Rightarrow> nat" where
  "digit_val c = of_char c - 48"

text \<open>The \<^verbatim>\<open>%d\<close> verb on an unsigned number.\<close>

fun dec :: "nat \<Rightarrow> string" where
  "dec n = (if n < 10 then [digit_char n] else dec (n div 10) @ [digit_char (n mod 10)])"

declare dec.simps [simp del]

definition dec_val :: "string \<Rightarrow> nat" where
  "dec_val s = foldl (\<lambda>acc c. 10 * acc + digit_val c) 0 s"

lemma digit_char_props [simp]:
  assumes "d < 10"
  shows "is_digit (digit_char d)" "digit_val (digit_char d) = d"
  using assms by (simp_all add: is_digit_def digit_char_def digit_val_def)

lemma digit_char_val: "is_digit c \<Longrightarrow> digit_char (digit_val c) = c"
  by (simp add: is_digit_def digit_char_def digit_val_def)

lemma digit_val_less: "is_digit c \<Longrightarrow> digit_val c < 10"
  unfolding is_digit_def digit_val_def by linarith

lemma dec_val_Nil [simp]: "dec_val [] = 0"
  by (simp add: dec_val_def)

lemma dec_val_snoc [simp]: "dec_val (s @ [c]) = 10 * dec_val s + digit_val c"
  by (simp add: dec_val_def)

lemma dec_nonempty [simp]: "dec n \<noteq> []"
  by (subst dec.simps) simp

lemma dec_digits: "c \<in> set (dec n) \<Longrightarrow> is_digit c"
proof (induction n rule: dec.induct)
  case (1 n)
  then show ?case
    using dec.simps [of n] by (auto split: if_splits)
qed

lemma dec_val_dec [simp]: "dec_val (dec n) = n"
proof (induction n rule: dec.induct)
  case (1 n)
  show ?case
  proof (cases "n < 10")
    case True
    then show ?thesis
      using dec_val_snoc [of "[]" "digit_char n"] by (simp add: dec.simps [of n])
  next
    case False
    with 1 show ?thesis by (simp add: dec.simps [of n])
  qed
qed

lemma dec_val_append: "dec_val (s @ t) = dec_val s * 10 ^ length t + dec_val t"
proof (induction t rule: rev_induct)
  case (snoc c t)
  have "dec_val (s @ t @ [c]) = dec_val ((s @ t) @ [c])" by simp
  also have "\<dots> = 10 * (dec_val s * 10 ^ length t + dec_val t) + digit_val c"
    using snoc by (simp only: dec_val_snoc)
  finally show ?case by (simp add: algebra_simps)
qed simp

end
