(* ===== verification/Money.thy ===== *)
theory Money
  imports Prelude
begin

text \<open>
  The package \<^verbatim>\<open>internal/domain/money\<close>: currencies, amounts in minor units held in an
  \<^verbatim>\<open>int64\<close>, their checked arithmetic, and their decimal text form. Addition, subtraction and
  negation are shown to be exact integer arithmetic or an overflow error; printing and parsing
  are shown to be inverse.
\<close>

section \<open>Currency\<close>

definition supportedCurrencies :: "string list" where
  "supportedCurrencies = [''BRL'', ''EUR'', ''USD'']"

datatype currency = Currency (code: string)

definition ParseCurrency :: "string \<Rightarrow> currency result" where
  "ParseCurrency c =
     (if c \<notin> set supportedCurrencies then Inl (Sentinel money_ErrInvalidCurrency)
      else Inr (Currency c))"

definition currency_Valid :: "currency \<Rightarrow> bool" where
  "currency_Valid c \<longleftrightarrow> code c \<in> set supportedCurrencies"

section \<open>Amounts\<close>

record money =
  minor :: int64
  currency :: currency

text \<open>The zero value \<^verbatim>\<open>Money{}\<close>, which carries no currency.\<close>

definition zero_money :: money where
  "zero_money = \<lparr>minor = 0, currency = Currency []\<rparr>"

definition money_New :: "int64 \<Rightarrow> currency \<Rightarrow> money result" where
  "money_New m c =
     (if \<not> currency_Valid c then Inl (Sentinel money_ErrInvalidCurrency)
      else Inr \<lparr>minor = m, currency = c\<rparr>)"

definition money_Zero :: "currency \<Rightarrow> money result" where
  "money_Zero c = money_New 0 c"

definition money_Validate :: "money \<Rightarrow> err option" where
  "money_Validate m =
     (if \<not> currency_Valid (currency m) then Some (Sentinel money_ErrInvalidCurrency) else None)"

definition money_IsZero :: "money \<Rightarrow> bool" where
  "money_IsZero m \<longleftrightarrow> minor m = 0 \<and> currency_Valid (currency m)"

definition money_IsPositive :: "money \<Rightarrow> bool" where
  "money_IsPositive m \<longleftrightarrow> sint (minor m) > 0 \<and> currency_Valid (currency m)"

definition money_IsNegative :: "money \<Rightarrow> bool" where
  "money_IsNegative m \<longleftrightarrow> sint (minor m) < 0 \<and> currency_Valid (currency m)"

definition money_Equal :: "money \<Rightarrow> money \<Rightarrow> bool" where
  "money_Equal m other \<longleftrightarrow>
     minor m = minor other \<and> currency m = currency other \<and> currency_Valid (currency m)"

definition compatible :: "money \<Rightarrow> money \<Rightarrow> err option" where
  "compatible left right =
     (case money_Validate left of Some e \<Rightarrow> Some e | None \<Rightarrow>
      (case money_Validate right of Some e \<Rightarrow> Some e | None \<Rightarrow>
       if currency left \<noteq> currency right then Some (Sentinel money_ErrCurrencyMismatch) else None))"

text \<open>
  The sums and differences below are those of \<^typ>\<open>int64\<close> and wrap around, as Go's do; the
  guards compare the two's complement readings.
\<close>

definition money_Add :: "money \<Rightarrow> money \<Rightarrow> money result" where
  "money_Add m other =
     unless_err (compatible m other)
      (if (sint (minor other) > 0 \<and> sint (minor m) > sint (max_int64 - minor other)) \<or>
          (sint (minor other) < 0 \<and> sint (minor m) < sint (min_int64 - minor other))
       then Inl (Sentinel money_ErrOverflow)
       else money_New (minor m + minor other) (currency m))"

definition money_Subtract :: "money \<Rightarrow> money \<Rightarrow> money result" where
  "money_Subtract m other =
     unless_err (compatible m other)
      (if (sint (minor other) < 0 \<and> sint (minor m) > sint (max_int64 + minor other)) \<or>
          (sint (minor other) > 0 \<and> sint (minor m) < sint (min_int64 + minor other))
       then Inl (Sentinel money_ErrOverflow)
       else money_New (minor m - minor other) (currency m))"

definition money_Negate :: "money \<Rightarrow> money result" where
  "money_Negate m =
     unless_err (money_Validate m)
      (if minor m = min_int64 then Inl (Sentinel money_ErrOverflow)
       else money_New (- minor m) (currency m))"

definition money_Compare :: "money \<Rightarrow> money \<Rightarrow> int result" where
  "money_Compare m other =
     unless_err (compatible m other)
      (if sint (minor m) < sint (minor other) then Inr (-1)
       else if sint (minor m) > sint (minor other) then Inr 1
       else Inr 0)"

section \<open>Text form\<close>

text \<open>\<^verbatim>\<open>strings.Split(s, ".")\<close>\<close>

fun split_dot :: "string \<Rightarrow> string list" where
  "split_dot [] = [[]]"
| "split_dot (c # cs) =
     (if c = CHR ''.'' then [] # split_dot cs
      else (case split_dot cs of p # ps \<Rightarrow> (c # p) # ps | [] \<Rightarrow> [[c]]))"

definition allDigits :: "string \<Rightarrow> bool" where
  "allDigits value \<longleftrightarrow> (\<forall>c \<in> set value. \<not> ((of_char c :: nat) < 48 \<or> (of_char c :: nat) > 57))"

text \<open>
  \<^verbatim>\<open>strconv.ParseInt(s, 10, 64)\<close>: an optional sign and at least one digit, else a syntax error;
  a value outside the range of \<^verbatim>\<open>int64\<close> is \<^verbatim>\<open>strconv.ErrRange\<close>.
\<close>

datatype num_error = ErrSyntax | ErrRange

definition parse_int64 :: "string \<Rightarrow> num_error + int64" where
  "parse_int64 s =
     (let neg = (s \<noteq> [] \<and> hd s = CHR ''-'');
          ds = (if s \<noteq> [] \<and> (hd s = CHR ''-'' \<or> hd s = CHR ''+'') then tl s else s);
          v = (if neg then - int (dec_val ds) else int (dec_val ds))
      in if ds = [] \<or> \<not> list_all is_digit ds then Inl ErrSyntax
         else if \<not> in_int64 v then Inl ErrRange
         else Inr (word_of_int v))"

definition parseMinorUnits :: "string \<Rightarrow> int64 result" where
  "parseMinorUnits raw =
     (if raw = [] \<or> trim_space raw \<noteq> raw \<or> prefix ''+'' raw
      then Inl (Sentinel money_ErrInvalidAmount)
      else
       let negative = prefix ''-'' raw;
           digits = (if negative then drop 1 raw else raw);
           parts = split_dot digits
       in if length parts \<noteq> 2 \<or> parts ! 0 = [] \<or> length (parts ! 1) \<noteq> 2 \<or>
             \<not> allDigits (parts ! 0) \<or> \<not> allDigits (parts ! 1)
          then Inl (Sentinel money_ErrInvalidAmount)
          else
           let trimmed = dropWhile (\<lambda>c. c = CHR ''0'') (parts ! 0 @ parts ! 1);
               unsigned = (if trimmed = [] then ''0'' else trimmed);
               combined = (if negative then ''-'' @ unsigned else unsigned)
           in (case parse_int64 combined of
                 Inl ErrRange \<Rightarrow> Inl (Sentinel money_ErrOverflow)
               | Inl ErrSyntax \<Rightarrow> Inl (Sentinel money_ErrInvalidAmount)
               | Inr n \<Rightarrow> Inr n))"

definition money_Parse :: "string \<Rightarrow> string \<Rightarrow> money result" where
  "money_Parse amount currencyCode =
     and_then (ParseCurrency currencyCode) (\<lambda>c.
     and_then (parseMinorUnits amount) (\<lambda>m.
     money_New m c))"

definition ParseNonNegative :: "string \<Rightarrow> string \<Rightarrow> money result" where
  "ParseNonNegative amount currencyCode =
     (if prefix ''-'' amount then Inl (Sentinel money_ErrNegativeAmount)
      else and_then (money_Parse amount currencyCode) (\<lambda>value. Inr value))"

text \<open>\<^verbatim>\<open>fmt.Sprintf("%s%d.%02d", ...)\<close> on a \<^verbatim>\<open>uint64\<close> magnitude.\<close>

definition pad2 :: "nat \<Rightarrow> string" where
  "pad2 n = (if n < 10 then ''0'' @ dec n else dec n)"

definition money_magnitude :: "money \<Rightarrow> int64" where
  "money_magnitude m =
     (if sint (minor m) < 0 then (- (minor m + 1)) + 1 else minor m)"

definition money_String :: "money \<Rightarrow> string" where
  "money_String m =
     (if money_Validate m \<noteq> None then []
      else (if sint (minor m) < 0 then ''-'' else [])
           @ dec (unat (money_magnitude m div 100)) @ ''.'' @ pad2 (unat (money_magnitude m mod 100)))"

section \<open>Range arithmetic on int64\<close>

lemma sint64_bounds: "- 9223372036854775808 \<le> sint (x :: int64)" "sint (x :: int64) \<le> 9223372036854775807"
  using sint_greater_eq [of x] sint_less [of x] by simp_all

lemma in_int64_sint [simp]: "in_int64 (sint (x :: int64))"
  by (simp add: in_int64_def sint64_bounds)

lemma sint_word_of_int64: "in_int64 v \<Longrightarrow> sint (word_of_int v :: int64) = v"
  by (simp add: in_int64_def sint_sbintrunc' signed_take_bit_int_eq_self)

lemma signed_take_bit_64_self: "in_int64 v \<Longrightarrow> signed_take_bit 63 v = v"
  by (simp add: in_int64_def signed_take_bit_int_eq_self)

lemma sint64_add: "in_int64 (sint a + sint b) \<Longrightarrow> sint (a + b :: int64) = sint a + sint b"
  by (simp add: sint_word_ariths signed_take_bit_64_self)

lemma sint64_diff: "in_int64 (sint a - sint b) \<Longrightarrow> sint (a - b :: int64) = sint a - sint b"
  by (simp add: sint_word_ariths signed_take_bit_64_self)

lemma sint64_minus: "in_int64 (- sint a) \<Longrightarrow> sint (- a :: int64) = - sint a"
  by (simp add: sint_word_ariths signed_take_bit_64_self)

lemma sint_max_min [simp]:
  "sint max_int64 = 9223372036854775807" "sint min_int64 = - 9223372036854775808"
  by (simp_all)

lemma sint64_eq_iff: "(a :: int64) = b \<longleftrightarrow> sint a = sint b"
  by (metis signed_word_eqI)

lemma sint64_eq_0_iff: "sint (a :: int64) = 0 \<longleftrightarrow> a = 0"
  using sint64_eq_iff [of a 0] by simp

lemma word_of_int_sint64 [simp]: "word_of_int (sint (a :: int64)) = a"
  by (simp add: sint64_eq_iff sint_word_of_int64)

section \<open>Validity and comparison\<close>

lemma money_Validate_None [simp]: "money_Validate m = None \<longleftrightarrow> currency_Valid (currency m)"
  by (simp add: money_Validate_def)

lemma money_New_eq_Inr [simp]:
  "money_New n c = Inr m \<longleftrightarrow> currency_Valid c \<and> m = \<lparr>minor = n, currency = c\<rparr>"
  by (auto simp: money_New_def)

lemma ParseCurrency_eq_Inr:
  "ParseCurrency s = Inr c \<longleftrightarrow> s \<in> set supportedCurrencies \<and> c = Currency s"
  by (auto simp: ParseCurrency_def)

lemma ParseCurrency_code [simp]: "currency_Valid c \<Longrightarrow> ParseCurrency (code c) = Inr c"
  by (simp add: ParseCurrency_def currency_Valid_def)

lemma compatible_None:
  "compatible a b = None \<longleftrightarrow>
     currency_Valid (currency a) \<and> currency_Valid (currency b) \<and> currency a = currency b"
  by (auto simp: compatible_def money_Validate_def)

lemma money_Equal_iff: "money_Equal a b \<longleftrightarrow> a = b \<and> currency_Valid (currency a)"
  by (auto simp: money_Equal_def)

lemma money_sign_cases:
  assumes "currency_Valid (currency m)"
  shows "money_IsPositive m \<longleftrightarrow> 0 < sint (minor m)"
    and "money_IsNegative m \<longleftrightarrow> sint (minor m) < 0"
    and "money_IsZero m \<longleftrightarrow> sint (minor m) = 0"
  using assms
  by (simp_all add: money_IsPositive_def money_IsNegative_def money_IsZero_def sint64_eq_0_iff)

lemma money_IsPositive_valid: "money_IsPositive m \<Longrightarrow> currency_Valid (currency m)"
  by (simp add: money_IsPositive_def)

section \<open>Checked arithmetic\<close>

lemma money_Add_exact:
  assumes "compatible a b = None"
  shows "money_Add a b =
    (if in_int64 (sint (minor a) + sint (minor b))
     then Inr \<lparr>minor = minor a + minor b, currency = currency a\<rparr>
     else Inl (Sentinel money_ErrOverflow))"
proof -
  have up: "sint (max_int64 - minor b) = sint max_int64 - sint (minor b)" if "0 < sint (minor b)"
    using that sint64_bounds [of "minor b"] by (subst sint64_diff) (simp_all add: in_int64_def)
  have lo: "sint (min_int64 - minor b) = sint min_int64 - sint (minor b)" if "sint (minor b) < 0"
    using that sint64_bounds [of "minor b"] by (subst sint64_diff) (simp_all add: in_int64_def)
  have guard: "((sint (minor b) > 0 \<and> sint (minor a) > sint (max_int64 - minor b)) \<or>
      (sint (minor b) < 0 \<and> sint (minor a) < sint (min_int64 - minor b)))
    \<longleftrightarrow> \<not> in_int64 (sint (minor a) + sint (minor b))"
    using up lo sint64_bounds [of "minor a"] by (auto simp: in_int64_def)
  have valid: "currency_Valid (currency a)"
    using assms by (simp add: compatible_None)
  show ?thesis
    unfolding money_Add_def assms unless_err_simps guard using valid
    by (simp add: money_New_def)
qed

lemma money_Subtract_exact:
  assumes "compatible a b = None"
  shows "money_Subtract a b =
    (if in_int64 (sint (minor a) - sint (minor b))
     then Inr \<lparr>minor = minor a - minor b, currency = currency a\<rparr>
     else Inl (Sentinel money_ErrOverflow))"
proof -
  have up: "sint (max_int64 + minor b) = sint max_int64 + sint (minor b)" if "sint (minor b) < 0"
    using that sint64_bounds [of "minor b"] by (subst sint64_add) (simp_all add: in_int64_def)
  have lo: "sint (min_int64 + minor b) = sint min_int64 + sint (minor b)" if "0 < sint (minor b)"
    using that sint64_bounds [of "minor b"] by (subst sint64_add) (simp_all add: in_int64_def)
  have guard: "((sint (minor b) < 0 \<and> sint (minor a) > sint (max_int64 + minor b)) \<or>
      (sint (minor b) > 0 \<and> sint (minor a) < sint (min_int64 + minor b)))
    \<longleftrightarrow> \<not> in_int64 (sint (minor a) - sint (minor b))"
    using up lo sint64_bounds [of "minor a"] by (auto simp: in_int64_def)
  have valid: "currency_Valid (currency a)"
    using assms by (simp add: compatible_None)
  show ?thesis
    unfolding money_Subtract_def assms unless_err_simps guard using valid
    by (simp add: money_New_def)
qed

lemma money_Negate_exact:
  assumes "currency_Valid (currency a)"
  shows "money_Negate a =
    (if in_int64 (- sint (minor a))
     then Inr \<lparr>minor = - minor a, currency = currency a\<rparr>
     else Inl (Sentinel money_ErrOverflow))"
proof -
  have "minor a = min_int64 \<longleftrightarrow> \<not> in_int64 (- sint (minor a))"
    using sint64_bounds [of "minor a"] sint64_eq_iff [of "minor a" min_int64]
    by (auto simp: in_int64_def)
  then show ?thesis using assms
    by (simp add: money_Negate_def money_New_def money_Validate_def)
qed

lemma money_Add_Inr:
  assumes "money_Add a b = Inr r"
  shows "compatible a b = None" "currency r = currency a"
    "sint (minor r) = sint (minor a) + sint (minor b)"
proof -
  from assms show c: "compatible a b = None"
    by (simp add: money_Add_def unless_err_eq_Inr)
  from assms show "currency r = currency a" "sint (minor r) = sint (minor a) + sint (minor b)"
    by (auto simp: money_Add_exact [OF c] sint64_add split: if_splits)
qed

lemma money_Subtract_Inr:
  assumes "money_Subtract a b = Inr r"
  shows "compatible a b = None" "currency r = currency a"
    "sint (minor r) = sint (minor a) - sint (minor b)"
proof -
  from assms show c: "compatible a b = None"
    by (simp add: money_Subtract_def unless_err_eq_Inr)
  from assms show "currency r = currency a" "sint (minor r) = sint (minor a) - sint (minor b)"
    by (auto simp: money_Subtract_exact [OF c] sint64_diff split: if_splits)
qed

lemma money_Compare_Inr:
  "money_Compare a b = Inr n \<Longrightarrow>
     compatible a b = None \<and> n = sgn (sint (minor a) - sint (minor b))"
  by (auto simp: money_Compare_def unless_err_eq_Inr split: if_splits)

lemma money_Compare_compatible:
  "compatible a b = None \<Longrightarrow> money_Compare a b = Inr (sgn (sint (minor a) - sint (minor b)))"
  by (auto simp: money_Compare_def)

section \<open>Printing and parsing\<close>

lemma split_dot_no_dot: "CHR ''.'' \<notin> set s \<Longrightarrow> split_dot s = [s]"
  by (induction s) auto

lemma split_dot_append: "CHR ''.'' \<notin> set p \<Longrightarrow> split_dot (p @ CHR ''.'' # q) = p # split_dot q"
  by (induction p) auto

lemma split_dot_nonempty [simp]: "split_dot s \<noteq> []"
  by (induction s) (auto split: list.splits)

lemma split_dot_single: "split_dot s = [p] \<Longrightarrow> s = p"
  by (induction s arbitrary: p) (auto split: if_splits list.splits)

lemma split_dot_pair: "split_dot s = [p, q] \<Longrightarrow> s = p @ CHR ''.'' # q"
proof (induction s arbitrary: p)
  case (Cons c s)
  then show ?case
    by (auto split: if_splits list.splits dest: split_dot_single)
qed simp

lemma allDigits_list_all: "allDigits s \<longleftrightarrow> list_all is_digit s"
  by (auto simp: allDigits_def list_all_iff is_digit_def)

lemma is_digit_simps [simp]:
  "\<not> is_digit CHR ''.''" "\<not> is_digit CHR ''-''" "\<not> is_digit CHR ''+''" "is_digit CHR ''0''"
  by (simp_all add: is_digit_def)

lemma list_all_dropWhile: "list_all P s \<Longrightarrow> list_all P (dropWhile Q s)"
  by (auto simp: list_all_iff dest: set_dropWhileD)

lemma is_digit_graphic: "is_digit c \<Longrightarrow> is_ascii_graphic c"
  by (simp add: is_digit_def is_ascii_graphic_def)

lemma dec_val_zero: "dec_val ''0'' = 0"
  by (simp add: dec_val_def digit_val_def)

lemma dec_val_dropWhile_zero: "dec_val (dropWhile (\<lambda>c. c = CHR ''0'') s) = dec_val s"
proof (induction s)
  case (Cons c s)
  then show ?case
    using dec_val_append [of "''0''" s] by (auto simp: dec_val_def digit_val_def)
qed simp

text \<open>The accepted texts: an optional minus sign, integer digits, a point and two digits.\<close>

definition amount_text :: "bool \<Rightarrow> string \<Rightarrow> string \<Rightarrow> string" where
  "amount_text neg whole cents = (if neg then ''-'' else []) @ whole @ CHR ''.'' # cents"

definition amount_value :: "bool \<Rightarrow> string \<Rightarrow> string \<Rightarrow> int" where
  "amount_value neg whole cents =
     (let v = 100 * int (dec_val whole) + int (dec_val cents) in if neg then - v else v)"

definition amount_parts :: "string \<Rightarrow> string \<Rightarrow> bool" where
  "amount_parts whole cents \<longleftrightarrow>
     whole \<noteq> [] \<and> list_all is_digit whole \<and> length cents = 2 \<and> list_all is_digit cents"

lemma parse_int64_digits:
  assumes "ds \<noteq> []" "list_all is_digit ds"
  shows "parse_int64 ((if neg then ''-'' else []) @ ds) =
    (let v = (if neg then - int (dec_val ds) else int (dec_val ds))
     in if in_int64 v then Inr (word_of_int v) else Inl ErrRange)"
proof -
  have "hd ds \<noteq> CHR ''-'' \<and> hd ds \<noteq> CHR ''+''"
    using assms by (cases ds) auto
  with assms show ?thesis by (auto simp: parse_int64_def Let_def)
qed

lemma trim_space_amount_text:
  assumes "amount_parts whole cents"
  shows "trim_space (amount_text neg whole cents) = amount_text neg whole cents"
proof (rule trim_space_graphic)
  obtain d ds where w: "whole = d # ds" "is_digit d"
    using assms by (cases whole) (auto simp: amount_parts_def)
  obtain c1 c2 where c: "cents = [c1, c2]" "is_digit c2"
    using assms by (auto simp: amount_parts_def length_Suc_conv numeral_2_eq_2)
  show "amount_text neg whole cents \<noteq> []"
    "is_ascii_graphic (hd (amount_text neg whole cents))"
    "is_ascii_graphic (last (amount_text neg whole cents))"
    using w c is_digit_graphic by (auto simp: amount_text_def is_ascii_graphic_def)
qed

lemma parseMinorUnits_amount_text:
  assumes "amount_parts whole cents"
  shows "parseMinorUnits (amount_text neg whole cents) =
    (let v = amount_value neg whole cents
     in if in_int64 v then Inr (word_of_int v) else Inl (Sentinel money_ErrOverflow))"
proof -
  let ?digits = "whole @ CHR ''.'' # cents"
  let ?trimmed = "dropWhile (\<lambda>c. c = CHR ''0'') (whole @ cents)"
  let ?unsigned = "if ?trimmed = [] then ''0'' else ?trimmed"
  have digits: "list_all is_digit whole" "list_all is_digit cents" "whole \<noteq> []" "length cents = 2"
    using assms by (simp_all add: amount_parts_def)
  have no_dot: "CHR ''.'' \<notin> set whole" "CHR ''.'' \<notin> set cents"
    using digits by (auto simp: list_all_iff)
  have parts: "split_dot ?digits = [whole, cents]"
    using no_dot by (simp add: split_dot_append split_dot_no_dot)
  have hd: "hd whole \<noteq> CHR ''-'' \<and> hd whole \<noteq> CHR ''+''"
    using digits by (cases whole) auto
  have sign: "prefix ''-'' (amount_text neg whole cents) = neg"
    "\<not> prefix ''+'' (amount_text neg whole cents)"
    using hd digits(3) by (auto simp: amount_text_def prefix_def neq_Nil_conv)
  have rest: "(if neg then drop 1 (amount_text neg whole cents) else amount_text neg whole cents) = ?digits"
    by (simp add: amount_text_def)
  have unsigned: "?unsigned \<noteq> []" "list_all is_digit ?unsigned"
    using digits by (auto simp: list_all_dropWhile)
  have "dec_val ?unsigned = dec_val (whole @ cents)"
  proof (cases "?trimmed = []")
    case True
    have "dec_val (whole @ cents) = 0"
      using dec_val_dropWhile_zero [of "whole @ cents", unfolded True] by (simp only: dec_val_Nil)
    then show ?thesis unfolding if_P [OF True] by (simp add: dec_val_zero)
  next
    case False
    show ?thesis unfolding if_not_P [OF False] by (rule dec_val_dropWhile_zero)
  qed
  also have "\<dots> = 100 * dec_val whole + dec_val cents"
    using digits(4) by (simp add: dec_val_append)
  finally have "int (dec_val ?unsigned) = 100 * int (dec_val whole) + int (dec_val cents)"
    by simp
  then have int64: "parse_int64 ((if neg then ''-'' else []) @ ?unsigned) =
    (let v = amount_value neg whole cents in if in_int64 v then Inr (word_of_int v) else Inl ErrRange)"
    using unsigned by (subst parse_int64_digits) (simp_all add: amount_value_def Let_def)
  have combined: "(if neg then ''-'' @ ?unsigned else ?unsigned) = (if neg then ''-'' else []) @ ?unsigned"
    by simp
  have g1: "\<not> (amount_text neg whole cents = [] \<or>
      trim_space (amount_text neg whole cents) \<noteq> amount_text neg whole cents \<or>
      prefix ''+'' (amount_text neg whole cents))"
    using sign(2) trim_space_amount_text [OF assms, of neg] by (simp add: amount_text_def)
  have g2: "\<not> (length [whole, cents] \<noteq> 2 \<or> whole = [] \<or> length cents \<noteq> 2 \<or>
      \<not> allDigits whole \<or> \<not> allDigits cents)"
    using digits by (simp add: allDigits_list_all)
  have nth: "[whole, cents] ! 0 = whole" "[whole, cents] ! 1 = cents"
    by simp_all
  show ?thesis
    unfolding parseMinorUnits_def if_not_P [OF g1] Let_def sign(1) rest parts nth
      if_not_P [OF g2] combined int64
    by (cases "in_int64 (amount_value neg whole cents)") simp_all
qed

lemma parseMinorUnits_accepts:
  assumes "parseMinorUnits raw = Inr n"
  obtains neg whole cents where "raw = amount_text neg whole cents" "amount_parts whole cents"
    "neg \<longleftrightarrow> prefix ''-'' raw"
proof -
  let ?neg = "prefix ''-'' raw"
  let ?digits = "if ?neg then drop 1 raw else raw"
  let ?parts = "split_dot ?digits"
  have len: "length ?parts = 2" and whole: "?parts ! 0 \<noteq> []" and cents: "length (?parts ! 1) = 2"
    and digits: "allDigits (?parts ! 0)" "allDigits (?parts ! 1)"
    using assms by (auto simp: parseMinorUnits_def Let_def split: if_splits)
  then have "?parts = [?parts ! 0, ?parts ! 1]"
    by (auto simp: length_Suc_conv numeral_2_eq_2)
  then have split: "?digits = ?parts ! 0 @ CHR ''.'' # ?parts ! 1"
    by (rule split_dot_pair)
  have "raw = (if ?neg then ''-'' else []) @ ?digits"
    by (auto simp: prefix_def)
  with split have "raw = amount_text ?neg (?parts ! 0) (?parts ! 1)"
    by (simp add: amount_text_def)
  moreover have "amount_parts (?parts ! 0) (?parts ! 1)"
    using whole cents digits by (simp add: amount_parts_def allDigits_list_all)
  ultimately show thesis using that by blast
qed

lemma ParseNonNegative_Inr:
  assumes "ParseNonNegative s c = Inr m"
  shows "0 \<le> sint (minor m)" "currency_Valid (currency m)" "code (currency m) = c"
proof -
  from assms have np: "\<not> prefix ''-'' s" and parse: "money_Parse s c = Inr m"
    by (auto simp: ParseNonNegative_def and_then_eq_Inr split: if_splits)
  from parse obtain n cur where n: "parseMinorUnits s = Inr n" and cur: "ParseCurrency c = Inr cur"
    and new: "money_New n cur = Inr m"
    by (auto simp: money_Parse_def and_then_eq_Inr)
  from new show "currency_Valid (currency m)" by auto
  from new cur show "code (currency m) = c" by (auto simp: ParseCurrency_eq_Inr)
  from n obtain neg whole cents where s: "s = amount_text neg whole cents"
    and p: "amount_parts whole cents" and neg: "neg \<longleftrightarrow> prefix ''-'' s"
    by (rule parseMinorUnits_accepts)
  have "sint n = amount_value neg whole cents"
    using n parseMinorUnits_amount_text [OF p, of neg]
    by (auto simp: s Let_def sint_word_of_int64 split: if_splits)
  with new neg np show "0 \<le> sint (minor m)" by (auto simp: amount_value_def Let_def)
qed

subsection \<open>The magnitude that is printed\<close>

lemma uint_sint_nonneg: "0 \<le> sint (x :: int64) \<Longrightarrow> uint x = sint x"
  using sint64_bounds [of x] uint_sint [of x] by (simp add: take_bit_int_eq_self)

lemma money_magnitude_unat: "int (unat (money_magnitude m)) = \<bar>sint (minor m)\<bar>"
proof (cases "sint (minor m) < 0")
  case False
  then show ?thesis by (simp add: money_magnitude_def uint_sint_nonneg)
next
  case True
  have magnitude: "money_magnitude m = - minor m"
    using True by (simp add: money_magnitude_def)
  have "uint (- minor m) = (- uint (minor m)) mod 2 ^ 64"
    by (simp add: uint_word_ariths)
  also have "\<dots> = (- sint (minor m)) mod 2 ^ 64"
    by (simp add: uint_sint take_bit_eq_mod mod_minus_eq)
  also have "\<dots> = - sint (minor m)"
    using True sint64_bounds [of "minor m"] by (intro mod_pos_pos_trivial) simp_all
  finally show ?thesis using True magnitude by simp
qed

lemma pad2_props:
  assumes "r < 100"
  shows "length (pad2 r) = 2" "list_all is_digit (pad2 r)" "dec_val (pad2 r) = r"
proof -
  have "r div 10 < 10" using assms by simp
  then have two: "dec r = [digit_char (r div 10), digit_char (r mod 10)]" if "\<not> r < 10"
    using that dec.simps [of r] dec.simps [of "r div 10"] by simp
  have one: "dec r = [digit_char r]" if "r < 10"
    using that dec.simps [of r] by simp
  show "length (pad2 r) = 2" using one two by (simp add: pad2_def)
  show "list_all is_digit (pad2 r)"
    using dec_digits by (auto simp: pad2_def list_all_iff)
  show "dec_val (pad2 r) = r"
    using dec_val_append [of "''0''" "dec r"] by (simp add: pad2_def dec_val_zero)
qed

lemma money_String_amount_text:
  assumes "currency_Valid (currency m)"
  defines "g \<equiv> unat (money_magnitude m)"
  shows "money_String m = amount_text (sint (minor m) < 0) (dec (g div 100)) (pad2 (g mod 100))"
    and "amount_parts (dec (g div 100)) (pad2 (g mod 100))"
    and "amount_value (sint (minor m) < 0) (dec (g div 100)) (pad2 (g mod 100)) = sint (minor m)"
proof -
  have "g mod 100 < 100" by simp
  note pad = pad2_props [OF this]
  show "money_String m = amount_text (sint (minor m) < 0) (dec (g div 100)) (pad2 (g mod 100))"
    using assms by (simp add: money_String_def amount_text_def unat_div unat_mod)
  show "amount_parts (dec (g div 100)) (pad2 (g mod 100))"
    using pad dec_digits by (auto simp: amount_parts_def list_all_iff)
  have "100 * (g div 100) + g mod 100 = g" by simp
  then have "100 * int (g div 100) + int (g mod 100) = int g"
    by (metis of_nat_add of_nat_mult of_nat_numeral)
  then show "amount_value (sint (minor m) < 0) (dec (g div 100)) (pad2 (g mod 100)) = sint (minor m)"
    using pad money_magnitude_unat [of m] by (simp add: amount_value_def g_def Let_def)
qed

lemma parseMinorUnits_money_String:
  assumes "currency_Valid (currency m)"
  shows "parseMinorUnits (money_String m) = Inr (minor m)"
  using money_String_amount_text [OF assms] parseMinorUnits_amount_text
  by (simp add: Let_def)

section \<open>Properties\<close>

text \<open>
  Property C38. Addition and subtraction of two amounts of the same supported currency, and
  negation of an amount, are exact: the result carries the mathematical sum, difference or
  opposite when that fits an \<^verbatim>\<open>int64\<close>, and is \<^verbatim>\<open>ErrOverflow\<close> exactly when it does not;
  the overflow tests themselves never wrap around into a wrong answer.
\<close>

theorem money_arithmetic_exact:
  assumes "compatible a b = None"
  shows "(case money_Add a b of
            Inr r \<Rightarrow> sint (minor r) = sint (minor a) + sint (minor b) \<and> currency r = currency a
          | Inl e \<Rightarrow> e = Sentinel money_ErrOverflow \<and> \<not> in_int64 (sint (minor a) + sint (minor b))) \<and>
         (case money_Subtract a b of
            Inr r \<Rightarrow> sint (minor r) = sint (minor a) - sint (minor b) \<and> currency r = currency a
          | Inl e \<Rightarrow> e = Sentinel money_ErrOverflow \<and> \<not> in_int64 (sint (minor a) - sint (minor b))) \<and>
         (case money_Negate a of
            Inr r \<Rightarrow> sint (minor r) = - sint (minor a) \<and> currency r = currency a
          | Inl e \<Rightarrow> e = Sentinel money_ErrOverflow \<and> \<not> in_int64 (- sint (minor a)))"
proof -
  have "currency_Valid (currency a)" using assms by (simp add: compatible_None)
  then show ?thesis
    by (simp add: money_Add_exact [OF assms] money_Subtract_exact [OF assms] money_Negate_exact
        sint64_add sint64_diff sint64_minus)
qed

definition brl :: "int \<Rightarrow> money" where
  "brl n = \<lparr>minor = word_of_int n, currency = Currency ''BRL''\<rparr>"

lemma brl_valid [simp]: "currency_Valid (currency (brl n))"
  by (simp add: brl_def currency_Valid_def supportedCurrencies_def)

theorem money_arithmetic_exact_witness:
  "compatible (brl 9223372036854775807) (brl 1) = None \<and>
   money_Add (brl 9223372036854775807) (brl 1) = Inl (Sentinel money_ErrOverflow)"
proof -
  have c: "compatible (brl 9223372036854775807) (brl 1) = None"
    by (simp add: compatible_None brl_def currency_Valid_def supportedCurrencies_def)
  then show ?thesis
    using money_arithmetic_exact [OF c, THEN conjunct1]
      sint64_bounds(2) [of "minor (projr (money_Add (brl 9223372036854775807) (brl 1)))"]
    by (auto simp: brl_def split: sum.splits)
qed

text \<open>
  Property C40. Printing an amount and parsing the text back gives the same amount, for every
  \<^verbatim>\<open>int64\<close> value, the most negative included.
\<close>

theorem money_Parse_String:
  assumes "currency_Valid (currency m)"
  shows "money_Parse (money_String m) (code (currency m)) = Inr m"
  using assms by (simp add: money_Parse_def parseMinorUnits_money_String money_New_def)

theorem money_Parse_String_witness:
  "currency_Valid (currency (brl (- 9223372036854775808))) \<and>
   money_Parse (money_String (brl (- 9223372036854775808))) ''BRL'' = Inr (brl (- 9223372036854775808))"
proof -
  have v: "currency_Valid (currency (brl (- 9223372036854775808)))" by (rule brl_valid)
  have "code (currency (brl (- 9223372036854775808))) = ''BRL''" by (simp add: brl_def)
  with v money_Parse_String [OF v] show ?thesis by simp
qed

text \<open>
  The parser of external amounts accepts exactly the texts made of one or more
  digits, a point and two digits whose value in minor units fits an \<^verbatim>\<open>int64\<close>, for a supported
  currency, and returns that value; in particular no sign is accepted and no accepted amount is
  negative.
\<close>

theorem ParseNonNegative_accepts_iff:
  "ParseNonNegative s c = Inr m \<longleftrightarrow>
     c \<in> set supportedCurrencies \<and> currency m = Currency c \<and>
     (\<exists>whole cents. amount_parts whole cents \<and> s = whole @ CHR ''.'' # cents \<and>
        sint (minor m) = 100 * int (dec_val whole) + int (dec_val cents))"
proof
  assume parse: "ParseNonNegative s c = Inr m"
  then have np: "\<not> prefix ''-'' s" and "money_Parse s c = Inr m"
    by (auto simp: ParseNonNegative_def and_then_eq_Inr split: if_splits)
  then have n: "parseMinorUnits s = Inr (minor m)" and cur: "ParseCurrency c = Inr (currency m)"
    by (auto simp: money_Parse_def and_then_eq_Inr)
  from n obtain neg whole cents where s: "s = amount_text neg whole cents"
    and p: "amount_parts whole cents" and neg: "neg \<longleftrightarrow> prefix ''-'' s"
    by (rule parseMinorUnits_accepts)
  from s neg np have form: "s = amount_text False whole cents" by simp
  have "sint (minor m) = amount_value False whole cents"
    using n parseMinorUnits_amount_text [OF p, of False]
    by (auto simp: form Let_def sint_word_of_int64 dest: sym split: if_splits)
  with form p cur show "c \<in> set supportedCurrencies \<and> currency m = Currency c \<and>
     (\<exists>whole cents. amount_parts whole cents \<and> s = whole @ CHR ''.'' # cents \<and>
        sint (minor m) = 100 * int (dec_val whole) + int (dec_val cents))"
    by (auto simp: ParseCurrency_eq_Inr amount_text_def amount_value_def)
next
  assume "c \<in> set supportedCurrencies \<and> currency m = Currency c \<and>
     (\<exists>whole cents. amount_parts whole cents \<and> s = whole @ CHR ''.'' # cents \<and>
        sint (minor m) = 100 * int (dec_val whole) + int (dec_val cents))"
  then obtain whole cents where c: "c \<in> set supportedCurrencies" "currency m = Currency c"
    and p: "amount_parts whole cents" and s: "s = amount_text False whole cents"
    and v: "sint (minor m) = amount_value False whole cents"
    by (auto simp: amount_text_def amount_value_def)
  have "parseMinorUnits s = Inr (minor m)"
    using parseMinorUnits_amount_text [OF p, of False] by (simp add: s v [symmetric])
  moreover have "\<not> prefix ''-'' s"
    using p by (auto simp: s amount_text_def amount_parts_def neq_Nil_conv)
  ultimately show "ParseNonNegative s c = Inr m"
    using c by (simp add: ParseNonNegative_def money_Parse_def ParseCurrency_def money_New_def
        currency_Valid_def)
qed

end
