(* ===== verification/Ledger.thy ===== *)
theory Ledger
  imports Money
begin

text \<open>
  The package \<^verbatim>\<open>internal/domain/ledger\<close>: the entries of the append-only wallet ledger. A
  well-formed entry satisfies the balance equation; the constructor accepts exactly the
  well-formed ones.
\<close>

datatype direction = DirectionDebit | DirectionCredit | DirectionOther string

fun direction_Valid :: "direction \<Rightarrow> bool" where
  "direction_Valid d \<longleftrightarrow> d = DirectionDebit \<or> d = DirectionCredit"

declare direction_Valid.simps [simp del]

fun direction_string :: "direction \<Rightarrow> string" where
  "direction_string DirectionDebit = ''DEBIT''"
| "direction_string DirectionCredit = ''CREDIT''"
| "direction_string (DirectionOther s) = s"

record entry =
  e_id :: string
  e_walletID :: string
  e_transactionID :: string
  e_direction :: direction
  e_amount :: money
  e_balanceBefore :: money
  e_balanceAfter :: money
  e_walletVersion :: int64
  e_createdAt :: time

text \<open>
  \<^verbatim>\<open>ledger.Params\<close> has the fields of \<^verbatim>\<open>ledger.Entry\<close>; both are \<^typ>\<open>entry\<close>, and building an
  entry copies the parameters once they have passed every check.
\<close>

definition entry_expected :: "entry \<Rightarrow> money result" where
  "entry_expected p =
     (if e_direction p = DirectionCredit then money_Add (e_balanceBefore p) (e_amount p)
      else money_Subtract (e_balanceBefore p) (e_amount p))"

definition entry_build :: "entry \<Rightarrow> entry result" where
  "entry_build p =
     (if \<not> valid_id (e_id p) \<or> \<not> valid_id (e_walletID p) \<or> \<not> valid_id (e_transactionID p)
      then Inl (Sentinel ledger_ErrInvalidEntry)
      else if \<not> direction_Valid (e_direction p) then Inl (Sentinel ledger_ErrInvalidDirection)
      else if \<not> money_IsPositive (e_amount p) then
        unless_err (map_option (\<lambda>_. Sentinel ledger_ErrInvalidEntry) (money_Validate (e_amount p)))
          (Inl (Sentinel ledger_ErrInvalidEntry))
      else unless_err (map_option (\<lambda>_. Sentinel ledger_ErrInvalidEntry) (money_Validate (e_balanceBefore p)))
       (unless_err (map_option (\<lambda>_. Sentinel ledger_ErrInvalidEntry) (money_Validate (e_balanceAfter p)))
        (if money_IsNegative (e_balanceBefore p) \<or> money_IsNegative (e_balanceAfter p)
         then Inl (Sentinel ledger_ErrInvalidEntry)
         else if sint (e_walletVersion p) < 1 \<or> is_zero_time (e_createdAt p)
         then Inl (Sentinel ledger_ErrInvalidEntry)
         else (case entry_expected p of
             Inl e \<Rightarrow> Inl (Join (Sentinel ledger_ErrBalanceEquation) e)
           | Inr expected \<Rightarrow>
               if \<not> money_Equal expected (e_balanceAfter p)
               then Inl (Sentinel ledger_ErrBalanceEquation)
               else Inr p))))"

definition ledger_New :: "entry \<Rightarrow> entry result" where
  "ledger_New p = entry_build p"

definition ledger_Rehydrate :: "entry \<Rightarrow> entry result" where
  "ledger_Rehydrate p = entry_build p"

section \<open>Signed movement of an entry\<close>

text \<open>What an entry adds to the balance: its amount, negated for a debit.\<close>

definition entry_delta :: "entry \<Rightarrow> int" where
  "entry_delta e =
     (if e_direction e = DirectionCredit then sint (minor (e_amount e))
      else - sint (minor (e_amount e)))"

definition entry_wf :: "entry \<Rightarrow> bool" where
  "entry_wf e \<longleftrightarrow>
     valid_id (e_id e) \<and> valid_id (e_walletID e) \<and> valid_id (e_transactionID e) \<and>
     direction_Valid (e_direction e) \<and>
     currency_Valid (currency (e_amount e)) \<and>
     currency (e_balanceBefore e) = currency (e_amount e) \<and>
     currency (e_balanceAfter e) = currency (e_amount e) \<and>
     0 < sint (minor (e_amount e)) \<and>
     0 \<le> sint (minor (e_balanceBefore e)) \<and>
     0 \<le> sint (minor (e_balanceAfter e)) \<and>
     1 \<le> sint (e_walletVersion e) \<and> \<not> is_zero_time (e_createdAt e) \<and>
     sint (minor (e_balanceAfter e)) = sint (minor (e_balanceBefore e)) + entry_delta e"

lemma entry_expected_Inr:
  assumes "entry_expected p = Inr m"
  shows "compatible (e_balanceBefore p) (e_amount p) = None \<and>
    currency m = currency (e_balanceBefore p) \<and>
    sint (minor m) = sint (minor (e_balanceBefore p)) + entry_delta p"
proof (cases "e_direction p = DirectionCredit")
  case True
  with assms show ?thesis
    using money_Add_Inr by (simp add: entry_expected_def entry_delta_def)
next
  case False
  with assms show ?thesis
    using money_Subtract_Inr by (simp add: entry_expected_def entry_delta_def)
qed

lemma entry_expected_wf:
  assumes "entry_wf e"
  shows "entry_expected e = Inr (e_balanceAfter e)"
proof -
  let ?b = "minor (e_balanceBefore e)" and ?m = "minor (e_amount e)" and ?a = "minor (e_balanceAfter e)"
  have c: "compatible (e_balanceBefore e) (e_amount e) = None"
    and cur: "currency (e_balanceAfter e) = currency (e_balanceBefore e)"
    using assms by (simp_all add: entry_wf_def compatible_None)
  have eq: "sint ?a = sint ?b + entry_delta e"
    using assms unfolding entry_wf_def by blast
  have range: "in_int64 (sint ?b + entry_delta e)"
    unfolding eq [symmetric] by (rule in_int64_sint)
  have after: "\<lparr>minor = ?a, currency = currency (e_balanceBefore e)\<rparr> = e_balanceAfter e"
    using cur by simp
  show ?thesis
  proof (cases "e_direction e = DirectionCredit")
    case True
    then have d: "entry_delta e = sint ?m" by (simp add: entry_delta_def)
    have "?b + ?m = ?a"
      unfolding sint64_eq_iff eq using range d sint64_add [of ?b ?m] by simp
    then show ?thesis
      unfolding entry_expected_def if_P [OF True] money_Add_exact [OF c]
      using range d after by simp
  next
    case False
    then have d: "entry_delta e = - sint ?m" by (simp add: entry_delta_def)
    have "?b - ?m = ?a"
      unfolding sint64_eq_iff eq using range d sint64_diff [of ?b ?m] by simp
    then show ?thesis
      unfolding entry_expected_def if_not_P [OF False] money_Subtract_exact [OF c]
      using range d after by simp
  qed
qed

lemma entry_build_eq_Inr:
  "entry_build p = Inr e \<longleftrightarrow>
     valid_id (e_id p) \<and> valid_id (e_walletID p) \<and> valid_id (e_transactionID p) \<and>
     direction_Valid (e_direction p) \<and> money_IsPositive (e_amount p) \<and>
     currency_Valid (currency (e_balanceBefore p)) \<and> currency_Valid (currency (e_balanceAfter p)) \<and>
     \<not> money_IsNegative (e_balanceBefore p) \<and> \<not> money_IsNegative (e_balanceAfter p) \<and>
     1 \<le> sint (e_walletVersion p) \<and> \<not> is_zero_time (e_createdAt p) \<and>
     (\<exists>m. entry_expected p = Inr m \<and> money_Equal m (e_balanceAfter p)) \<and> e = p"
  unfolding entry_build_def
  by (cases "entry_expected p") (simp add: unless_err_eq_Inr, simp add: unless_err_eq_Inr not_less, blast)

lemma entry_build_wf:
  assumes "entry_build p = Inr e"
  shows "e = p \<and> entry_wf e"
proof -
  note inv = assms [unfolded entry_build_eq_Inr]
  from inv obtain m where m: "entry_expected p = Inr m" and eq: "money_Equal m (e_balanceAfter p)"
    by blast
  from eq have m': "e_balanceAfter p = m" by (simp add: money_Equal_iff)
  from entry_expected_Inr [OF m] have "compatible (e_balanceBefore p) (e_amount p) = None"
    "currency (e_balanceAfter p) = currency (e_balanceBefore p)"
    "sint (minor (e_balanceAfter p)) = sint (minor (e_balanceBefore p)) + entry_delta p"
    unfolding m' by blast+
  with inv show ?thesis
    unfolding entry_wf_def compatible_None money_IsPositive_def money_IsNegative_def not_less by simp
qed

lemma entry_build_of_wf:
  assumes "entry_wf e"
  shows "entry_build e = Inr e"
proof -
  have "currency_Valid (currency (e_balanceAfter e))"
    using assms by (simp add: entry_wf_def)
  then have "money_Equal (e_balanceAfter e) (e_balanceAfter e)"
    by (simp add: money_Equal_def)
  with assms show ?thesis
    unfolding entry_build_def entry_expected_wf [OF assms]
    by (simp add: entry_wf_def money_IsPositive_def money_IsNegative_def money_Validate_def)
qed

section \<open>Properties\<close>

text \<open>
  The ledger constructor accepts an entry exactly when it is well formed: identified,
  with a valid direction, a positive amount, non-negative balances of one supported currency, a
  positive wallet version, a set time stamp, and balances that differ by exactly the signed amount.
\<close>

theorem entry_build_iff: "entry_build p = Inr e \<longleftrightarrow> e = p \<and> entry_wf p"
  using entry_build_wf entry_build_of_wf by blast

end
