(* ===== verification/Wallet.thy ===== *)
theory Wallet
  imports Ledger
begin

text \<open>
  The package \<^verbatim>\<open>internal/domain/wallet\<close>: a wallet with its balance and optimistic version,
  and the two movements of it. The locale \<open>movement\<close> is the contract a movement offers to the
  code that books it in the ledger; \<^verbatim>\<open>Credit\<close> and \<^verbatim>\<open>Debit\<close> are its two instances.
\<close>

record wallet =
  w_id :: string
  w_playerID :: string
  w_balance :: money
  w_version :: int64
  w_createdAt :: time
  w_updatedAt :: time

text \<open>
  \<^verbatim>\<open>wallet.Rehydration\<close> has the fields of \<^verbatim>\<open>wallet.Wallet\<close>; both are \<^typ>\<open>wallet\<close>. A method on
  a \<^verbatim>\<open>*Wallet\<close> takes the value behind the pointer and returns the changed one with its
  results; the branches for a nil receiver have no counterpart, since no caller has one.
\<close>

definition wallet_build :: "wallet \<Rightarrow> wallet result" where
  "wallet_build state =
     (if \<not> valid_id (w_id state) \<or> \<not> valid_id (w_playerID state)
      then Inl (Sentinel wallet_ErrInvalidWallet)
      else unless_err (map_option (\<lambda>_. Sentinel wallet_ErrInvalidWallet) (money_Validate (w_balance state)))
       (if money_IsNegative (w_balance state) then Inl (Sentinel wallet_ErrInvalidWallet)
        else if sint (w_version state) < 1 then Inl (Sentinel wallet_ErrInvalidWallet)
        else if is_zero_time (w_createdAt state) \<or> is_zero_time (w_updatedAt state) \<or>
                w_updatedAt state < w_createdAt state
        then Inl (Sentinel wallet_ErrInvalidWallet)
        else Inr state))"

definition wallet_New :: "string \<Rightarrow> string \<Rightarrow> money \<Rightarrow> time \<Rightarrow> wallet result" where
  "wallet_New i playerID initialBalance now =
     wallet_build \<lparr>w_id = i, w_playerID = playerID, w_balance = initialBalance, w_version = 1,
       w_createdAt = now, w_updatedAt = now\<rparr>"

definition wallet_Rehydrate :: "wallet \<Rightarrow> wallet result" where
  "wallet_Rehydrate state = wallet_build state"

definition validateMovement :: "wallet \<Rightarrow> money \<Rightarrow> time \<Rightarrow> err option" where
  "validateMovement w amount now =
     (if \<not> money_IsPositive amount then
        (case money_Validate amount of Some e \<Rightarrow> Some e
         | None \<Rightarrow> Some (Sentinel wallet_ErrNonPositiveAmount))
      else if is_zero_time now \<or> now < w_updatedAt w then Some (Sentinel wallet_ErrInvalidWallet)
      else if w_version w = max_int64 then Some (Sentinel wallet_ErrVersionOverflow)
      else (case money_Compare (w_balance w) amount of Inl e \<Rightarrow> Some e | Inr _ \<Rightarrow> None))"

type_synonym movement_result = "((money \<times> money) \<times> wallet) result"

definition wallet_apply :: "wallet \<Rightarrow> money \<Rightarrow> time \<Rightarrow> movement_result" where
  "wallet_apply w res now =
     (let prior = w_balance w
      in Inr ((prior, res),
           w\<lparr>w_balance := res, w_version := w_version w + 1, w_updatedAt := now\<rparr>))"

definition wallet_Credit :: "wallet \<Rightarrow> money \<Rightarrow> time \<Rightarrow> movement_result" where
  "wallet_Credit w amount now =
     unless_err (validateMovement w amount now)
      (and_then (money_Add (w_balance w) amount) (\<lambda>res. wallet_apply w res now))"

definition wallet_Debit :: "wallet \<Rightarrow> money \<Rightarrow> time \<Rightarrow> movement_result" where
  "wallet_Debit w amount now =
     unless_err (validateMovement w amount now)
      (and_then (money_Compare (w_balance w) amount) (\<lambda>comparison.
       if comparison < 0 then Inl (Sentinel wallet_ErrInsufficientFunds)
       else and_then (money_Subtract (w_balance w) amount) (\<lambda>res. wallet_apply w res now)))"

section \<open>Well-formed wallets\<close>

definition wallet_wf :: "wallet \<Rightarrow> bool" where
  "wallet_wf w \<longleftrightarrow>
     valid_id (w_id w) \<and> valid_id (w_playerID w) \<and> currency_Valid (currency (w_balance w)) \<and>
     0 \<le> sint (minor (w_balance w)) \<and> 1 \<le> sint (w_version w) \<and>
     \<not> is_zero_time (w_createdAt w) \<and> \<not> is_zero_time (w_updatedAt w) \<and>
     w_createdAt w \<le> w_updatedAt w"

lemma wallet_build_eq_Inr: "wallet_build s = Inr w \<longleftrightarrow> w = s \<and> wallet_wf s"
  unfolding wallet_build_def wallet_wf_def money_IsNegative_def
  by (simp add: unless_err_eq_Inr not_less not_le) (auto simp: not_less not_le)

section \<open>What a movement does\<close>

lemma validateMovement_None:
  "validateMovement w amount now = None \<longleftrightarrow>
     0 < sint (minor amount) \<and> currency_Valid (currency amount) \<and>
     \<not> is_zero_time now \<and> w_updatedAt w \<le> now \<and> w_version w \<noteq> max_int64 \<and>
     currency (w_balance w) = currency amount"
proof (cases "currency_Valid (currency amount) \<and> 0 < sint (minor amount)")
  case True
  then have "money_IsPositive amount" by (simp add: money_IsPositive_def)
  moreover have "(case money_Compare (w_balance w) amount of Inl e \<Rightarrow> Some e | Inr _ \<Rightarrow> None) = None
      \<longleftrightarrow> compatible (w_balance w) amount = None"
    by (cases "compatible (w_balance w) amount") (auto simp: money_Compare_def)
  ultimately show ?thesis
    using True unfolding validateMovement_def compatible_None by (auto simp: not_less)
next
  case False
  then have "\<not> money_IsPositive amount" by (auto simp: money_IsPositive_def)
  then show ?thesis using False
    by (auto simp: validateMovement_def split: option.splits)
qed

lemma sint_version_Suc:
  assumes "v \<noteq> max_int64"
  shows "sint (v + 1 :: int64) = sint v + 1"
proof -
  have "sint v \<noteq> 9223372036854775807"
    using assms sint64_eq_iff [of v max_int64] by simp
  then have "in_int64 (sint v + sint (1 :: int64))"
    using sint64_bounds [of v] by (simp add: in_int64_def)
  then show ?thesis using sint64_add [of v 1] by simp
qed

lemma wallet_Credit_Inr:
  assumes "wallet_Credit w amount now = Inr ((prior, after), w')"
  shows "validateMovement w amount now = None" "prior = w_balance w" "currency after = currency prior"
    "sint (minor after) = sint (minor prior) + sint (minor amount)"
    "w' = w\<lparr>w_balance := after, w_version := w_version w + 1, w_updatedAt := now\<rparr>"
  using assms money_Add_Inr [of "w_balance w" amount after]
  by (auto simp: wallet_Credit_def unless_err_eq_Inr and_then_eq_Inr wallet_apply_def)

lemma wallet_Debit_Inr:
  assumes "wallet_Debit w amount now = Inr ((prior, after), w')"
  shows "validateMovement w amount now = None" "prior = w_balance w" "currency after = currency prior"
    "sint (minor after) = sint (minor prior) - sint (minor amount)"
    "sint (minor amount) \<le> sint (minor prior)"
    "w' = w\<lparr>w_balance := after, w_version := w_version w + 1, w_updatedAt := now\<rparr>"
proof -
  from assms obtain c where v: "validateMovement w amount now = None"
    and c: "money_Compare (w_balance w) amount = Inr c" "\<not> c < 0"
    and s: "money_Subtract (w_balance w) amount = Inr after" and r: "prior = w_balance w"
      "w' = w\<lparr>w_balance := after, w_version := w_version w + 1, w_updatedAt := now\<rparr>"
    by (auto simp: wallet_Debit_def unless_err_eq_Inr and_then_eq_Inr wallet_apply_def split: if_splits)
  from c have le: "sint (minor amount) \<le> sint (minor (w_balance w))"
    by (auto simp: money_Compare_def unless_err_eq_Inr split: if_splits)
  show "validateMovement w amount now = None" by (rule v)
  show "prior = w_balance w" by (rule r)
  show "currency after = currency prior" using s r by (simp add: money_Subtract_Inr)
  show "sint (minor after) = sint (minor prior) - sint (minor amount)"
    using s r by (simp add: money_Subtract_Inr)
  show "sint (minor amount) \<le> sint (minor prior)" using le r by simp
  show "w' = w\<lparr>w_balance := after, w_version := w_version w + 1, w_updatedAt := now\<rparr>" by (rule r)
qed

section \<open>The movement contract\<close>

text \<open>
  What the booking code relies on: a movement that succeeds is between two balances of one
  currency that differ by the signed amount, keeps the wallet well formed, and advances its
  version and time stamp.
\<close>

definition signed_amount :: "direction \<Rightarrow> money \<Rightarrow> int" where
  "signed_amount d m = (if d = DirectionCredit then sint (minor m) else - sint (minor m))"

locale movement =
  fixes move :: "wallet \<Rightarrow> money \<Rightarrow> time \<Rightarrow> movement_result"
    and direction :: direction
  assumes direction_valid: "direction_Valid direction"
    and move_guard: "move w amount now = Inr ((prior, after), w') \<Longrightarrow> validateMovement w amount now = None"
    and move_before: "move w amount now = Inr ((prior, after), w') \<Longrightarrow> prior = w_balance w"
    and move_currency: "move w amount now = Inr ((prior, after), w') \<Longrightarrow> currency after = currency (w_balance w)"
    and move_exact: "move w amount now = Inr ((prior, after), w') \<Longrightarrow>
      sint (minor after) = sint (minor (w_balance w)) + signed_amount direction amount"
    and move_nonneg: "move w amount now = Inr ((prior, after), w') \<Longrightarrow>
      0 \<le> sint (minor (w_balance w)) \<Longrightarrow> 0 \<le> sint (minor after)"
    and move_wallet: "move w amount now = Inr ((prior, after), w') \<Longrightarrow>
      w' = w\<lparr>w_balance := after, w_version := w_version w + 1, w_updatedAt := now\<rparr>"
begin

lemma move_wf:
  assumes "move w amount now = Inr ((prior, after), w')" and "wallet_wf w"
  shows "wallet_wf w'"
proof -
  note guard = move_guard [OF assms(1), unfolded validateMovement_None]
  have "sint (w_version w + 1) = sint (w_version w) + 1"
    by (rule sint_version_Suc) (use guard in blast)
  moreover have "0 \<le> sint (minor after)"
    using move_nonneg [OF assms(1)] assms(2) by (simp add: wallet_wf_def)
  ultimately show ?thesis
    using assms(2) guard move_wallet [OF assms(1)] move_currency [OF assms(1)]
    by (simp add: wallet_wf_def)
qed

lemma move_version:
  assumes "move w amount now = Inr ((prior, after), w')"
  shows "sint (w_version w') = sint (w_version w) + 1"
  using move_guard [OF assms, unfolded validateMovement_None] move_wallet [OF assms]
  by (simp add: sint_version_Suc)

text \<open>The ledger accepts the entry that books a movement, under any valid identifiers.\<close>

definition booking :: "string \<Rightarrow> string \<Rightarrow> wallet \<Rightarrow> money \<Rightarrow> money \<Rightarrow> money \<Rightarrow> time \<Rightarrow> entry" where
  "booking eid tid w' amount prior after now =
     \<lparr>e_id = eid, e_walletID = w_id w', e_transactionID = tid, e_direction = direction, e_amount = amount,
      e_balanceBefore = prior, e_balanceAfter = after, e_walletVersion = w_version w', e_createdAt = now\<rparr>"

lemma booking_accepted:
  assumes "move w amount now = Inr ((prior, after), w')" and "wallet_wf w"
    and "valid_id eid" "valid_id tid"
  shows "ledger_New (booking eid tid w' amount prior after now)
    = Inr (booking eid tid w' amount prior after now)"
proof -
  note guard = move_guard [OF assms(1), unfolded validateMovement_None]
  have "wallet_wf w'" by (rule move_wf [OF assms(1,2)])
  moreover have "entry_delta (booking eid tid w' amount prior after now) = signed_amount direction amount"
    by (simp add: booking_def entry_delta_def signed_amount_def)
  ultimately have "entry_wf (booking eid tid w' amount prior after now)"
    using assms guard move_before [OF assms(1)] move_currency [OF assms(1)] move_exact [OF assms(1)]
      move_wallet [OF assms(1)] direction_valid
    by (simp add: entry_wf_def booking_def wallet_wf_def)
  then show ?thesis by (simp add: ledger_New_def entry_build_of_wf)
qed

end

interpretation credit: movement wallet_Credit DirectionCredit
proof unfold_locales
  fix w amount now prior after w'
  assume run: "wallet_Credit w amount now = Inr ((prior, after), w')"
  note facts = wallet_Credit_Inr [OF run]
  show "validateMovement w amount now = None" by (rule facts)
  show "prior = w_balance w" by (rule facts)
  show "currency after = currency (w_balance w)" using facts by simp
  show "sint (minor after) = sint (minor (w_balance w)) + signed_amount DirectionCredit amount"
    using facts by (simp add: signed_amount_def)
  show "w' = w\<lparr>w_balance := after, w_version := w_version w + 1, w_updatedAt := now\<rparr>" by (rule facts)
  show "0 \<le> sint (minor after)" if "0 \<le> sint (minor (w_balance w))"
    using that facts by (simp add: validateMovement_None)
qed (simp add: direction_Valid.simps)

interpretation debit: movement wallet_Debit DirectionDebit
proof unfold_locales
  fix w amount now prior after w'
  assume run: "wallet_Debit w amount now = Inr ((prior, after), w')"
  note facts = wallet_Debit_Inr [OF run]
  show "validateMovement w amount now = None" by (rule facts)
  show "prior = w_balance w" by (rule facts)
  show "currency after = currency (w_balance w)" using facts by simp
  show "sint (minor after) = sint (minor (w_balance w)) + signed_amount DirectionDebit amount"
    using facts by (simp add: signed_amount_def)
  show "w' = w\<lparr>w_balance := after, w_version := w_version w + 1, w_updatedAt := now\<rparr>" by (rule facts)
  show "0 \<le> sint (minor after)" if "0 \<le> sint (minor (w_balance w))"
    using facts by simp
qed (simp add: direction_Valid.simps)

section \<open>Properties\<close>

lemma wallet_Debit_outcome:
  assumes "wallet_wf w" and "validateMovement w amount now = None"
  shows "wallet_Debit w amount now =
    (if sint (minor (w_balance w)) < sint (minor amount) then Inl (Sentinel wallet_ErrInsufficientFunds)
     else Inr ((w_balance w, \<lparr>minor = minor (w_balance w) - minor amount, currency = currency (w_balance w)\<rparr>),
       w\<lparr>w_balance := \<lparr>minor = minor (w_balance w) - minor amount, currency = currency (w_balance w)\<rparr>,
         w_version := w_version w + 1, w_updatedAt := now\<rparr>))"
proof -
  note guard = assms(2) [unfolded validateMovement_None]
  have c: "compatible (w_balance w) amount = None"
    using guard by (simp add: compatible_None)
  have "in_int64 (sint (minor (w_balance w)) - sint (minor amount))"
    using assms(1) guard sint64_bounds [of "minor (w_balance w)"] sint64_bounds [of "minor amount"]
    by (simp add: in_int64_def wallet_wf_def)
  then have "money_Subtract (w_balance w) amount =
      Inr \<lparr>minor = minor (w_balance w) - minor amount, currency = currency (w_balance w)\<rparr>"
    unfolding money_Subtract_exact [OF c] by (rule if_P)
  then show ?thesis
    unfolding wallet_Debit_def assms(2) by (simp add: money_Compare_def c wallet_apply_def)
qed

text \<open>
  Property C39. A debit of a well-formed wallet whose request passes the common checks succeeds
  exactly when the balance covers the amount; it then moves exactly the amount, leaves a
  non-negative balance of the same currency and advances the version by one. Otherwise the error
  is \<^verbatim>\<open>ErrInsufficientFunds\<close>: no overflow error is possible on this path.
\<close>

theorem wallet_Debit_total:
  assumes "wallet_wf w" and "validateMovement w amount now = None"
  shows "case wallet_Debit w amount now of
      Inl e \<Rightarrow> e = Sentinel wallet_ErrInsufficientFunds \<and> sint (minor (w_balance w)) < sint (minor amount)
    | Inr ((prior, after), w') \<Rightarrow>
        prior = w_balance w \<and> after = w_balance w' \<and> wallet_wf w' \<and>
        sint (minor after) = sint (minor prior) - sint (minor amount) \<and> 0 \<le> sint (minor after) \<and>
        currency after = currency prior \<and> sint (w_version w') = sint (w_version w) + 1 \<and> w_updatedAt w' = now"
proof (cases "wallet_Debit w amount now")
  case (Inl e)
  then show ?thesis by (simp add: wallet_Debit_outcome [OF assms] split: if_splits)
next
  case (Inr r)
  obtain prior after w' where r: "r = ((prior, after), w')" by (metis surj_pair)
  note run = Inr [unfolded r]
  show ?thesis
    using debit.move_wf [OF run assms(1)] debit.move_version [OF run] wallet_Debit_Inr [OF run]
    by (simp add: Inr r)
qed

definition example_wallet :: wallet where
  "example_wallet = \<lparr>w_id = ''w1'', w_playerID = ''p1'', w_balance = brl 10000, w_version = 3,
     w_createdAt = 5, w_updatedAt = 9\<rparr>"

lemma example_wallet_wf: "wallet_wf example_wallet"
  by (simp add: example_wallet_def wallet_wf_def valid_id_graphic is_ascii_graphic_def brl_def
      currency_Valid_def supportedCurrencies_def is_zero_time_def)

theorem wallet_Debit_total_witness:
  "wallet_wf example_wallet \<and> validateMovement example_wallet (brl 10001) 10 = None \<and>
   wallet_Debit example_wallet (brl 10001) 10 = Inl (Sentinel wallet_ErrInsufficientFunds)"
proof -
  have g: "validateMovement example_wallet (brl 10001) 10 = None"
    by (simp add: validateMovement_None example_wallet_def brl_def currency_Valid_def
        supportedCurrencies_def is_zero_time_def)
  show ?thesis
    using wallet_Debit_total [OF example_wallet_wf g] example_wallet_wf g
    by (auto simp: example_wallet_def brl_def split: sum.splits)
qed

text \<open>
  Every movement that succeeds on a well-formed wallet can be booked: the ledger
  constructor accepts the entry made of the balances the movement returned and the new wallet
  version, for a credit and for a debit.
\<close>

theorem movements_are_bookable:
  assumes "wallet_wf w" "valid_id eid" "valid_id tid"
    and "d = DirectionCredit \<and> wallet_Credit w amount now = Inr ((prior, after), w') \<or>
         d = DirectionDebit \<and> wallet_Debit w amount now = Inr ((prior, after), w')"
  shows "\<exists>e. ledger_New \<lparr>e_id = eid, e_walletID = w_id w', e_transactionID = tid, e_direction = d,
      e_amount = amount, e_balanceBefore = prior, e_balanceAfter = after,
      e_walletVersion = w_version w', e_createdAt = now\<rparr> = Inr e \<and>
    entry_delta e = sint (minor (w_balance w')) - sint (minor (w_balance w))"
proof (cases "d = DirectionCredit")
  case True
  with assms(4) have run: "wallet_Credit w amount now = Inr ((prior, after), w')" by auto
  show ?thesis
    using credit.booking_accepted [OF run assms(1-3)] wallet_Credit_Inr [OF run] True
    by (simp add: credit.booking_def entry_delta_def)
next
  case False
  with assms(4) have run: "wallet_Debit w amount now = Inr ((prior, after), w')" and "d = DirectionDebit"
    by auto
  then show ?thesis
    using debit.booking_accepted [OF run assms(1-3)] wallet_Debit_Inr [OF run]
    by (simp add: debit.booking_def entry_delta_def)
qed

theorem movements_are_bookable_witness:
  "\<exists>e. ledger_New \<lparr>e_id = ''e1'', e_walletID = ''w1'', e_transactionID = ''t1'', e_direction = DirectionDebit,
      e_amount = brl 2500, e_balanceBefore = brl 10000, e_balanceAfter = brl 7500,
      e_walletVersion = 4, e_createdAt = 10\<rparr> = Inr e \<and> entry_delta e = - 2500"
proof -
  have g: "validateMovement example_wallet (brl 2500) 10 = None"
    by (simp add: validateMovement_None example_wallet_def brl_def currency_Valid_def
        supportedCurrencies_def is_zero_time_def)
  have run: "wallet_Debit example_wallet (brl 2500) 10 = Inr ((brl 10000, brl 7500),
      example_wallet\<lparr>w_balance := brl 7500, w_version := 4, w_updatedAt := 10\<rparr>)"
    unfolding wallet_Debit_outcome [OF example_wallet_wf g]
    by (simp add: example_wallet_def brl_def)
  have ids: "valid_id ''e1''" "valid_id ''t1''"
    by (simp_all add: valid_id_graphic is_ascii_graphic_def)
  show ?thesis
    using movements_are_bookable [OF example_wallet_wf ids, of DirectionDebit "brl 2500" 10] run
    by (simp add: example_wallet_def brl_def)
qed

end
