(* ===== verification/Wagering.thy ===== *)
theory Wagering
  imports Ledger
begin

text \<open>
  The package \<^verbatim>\<open>internal/domain/wagering\<close>: wager transactions, the checks their constructor
  makes, and the state machine of their status. The step relation \<open>transition\<close> collects the
  mutating methods; the properties are the invariants of the transactions reachable by it.
\<close>

section \<open>Types\<close>

text \<open>
  The string types of \<^verbatim>\<open>types.go\<close>: one constructor per declared constant and one for every
  other string, which a conversion from external text can produce.
\<close>

datatype origin = OriginInternal | OriginExternal | OriginOther string

definition origin_Valid :: "origin \<Rightarrow> bool" where
  "origin_Valid o' \<longleftrightarrow> o' = OriginInternal \<or> o' = OriginExternal"

datatype kind = KindOpening | KindBet | KindWin | KindLoss | KindRefund | KindRollback | KindOther string

fun kind_Valid :: "kind \<Rightarrow> bool" where
  "kind_Valid (KindOther _) \<longleftrightarrow> False"
| "kind_Valid _ \<longleftrightarrow> True"

datatype status = StatusPending | StatusPendingReference | StatusProcessed | StatusRejected
  | StatusFailed | StatusOther string

fun status_Valid :: "status \<Rightarrow> bool" where
  "status_Valid (StatusOther _) \<longleftrightarrow> False"
| "status_Valid _ \<longleftrightarrow> True"

definition status_Terminal :: "status \<Rightarrow> bool" where
  "status_Terminal s \<longleftrightarrow> s = StatusProcessed \<or> s = StatusRejected \<or> s = StatusFailed"

type_synonym failure_code = string

definition FailureBetInsufficientFunds :: failure_code where
  "FailureBetInsufficientFunds = ''BET_INSUFFICIENT_FUNDS''"
definition FailureReversalInsufficientFunds :: failure_code where
  "FailureReversalInsufficientFunds = ''REVERSAL_INSUFFICIENT_FUNDS''"
definition FailureReferenceNotFound :: failure_code where
  "FailureReferenceNotFound = ''REFERENCE_NOT_FOUND''"
definition FailureReferenceNotProcessed :: failure_code where
  "FailureReferenceNotProcessed = ''REFERENCE_NOT_PROCESSED''"
definition FailureReferenceMismatch :: failure_code where
  "FailureReferenceMismatch = ''REFERENCE_MISMATCH''"
definition FailureReferenceTypeNotAllowed :: failure_code where
  "FailureReferenceTypeNotAllowed = ''REFERENCE_TYPE_NOT_ALLOWED''"
definition FailureAlreadyReversed :: failure_code where
  "FailureAlreadyReversed = ''ALREADY_REVERSED''"
definition FailureCurrencyMismatch :: failure_code where
  "FailureCurrencyMismatch = ''CURRENCY_MISMATCH''"
definition FailureInvalidOperationAmount :: failure_code where
  "FailureInvalidOperationAmount = ''INVALID_OPERATION_AMOUNT''"
definition FailureWalletPlayerMismatch :: failure_code where
  "FailureWalletPlayerMismatch = ''WALLET_PLAYER_MISMATCH''"
definition FailureInvalidReference :: failure_code where
  "FailureInvalidReference = ''INVALID_REFERENCE''"
definition FailureMoneyOverflow :: failure_code where
  "FailureMoneyOverflow = ''MONEY_OVERFLOW''"
definition FailureInfrastructurePermanent :: failure_code where
  "FailureInfrastructurePermanent = ''INFRASTRUCTURE_PERMANENT_FAILURE''"

lemmas failure_code_defs =
  FailureBetInsufficientFunds_def FailureReversalInsufficientFunds_def FailureReferenceNotFound_def
  FailureReferenceNotProcessed_def FailureReferenceMismatch_def FailureReferenceTypeNotAllowed_def
  FailureAlreadyReversed_def FailureCurrencyMismatch_def FailureInvalidOperationAmount_def
  FailureWalletPlayerMismatch_def FailureInvalidReference_def FailureMoneyOverflow_def
  FailureInfrastructurePermanent_def

definition is_upper :: "char \<Rightarrow> bool" where
  "is_upper c \<longleftrightarrow> 65 \<le> (of_char c :: nat) \<and> (of_char c :: nat) \<le> 90"

definition failure_code_Valid :: "failure_code \<Rightarrow> bool" where
  "failure_code_Valid c \<longleftrightarrow>
     (if c = [] \<or> \<not> is_upper (hd c) then False
      else list_all (\<lambda>ch. is_upper ch \<or> is_digit ch \<or> ch = CHR ''_'') c)"

lemma failure_codes_Valid [simp]:
  "failure_code_Valid FailureBetInsufficientFunds" "failure_code_Valid FailureReversalInsufficientFunds"
  "failure_code_Valid FailureReferenceNotFound" "failure_code_Valid FailureReferenceNotProcessed"
  "failure_code_Valid FailureReferenceMismatch" "failure_code_Valid FailureReferenceTypeNotAllowed"
  "failure_code_Valid FailureAlreadyReversed" "failure_code_Valid FailureCurrencyMismatch"
  "failure_code_Valid FailureInvalidOperationAmount" "failure_code_Valid FailureWalletPlayerMismatch"
  "failure_code_Valid FailureInvalidReference" "failure_code_Valid FailureMoneyOverflow"
  "failure_code_Valid FailureInfrastructurePermanent"
  by (simp_all add: failure_code_Valid_def failure_code_defs is_upper_def is_digit_def)

lemma failure_code_Valid_nonempty: "failure_code_Valid c \<Longrightarrow> c \<noteq> []"
  by (auto simp: failure_code_Valid_def)

type_synonym payload_hash = "byte list"

definition zero_hash :: payload_hash where
  "zero_hash = replicate 32 0"

definition payload_hash_Valid :: "payload_hash \<Rightarrow> bool" where
  "payload_hash_Valid h \<longleftrightarrow> h \<noteq> zero_hash"

section \<open>Transactions\<close>

record transaction =
  t_id :: string
  t_origin :: origin
  t_providerID :: string
  t_externalTransactionID :: string
  t_idempotencyKey :: string
  t_payloadHash :: payload_hash
  t_walletID :: string
  t_playerID :: string
  t_roundID :: string
  t_gameID :: string
  t_kind :: kind
  t_amount :: money
  t_referenceExternalTransactionID :: string
  t_referenceTransactionID :: string
  t_status :: status
  t_failureCode :: failure_code
  t_resultBalance :: "money option"
  t_createdAt :: time
  t_updatedAt :: time

record external_params =
  xp_ID :: string
  xp_ProviderID :: string
  xp_ExternalTransactionID :: string
  xp_IdempotencyKey :: string
  xp_PayloadHash :: payload_hash
  xp_WalletID :: string
  xp_PlayerID :: string
  xp_RoundID :: string
  xp_GameID :: string
  xp_Kind :: kind
  xp_Amount :: money
  xp_ReferenceExternalTransactionID :: string

text \<open>
  \<^verbatim>\<open>wagering.Rehydration\<close> has the fields of \<^verbatim>\<open>wagering.Transaction\<close>; both are
  \<^typ>\<open>transaction\<close>. The three validators return the first failing check, as the code does.
\<close>

definition validateOrigin :: "transaction \<Rightarrow> err option" where
  "validateOrigin s =
     (if t_origin s = OriginInternal then
        (if t_kind s \<noteq> KindOpening \<or> t_status s \<noteq> StatusProcessed \<or> \<not> money_IsPositive (t_amount s)
         then Some (Sentinel wagering_ErrInvalidTransaction)
         else if t_providerID s \<noteq> [] \<or> t_externalTransactionID s \<noteq> [] \<or> t_idempotencyKey s \<noteq> [] \<or>
           payload_hash_Valid (t_payloadHash s) \<or> t_roundID s \<noteq> [] \<or> t_gameID s \<noteq> [] \<or>
           t_referenceExternalTransactionID s \<noteq> [] \<or> t_referenceTransactionID s \<noteq> []
         then Some (Sentinel wagering_ErrInvalidTransaction)
         else None)
      else if t_kind s = KindOpening then Some (Sentinel wagering_ErrInvalidKind)
      else if \<not> valid_id (t_providerID s) \<or> \<not> valid_id (t_externalTransactionID s) \<or>
        \<not> valid_id (t_idempotencyKey s) \<or> \<not> valid_id (t_roundID s) \<or> \<not> valid_id (t_gameID s) \<or>
        \<not> payload_hash_Valid (t_payloadHash s)
      then Some (Sentinel wagering_ErrInvalidTransaction)
      else None)"

fun kind_reference_error :: "kind \<Rightarrow> string \<Rightarrow> bool" where
  "kind_reference_error KindRefund reference \<longleftrightarrow> \<not> valid_id reference"
| "kind_reference_error KindRollback reference \<longleftrightarrow> \<not> valid_id reference"
| "kind_reference_error KindWin reference \<longleftrightarrow> reference \<noteq> [] \<and> \<not> valid_id reference"
| "kind_reference_error KindBet reference \<longleftrightarrow> reference \<noteq> []"
| "kind_reference_error KindLoss reference \<longleftrightarrow> reference \<noteq> []"
| "kind_reference_error KindOpening reference \<longleftrightarrow> reference \<noteq> []"
| "kind_reference_error (KindOther _) reference \<longleftrightarrow> False"

definition validateKindAndReference :: "transaction \<Rightarrow> err option" where
  "validateKindAndReference s =
     (let reference = t_referenceExternalTransactionID s
      in if t_kind s = KindLoss \<and> \<not> money_IsZero (t_amount s)
         then Some (Sentinel wagering_ErrInvalidTransaction)
         else if t_kind s \<noteq> KindLoss \<and> \<not> money_IsPositive (t_amount s)
         then Some (Sentinel wagering_ErrInvalidTransaction)
         else if kind_reference_error (t_kind s) reference
         then Some (Sentinel wagering_ErrInvalidReference)
         else if reference \<noteq> [] \<and> reference = t_externalTransactionID s
         then Some (Sentinel wagering_ErrInvalidReference)
         else if t_referenceTransactionID s \<noteq> [] \<and>
           (reference = [] \<or> \<not> valid_id (t_referenceTransactionID s))
         then Some (Sentinel wagering_ErrInvalidReference)
         else if t_status s = StatusPendingReference \<and> reference = []
         then Some (Sentinel wagering_ErrInvalidTransaction)
         else None)"

fun status_result_error :: "status \<Rightarrow> failure_code \<Rightarrow> money option \<Rightarrow> bool" where
  "status_result_error StatusPending fc rb \<longleftrightarrow> fc \<noteq> [] \<or> rb \<noteq> None"
| "status_result_error StatusPendingReference fc rb \<longleftrightarrow> fc \<noteq> [] \<or> rb \<noteq> None"
| "status_result_error StatusProcessed fc rb \<longleftrightarrow> fc \<noteq> [] \<or> rb = None"
| "status_result_error StatusRejected fc rb \<longleftrightarrow> \<not> failure_code_Valid fc \<or> rb = None"
| "status_result_error StatusFailed fc rb \<longleftrightarrow> \<not> failure_code_Valid fc \<or> rb \<noteq> None"
| "status_result_error (StatusOther _) fc rb \<longleftrightarrow> False"

definition validateResultBalance :: "transaction \<Rightarrow> money \<Rightarrow> err option" where
  "validateResultBalance s b =
     (if money_Validate b \<noteq> None \<or> money_IsNegative b then Some (Sentinel wagering_ErrInvalidTransaction)
      else if currency b \<noteq> currency (t_amount s) then Some (Sentinel money_ErrCurrencyMismatch)
      else if t_origin s = OriginInternal \<and> \<not> money_Equal b (t_amount s)
      then Some (Sentinel wagering_ErrInvalidTransaction)
      else None)"

definition validateResult :: "transaction \<Rightarrow> err option" where
  "validateResult s =
     (if status_result_error (t_status s) (t_failureCode s) (t_resultBalance s)
      then Some (Sentinel wagering_ErrInvalidTransaction)
      else (case (case t_resultBalance s of None \<Rightarrow> None | Some b \<Rightarrow> validateResultBalance s b) of
          Some e \<Rightarrow> Some e
        | None \<Rightarrow>
            if t_status s = StatusProcessed \<and> t_referenceExternalTransactionID s \<noteq> [] \<and>
              t_referenceTransactionID s = []
            then Some (Sentinel wagering_ErrInvalidReference)
            else None))"

definition transaction_build :: "transaction \<Rightarrow> transaction result" where
  "transaction_build s =
     (if \<not> valid_id (t_id s) \<or> \<not> valid_id (t_walletID s) \<or> \<not> valid_id (t_playerID s)
      then Inl (Sentinel wagering_ErrInvalidTransaction)
      else if \<not> origin_Valid (t_origin s) then Inl (Sentinel wagering_ErrInvalidTransaction)
      else if \<not> kind_Valid (t_kind s) then Inl (Sentinel wagering_ErrInvalidKind)
      else if \<not> status_Valid (t_status s) then Inl (Sentinel wagering_ErrInvalidStatus)
      else unless_err (map_option (\<lambda>_. Sentinel wagering_ErrInvalidTransaction) (money_Validate (t_amount s)))
       (if is_zero_time (t_createdAt s) \<or> is_zero_time (t_updatedAt s) \<or> t_updatedAt s < t_createdAt s
        then Inl (Sentinel wagering_ErrInvalidTransaction)
        else unless_err (validateOrigin s)
         (unless_err (validateKindAndReference s)
          (unless_err (validateResult s) (Inr s)))))"

definition NewExternal :: "external_params \<Rightarrow> time \<Rightarrow> transaction result" where
  "NewExternal params now =
     transaction_build
      \<lparr>t_id = xp_ID params, t_origin = OriginExternal, t_providerID = xp_ProviderID params,
       t_externalTransactionID = xp_ExternalTransactionID params,
       t_idempotencyKey = xp_IdempotencyKey params, t_payloadHash = xp_PayloadHash params,
       t_walletID = xp_WalletID params, t_playerID = xp_PlayerID params, t_roundID = xp_RoundID params,
       t_gameID = xp_GameID params, t_kind = xp_Kind params, t_amount = xp_Amount params,
       t_referenceExternalTransactionID = xp_ReferenceExternalTransactionID params,
       t_referenceTransactionID = [], t_status = StatusPending, t_failureCode = [],
       t_resultBalance = None, t_createdAt = now, t_updatedAt = now\<rparr>"

definition NewOpening :: "string \<Rightarrow> string \<Rightarrow> string \<Rightarrow> money \<Rightarrow> time \<Rightarrow> transaction result" where
  "NewOpening i walletID playerID amount now =
     transaction_build
      \<lparr>t_id = i, t_origin = OriginInternal, t_providerID = [], t_externalTransactionID = [],
       t_idempotencyKey = [], t_payloadHash = zero_hash, t_walletID = walletID, t_playerID = playerID,
       t_roundID = [], t_gameID = [], t_kind = KindOpening, t_amount = amount,
       t_referenceExternalTransactionID = [], t_referenceTransactionID = [],
       t_status = StatusProcessed, t_failureCode = [], t_resultBalance = Some amount,
       t_createdAt = now, t_updatedAt = now\<rparr>"

definition transaction_Rehydrate :: "transaction \<Rightarrow> transaction result" where
  "transaction_Rehydrate s = transaction_build s"

section \<open>Transitions\<close>

text \<open>
  The mutating methods return the changed transaction, or the error of the first failing guard;
  the branches for a nil receiver have no counterpart.
\<close>

definition validateTransitionTime :: "transaction \<Rightarrow> time \<Rightarrow> err option" where
  "validateTransitionTime t now =
     (if is_zero_time now \<or> now < t_updatedAt t then Some (Sentinel wagering_ErrInvalidTransaction)
      else None)"

definition prepareTerminal :: "transaction \<Rightarrow> money \<Rightarrow> time \<Rightarrow> err option" where
  "prepareTerminal t balance now =
     (if status_Terminal (t_status t) then Some (Sentinel wagering_ErrInvalidTransition)
      else (case validateTransitionTime t now of Some e \<Rightarrow> Some e | None \<Rightarrow>
        if money_Validate balance \<noteq> None \<or> money_IsNegative balance
        then Some (Sentinel wagering_ErrInvalidTransaction)
        else if currency balance \<noteq> currency (t_amount t) then Some (Sentinel money_ErrCurrencyMismatch)
        else None))"

definition MarkPendingReference :: "transaction \<Rightarrow> time \<Rightarrow> transaction result" where
  "MarkPendingReference t now =
     (if t_status t \<noteq> StatusPending \<or> t_referenceExternalTransactionID t = []
      then Inl (Sentinel wagering_ErrInvalidTransition)
      else unless_err (validateTransitionTime t now)
       (Inr (t\<lparr>t_status := StatusPendingReference, t_updatedAt := now\<rparr>)))"

definition ResolveReference :: "transaction \<Rightarrow> string \<Rightarrow> time \<Rightarrow> transaction result" where
  "ResolveReference t transactionID now =
     (if t_status t \<noteq> StatusPending \<and> t_status t \<noteq> StatusPendingReference
      then Inl (Sentinel wagering_ErrInvalidTransition)
      else if t_referenceExternalTransactionID t = [] \<or> \<not> valid_id transactionID
      then Inl (Sentinel wagering_ErrInvalidReference)
      else if t_referenceTransactionID t \<noteq> [] \<and> t_referenceTransactionID t \<noteq> transactionID
      then Inl (Sentinel wagering_ErrInvalidReference)
      else unless_err (validateTransitionTime t now)
       (Inr (t\<lparr>t_referenceTransactionID := transactionID, t_updatedAt := now\<rparr>)))"

definition MarkProcessed :: "transaction \<Rightarrow> money \<Rightarrow> time \<Rightarrow> transaction result" where
  "MarkProcessed t balance now =
     (if t_referenceExternalTransactionID t \<noteq> [] \<and> t_referenceTransactionID t = []
      then Inl (Sentinel wagering_ErrInvalidReference)
      else unless_err (prepareTerminal t balance now)
       (Inr (t\<lparr>t_status := StatusProcessed, t_failureCode := [], t_resultBalance := Some balance,
          t_updatedAt := now\<rparr>)))"

definition transaction_Reject :: "transaction \<Rightarrow> failure_code \<Rightarrow> money \<Rightarrow> time \<Rightarrow> transaction result" where
  "transaction_Reject t fc balance now =
     (if \<not> failure_code_Valid fc then Inl (Sentinel wagering_ErrInvalidFailureCode)
      else unless_err (prepareTerminal t balance now)
       (Inr (t\<lparr>t_status := StatusRejected, t_failureCode := fc, t_resultBalance := Some balance,
          t_updatedAt := now\<rparr>)))"

definition transaction_Fail :: "transaction \<Rightarrow> failure_code \<Rightarrow> time \<Rightarrow> transaction result" where
  "transaction_Fail t fc now =
     (if status_Terminal (t_status t) then Inl (Sentinel wagering_ErrInvalidTransition)
      else if \<not> failure_code_Valid fc \<or> fc \<noteq> FailureInfrastructurePermanent
      then Inl (Sentinel wagering_ErrInvalidFailureCode)
      else unless_err (validateTransitionTime t now)
       (Inr (t\<lparr>t_status := StatusFailed, t_failureCode := fc, t_resultBalance := None,
          t_updatedAt := now\<rparr>)))"

inductive transition :: "transaction \<Rightarrow> transaction \<Rightarrow> bool" where
  tr_pending: "MarkPendingReference t now = Inr t' \<Longrightarrow> transition t t'"
| tr_resolve: "ResolveReference t r now = Inr t' \<Longrightarrow> transition t t'"
| tr_processed: "MarkProcessed t b now = Inr t' \<Longrightarrow> transition t t'"
| tr_rejected: "transaction_Reject t fc b now = Inr t' \<Longrightarrow> transition t t'"
| tr_failed: "transaction_Fail t fc now = Inr t' \<Longrightarrow> transition t t'"

inductive_cases transitionE: "transition t t'"

section \<open>Well-formed transactions\<close>

definition transaction_wf :: "transaction \<Rightarrow> bool" where
  "transaction_wf t \<longleftrightarrow>
     valid_id (t_id t) \<and> valid_id (t_walletID t) \<and> valid_id (t_playerID t) \<and>
     origin_Valid (t_origin t) \<and> kind_Valid (t_kind t) \<and> status_Valid (t_status t) \<and>
     currency_Valid (currency (t_amount t)) \<and>
     \<not> is_zero_time (t_createdAt t) \<and> \<not> is_zero_time (t_updatedAt t) \<and> t_createdAt t \<le> t_updatedAt t \<and>
     validateOrigin t = None \<and> validateKindAndReference t = None \<and> validateResult t = None"

lemma transaction_build_eq_Inr: "transaction_build s = Inr t \<longleftrightarrow> t = s \<and> transaction_wf s"
  unfolding transaction_build_def transaction_wf_def
  by (simp add: unless_err_eq_Inr not_less) (auto simp: not_less)

lemma transaction_wf_amount:
  assumes "transaction_wf t"
  shows "if t_kind t = KindLoss then minor (t_amount t) = 0 else 0 < sint (minor (t_amount t))"
  using assms
  by (auto simp: transaction_wf_def validateKindAndReference_def Let_def money_IsZero_def
      money_IsPositive_def split: if_splits)

lemma transaction_wf_external:
  assumes "transaction_wf t" "t_status t \<noteq> StatusProcessed"
  shows "t_origin t = OriginExternal"
  using assms by (auto simp: transaction_wf_def validateOrigin_def origin_Valid_def split: if_splits)

lemma validateTransitionTime_None:
  "validateTransitionTime t now = None \<longleftrightarrow> \<not> is_zero_time now \<and> t_updatedAt t \<le> now"
  by (simp add: validateTransitionTime_def not_less)

lemma prepareTerminal_None:
  "prepareTerminal t b now = None \<longleftrightarrow>
     \<not> status_Terminal (t_status t) \<and> \<not> is_zero_time now \<and> t_updatedAt t \<le> now \<and>
     currency_Valid (currency b) \<and> 0 \<le> sint (minor b) \<and> currency b = currency (t_amount t)"
  by (auto simp: prepareTerminal_def validateTransitionTime_def money_IsNegative_def not_less
      split: option.splits)

lemmas transition_op_defs =
  MarkPendingReference_def ResolveReference_def MarkProcessed_def transaction_Reject_def transaction_Fail_def

text \<open>The successful outcome of each mutating method, with its guards.\<close>

lemma MarkPendingReference_Inr:
  "MarkPendingReference t now = Inr t' \<longleftrightarrow>
     t_status t = StatusPending \<and> t_referenceExternalTransactionID t \<noteq> [] \<and>
     \<not> is_zero_time now \<and> t_updatedAt t \<le> now \<and>
     t' = t\<lparr>t_status := StatusPendingReference, t_updatedAt := now\<rparr>"
  by (auto simp: MarkPendingReference_def unless_err_eq_Inr validateTransitionTime_None)

lemma ResolveReference_Inr:
  "ResolveReference t r now = Inr t' \<longleftrightarrow>
     (t_status t = StatusPending \<or> t_status t = StatusPendingReference) \<and>
     t_referenceExternalTransactionID t \<noteq> [] \<and> valid_id r \<and>
     (t_referenceTransactionID t = [] \<or> t_referenceTransactionID t = r) \<and>
     \<not> is_zero_time now \<and> t_updatedAt t \<le> now \<and>
     t' = t\<lparr>t_referenceTransactionID := r, t_updatedAt := now\<rparr>"
  by (auto simp: ResolveReference_def unless_err_eq_Inr validateTransitionTime_None)

lemma MarkProcessed_Inr:
  "MarkProcessed t b now = Inr t' \<longleftrightarrow>
     (t_referenceExternalTransactionID t = [] \<or> t_referenceTransactionID t \<noteq> []) \<and>
     prepareTerminal t b now = None \<and>
     t' = t\<lparr>t_status := StatusProcessed, t_failureCode := [], t_resultBalance := Some b, t_updatedAt := now\<rparr>"
  by (auto simp: MarkProcessed_def unless_err_eq_Inr)

lemma transaction_Reject_Inr:
  "transaction_Reject t fc b now = Inr t' \<longleftrightarrow>
     failure_code_Valid fc \<and> prepareTerminal t b now = None \<and>
     t' = t\<lparr>t_status := StatusRejected, t_failureCode := fc, t_resultBalance := Some b, t_updatedAt := now\<rparr>"
  by (auto simp: transaction_Reject_def unless_err_eq_Inr)

lemma transaction_Fail_Inr:
  "transaction_Fail t fc now = Inr t' \<longleftrightarrow>
     \<not> status_Terminal (t_status t) \<and> fc = FailureInfrastructurePermanent \<and>
     \<not> is_zero_time now \<and> t_updatedAt t \<le> now \<and>
     t' = t\<lparr>t_status := StatusFailed, t_failureCode := fc, t_resultBalance := None, t_updatedAt := now\<rparr>"
  by (auto simp: transaction_Fail_def unless_err_eq_Inr validateTransitionTime_None)

lemmas transition_Inr =
  MarkPendingReference_Inr ResolveReference_Inr MarkProcessed_Inr transaction_Reject_Inr transaction_Fail_Inr

section \<open>The state machine of a transaction\<close>

text \<open>What no transition changes.\<close>

definition same_request :: "transaction \<Rightarrow> transaction \<Rightarrow> bool" where
  "same_request t t' \<longleftrightarrow>
     t_id t' = t_id t \<and> t_origin t' = t_origin t \<and> t_providerID t' = t_providerID t \<and>
     t_externalTransactionID t' = t_externalTransactionID t \<and>
     t_idempotencyKey t' = t_idempotencyKey t \<and> t_payloadHash t' = t_payloadHash t \<and>
     t_walletID t' = t_walletID t \<and> t_playerID t' = t_playerID t \<and> t_roundID t' = t_roundID t \<and>
     t_gameID t' = t_gameID t \<and> t_kind t' = t_kind t \<and> t_amount t' = t_amount t \<and>
     t_referenceExternalTransactionID t' = t_referenceExternalTransactionID t \<and>
     t_createdAt t' = t_createdAt t"

lemma same_request_refl [simp]: "same_request t t"
  by (simp add: same_request_def)

lemma same_request_trans: "same_request t u \<Longrightarrow> same_request u v \<Longrightarrow> same_request t v"
  by (simp add: same_request_def)

lemma transition_same_request: "transition t t' \<Longrightarrow> same_request t t'"
  by (erule transitionE) (simp_all add: transition_Inr same_request_def)

lemma transition_time: "transition t t' \<Longrightarrow> t_updatedAt t \<le> t_updatedAt t' \<and> \<not> is_zero_time (t_updatedAt t')"
  by (erule transitionE) (simp_all add: transition_Inr prepareTerminal_None)

lemma transition_from_open: "transition t t' \<Longrightarrow> \<not> status_Terminal (t_status t)"
  by (erule transitionE) (auto simp: transition_Inr prepareTerminal_None status_Terminal_def)

lemma transition_reference:
  "transition t t' \<Longrightarrow> t_referenceTransactionID t' = t_referenceTransactionID t \<or>
     t_referenceTransactionID t = [] \<and> valid_id (t_referenceTransactionID t') \<and>
     t_referenceExternalTransactionID t \<noteq> []"
  by (erule transitionE) (auto simp: transition_Inr)

lemma validateOrigin_same:
  assumes "same_request t t'" "t_origin t = OriginExternal" "validateOrigin t = None"
  shows "validateOrigin t' = None"
proof -
  have "validateOrigin t' = validateOrigin t"
    using assms(1,2) by (simp add: same_request_def validateOrigin_def)
  with assms(3) show ?thesis by simp
qed

lemma validateKindAndReference_None:
  "validateKindAndReference s = None \<longleftrightarrow>
     (if t_kind s = KindLoss then money_IsZero (t_amount s) else money_IsPositive (t_amount s)) \<and>
     \<not> kind_reference_error (t_kind s) (t_referenceExternalTransactionID s) \<and>
     (t_referenceExternalTransactionID s = [] \<or>
        t_referenceExternalTransactionID s \<noteq> t_externalTransactionID s) \<and>
     (t_referenceTransactionID s = [] \<or>
        t_referenceExternalTransactionID s \<noteq> [] \<and> valid_id (t_referenceTransactionID s)) \<and>
     (t_status s \<noteq> StatusPendingReference \<or> t_referenceExternalTransactionID s \<noteq> [])"
  unfolding validateKindAndReference_def Let_def guard_None by auto

lemma validateKindAndReference_same:
  assumes "same_request t t'" "validateKindAndReference t = None"
    and "t_status t' = StatusPendingReference \<Longrightarrow> t_referenceExternalTransactionID t \<noteq> []"
    and "t_referenceTransactionID t' \<noteq> t_referenceTransactionID t \<Longrightarrow>
      t_referenceExternalTransactionID t \<noteq> [] \<and> valid_id (t_referenceTransactionID t')"
  shows "validateKindAndReference t' = None"
proof -
  have "t_kind t' = t_kind t" "t_amount t' = t_amount t"
    "t_referenceExternalTransactionID t' = t_referenceExternalTransactionID t"
    "t_externalTransactionID t' = t_externalTransactionID t"
    using assms(1) by (simp_all add: same_request_def)
  then show ?thesis
    using assms(2-) unfolding validateKindAndReference_None by metis
qed

lemma validateResult_None:
  "validateResult s = None \<longleftrightarrow>
     \<not> status_result_error (t_status s) (t_failureCode s) (t_resultBalance s) \<and>
     (\<forall>b. t_resultBalance s = Some b \<longrightarrow> validateResultBalance s b = None) \<and>
     (t_status s \<noteq> StatusProcessed \<or> t_referenceExternalTransactionID s = [] \<or>
        t_referenceTransactionID s \<noteq> [])"
  unfolding validateResult_def guard_None case_option_eq_None by auto

lemma validateResultBalance_external:
  "t_origin s \<noteq> OriginInternal \<Longrightarrow> validateResultBalance s b = None \<longleftrightarrow>
     currency_Valid (currency b) \<and> 0 \<le> sint (minor b) \<and> currency b = currency (t_amount s)"
  unfolding validateResultBalance_def guard_None money_IsNegative_def by auto

lemma validateResult_of_transition:
  assumes "transition t t'" "t_origin t = OriginExternal" "validateResult t = None"
  shows "validateResult t' = None \<and> status_Valid (t_status t')"
  using assms(1)
proof cases
  case (tr_pending now)
  then show ?thesis using assms(2,3)
    by (auto simp: transition_Inr validateResult_None)
next
  case (tr_resolve r now)
  then have "t_status t = StatusPending \<or> t_status t = StatusPendingReference" by (simp add: transition_Inr)
  with tr_resolve show ?thesis using assms(2,3) by (auto simp: transition_Inr validateResult_None)
next
  case (tr_processed b now)
  then show ?thesis using assms(2)
    by (auto simp: transition_Inr validateResult_None validateResultBalance_external prepareTerminal_None)
next
  case (tr_rejected fc b now)
  then show ?thesis using assms(2)
    by (auto simp: transition_Inr validateResult_None validateResultBalance_external prepareTerminal_None)
next
  case (tr_failed fc now)
  then show ?thesis using assms(2) by (simp add: transition_Inr validateResult_None)
qed

lemma transaction_wf_result:
  assumes "transaction_wf t"
  shows "\<not> status_result_error (t_status t) (t_failureCode t) (t_resultBalance t)"
    and "t_resultBalance t = Some b \<Longrightarrow>
      currency b = currency (t_amount t) \<and> 0 \<le> sint (minor b) \<and> currency_Valid (currency b)"
    and "t_status t = StatusProcessed \<Longrightarrow> t_referenceExternalTransactionID t \<noteq> [] \<Longrightarrow>
      t_referenceTransactionID t \<noteq> []"
proof -
  have v: "validateResult t = None" using assms by (simp add: transaction_wf_def)
  then show "\<not> status_result_error (t_status t) (t_failureCode t) (t_resultBalance t)"
    and "t_status t = StatusProcessed \<Longrightarrow> t_referenceExternalTransactionID t \<noteq> [] \<Longrightarrow>
      t_referenceTransactionID t \<noteq> []"
    by (auto simp: validateResult_None)
  show "currency b = currency (t_amount t) \<and> 0 \<le> sint (minor b) \<and> currency_Valid (currency b)"
    if "t_resultBalance t = Some b"
    using v that unfolding validateResult_None validateResultBalance_def guard_None money_IsNegative_def
    by auto
qed

lemma transition_pending_reference:
  assumes "transition t t'" "t_status t' = StatusPendingReference"
    and "t_status t = StatusPendingReference \<Longrightarrow> t_referenceExternalTransactionID t \<noteq> []"
  shows "t_referenceExternalTransactionID t \<noteq> []"
  using assms by (cases rule: transitionE) (auto simp: transition_Inr)

lemma transition_wf:
  assumes step: "transition t t'" and wf: "transaction_wf t"
  shows "transaction_wf t'"
proof -
  note same = transition_same_request [OF step]
  have "t_status t \<noteq> StatusProcessed"
    using transition_from_open [OF step] by (auto simp: status_Terminal_def)
  then have ext: "t_origin t = OriginExternal" by (rule transaction_wf_external [OF wf])
  have o: "validateOrigin t' = None"
    using validateOrigin_same [OF same ext] wf by (simp add: transaction_wf_def)
  have pr: "t_referenceExternalTransactionID t \<noteq> []" if "t_status t' = StatusPendingReference"
  proof (rule transition_pending_reference [OF step that])
    assume "t_status t = StatusPendingReference"
    with wf show "t_referenceExternalTransactionID t \<noteq> []"
      by (auto simp: transaction_wf_def validateKindAndReference_def Let_def split: if_splits)
  qed
  have k: "validateKindAndReference t' = None"
  proof (rule validateKindAndReference_same [OF same])
    show "validateKindAndReference t = None" using wf by (simp add: transaction_wf_def)
  qed (use pr transition_reference [OF step] in auto)
  have r: "validateResult t' = None \<and> status_Valid (t_status t')"
    using validateResult_of_transition [OF step ext] wf by (simp add: transaction_wf_def)
  show ?thesis
    using wf same transition_time [OF step] o k r
    unfolding transaction_wf_def same_request_def by (metis order_trans)
qed

lemma transitions_wf: "transition\<^sup>*\<^sup>* t t' \<Longrightarrow> transaction_wf t \<Longrightarrow> transaction_wf t'"
  by (induction rule: rtranclp_induct) (blast intro: transition_wf)+

lemma transitions_same_request: "transition\<^sup>*\<^sup>* t t' \<Longrightarrow> same_request t t'"
  by (induction rule: rtranclp_induct) (auto intro: same_request_trans transition_same_request)

lemma transitions_time: "transition\<^sup>*\<^sup>* t t' \<Longrightarrow> t_updatedAt t \<le> t_updatedAt t'"
  by (induction rule: rtranclp_induct) (auto dest: transition_time)

lemma transitions_reference:
  "transition\<^sup>*\<^sup>* t t' \<Longrightarrow> t_referenceTransactionID t \<noteq> [] \<Longrightarrow>
     t_referenceTransactionID t' = t_referenceTransactionID t"
  by (induction rule: rtranclp_induct) (auto dest: transition_reference)

lemma transitions_terminal:
  assumes "transition\<^sup>*\<^sup>* t t'" "status_Terminal (t_status t)"
  shows "t' = t"
  using assms by (cases rule: converse_rtranclpE) (auto dest: transition_from_open)

lemma NewExternal_eq_Inr_wf: "NewExternal p now = Inr t \<Longrightarrow> transaction_wf t"
  by (auto simp: NewExternal_def transaction_build_eq_Inr)

lemma NewOpening_eq_Inr_wf: "NewOpening i w p a now = Inr t \<Longrightarrow> transaction_wf t"
  by (auto simp: NewOpening_def transaction_build_eq_Inr)

section \<open>Properties\<close>

text \<open>
  Property C37. The state machine of a transaction is sound: from an accepted transaction, every
  sequence of the mutating methods leads to a transaction the constructor accepts again (so what is
  stored can always be loaded), with the same request data and a time stamp that never goes back;
  a resolved reference is never redirected; a terminal transaction is never changed.
\<close>

theorem transaction_life_cycle:
  assumes "transaction_build s = Inr t" and "transition\<^sup>*\<^sup>* t t'"
  shows "transaction_Rehydrate t' = Inr t' \<and> same_request t t' \<and> t_updatedAt t \<le> t_updatedAt t' \<and>
    (t_referenceTransactionID t = [] \<or> t_referenceTransactionID t' = t_referenceTransactionID t) \<and>
    (t' = t \<or> \<not> status_Terminal (t_status t))"
proof -
  have "transaction_wf t" using assms(1) by (simp add: transaction_build_eq_Inr)
  with assms(2) have "transaction_wf t'" by (rule transitions_wf)
  then show ?thesis
    using transitions_same_request [OF assms(2)] transitions_time [OF assms(2)]
      transitions_reference [OF assms(2)] transitions_terminal [OF assms(2)]
    by (auto simp: transaction_Rehydrate_def transaction_build_eq_Inr)
qed

text \<open>
  The balance a finished transaction reports and its failure code agree with its
  status: processed means a result balance, no failure code and a resolved reference, rejected a
  balance and a failure code, failed a failure code and no balance; a reported balance is never
  negative and has the currency of the amount, and only a loss has amount zero.
\<close>

theorem accepted_transaction_result:
  assumes "transaction_build s = Inr t"
  shows "(t_status t = StatusProcessed \<longrightarrow> t_resultBalance t \<noteq> None \<and> t_failureCode t = [] \<and>
      (t_referenceExternalTransactionID t = [] \<or> t_referenceTransactionID t \<noteq> [])) \<and>
    (t_status t = StatusRejected \<longrightarrow> t_resultBalance t \<noteq> None \<and> t_failureCode t \<noteq> []) \<and>
    (t_status t = StatusFailed \<longrightarrow> t_resultBalance t = None \<and> t_failureCode t \<noteq> []) \<and>
    (\<forall>b. t_resultBalance t = Some b \<longrightarrow> 0 \<le> sint (minor b) \<and> currency b = currency (t_amount t)) \<and>
    0 \<le> sint (minor (t_amount t)) \<and> (sint (minor (t_amount t)) = 0 \<longleftrightarrow> t_kind t = KindLoss)"
proof -
  have wf: "transaction_wf t" using assms by (simp add: transaction_build_eq_Inr)
  note r = transaction_wf_result [OF wf]
  have "0 \<le> sint (minor (t_amount t)) \<and> (sint (minor (t_amount t)) = 0 \<longleftrightarrow> t_kind t = KindLoss)"
    using transaction_wf_amount [OF wf] by (auto split: if_splits)
  with r failure_code_Valid_nonempty [of "t_failureCode t"] show ?thesis
    by (cases "t_status t") auto
qed

definition example_params :: "kind \<Rightarrow> int \<Rightarrow> string \<Rightarrow> external_params" where
  "example_params k n ref = \<lparr>xp_ID = ''t1'', xp_ProviderID = ''provider'', xp_ExternalTransactionID = ''x1'',
     xp_IdempotencyKey = ''k1'', xp_PayloadHash = replicate 32 7, xp_WalletID = ''w1'', xp_PlayerID = ''p1'',
     xp_RoundID = ''r1'', xp_GameID = ''g1'', xp_Kind = k, xp_Amount = brl n,
     xp_ReferenceExternalTransactionID = ref\<rparr>"

definition example_refund :: transaction where
  "example_refund = projr (NewExternal (example_params KindRefund 2500 ''x0'') 9)"

lemma example_refund_accepted: "NewExternal (example_params KindRefund 2500 ''x0'') 9 = Inr example_refund"
proof -
  have ids: "valid_id ''t1''" "valid_id ''provider''" "valid_id ''x1''" "valid_id ''k1''" "valid_id ''w1''"
    "valid_id ''p1''" "valid_id ''r1''" "valid_id ''g1''" "valid_id ''x0''"
    by (simp_all add: valid_id_graphic is_ascii_graphic_def)
  have hash: "replicate 32 (7 :: byte) \<noteq> replicate 32 0" by (simp add: replicate_eq_replicate)
  have "\<exists>t. NewExternal (example_params KindRefund 2500 ''x0'') 9 = Inr t"
    by (simp add: NewExternal_def transaction_build_eq_Inr transaction_wf_def example_params_def ids
        origin_Valid_def is_zero_time_def validateOrigin_def payload_hash_Valid_def zero_hash_def hash
        validateKindAndReference_None validateResult_None money_IsPositive_def)
      (simp add: brl_def)
  then show ?thesis by (auto simp: example_refund_def)
qed

lemma example_refund_eq:
  "example_refund = \<lparr>t_id = ''t1'', t_origin = OriginExternal, t_providerID = ''provider'',
       t_externalTransactionID = ''x1'', t_idempotencyKey = ''k1'', t_payloadHash = replicate 32 7,
       t_walletID = ''w1'', t_playerID = ''p1'', t_roundID = ''r1'', t_gameID = ''g1'', t_kind = KindRefund,
       t_amount = brl 2500, t_referenceExternalTransactionID = ''x0'', t_referenceTransactionID = [],
       t_status = StatusPending, t_failureCode = [], t_resultBalance = None, t_createdAt = 9, t_updatedAt = 9\<rparr>"
  using example_refund_accepted
  by (simp add: NewExternal_def transaction_build_eq_Inr example_params_def)

theorem transaction_life_cycle_witness:
  "transaction_Rehydrate (example_refund\<lparr>t_status := StatusPendingReference, t_updatedAt := 12\<rparr>)
     = Inr (example_refund\<lparr>t_status := StatusPendingReference, t_updatedAt := 12\<rparr>)"
proof -
  have "transition\<^sup>*\<^sup>* example_refund (example_refund\<lparr>t_status := StatusPendingReference, t_updatedAt := 12\<rparr>)"
    by (intro r_into_rtranclp tr_pending [where now = 12])
      (simp add: MarkPendingReference_Inr example_refund_eq is_zero_time_def)
  then show ?thesis
    using transaction_life_cycle [OF example_refund_accepted [unfolded NewExternal_def]] by blast
qed

theorem accepted_transaction_result_witness:
  "sint (minor (t_amount example_refund)) \<noteq> 0 \<and> 0 \<le> sint (minor (t_amount example_refund))"
proof -
  have "t_kind example_refund = KindRefund" by (simp add: example_refund_eq)
  then show ?thesis
    using accepted_transaction_result [OF example_refund_accepted [unfolded NewExternal_def]] by simp
qed

end
