(* ===== verification/Event.thy ===== *)
theory Event
  imports Wallet Wagering
begin

text \<open>
  The package \<^verbatim>\<open>internal/domain/event\<close>: the integration events published through the outbox.
  Constructors validate; the JSON form of an event is a value of the datatype \<open>json\<close>, in which
  \<open>JTime\<close> stands for the RFC 3339 text of an instant and objects keep the order of their fields.
\<close>

section \<open>Envelope\<close>

datatype json =
    JString string
  | JInt int
  | JTime time
  | JBool bool
  | JArray "json list"
  | JObject "(string \<times> json) list"

definition ContractVersion :: nat where
  "ContractVersion = 1"

datatype event_type =
    TypeWagerTransactionProcessed
  | TypeWagerTransactionRejected
  | TypeWalletBalanceChanged
  | TypeWagerTransactionPendingReference

fun event_type_string :: "event_type \<Rightarrow> string" where
  "event_type_string TypeWagerTransactionProcessed = ''WagerTransactionProcessed''"
| "event_type_string TypeWagerTransactionRejected = ''WagerTransactionRejected''"
| "event_type_string TypeWalletBalanceChanged = ''WalletBalanceChanged''"
| "event_type_string TypeWagerTransactionPendingReference = ''WagerTransactionPendingReference''"

record metadata =
  md_EventID :: string
  md_AggregateID :: string
  md_CorrelationID :: string
  md_CausationID :: string
  md_OccurredAt :: time

record 'a envelope =
  ev_eventID :: string
  ev_eventType :: event_type
  ev_aggregateID :: string
  ev_correlationID :: string
  ev_causationID :: string
  ev_occurredAt :: time
  ev_version :: nat
  ev_data :: 'a

definition newEnvelope :: "metadata \<Rightarrow> event_type \<Rightarrow> 'a \<Rightarrow> 'a envelope result" where
  "newEnvelope m ty d =
     (if \<not> valid_id (md_EventID m) \<or> \<not> valid_id (md_AggregateID m) \<or> \<not> valid_id (md_CorrelationID m)
      then Inl (Sentinel event_ErrInvalidEvent)
      else if md_CausationID m \<noteq> [] \<and> \<not> valid_id (md_CausationID m)
      then Inl (Sentinel event_ErrInvalidEvent)
      else if is_zero_time (md_OccurredAt m) then Inl (Sentinel event_ErrInvalidEvent)
      else Inr \<lparr>ev_eventID = md_EventID m, ev_eventType = ty, ev_aggregateID = md_AggregateID m,
        ev_correlationID = md_CorrelationID m, ev_causationID = md_CausationID m,
        ev_occurredAt = md_OccurredAt m, ev_version = ContractVersion, ev_data = d\<rparr>)"

text \<open>
  \<^verbatim>\<open>Envelope.MarshalJSON\<close>, given the JSON form of its data; an event type is never empty here.
\<close>

definition envelope_MarshalJSON :: "('a \<Rightarrow> json result) \<Rightarrow> 'a envelope \<Rightarrow> json result" where
  "envelope_MarshalJSON marshal e =
     (if ev_version e \<noteq> ContractVersion \<or> is_zero_time (ev_occurredAt e)
      then Inl (Sentinel event_ErrInvalidEvent)
      else and_then (marshal (ev_data e)) (\<lambda>d.
       Inr (JObject
         ([(''eventId'', JString (ev_eventID e)),
           (''eventType'', JString (event_type_string (ev_eventType e))),
           (''aggregateId'', JString (ev_aggregateID e)),
           (''correlationId'', JString (ev_correlationID e))]
          @ (if ev_causationID e = [] then [] else [(''causationId'', JString (ev_causationID e))])
          @ [(''occurredAt'', JTime (ev_occurredAt e)),
             (''version'', JInt (int (ev_version e))),
             (''data'', d)]))))"

definition money_MarshalJSON :: "money \<Rightarrow> json result" where
  "money_MarshalJSON m =
     unless_err (money_Validate m)
      (Inr (JObject [(''amount'', JString (money_String m)), (''currency'', JString (code (currency m)))]))"

section \<open>Event data\<close>

record processed_data =
  pd_TransactionID :: string
  pd_ProviderID :: string
  pd_Kind :: kind
  pd_Status :: status
  pd_Money :: money
  pd_Balance :: money

record rejected_data =
  rd_TransactionID :: string
  rd_ProviderID :: string
  rd_Kind :: kind
  rd_Status :: status
  rd_FailureCode :: failure_code
  rd_Money :: money
  rd_Balance :: money

record pending_data =
  pr_TransactionID :: string
  pr_ProviderID :: string
  pr_Kind :: kind
  pr_Status :: status
  pr_ReferenceExternalTransactionID :: string

record balance_data =
  bd_WalletID :: string
  bd_TransactionID :: string
  bd_Direction :: direction
  bd_Money :: money
  bd_BalanceBefore :: money
  bd_BalanceAfter :: money
  bd_WalletVersion :: int64

fun kind_string :: "kind \<Rightarrow> string" where
  "kind_string KindOpening = ''OPENING''"
| "kind_string KindBet = ''BET''"
| "kind_string KindWin = ''WIN''"
| "kind_string KindLoss = ''LOSS''"
| "kind_string KindRefund = ''REFUND''"
| "kind_string KindRollback = ''ROLLBACK''"
| "kind_string (KindOther s) = s"

fun status_string :: "status \<Rightarrow> string" where
  "status_string StatusPending = ''PENDING''"
| "status_string StatusPendingReference = ''PENDING_REFERENCE''"
| "status_string StatusProcessed = ''PROCESSED''"
| "status_string StatusRejected = ''REJECTED''"
| "status_string StatusFailed = ''FAILED''"
| "status_string (StatusOther s) = s"

definition processed_json :: "processed_data \<Rightarrow> json result" where
  "processed_json d =
     and_then (money_MarshalJSON (pd_Money d)) (\<lambda>m.
     and_then (money_MarshalJSON (pd_Balance d)) (\<lambda>b.
     Inr (JObject
       ([(''transactionId'', JString (pd_TransactionID d))]
        @ (if pd_ProviderID d = [] then [] else [(''providerId'', JString (pd_ProviderID d))])
        @ [(''kind'', JString (kind_string (pd_Kind d))), (''status'', JString (status_string (pd_Status d))),
           (''money'', m), (''balance'', b)]))))"

definition rejected_json :: "rejected_data \<Rightarrow> json result" where
  "rejected_json d =
     and_then (money_MarshalJSON (rd_Money d)) (\<lambda>m.
     and_then (money_MarshalJSON (rd_Balance d)) (\<lambda>b.
     Inr (JObject
       [(''transactionId'', JString (rd_TransactionID d)), (''providerId'', JString (rd_ProviderID d)),
        (''kind'', JString (kind_string (rd_Kind d))), (''status'', JString (status_string (rd_Status d))),
        (''failureCode'', JString (rd_FailureCode d)), (''money'', m), (''balance'', b)])))"

definition pending_json :: "pending_data \<Rightarrow> json result" where
  "pending_json d =
     Inr (JObject
       [(''transactionId'', JString (pr_TransactionID d)), (''providerId'', JString (pr_ProviderID d)),
        (''kind'', JString (kind_string (pr_Kind d))), (''status'', JString (status_string (pr_Status d))),
        (''referenceExternalTransactionId'', JString (pr_ReferenceExternalTransactionID d))])"

definition balance_json :: "balance_data \<Rightarrow> json result" where
  "balance_json d =
     and_then (money_MarshalJSON (bd_Money d)) (\<lambda>m.
     and_then (money_MarshalJSON (bd_BalanceBefore d)) (\<lambda>b.
     and_then (money_MarshalJSON (bd_BalanceAfter d)) (\<lambda>a.
     Inr (JObject
       [(''walletId'', JString (bd_WalletID d)), (''transactionId'', JString (bd_TransactionID d)),
        (''direction'', JString (direction_string (bd_Direction d))), (''money'', m),
        (''balanceBefore'', b), (''balanceAfter'', a), (''walletVersion'', JInt (sint (bd_WalletVersion d)))]))))"

section \<open>Constructors\<close>

definition validateTransactionEvent ::
  "metadata \<Rightarrow> string \<Rightarrow> string \<Rightarrow> kind \<Rightarrow> money \<Rightarrow> money \<Rightarrow> bool \<Rightarrow> err option" where
  "validateTransactionEvent m transactionID providerID k amount balance allowOpening =
     (if md_AggregateID m \<noteq> transactionID \<or> \<not> valid_id transactionID \<or> \<not> kind_Valid k
      then Some (Sentinel event_ErrInvalidEvent)
      else if k = KindOpening \<and> (\<not> allowOpening \<or> providerID \<noteq> [] \<or> \<not> money_IsPositive amount)
      then Some (Sentinel event_ErrInvalidEvent)
      else if k \<noteq> KindOpening \<and> \<not> valid_id providerID then Some (Sentinel event_ErrInvalidEvent)
      else if money_Validate amount \<noteq> None then Some (Sentinel event_ErrInvalidEvent)
      else if money_Validate balance \<noteq> None \<or> money_IsNegative balance
      then Some (Sentinel event_ErrInvalidEvent)
      else if currency amount \<noteq> currency balance
      then Some (Join (Sentinel event_ErrInvalidEvent) (Sentinel money_ErrCurrencyMismatch))
      else if k = KindLoss \<and> \<not> money_IsZero amount then Some (Sentinel event_ErrInvalidEvent)
      else if k \<noteq> KindLoss \<and> \<not> money_IsPositive amount then Some (Sentinel event_ErrInvalidEvent)
      else None)"

definition NewWagerTransactionProcessed ::
  "metadata \<Rightarrow> string \<Rightarrow> string \<Rightarrow> kind \<Rightarrow> money \<Rightarrow> money \<Rightarrow> processed_data envelope result" where
  "NewWagerTransactionProcessed m transactionID providerID k amount balance =
     unless_err (validateTransactionEvent m transactionID providerID k amount balance True)
      (newEnvelope m TypeWagerTransactionProcessed
        \<lparr>pd_TransactionID = transactionID, pd_ProviderID = providerID, pd_Kind = k,
         pd_Status = StatusProcessed, pd_Money = amount, pd_Balance = balance\<rparr>)"

definition NewWagerTransactionRejected ::
  "metadata \<Rightarrow> string \<Rightarrow> string \<Rightarrow> kind \<Rightarrow> failure_code \<Rightarrow> money \<Rightarrow> money \<Rightarrow> rejected_data envelope result" where
  "NewWagerTransactionRejected m transactionID providerID k fc amount balance =
     (if k = KindOpening \<or> \<not> failure_code_Valid fc then Inl (Sentinel event_ErrInvalidEvent)
      else unless_err (validateTransactionEvent m transactionID providerID k amount balance False)
       (newEnvelope m TypeWagerTransactionRejected
         \<lparr>rd_TransactionID = transactionID, rd_ProviderID = providerID, rd_Kind = k,
          rd_Status = StatusRejected, rd_FailureCode = fc, rd_Money = amount, rd_Balance = balance\<rparr>))"

definition NewWagerTransactionPendingReference ::
  "metadata \<Rightarrow> string \<Rightarrow> string \<Rightarrow> kind \<Rightarrow> string \<Rightarrow> pending_data envelope result" where
  "NewWagerTransactionPendingReference m transactionID providerID k reference =
     (if md_AggregateID m \<noteq> transactionID \<or> \<not> valid_id transactionID \<or> \<not> valid_id providerID \<or>
        \<not> kind_Valid k \<or> k = KindOpening \<or> \<not> valid_id reference
      then Inl (Sentinel event_ErrInvalidEvent)
      else if k \<noteq> KindWin \<and> k \<noteq> KindRefund \<and> k \<noteq> KindRollback then Inl (Sentinel event_ErrInvalidEvent)
      else newEnvelope m TypeWagerTransactionPendingReference
        \<lparr>pr_TransactionID = transactionID, pr_ProviderID = providerID, pr_Kind = k,
         pr_Status = StatusPendingReference, pr_ReferenceExternalTransactionID = reference\<rparr>)"

definition balance_expected :: "balance_data \<Rightarrow> money result" where
  "balance_expected d =
     (if bd_Direction d = DirectionCredit then money_Add (bd_BalanceBefore d) (bd_Money d)
      else money_Subtract (bd_BalanceBefore d) (bd_Money d))"

definition NewWalletBalanceChanged :: "metadata \<Rightarrow> balance_data \<Rightarrow> balance_data envelope result" where
  "NewWalletBalanceChanged m d =
     (if md_AggregateID m \<noteq> bd_WalletID d \<or> \<not> valid_id (bd_WalletID d) \<or> \<not> valid_id (bd_TransactionID d) \<or>
        \<not> direction_Valid (bd_Direction d) \<or> \<not> money_IsPositive (bd_Money d) \<or> sint (bd_WalletVersion d) < 1
      then Inl (Sentinel event_ErrInvalidEvent)
      else if money_Validate (bd_BalanceBefore d) \<noteq> None \<or> money_IsNegative (bd_BalanceBefore d)
      then Inl (Sentinel event_ErrInvalidEvent)
      else if money_Validate (bd_BalanceAfter d) \<noteq> None \<or> money_IsNegative (bd_BalanceAfter d)
      then Inl (Sentinel event_ErrInvalidEvent)
      else (case balance_expected d of
          Inl _ \<Rightarrow> Inl (Sentinel event_ErrInvalidEvent)
        | Inr expected \<Rightarrow>
            if \<not> money_Equal expected (bd_BalanceAfter d) then Inl (Sentinel event_ErrInvalidEvent)
            else newEnvelope m TypeWalletBalanceChanged d))"

section \<open>Events of any kind\<close>

text \<open>
  The interface \<^verbatim>\<open>IntegrationEvent\<close>: the four instances of \<^verbatim>\<open>Envelope[T]\<close> behind one type.
\<close>

datatype event_data =
    ProcessedData processed_data
  | RejectedData rejected_data
  | PendingData pending_data
  | BalanceData balance_data

type_synonym integration_event = "event_data envelope"

definition as_event :: "('a \<Rightarrow> event_data) \<Rightarrow> 'a envelope \<Rightarrow> integration_event" where
  "as_event f e =
     \<lparr>ev_eventID = ev_eventID e, ev_eventType = ev_eventType e, ev_aggregateID = ev_aggregateID e,
      ev_correlationID = ev_correlationID e, ev_causationID = ev_causationID e,
      ev_occurredAt = ev_occurredAt e, ev_version = ev_version e, ev_data = f (ev_data e)\<rparr>"

fun event_data_json :: "event_data \<Rightarrow> json result" where
  "event_data_json (ProcessedData d) = processed_json d"
| "event_data_json (RejectedData d) = rejected_json d"
| "event_data_json (PendingData d) = pending_json d"
| "event_data_json (BalanceData d) = balance_json d"

definition event_MarshalJSON :: "integration_event \<Rightarrow> json result" where
  "event_MarshalJSON e = envelope_MarshalJSON event_data_json e"

section \<open>Acceptance\<close>

definition metadata_wf :: "metadata \<Rightarrow> bool" where
  "metadata_wf m \<longleftrightarrow>
     valid_id (md_EventID m) \<and> valid_id (md_AggregateID m) \<and> valid_id (md_CorrelationID m) \<and>
     (md_CausationID m = [] \<or> valid_id (md_CausationID m)) \<and> \<not> is_zero_time (md_OccurredAt m)"

definition envelope_of :: "metadata \<Rightarrow> event_type \<Rightarrow> 'a \<Rightarrow> 'a envelope" where
  "envelope_of m ty d =
     \<lparr>ev_eventID = md_EventID m, ev_eventType = ty, ev_aggregateID = md_AggregateID m,
      ev_correlationID = md_CorrelationID m, ev_causationID = md_CausationID m,
      ev_occurredAt = md_OccurredAt m, ev_version = ContractVersion, ev_data = d\<rparr>"

lemma newEnvelope_eq_Inr: "newEnvelope m ty d = Inr e \<longleftrightarrow> metadata_wf m \<and> e = envelope_of m ty d"
  by (auto simp: newEnvelope_def metadata_wf_def envelope_of_def)

lemma envelope_marshals:
  assumes "newEnvelope m ty d = Inr e" and "marshal d = Inr j"
  shows "\<exists>v. envelope_MarshalJSON marshal e = Inr v"
  using assms by (auto simp: newEnvelope_eq_Inr envelope_of_def metadata_wf_def envelope_MarshalJSON_def)

lemma money_MarshalJSON_valid:
  "currency_Valid (currency m) \<Longrightarrow> money_MarshalJSON m =
     Inr (JObject [(''amount'', JString (money_String m)), (''currency'', JString (code (currency m)))])"
  by (simp add: money_MarshalJSON_def money_Validate_def)

lemma as_event_envelope_of: "as_event f (envelope_of m ty d) = envelope_of m ty (f d)"
  by (simp add: as_event_def envelope_of_def)

lemma event_fields:
  "NewWagerTransactionProcessed m i p k a b = Inr pe \<Longrightarrow>
     ev_aggregateID (as_event f pe) = i \<and> ev_eventType (as_event f pe) = TypeWagerTransactionProcessed"
  "NewWagerTransactionRejected m i p k c a b = Inr re \<Longrightarrow>
     ev_aggregateID (as_event g re) = i \<and> ev_eventType (as_event g re) = TypeWagerTransactionRejected"
  "NewWagerTransactionPendingReference m i p k r = Inr we \<Longrightarrow>
     ev_aggregateID (as_event h we) = i \<and> ev_eventType (as_event h we) = TypeWagerTransactionPendingReference"
  "NewWalletBalanceChanged m bd = Inr be \<Longrightarrow>
     ev_aggregateID (as_event o' be) = bd_WalletID bd \<and> ev_eventType (as_event o' be) = TypeWalletBalanceChanged"
  unfolding NewWagerTransactionProcessed_def NewWagerTransactionRejected_def
    NewWagerTransactionPendingReference_def NewWalletBalanceChanged_def validateTransactionEvent_def
  by (auto simp: newEnvelope_eq_Inr as_event_def unless_err_eq_Inr envelope_of_def
      split: if_splits sum.splits)

text \<open>What the constructors put into an event.\<close>

lemma event_contents:
  "NewWagerTransactionProcessed m i p k a b = Inr pe \<Longrightarrow> currency b = currency a \<and> md_AggregateID m = i \<and>
     as_event f pe = envelope_of m TypeWagerTransactionProcessed (f
       \<lparr>pd_TransactionID = i, pd_ProviderID = p, pd_Kind = k, pd_Status = StatusProcessed, pd_Money = a, pd_Balance = b\<rparr>)"
  "NewWagerTransactionRejected m i p k c a b = Inr re \<Longrightarrow> currency b = currency a \<and> md_AggregateID m = i \<and>
     as_event g re = envelope_of m TypeWagerTransactionRejected (g
       \<lparr>rd_TransactionID = i, rd_ProviderID = p, rd_Kind = k, rd_Status = StatusRejected, rd_FailureCode = c,
        rd_Money = a, rd_Balance = b\<rparr>)"
  "NewWagerTransactionPendingReference m i p k r = Inr we \<Longrightarrow> md_AggregateID m = i \<and>
     as_event h we = envelope_of m TypeWagerTransactionPendingReference (h
       \<lparr>pr_TransactionID = i, pr_ProviderID = p, pr_Kind = k, pr_Status = StatusPendingReference,
        pr_ReferenceExternalTransactionID = r\<rparr>)"
  "NewWalletBalanceChanged m bd = Inr be \<Longrightarrow> md_AggregateID m = bd_WalletID bd \<and>
     as_event o' be = envelope_of m TypeWalletBalanceChanged (o' bd)"
  unfolding NewWagerTransactionProcessed_def NewWagerTransactionRejected_def
    NewWagerTransactionPendingReference_def NewWalletBalanceChanged_def
  by (auto simp: newEnvelope_eq_Inr as_event_envelope_of unless_err_eq_Inr validateTransactionEvent_def
      split: if_splits sum.splits)

lemma event_MarshalJSON_valid:
  assumes "metadata_wf m" and "event_data_json d = Inr j"
  shows "\<exists>v. event_MarshalJSON (envelope_of m ty d) = Inr v"
  using assms by (simp add: event_MarshalJSON_def envelope_MarshalJSON_def envelope_of_def metadata_wf_def)

text \<open>The part of a ledger entry a balance event carries.\<close>

definition balance_data_of :: "entry \<Rightarrow> balance_data" where
  "balance_data_of e =
     \<lparr>bd_WalletID = e_walletID e, bd_TransactionID = e_transactionID e, bd_Direction = e_direction e,
      bd_Money = e_amount e, bd_BalanceBefore = e_balanceBefore e, bd_BalanceAfter = e_balanceAfter e,
      bd_WalletVersion = e_walletVersion e\<rparr>"

lemma balance_expected_of: "balance_expected (balance_data_of e) = entry_expected e"
  by (simp add: balance_expected_def balance_data_of_def entry_expected_def)

lemma NewWalletBalanceChanged_of_entry:
  assumes "entry_wf e" "metadata_wf m" "md_AggregateID m = e_walletID e"
  shows "NewWalletBalanceChanged m (balance_data_of e)
    = Inr (envelope_of m TypeWalletBalanceChanged (balance_data_of e))"
proof -
  have "currency_Valid (currency (e_balanceAfter e))" using assms(1) by (simp add: entry_wf_def)
  then have "money_Equal (e_balanceAfter e) (e_balanceAfter e)" by (simp add: money_Equal_def)
  moreover have "newEnvelope m TypeWalletBalanceChanged (balance_data_of e)
      = Inr (envelope_of m TypeWalletBalanceChanged (balance_data_of e))"
    using assms(2) by (simp add: newEnvelope_eq_Inr)
  ultimately show ?thesis
    unfolding NewWalletBalanceChanged_def balance_expected_of entry_expected_wf [OF assms(1)]
    using assms(1,3)
    by (simp add: entry_wf_def balance_data_of_def money_IsPositive_def money_IsNegative_def)
qed

lemma validateTransactionEvent_None:
  "validateTransactionEvent m i p k a b o' = None \<longleftrightarrow>
     md_AggregateID m = i \<and> valid_id i \<and> kind_Valid k \<and>
     (if k = KindOpening then o' \<and> p = [] else valid_id p) \<and>
     currency_Valid (currency a) \<and> currency b = currency a \<and> 0 \<le> sint (minor b) \<and>
     (if k = KindLoss then minor a = 0 else 0 < sint (minor a))"
  unfolding validateTransactionEvent_def guard_None
  by (auto simp: money_IsPositive_def money_IsNegative_def money_IsZero_def)

text \<open>A transaction that is about to be stored as processed or rejected can be announced.\<close>

lemma events_of_transaction:
  assumes wf: "transaction_wf t" and ext: "t_origin t = OriginExternal"
    and b: "t_resultBalance t = Some b" and m: "metadata_wf m" "md_AggregateID m = t_id t"
  shows "NewWagerTransactionProcessed m (t_id t) (t_providerID t) (t_kind t) (t_amount t) b =
      Inr (envelope_of m TypeWagerTransactionProcessed
        \<lparr>pd_TransactionID = t_id t, pd_ProviderID = t_providerID t, pd_Kind = t_kind t,
         pd_Status = StatusProcessed, pd_Money = t_amount t, pd_Balance = b\<rparr>)"
    and "failure_code_Valid fc \<Longrightarrow>
      NewWagerTransactionRejected m (t_id t) (t_providerID t) (t_kind t) fc (t_amount t) b =
      Inr (envelope_of m TypeWagerTransactionRejected
        \<lparr>rd_TransactionID = t_id t, rd_ProviderID = t_providerID t, rd_Kind = t_kind t,
         rd_Status = StatusRejected, rd_FailureCode = fc, rd_Money = t_amount t, rd_Balance = b\<rparr>)"
proof -
  have o: "t_kind t \<noteq> KindOpening" "valid_id (t_providerID t)" "valid_id (t_id t)" "kind_Valid (t_kind t)"
    "currency_Valid (currency (t_amount t))"
    using wf ext by (auto simp: transaction_wf_def validateOrigin_def split: if_splits)
  have v: "validateTransactionEvent m (t_id t) (t_providerID t) (t_kind t) (t_amount t) b x = None" for x
    using o m transaction_wf_result(2) [OF wf b] transaction_wf_amount [OF wf]
    by (simp add: validateTransactionEvent_None)
  show "NewWagerTransactionProcessed m (t_id t) (t_providerID t) (t_kind t) (t_amount t) b =
      Inr (envelope_of m TypeWagerTransactionProcessed
        \<lparr>pd_TransactionID = t_id t, pd_ProviderID = t_providerID t, pd_Kind = t_kind t,
         pd_Status = StatusProcessed, pd_Money = t_amount t, pd_Balance = b\<rparr>)"
    unfolding NewWagerTransactionProcessed_def v using m by (simp add: newEnvelope_eq_Inr)
  show "NewWagerTransactionRejected m (t_id t) (t_providerID t) (t_kind t) fc (t_amount t) b =
      Inr (envelope_of m TypeWagerTransactionRejected
        \<lparr>rd_TransactionID = t_id t, rd_ProviderID = t_providerID t, rd_Kind = t_kind t,
         rd_Status = StatusRejected, rd_FailureCode = fc, rd_Money = t_amount t, rd_Balance = b\<rparr>)"
    if "failure_code_Valid fc"
    unfolding NewWagerTransactionRejected_def v using m o that by (simp add: newEnvelope_eq_Inr)
qed

section \<open>Properties\<close>

text \<open>
  Every entry the ledger accepts can be announced: the balance event built from the
  entry's own fields passes the event's checks, and its JSON form is defined.
\<close>

theorem ledger_entry_announceable:
  assumes "ledger_New e = Inr e'" and "metadata_wf m" and "md_AggregateID m = e_walletID e"
  shows "\<exists>v j. NewWalletBalanceChanged m (balance_data_of e') = Inr v \<and>
    envelope_MarshalJSON balance_json v = Inr j \<and> ev_data v = balance_data_of e"
proof -
  from assms(1) have wf: "entry_wf e" and e': "e' = e"
    using entry_build_wf by (auto simp: ledger_New_def)
  let ?v = "envelope_of m TypeWalletBalanceChanged (balance_data_of e)"
  have env: "newEnvelope m TypeWalletBalanceChanged (balance_data_of e) = Inr ?v"
    using assms(2) by (simp add: newEnvelope_eq_Inr)
  have "\<exists>j. balance_json (balance_data_of e) = Inr j"
    using wf by (simp add: balance_json_def balance_data_of_def money_MarshalJSON_valid entry_wf_def)
  then obtain j where j: "balance_json (balance_data_of e) = Inr j" ..
  have "\<exists>j. envelope_MarshalJSON balance_json ?v = Inr j"
    by (rule envelope_marshals [where marshal = balance_json and j = j, OF env j])
  then show ?thesis
    using NewWalletBalanceChanged_of_entry [OF wf assms(2,3)] e' by (auto simp: envelope_of_def)
qed

theorem ledger_entry_announceable_witness:
  "\<exists>v j. NewWalletBalanceChanged
       \<lparr>md_EventID = ''v1'', md_AggregateID = ''w1'', md_CorrelationID = ''c1'', md_CausationID = [],
        md_OccurredAt = 10\<rparr>
       \<lparr>bd_WalletID = ''w1'', bd_TransactionID = ''t1'', bd_Direction = DirectionDebit, bd_Money = brl 2500,
        bd_BalanceBefore = brl 10000, bd_BalanceAfter = brl 7500, bd_WalletVersion = 4\<rparr> = Inr v \<and>
     envelope_MarshalJSON balance_json v = Inr j"
proof -
  let ?e = "\<lparr>e_id = ''e1'', e_walletID = ''w1'', e_transactionID = ''t1'', e_direction = DirectionDebit,
      e_amount = brl 2500, e_balanceBefore = brl 10000, e_balanceAfter = brl 7500,
      e_walletVersion = 4, e_createdAt = 10\<rparr>"
  let ?m = "\<lparr>md_EventID = ''v1'', md_AggregateID = ''w1'', md_CorrelationID = ''c1'', md_CausationID = [],
        md_OccurredAt = 10\<rparr>"
  have ids: "valid_id ''e1''" "valid_id ''w1''" "valid_id ''t1''" "valid_id ''v1''" "valid_id ''c1''"
    by (simp_all add: valid_id_graphic is_ascii_graphic_def)
  have "entry_wf ?e"
    unfolding entry_wf_def entry_delta_def brl_def
    by (simp add: ids direction_Valid.simps is_zero_time_def currency_Valid_def supportedCurrencies_def)
  then have "ledger_New ?e = Inr ?e" by (simp add: ledger_New_def entry_build_of_wf)
  moreover have "metadata_wf ?m" by (simp add: metadata_wf_def ids is_zero_time_def)
  ultimately show ?thesis
    using ledger_entry_announceable [of ?e ?e ?m] unfolding balance_data_of_def by auto
qed

end
