(* ===== verification/Uuid.thy ===== *)
theory Uuid
  imports Prelude
begin

text \<open>
  The package \<^verbatim>\<open>internal/platform/id\<close>: version 4 UUIDs as text, and their validator. What
  \<^verbatim>\<open>New\<close> prints is a canonical UUID and passes \<^verbatim>\<open>Validate\<close>; the converse fails, because
  \<^verbatim>\<open>hex.Decode\<close> accepts a text with fewer than 32 digits.
\<close>

unbundle bit_operations_syntax

section \<open>Generation\<close>

definition hex_digit :: "nat \<Rightarrow> char" where
  "hex_digit n = (if n < 10 then char_of (48 + n) else char_of (87 + n))"

text \<open>The \<^verbatim>\<open>%x\<close> verb on a byte slice: two lower-case digits per byte.\<close>

definition hex_byte :: "byte \<Rightarrow> string" where
  "hex_byte b = [hex_digit (unat b div 16), hex_digit (unat b mod 16)]"

definition hex_text :: "byte list \<Rightarrow> string" where
  "hex_text bs = concat (map hex_byte bs)"

text \<open>
  \<^verbatim>\<open>New\<close>, on the outcome of \<^verbatim>\<open>rand.Read\<close>: sixteen bytes, or an error.
\<close>

definition id_format :: "byte list \<Rightarrow> string" where
  "id_format value =
     (let value = value[6 := (value ! 6 AND 0x0f) OR 0x40];
          value = value[8 := (value ! 8 AND 0x3f) OR 0x80]
      in hex_text (take 4 value) @ ''-'' @ hex_text (take 2 (drop 4 value)) @ ''-''
         @ hex_text (take 2 (drop 6 value)) @ ''-'' @ hex_text (take 2 (drop 8 value)) @ ''-''
         @ hex_text (take 6 (drop 10 value)))"

definition id_New :: "byte list option \<Rightarrow> string result" where
  "id_New random =
     (case random of None \<Rightarrow> Inl (Opaque ''rand'') | Some value \<Rightarrow> Inr (id_format value))"

section \<open>Validation\<close>

definition is_hex_char :: "char \<Rightarrow> bool" where
  "is_hex_char c \<longleftrightarrow>
     (48 \<le> (of_char c :: nat) \<and> (of_char c :: nat) \<le> 57) \<or>
     (97 \<le> (of_char c :: nat) \<and> (of_char c :: nat) \<le> 102) \<or>
     (65 \<le> (of_char c :: nat) \<and> (of_char c :: nat) \<le> 70)"

definition is_upper_ascii :: "char \<Rightarrow> bool" where
  "is_upper_ascii c \<longleftrightarrow> 65 \<le> (of_char c :: nat) \<and> (of_char c :: nat) \<le> 90"

text \<open>
  \<^verbatim>\<open>hex.Decode\<close> fails on a character that is no hexadecimal digit and on an odd number of
  digits; it decodes half as many bytes as there are digits. The test against
  \<^verbatim>\<open>strings.ToLower\<close> is on ASCII letters: a text with bytes above 127 fails one of the two
  tests, and both give the same error.
\<close>

definition hex_decodes :: "string \<Rightarrow> bool" where
  "hex_decodes s \<longleftrightarrow> list_all is_hex_char s \<and> even (length s)"

definition id_Validate :: "string \<Rightarrow> err option" where
  "id_Validate value =
     (if length value \<noteq> 36 \<or> list_ex is_upper_ascii value \<or>
         value ! 8 \<noteq> CHR ''-'' \<or> value ! 13 \<noteq> CHR ''-'' \<or> value ! 18 \<noteq> CHR ''-'' \<or> value ! 23 \<noteq> CHR ''-''
      then Some (Sentinel id_ErrInvalidUUID)
      else if \<not> hex_decodes (filter (\<lambda>c. c \<noteq> CHR ''-'') value) then Some (Sentinel id_ErrInvalidUUID)
      else None)"

section \<open>Canonical UUID text\<close>

definition is_lower_hex :: "char \<Rightarrow> bool" where
  "is_lower_hex c \<longleftrightarrow> is_hex_char c \<and> \<not> is_upper_ascii c"

text \<open>
  The canonical text form of a UUID, the one PostgreSQL prints: groups of 8, 4, 4, 4 and 12
  lower-case hexadecimal digits.
\<close>

definition uuid_dashes :: "bool list" where
  "uuid_dashes = replicate 8 False @ [True] @ replicate 4 False @ [True] @ replicate 4 False @ [True]
     @ replicate 4 False @ [True] @ replicate 12 False"

definition uuid_char :: "bool \<Rightarrow> char \<Rightarrow> bool" where
  "uuid_char dash c \<longleftrightarrow> (if dash then c = CHR ''-'' else is_lower_hex c)"

definition is_uuid :: "string \<Rightarrow> bool" where
  "is_uuid s \<longleftrightarrow> list_all2 uuid_char uuid_dashes s"

lemma dash_not_hex [simp]: "\<not> is_lower_hex CHR ''-''" "\<not> is_hex_char CHR ''-''"
  "\<not> is_upper_ascii CHR ''-''"
  by (simp_all add: is_lower_hex_def is_hex_char_def is_upper_ascii_def)

lemma hex_digit_lower: "n < 16 \<Longrightarrow> is_lower_hex (hex_digit n)"
  by (auto simp: is_lower_hex_def is_hex_char_def is_upper_ascii_def hex_digit_def)

lemma length_hex_text [simp]: "length (hex_text bs) = 2 * length bs"
  by (induction bs) (simp_all add: hex_text_def hex_byte_def)

lemma hex_byte_lower: "c \<in> set (hex_byte b) \<Longrightarrow> is_lower_hex c"
proof -
  have "unat b < 256" using unsigned_less [of b] by simp
  then have "unat b div 16 < 16" "unat b mod 16 < 16" by simp_all
  then show "c \<in> set (hex_byte b) \<Longrightarrow> is_lower_hex c"
    by (auto simp: hex_byte_def hex_digit_lower)
qed

lemma hex_text_lower: "c \<in> set (hex_text bs) \<Longrightarrow> is_lower_hex c"
  by (auto simp: hex_text_def dest: hex_byte_lower)

lemma list_all2_hex:
  "list_all2 uuid_char (replicate n False) s \<longleftrightarrow> length s = n \<and> list_all is_lower_hex s"
proof (induction n arbitrary: s)
  case 0
  then show ?case by auto
next
  case (Suc n)
  then show ?case by (cases s) (auto simp: uuid_char_def)
qed

lemma list_all2_dash: "list_all2 uuid_char (True # t) s \<longleftrightarrow> (\<exists>r. s = CHR ''-'' # r \<and> list_all2 uuid_char t r)"
  by (cases s) (auto simp: uuid_char_def)

lemma list_all2_group:
  "list_all2 uuid_char (replicate n False @ True # t) s \<longleftrightarrow>
     (\<exists>a r. s = a @ CHR ''-'' # r \<and> length a = n \<and> list_all is_lower_hex a \<and> list_all2 uuid_char t r)"
proof
  assume "list_all2 uuid_char (replicate n False @ True # t) s"
  then obtain a u where "s = a @ u" "list_all2 uuid_char (replicate n False) a"
    "list_all2 uuid_char (True # t) u"
    by (auto simp: list_all2_append1)
  then show "\<exists>a r. s = a @ CHR ''-'' # r \<and> length a = n \<and> list_all is_lower_hex a \<and> list_all2 uuid_char t r"
    unfolding list_all2_hex list_all2_dash by blast
next
  assume "\<exists>a r. s = a @ CHR ''-'' # r \<and> length a = n \<and> list_all is_lower_hex a \<and> list_all2 uuid_char t r"
  then obtain a r where s: "s = a @ CHR ''-'' # r" and a: "list_all2 uuid_char (replicate n False) a"
    and r: "list_all2 uuid_char (True # t) (CHR ''-'' # r)"
    unfolding list_all2_hex list_all2_dash by blast
  show "list_all2 uuid_char (replicate n False @ True # t) s"
    unfolding s by (rule list_all2_appendI [OF a r])
qed

lemma uuid_dashes_groups: "uuid_dashes = replicate 8 False @ True # replicate 4 False @ True #
  replicate 4 False @ True # replicate 4 False @ True # replicate 12 False"
  unfolding uuid_dashes_def by (simp only: append_Cons append_Nil append_assoc)

text \<open>The groups of a canonical UUID.\<close>

lemma is_uuidE:
  assumes "is_uuid s"
  obtains a b c d e where "s = a @ ''-'' @ b @ ''-'' @ c @ ''-'' @ d @ ''-'' @ e"
    "length a = 8" "length b = 4" "length c = 4" "length d = 4" "length e = 12"
    "list_all is_lower_hex (a @ b @ c @ d @ e)"
proof -
  from assms obtain a r1 where 1: "s = a @ CHR ''-'' # r1" "length a = 8" "list_all is_lower_hex a"
    "list_all2 uuid_char (replicate 4 False @ True # replicate 4 False @ True # replicate 4 False
       @ True # replicate 12 False) r1"
    unfolding is_uuid_def uuid_dashes_groups list_all2_group [where n = 8] by blast
  from 1(4) obtain b r2 where 2: "r1 = b @ CHR ''-'' # r2" "length b = 4" "list_all is_lower_hex b"
    "list_all2 uuid_char (replicate 4 False @ True # replicate 4 False @ True # replicate 12 False) r2"
    unfolding list_all2_group by blast
  from 2(4) obtain c r3 where 3: "r2 = c @ CHR ''-'' # r3" "length c = 4" "list_all is_lower_hex c"
    "list_all2 uuid_char (replicate 4 False @ True # replicate 12 False) r3"
    unfolding list_all2_group by blast
  from 3(4) obtain d e where 4: "r3 = d @ CHR ''-'' # e" "length d = 4" "list_all is_lower_hex d"
    "length e = 12" "list_all is_lower_hex e"
    unfolding list_all2_group list_all2_hex by blast
  show thesis
    by (rule that [of a b c d e]) (use 1 2 3 4 in simp_all)
qed

lemma is_uuidI:
  assumes "length a = 8" "length b = 4" "length c = 4" "length d = 4" "length e = 12"
    "list_all is_lower_hex (a @ b @ c @ d @ e)"
  shows "is_uuid (a @ ''-'' @ b @ ''-'' @ c @ ''-'' @ d @ ''-'' @ e)"
proof -
  have h: "list_all2 uuid_char (replicate 8 False) a" "list_all2 uuid_char (replicate 4 False) b"
    "list_all2 uuid_char (replicate 4 False) c" "list_all2 uuid_char (replicate 4 False) d"
    "list_all2 uuid_char (replicate 12 False) e" "list_all2 uuid_char [True] ''-''"
    unfolding list_all2_hex list_all2_dash using assms by simp_all
  show ?thesis
    unfolding is_uuid_def uuid_dashes_def by (intro list_all2_appendI h)
qed

lemma id_format_uuid:
  assumes "length bs = 16"
  shows "is_uuid (id_format bs)"
  unfolding id_format_def Let_def
  by (rule is_uuidI) (use assms in \<open>auto simp: list_all_iff dest: hex_text_lower\<close>)

lemma is_lower_hex_graphic: "is_lower_hex c \<Longrightarrow> is_ascii_graphic c"
  by (auto simp: is_lower_hex_def is_hex_char_def is_upper_ascii_def is_ascii_graphic_def)

lemma is_uuid_valid_id:
  assumes "is_uuid s"
  shows "valid_id s"
proof -
  from assms obtain a b c d e where s: "s = a @ ''-'' @ b @ ''-'' @ c @ ''-'' @ d @ ''-'' @ e"
    and l: "length a = 8" "length b = 4" "length c = 4" "length d = 4" "length e = 12"
    and h: "list_all is_lower_hex (a @ b @ c @ d @ e)"
    by (rule is_uuidE)
  from l have n: "a \<noteq> []" "e \<noteq> []" by auto
  then have "hd s = hd a" "last s = last e" "s \<noteq> []" by (simp_all add: s)
  moreover have "is_lower_hex (hd a)" "is_lower_hex (last e)"
    using h n by (simp_all add: list_all_iff)
  ultimately show ?thesis
    by (simp add: valid_id_graphic is_lower_hex_graphic)
qed

lemma id_Validate_None:
  "id_Validate s = None \<longleftrightarrow>
     length s = 36 \<and> \<not> list_ex is_upper_ascii s \<and>
     s ! 8 = CHR ''-'' \<and> s ! 13 = CHR ''-'' \<and> s ! 18 = CHR ''-'' \<and> s ! 23 = CHR ''-'' \<and>
     hex_decodes (filter (\<lambda>c. c \<noteq> CHR ''-'') s)"
  unfolding id_Validate_def guard_None by auto

lemma filter_hex: "list_all is_lower_hex s \<Longrightarrow> filter (\<lambda>c. c \<noteq> CHR ''-'') s = s"
  by (induction s) auto

lemma is_uuid_Validate:
  assumes "is_uuid s"
  shows "id_Validate s = None"
proof -
  from assms obtain a b c d e where s: "s = a @ ''-'' @ b @ ''-'' @ c @ ''-'' @ d @ ''-'' @ e"
    and l: "length a = 8" "length b = 4" "length c = 4" "length d = 4" "length e = 12"
    and h: "list_all is_lower_hex (a @ b @ c @ d @ e)"
    by (rule is_uuidE)
  have "filter (\<lambda>c. c \<noteq> CHR ''-'') s = a @ b @ c @ d @ e"
    using h by (simp add: s filter_hex)
  then have "hex_decodes (filter (\<lambda>c. c \<noteq> CHR ''-'') s)"
    using l h by (auto simp: hex_decodes_def list_all_iff is_lower_hex_def)
  moreover have "\<not> list_ex is_upper_ascii s"
    using h by (auto simp: s list_ex_iff list_all_iff is_lower_hex_def)
  ultimately show ?thesis
    using l by (simp add: id_Validate_None) (simp add: s nth_append)
qed

text \<open>The version and variant digits.\<close>

lemma unat_div_16: "unat (b :: byte) div 16 = unat (drop_bit 4 b)"
  by (simp add: drop_bit_eq_div unat_div)

lemma version_digit: "hex_digit (unat ((b AND 0x0f) OR 0x40 :: byte) div 16) = CHR ''4''"
proof -
  have "hex_digit 4 = CHR ''4''" by code_simp
  then show ?thesis unfolding unat_div_16 drop_bit_or drop_bit_and by simp
qed

lemma variant_digit: "hex_digit (unat ((b AND 0x3f) OR 0x80 :: byte) div 16) \<in> set ''89ab''"
proof -
  define c where "c = drop_bit 4 b AND 3"
  have "c = take_bit 2 (drop_bit 4 b)"
    unfolding c_def take_bit_eq_mask by (simp add: mask_eq_exp_minus_1)
  then have "unat c < 4" by (simp add: unsigned_take_bit_eq take_bit_nat_less_exp [of 2, simplified])
  then have "unat c = unat (0 :: byte) \<or> unat c = unat (1 :: byte) \<or> unat c = unat (2 :: byte) \<or>
      unat c = unat (3 :: byte)" by simp linarith
  then have "c = 0 \<or> c = 1 \<or> c = 2 \<or> c = 3" unfolding word_unat_eq_iff .
  moreover have "hex_digit 8 = CHR ''8'' \<and> hex_digit 9 = CHR ''9'' \<and> hex_digit 10 = CHR ''a'' \<and>
      hex_digit 11 = CHR ''b''" by code_simp
  ultimately have "hex_digit (unat (c OR 8)) \<in> set ''89ab''" by auto
  then show ?thesis
    unfolding unat_div_16 drop_bit_or drop_bit_and c_def by simp
qed

section \<open>Properties\<close>

text \<open>
  Every identifier \<^verbatim>\<open>New\<close> returns is a canonical UUID of version 4 and variant
  10, and is accepted by \<^verbatim>\<open>Validate\<close>.
\<close>

theorem id_New_valid:
  assumes "length bs = 16" and "id_New (Some bs) = Inr s"
  shows "is_uuid s \<and> id_Validate s = None \<and> s ! 14 = CHR ''4'' \<and> s ! 19 \<in> set ''89ab''"
proof -
  have s: "s = id_format bs" using assms(2) by (simp add: id_New_def)
  then have u: "is_uuid s" using id_format_uuid [OF assms(1)] by simp
  let ?b6 = "(bs ! 6 AND 0x0f) OR 0x40 :: byte" and ?b8 = "(bs ! 8 AND 0x3f) OR 0x80 :: byte"
  let ?v = "bs[6 := ?b6, 8 := ?b8]"
  have d: "drop 6 ?v = ?b6 # drop 7 ?v" "drop 8 ?v = ?b8 # drop 9 ?v"
    using assms(1) Cons_nth_drop_Suc [of 6 ?v] Cons_nth_drop_Suc [of 8 ?v] by simp_all
  have "s ! 14 = hex_text (take 2 (drop 6 ?v)) ! 0" "s ! 19 = hex_text (take 2 (drop 8 ?v)) ! 0"
    unfolding s id_format_def Let_def using assms(1) by (simp_all add: nth_append)
  then have "s ! 14 = hex_digit (unat ?b6 div 16)" "s ! 19 = hex_digit (unat ?b8 div 16)"
    unfolding d by (simp_all add: hex_text_def hex_byte_def numeral_2_eq_2)
  moreover have "hex_digit (unat ?b6 div 16) = CHR ''4''" "hex_digit (unat ?b8 div 16) \<in> set ''89ab''"
    by (rule version_digit, rule variant_digit)
  ultimately show ?thesis using u is_uuid_Validate [OF u] by simp
qed

theorem id_New_valid_witness:
  "is_uuid (id_format (replicate 16 255)) \<and> id_Validate (id_format (replicate 16 255)) = None"
proof -
  have "id_New (Some (replicate 16 255)) = Inr (id_format (replicate 16 255))"
    by (simp add: id_New_def)
  then show ?thesis using id_New_valid [of "replicate 16 255"] by simp
qed

text \<open>
  Every canonical UUID passes \<^verbatim>\<open>Validate\<close>, and so do texts that are no UUID: the
  text of 36 dashes has no digit at all, and is accepted, since \<^verbatim>\<open>hex.Decode\<close> has no complaint
  about too few digits. Callers that go on to the database then get the database's error in the
  place of an invalid-input error.
\<close>

theorem id_Validate_incomplete:
  "(\<forall>s. is_uuid s \<longrightarrow> id_Validate s = None) \<and>
   id_Validate (replicate 36 CHR ''-'') = None \<and> \<not> is_uuid (replicate 36 CHR ''-'')"
proof (intro conjI allI impI)
  show "id_Validate s = None" if "is_uuid s" for s by (rule is_uuid_Validate [OF that])
  have "filter (\<lambda>c. c \<noteq> CHR ''-'') (replicate 36 CHR ''-'') = []" by simp
  then show "id_Validate (replicate 36 CHR ''-'') = None"
    by (simp add: id_Validate_None hex_decodes_def list_ex_iff)
  show "\<not> is_uuid (replicate 36 CHR ''-'')"
  proof
    assume "is_uuid (replicate 36 CHR ''-'')"
    then have "uuid_char (uuid_dashes ! 0) (replicate 36 CHR ''-'' ! 0)"
      unfolding is_uuid_def by (rule list_all2_nthD) (simp add: uuid_dashes_def)
    then show False by (simp add: uuid_char_def uuid_dashes_def nth_append)
  qed
qed

theorem id_Validate_incomplete_witness:
  "is_uuid (id_format (replicate 16 0)) \<and> id_Validate (id_format (replicate 16 0)) = None"
  using id_Validate_incomplete [THEN conjunct1] id_format_uuid [of "replicate 16 0"] by simp

end
