(* ===== verification/Schema.thy ===== *)
theory Schema
  imports Event Uuid
begin

text \<open>
  The relational schema of \<^verbatim>\<open>migrations/\<close> the PostgreSQL adapter works on: the tables as lists
  of rows with nullable columns as options, the constraints and triggers that reject a
  statement, and the deferred triggers that reject a commit. A violation is the driver error
  with its SQLSTATE and constraint name; checks come first, then unique indexes in the order of
  their creation, then foreign keys.
\<close>

section \<open>Rows\<close>

record wallet_row =
  wr_id :: string
  wr_player_id :: string
  wr_currency :: string
  wr_balance_minor :: int64
  wr_version :: int64
  wr_created_at :: time
  wr_updated_at :: time

record wager_row =
  gr_id :: string
  gr_origin :: origin
  gr_provider_id :: "string option"
  gr_external_transaction_id :: "string option"
  gr_idempotency_key :: "string option"
  gr_payload_hash :: "payload_hash option"
  gr_wallet_id :: string
  gr_player_id :: string
  gr_round_id :: "string option"
  gr_game_id :: "string option"
  gr_kind :: kind
  gr_status :: status
  gr_amount_minor :: int64
  gr_currency :: string
  gr_reference_external_transaction_id :: "string option"
  gr_reference_transaction_id :: "string option"
  gr_failure_code :: "string option"
  gr_result_balance_minor :: "int64 option"
  gr_reference_attempts :: int
  gr_next_attempt_at :: "time option"
  gr_expires_at :: "time option"
  gr_lease_token :: "string option"
  gr_locked_until :: "time option"
  gr_created_at :: time
  gr_updated_at :: time

record ledger_row =
  lr_id :: string
  lr_wallet_id :: string
  lr_transaction_id :: string
  lr_direction :: direction
  lr_amount_minor :: int64
  lr_currency :: string
  lr_balance_before_minor :: int64
  lr_balance_after_minor :: int64
  lr_wallet_version :: int64
  lr_created_at :: time

record inbox_row =
  ir_consumer_name :: string
  ir_message_id :: string
  ir_payload_hash :: payload_hash
  ir_received_at :: time
  ir_completed_at :: "time option"
  ir_transaction_id :: "string option"

record outbox_row =
  xr_event_id :: string
  xr_aggregate_id :: string
  xr_event_type :: event_type
  xr_event_version :: nat
  xr_correlation_id :: string
  xr_causation_id :: "string option"
  xr_payload :: json
  xr_occurred_at :: time
  xr_attempts :: int
  xr_next_attempt_at :: time
  xr_lease_token :: "string option"
  xr_locked_until :: "time option"
  xr_published_at :: "time option"
  xr_last_error :: "string option"

record database =
  wallets :: "wallet_row list"
  wagers :: "wager_row list"
  ledger :: "ledger_row list"
  inbox :: "inbox_row list"
  outbox :: "outbox_row list"

definition empty_database :: database where
  "empty_database = \<lparr>wallets = [], wagers = [], ledger = [], inbox = [], outbox = []\<rparr>"

section \<open>Immediate constraints\<close>

definition check_violation :: string where
  "check_violation = ''23514''"

definition unique_violation :: string where
  "unique_violation = ''23505''"

definition foreign_key_violation :: string where
  "foreign_key_violation = ''23503''"

text \<open>The first condition of the list that does not hold, as a driver error.\<close>

fun first_violation :: "(bool \<times> string \<times> string) list \<Rightarrow> err option" where
  "first_violation [] = None"
| "first_violation ((ok, sqlstate, name) # rest) =
     (if ok then first_violation rest else Some (PgError sqlstate name))"

lemma first_violation_None: "first_violation cs = None \<longleftrightarrow> list_all fst cs"
  by (induction cs rule: first_violation.induct) simp_all

subsection \<open>wallets\<close>

definition wallet_checks :: "wallet_row \<Rightarrow> (bool \<times> string \<times> string) list" where
  "wallet_checks r =
     [(wr_currency r \<in> set supportedCurrencies, check_violation, ''wallets_currency_check''),
      (0 \<le> sint (wr_balance_minor r), check_violation, ''wallets_balance_minor_check''),
      (1 \<le> sint (wr_version r), check_violation, ''wallets_version_check''),
      (wr_created_at r \<le> wr_updated_at r, check_violation, ''wallets_time_order'')]"

definition insert_wallet :: "wallet_row \<Rightarrow> database \<Rightarrow> database result" where
  "insert_wallet r d =
     unless_err (first_violation (wallet_checks r @
       [(\<not> list_ex (\<lambda>q. wr_id q = wr_id r) (wallets d), unique_violation, ''wallets_pkey''),
        (\<not> list_ex (\<lambda>q. wr_player_id q = wr_player_id r \<and> wr_currency q = wr_currency r) (wallets d),
         unique_violation, ''wallets_player_currency_key'')]))
      (Inr (d\<lparr>wallets := wallets d @ [r]\<rparr>))"

subsection \<open>wager transactions\<close>

definition is_null :: "'a option \<Rightarrow> bool" where
  "is_null x \<longleftrightarrow> x = None"

definition non_blank :: "string option \<Rightarrow> bool" where
  "non_blank x \<longleftrightarrow> x \<noteq> None \<and> x \<noteq> Some []"

definition wager_origin_fields :: "wager_row \<Rightarrow> bool" where
  "wager_origin_fields r \<longleftrightarrow>
     (gr_origin r = OriginInternal \<and> gr_kind r = KindOpening \<and> gr_status r = StatusProcessed \<and>
      is_null (gr_provider_id r) \<and> is_null (gr_external_transaction_id r) \<and>
      is_null (gr_idempotency_key r) \<and> is_null (gr_payload_hash r) \<and>
      is_null (gr_round_id r) \<and> is_null (gr_game_id r) \<and>
      is_null (gr_reference_external_transaction_id r)) \<or>
     (gr_origin r = OriginExternal \<and> gr_kind r \<noteq> KindOpening \<and>
      non_blank (gr_provider_id r) \<and> non_blank (gr_external_transaction_id r) \<and>
      non_blank (gr_idempotency_key r) \<and>
      (case gr_payload_hash r of None \<Rightarrow> False | Some h \<Rightarrow> length h = 32) \<and>
      non_blank (gr_round_id r) \<and> non_blank (gr_game_id r))"

fun wager_result_by_status :: "status \<Rightarrow> string option \<Rightarrow> int64 option \<Rightarrow> bool" where
  "wager_result_by_status StatusPending fc rb \<longleftrightarrow> is_null fc \<and> is_null rb"
| "wager_result_by_status StatusPendingReference fc rb \<longleftrightarrow> is_null fc \<and> is_null rb"
| "wager_result_by_status StatusProcessed fc rb \<longleftrightarrow> is_null fc \<and> \<not> is_null rb"
| "wager_result_by_status StatusRejected fc rb \<longleftrightarrow> \<not> is_null fc \<and> \<not> is_null rb"
| "wager_result_by_status StatusFailed fc rb \<longleftrightarrow> \<not> is_null fc \<and> is_null rb"
| "wager_result_by_status (StatusOther _) fc rb \<longleftrightarrow> False"

definition wager_reference_by_kind :: "wager_row \<Rightarrow> bool" where
  "wager_reference_by_kind r \<longleftrightarrow>
     (gr_kind r \<in> {KindRefund, KindRollback} \<and> \<not> is_null (gr_reference_external_transaction_id r)) \<or>
     gr_kind r = KindWin \<or>
     (gr_kind r \<in> {KindOpening, KindBet, KindLoss} \<and> is_null (gr_reference_external_transaction_id r))"

definition due_before_expiry :: "time option \<Rightarrow> time option \<Rightarrow> bool" where
  "due_before_expiry next expires \<longleftrightarrow>
     (case (next, expires) of (Some n, Some e) \<Rightarrow> n \<le> e | _ \<Rightarrow> True)"

definition wager_checks :: "wager_row \<Rightarrow> (bool \<times> string \<times> string) list" where
  "wager_checks r =
     [(origin_Valid (gr_origin r), check_violation, ''wager_transactions_origin_check''),
      (kind_Valid (gr_kind r), check_violation, ''wager_transactions_kind_check''),
      (status_Valid (gr_status r), check_violation, ''wager_transactions_status_check''),
      (0 \<le> sint (gr_amount_minor r), check_violation, ''wager_transactions_amount_minor_check''),
      (gr_currency r \<in> set supportedCurrencies, check_violation, ''wager_transactions_currency_check''),
      ((case gr_result_balance_minor r of None \<Rightarrow> True | Some b \<Rightarrow> 0 \<le> sint b), check_violation,
       ''wager_transactions_result_balance_minor_check''),
      (0 \<le> gr_reference_attempts r, check_violation, ''wager_transactions_reference_attempts_check''),
      (gr_created_at r \<le> gr_updated_at r, check_violation, ''wager_time_order''),
      ((if gr_kind r = KindLoss then gr_amount_minor r = 0 else 0 < sint (gr_amount_minor r)),
       check_violation, ''wager_amount_by_kind''),
      (wager_reference_by_kind r, check_violation, ''wager_reference_by_kind''),
      (wager_origin_fields r, check_violation, ''wager_origin_fields''),
      (wager_result_by_status (gr_status r) (gr_failure_code r) (gr_result_balance_minor r),
       check_violation, ''wager_result_by_status''),
      (gr_status r \<noteq> StatusPendingReference \<or>
         (\<not> is_null (gr_reference_external_transaction_id r) \<and> \<not> is_null (gr_next_attempt_at r) \<and>
          \<not> is_null (gr_expires_at r)), check_violation, ''wager_pending_reference_schedule''),
      (is_null (gr_reference_external_transaction_id r) \<or>
         gr_reference_external_transaction_id r \<noteq> gr_external_transaction_id r,
       check_violation, ''wager_reference_not_self''),
      (gr_status r \<noteq> StatusProcessed \<or> is_null (gr_reference_external_transaction_id r) \<or>
         \<not> is_null (gr_reference_transaction_id r), check_violation, ''wager_processed_reference_resolved''),
      (gr_status r \<noteq> StatusPendingReference \<or> due_before_expiry (gr_next_attempt_at r) (gr_expires_at r),
       check_violation, ''wager_pending_reference_due_before_expiry'')]"

definition is_reversal :: "wager_row \<Rightarrow> bool" where
  "is_reversal r \<longleftrightarrow> gr_status r = StatusProcessed \<and> gr_kind r \<in> {KindRefund, KindRollback}"

text \<open>The unique indexes of a row against the other rows of the table; NULL keys never collide.\<close>

definition same_key :: "'a option \<Rightarrow> 'a option \<Rightarrow> bool" where
  "same_key x y \<longleftrightarrow> x \<noteq> None \<and> x = y"

definition wager_uniques :: "wager_row \<Rightarrow> wager_row list \<Rightarrow> (bool \<times> string \<times> string) list" where
  "wager_uniques r others =
     [(\<not> list_ex (\<lambda>q. gr_id q = gr_id r) others, unique_violation, ''wager_transactions_pkey''),
      (\<not> (gr_origin r = OriginExternal \<and>
          list_ex (\<lambda>q. gr_origin q = OriginExternal \<and> same_key (gr_provider_id q) (gr_provider_id r) \<and>
            same_key (gr_idempotency_key q) (gr_idempotency_key r)) others),
       unique_violation, ''wager_provider_idempotency_key''),
      (\<not> (gr_origin r = OriginExternal \<and>
          list_ex (\<lambda>q. gr_origin q = OriginExternal \<and> same_key (gr_provider_id q) (gr_provider_id r) \<and>
            same_key (gr_external_transaction_id q) (gr_external_transaction_id r)) others),
       unique_violation, ''wager_provider_external_transaction_key''),
      (\<not> (gr_kind r = KindOpening \<and>
          list_ex (\<lambda>q. gr_kind q = KindOpening \<and> gr_wallet_id q = gr_wallet_id r) others),
       unique_violation, ''wager_one_opening_per_wallet''),
      (\<not> (is_reversal r \<and>
          list_ex (\<lambda>q. is_reversal q \<and> same_key (gr_reference_transaction_id q) (gr_reference_transaction_id r))
            others),
       unique_violation, ''wager_one_successful_direct_reversal'')]"

definition wager_references :: "wager_row \<Rightarrow> database \<Rightarrow> (bool \<times> string \<times> string) list" where
  "wager_references r d =
     [((case gr_reference_transaction_id r of None \<Rightarrow> True
        | Some x \<Rightarrow> gr_id r = x \<or> list_ex (\<lambda>q. gr_id q = x) (wagers d)),
       foreign_key_violation, ''wager_transactions_reference_transaction_id_fkey''),
      (list_ex (\<lambda>w. wr_id w = gr_wallet_id r \<and> wr_player_id w = gr_player_id r \<and>
         wr_currency w = gr_currency r) (wallets d),
       foreign_key_violation, ''wager_wallet_identity_fk'')]"

definition insert_wager :: "wager_row \<Rightarrow> database \<Rightarrow> database result" where
  "insert_wager r d =
     unless_err (first_violation (wager_checks r @ wager_uniques r (wagers d) @ wager_references r d))
      (Inr (d\<lparr>wagers := wagers d @ [r]\<rparr>))"

text \<open>The row trigger \<^verbatim>\<open>wager_protect_identity_and_terminal\<close>.\<close>

definition wager_identity :: "wager_row \<Rightarrow> _" where
  "wager_identity r =
     (gr_provider_id r, gr_external_transaction_id r, gr_idempotency_key r, gr_payload_hash r,
      gr_wallet_id r, gr_player_id r, gr_round_id r, gr_game_id r, gr_kind r, gr_amount_minor r, gr_currency r)"

definition protect_terminal_wager :: "wager_row \<Rightarrow> wager_row \<Rightarrow> err option" where
  "protect_terminal_wager old new =
     (if status_Terminal (gr_status old) \<and> new \<noteq> old then Some (PgError ''55000'' [])
      else if wager_identity new \<noteq> wager_identity old then Some (PgError ''55000'' [])
      else None)"

text \<open>
  An update of the rows that satisfy a condition, one row at a time: the constraints of the new
  row are checked against the other rows.
\<close>

fun update_wagers :: "(wager_row \<Rightarrow> bool) \<Rightarrow> (wager_row \<Rightarrow> wager_row) \<Rightarrow> wager_row list \<Rightarrow> wager_row list
    \<Rightarrow> database \<Rightarrow> (nat \<times> wager_row list) result" where
  "update_wagers P f prior [] d = Inr (0, prior)"
| "update_wagers P f prior (r # rest) d =
     (if P r then
        unless_err (protect_terminal_wager r (f r))
         (unless_err (first_violation (wager_checks (f r) @ wager_uniques (f r) (prior @ rest) @
            wager_references (f r) d))
          (and_then (update_wagers P f (prior @ [f r]) rest d) (\<lambda>(n, rows). Inr (Suc n, rows))))
      else update_wagers P f (prior @ [r]) rest d)"

subsection \<open>ledger entries\<close>

definition ledger_balance_equation :: "ledger_row \<Rightarrow> bool" where
  "ledger_balance_equation r \<longleftrightarrow>
     (lr_direction r = DirectionCredit \<and>
        sint (lr_balance_after_minor r) = sint (lr_balance_before_minor r) + sint (lr_amount_minor r)) \<or>
     (lr_direction r = DirectionDebit \<and>
        sint (lr_balance_after_minor r) = sint (lr_balance_before_minor r) - sint (lr_amount_minor r))"

definition insert_ledger :: "ledger_row \<Rightarrow> database \<Rightarrow> database result" where
  "insert_ledger r d =
     unless_err (first_violation
      [(direction_Valid (lr_direction r), check_violation, ''wallet_ledger_entries_direction_check''),
       (0 < sint (lr_amount_minor r), check_violation, ''wallet_ledger_entries_amount_minor_check''),
       (lr_currency r \<in> set supportedCurrencies, check_violation, ''wallet_ledger_entries_currency_check''),
       (0 \<le> sint (lr_balance_before_minor r), check_violation, ''wallet_ledger_entries_balance_before_minor_check''),
       (0 \<le> sint (lr_balance_after_minor r), check_violation, ''wallet_ledger_entries_balance_after_minor_check''),
       (1 \<le> sint (lr_wallet_version r), check_violation, ''wallet_ledger_entries_wallet_version_check''),
       (ledger_balance_equation r, check_violation, ''ledger_balance_equation''),
       (\<not> list_ex (\<lambda>q. lr_id q = lr_id r) (ledger d), unique_violation, ''wallet_ledger_entries_pkey''),
       (\<not> list_ex (\<lambda>q. lr_wallet_id q = lr_wallet_id r \<and> lr_transaction_id q = lr_transaction_id r) (ledger d),
        unique_violation, ''ledger_wallet_transaction_key''),
       (\<not> list_ex (\<lambda>q. lr_wallet_id q = lr_wallet_id r \<and> lr_wallet_version q = lr_wallet_version r) (ledger d),
        unique_violation, ''ledger_wallet_version_key''),
       (list_ex (\<lambda>w. wr_id w = lr_wallet_id r \<and> wr_currency w = lr_currency r) (wallets d),
        foreign_key_violation, ''ledger_wallet_fk''),
       (list_ex (\<lambda>g. gr_id g = lr_transaction_id r \<and> gr_wallet_id g = lr_wallet_id r \<and>
          gr_currency g = lr_currency r) (wagers d), foreign_key_violation, ''ledger_transaction_fk'')])
      (Inr (d\<lparr>ledger := ledger d @ [r]\<rparr>))"

subsection \<open>inbox and outbox\<close>

definition inbox_checks :: "inbox_row \<Rightarrow> database \<Rightarrow> (bool \<times> string \<times> string) list" where
  "inbox_checks r d =
     [(length (ir_payload_hash r) = 32, check_violation, ''consumer_inbox_payload_hash_check''),
      ((case ir_completed_at r of None \<Rightarrow> True | Some c \<Rightarrow> ir_received_at r \<le> c), check_violation,
       ''inbox_completion_time''),
      ((case ir_transaction_id r of None \<Rightarrow> True | Some x \<Rightarrow> list_ex (\<lambda>g. gr_id g = x) (wagers d)),
       foreign_key_violation, ''consumer_inbox_transaction_id_fkey'')]"

text \<open>\<^verbatim>\<open>INSERT ... ON CONFLICT (consumer_name, message_id) DO NOTHING\<close>\<close>

definition insert_inbox_or_ignore :: "inbox_row \<Rightarrow> database \<Rightarrow> database result" where
  "insert_inbox_or_ignore r d =
     unless_err (first_violation (inbox_checks r d))
      (if list_ex (\<lambda>q. ir_consumer_name q = ir_consumer_name r \<and> ir_message_id q = ir_message_id r) (inbox d)
       then Inr d else Inr (d\<lparr>inbox := inbox d @ [r]\<rparr>))"

definition insert_outbox :: "outbox_row \<Rightarrow> database \<Rightarrow> database result" where
  "insert_outbox r d =
     unless_err (first_violation
      [(1 \<le> xr_event_version r, check_violation, ''outbox_events_event_version_check''),
       (0 \<le> xr_attempts r, check_violation, ''outbox_events_attempts_check''),
       (\<not> list_ex (\<lambda>q. xr_event_id q = xr_event_id r) (outbox d), unique_violation, ''outbox_events_pkey'')])
      (Inr (d\<lparr>outbox := outbox d @ [r]\<rparr>))"

section \<open>Deferred triggers\<close>

text \<open>
  The constraint triggers run at commit for every row inserted or updated since the transaction
  began. No transaction of the program writes a row twice, so comparing the tables at its begin
  and end gives the rows and the values of \<^verbatim>\<open>OLD\<close> and \<^verbatim>\<open>NEW\<close>.
\<close>

definition validate_wallet_financial_change ::
  "wallet_row list \<Rightarrow> database \<Rightarrow> wallet_row \<Rightarrow> (bool \<times> string \<times> string) list" where
  "validate_wallet_financial_change olds d new =
     (let booked = (\<lambda>prior_balance. list_ex (\<lambda>e. lr_wallet_id e = wr_id new \<and> lr_wallet_version e = wr_version new \<and>
            lr_balance_before_minor e = prior_balance \<and> lr_balance_after_minor e = wr_balance_minor new \<and>
            lr_currency e = wr_currency new) (ledger d))
      in (case find (\<lambda>o'. wr_id o' = wr_id new) olds of
            None \<Rightarrow> [(wr_balance_minor new = 0 \<or> booked 0, check_violation, [])]
          | Some old \<Rightarrow>
              [(wr_player_id new = wr_player_id old \<and> wr_currency new = wr_currency old \<and>
                wr_created_at new = wr_created_at old, ''55000'', []),
               ((if wr_balance_minor new = wr_balance_minor old then wr_version new = wr_version old
                 else wr_version new = wr_version old + 1 \<and> booked (wr_balance_minor old)), check_violation, [])]))"

definition reference_semantics :: "wager_row \<Rightarrow> wager_row \<Rightarrow> bool" where
  "reference_semantics t ref \<longleftrightarrow>
     gr_status ref = StatusProcessed \<and> same_key (gr_provider_id ref) (gr_provider_id t) \<and>
     same_key (gr_external_transaction_id ref) (gr_reference_external_transaction_id t) \<and>
     gr_wallet_id ref = gr_wallet_id t \<and> gr_player_id ref = gr_player_id t \<and>
     gr_currency ref = gr_currency t \<and> same_key (gr_round_id ref) (gr_round_id t) \<and>
     (gr_kind t = KindWin \<or> gr_amount_minor t = gr_amount_minor ref) \<and>
     ((gr_kind t = KindRefund \<and> gr_kind ref = KindBet) \<or>
      (gr_kind t = KindRollback \<and> gr_kind ref \<in> {KindBet, KindWin, KindRefund}) \<or>
      (gr_kind t = KindWin \<and> gr_kind ref = KindBet))"

definition direction_semantics :: "wager_row \<Rightarrow> wager_row option \<Rightarrow> ledger_row \<Rightarrow> bool" where
  "direction_semantics t ref e \<longleftrightarrow>
     (gr_kind t = KindOpening \<and> lr_direction e = DirectionCredit \<and> lr_balance_before_minor e = 0) \<or>
     (gr_kind t = KindBet \<and> lr_direction e = DirectionDebit) \<or>
     (gr_kind t \<in> {KindWin, KindRefund} \<and> lr_direction e = DirectionCredit) \<or>
     (gr_kind t = KindRollback \<and>
        (case ref of None \<Rightarrow> False
         | Some r \<Rightarrow> (gr_kind r = KindBet \<and> lr_direction e = DirectionCredit) \<or>
             (gr_kind r \<in> {KindWin, KindRefund} \<and> lr_direction e = DirectionDebit)))"

definition find_wager :: "string \<Rightarrow> database \<Rightarrow> wager_row option" where
  "find_wager i d = find (\<lambda>g. gr_id g = i) (wagers d)"

definition validate_ledger_financial_state :: "database \<Rightarrow> ledger_row \<Rightarrow> bool" where
  "validate_ledger_financial_state d e =
     list_ex (\<lambda>w. wr_id w = lr_wallet_id e \<and> wr_currency w = lr_currency e \<and>
        wr_version w = lr_wallet_version e \<and> wr_balance_minor w = lr_balance_after_minor e \<and>
        list_ex (\<lambda>t. gr_id t = lr_transaction_id e \<and> gr_wallet_id t = lr_wallet_id e \<and>
          gr_currency t = lr_currency e \<and> gr_amount_minor t = lr_amount_minor e \<and>
          gr_result_balance_minor t = Some (lr_balance_after_minor e) \<and>
          gr_status t = StatusProcessed \<and> gr_kind t \<noteq> KindLoss \<and>
          (let ref = Option.bind (gr_reference_transaction_id t) (\<lambda>i. find_wager i d)
           in direction_semantics t ref e \<and>
              (gr_reference_transaction_id t = None \<or>
               (case ref of None \<Rightarrow> False | Some r \<Rightarrow> reference_semantics t r)))) (wagers d))
      (wallets d)"

definition validate_wager_financial_result :: "database \<Rightarrow> wager_row \<Rightarrow> bool" where
  "validate_wager_financial_result d new =
     (if gr_status new = StatusProcessed \<and> gr_kind new \<noteq> KindLoss then
        list_ex (\<lambda>e. lr_transaction_id e = gr_id new \<and> lr_wallet_id e = gr_wallet_id new \<and>
          lr_currency e = gr_currency new \<and>
          Some (lr_balance_after_minor e) = gr_result_balance_minor new) (ledger d)
      else if (gr_status new = StatusProcessed \<and> gr_kind new = KindLoss) \<or> gr_status new = StatusRejected then
        list_ex (\<lambda>w. wr_id w = gr_wallet_id new \<and> wr_currency w = gr_currency new \<and>
          Some (wr_balance_minor w) = gr_result_balance_minor new) (wallets d)
      else True)"

definition deferred_violation :: "database \<Rightarrow> database \<Rightarrow> err option" where
  "deferred_violation old new =
     first_violation
      (concat (map (validate_wallet_financial_change (wallets old) new)
          (filter (\<lambda>w. w \<notin> set (wallets old)) (wallets new))) @
       [(list_all (validate_ledger_financial_state new)
          (filter (\<lambda>e. e \<notin> set (ledger old)) (ledger new)), check_violation, []),
        (list_all (validate_wager_financial_result new)
          (filter (\<lambda>g. g \<notin> set (wagers old)) (wagers new)), check_violation, [])])"

end
