(* ===== verification/Postgres.thy ===== *)
theory Postgres
  imports Schema
begin

text \<open>
  The package \<^verbatim>\<open>internal/adapters/postgres\<close>, its unit of work and repositories, over the
  schema. The environment of the process (clocks, random source, the failures of connections and
  statements, PostgreSQL's own functions) is the parameter \<open>env\<close>; the laws the code relies on are
  collected in \<open>env_ok\<close>. The state \<open>world\<close> is the database and the number of interactions so far,
  which indexes the environment's answers. Transactions run one after the other: the row locks
  and isolation levels that make concurrent ones behave so are not modelled.
\<close>

section \<open>Environment\<close>

text \<open>
  The errors that come from outside the program: those PostgreSQL reports, those of the
  connection or the context, and others of the driver. None of them is one of the program's own
  sentinel errors.
\<close>

datatype fault = FaultPg string string | FaultTransport transport | FaultOther string

fun fault_err :: "fault \<Rightarrow> err" where
  "fault_err (FaultPg sqlstate name) = PgError sqlstate name"
| "fault_err (FaultTransport t) = Transport t"
| "fault_err (FaultOther s) = Opaque s"

lemma fault_err_no_sentinel [simp]: "\<not> errors_is (fault_err f) s"
  by (cases f) simp_all

record env =
  env_now :: "nat \<Rightarrow> time"
  env_random :: "nat \<Rightarrow> byte list option"
  env_fault :: "nat \<Rightarrow> fault option"
  env_commit :: "nat \<Rightarrow> (fault \<times> bool) option"
  env_cancelled :: "nat \<Rightarrow> transport option"
  env_timestamptz :: "time \<Rightarrow> time"
  env_db_now :: "nat \<Rightarrow> time"
  env_gen_random_uuid :: "nat \<Rightarrow> string"
  env_sha256 :: "string \<Rightarrow> payload_hash"
  env_jitter :: "nat \<Rightarrow> duration \<Rightarrow> duration"

record world =
  tick :: nat
  db :: database

text \<open>
  The laws of the environment: clocks are past the Unix epoch; \<^verbatim>\<open>rand.Read\<close> fills sixteen
  bytes; \<^verbatim>\<open>timestamptz\<close> keeps the order of instants and the epoch; \<^verbatim>\<open>gen_random_uuid\<close> prints
  a canonical UUID; \<^verbatim>\<open>sha256.Sum256\<close> has 32 bytes; \<^verbatim>\<open>rand.Int63n(max)\<close> is
  non-negative and below \<^verbatim>\<open>max\<close>; a commit that PostgreSQL itself reports as failed has not
  taken effect (one whose connection broke may have).
\<close>

definition unix_epoch :: time where
  "unix_epoch = 62135596800 * time_second"

text \<open>An error that neither PostgreSQL reported nor the program made: a broken connection.\<close>

definition ambiguous :: "err \<Rightarrow> bool" where
  "ambiguous e \<longleftrightarrow> errors_as_pg e = None \<and> (\<forall>s. \<not> errors_is e s)"

definition env_ok :: "env \<Rightarrow> bool" where
  "env_ok env \<longleftrightarrow>
     (\<forall>n. unix_epoch \<le> env_now env n) \<and> (\<forall>n. unix_epoch \<le> env_db_now env n) \<and>
     (\<forall>n bs. env_random env n = Some bs \<longrightarrow> length bs = 16) \<and>
     (\<forall>s t. s \<le> t \<longrightarrow> env_timestamptz env s \<le> env_timestamptz env t) \<and>
     env_timestamptz env unix_epoch = unix_epoch \<and>
     (\<forall>n. is_uuid (env_gen_random_uuid env n)) \<and>
     (\<forall>s. length (env_sha256 env s) = 32) \<and>
     (\<forall>n m. 0 < m \<longrightarrow> 0 \<le> env_jitter env n m \<and> env_jitter env n m < m) \<and>
     (\<forall>n e. env_commit env n = Some (e, True) \<longrightarrow> ambiguous (fault_err e))"

section \<open>Interactions\<close>

definition step :: "world \<Rightarrow> world" where
  "step w = w\<lparr>tick := Suc (tick w)\<rparr>"

definition time_Now :: "env \<Rightarrow> (world, time) io" where
  "time_Now env = (\<lambda>w. (Inr (env_now env (tick w)), step w))"

definition newID :: "env \<Rightarrow> (world, string) io" where
  "newID env = (\<lambda>w. (id_New (env_random env (tick w)), step w))"

definition jitter :: "env \<Rightarrow> duration \<Rightarrow> (world, duration) io" where
  "jitter env m = (\<lambda>w. (Inr (env_jitter env (tick w) m), step w))"

text \<open>
  A statement: it fails for a reason outside the schema, or evaluates on the tables. The answers
  of the environment at the time of the statement are available to it.
\<close>

definition sql :: "env \<Rightarrow> (nat \<Rightarrow> database \<Rightarrow> ('a \<times> database) result) \<Rightarrow> (world, 'a) io" where
  "sql env f = (\<lambda>w. case env_fault env (tick w) of
      Some e \<Rightarrow> (Inl (fault_err e), step w)
    | None \<Rightarrow> (case f (tick w) (db w) of
        Inl e \<Rightarrow> (Inl e, step w)
      | Inr (x, d) \<Rightarrow> (Inr x, (step w)\<lparr>db := d\<rparr>)))"

definition exec :: "env \<Rightarrow> (database \<Rightarrow> database result) \<Rightarrow> (world, unit) io" where
  "exec env f = sql env (\<lambda>_ d. and_then (f d) (\<lambda>d'. Inr ((), d')))"

definition query :: "env \<Rightarrow> (database \<Rightarrow> 'a result) \<Rightarrow> (world, 'a) io" where
  "query env f = sql env (\<lambda>_ d. and_then (f d) (\<lambda>x. Inr (x, d)))"

text \<open>
  A parameter of type \<^verbatim>\<open>uuid\<close>: PostgreSQL refuses a text that is not one. Every caller passes
  lower-case texts with the dashes in place, on which the accepted ones are the canonical ones.
\<close>

definition uuid_param :: "string \<Rightarrow> 'a result \<Rightarrow> 'a result" where
  "uuid_param s r = (if is_uuid s then r else Inl (PgError ''22P02'' []))"

section \<open>Unit of work\<close>

definition rollback_error :: "env \<Rightarrow> nat \<Rightarrow> err \<Rightarrow> err" where
  "rollback_error env n e = (case env_fault env n of None \<Rightarrow> e | Some r \<Rightarrow> Join e (fault_err r))"

definition within :: "env \<Rightarrow> (world, 'a) io \<Rightarrow> (world, 'a) io" where
  "within env work = (\<lambda>w.
     (case env_fault env (tick w) of
        Some e \<Rightarrow> (Inl (fault_err e), step w)
      | None \<Rightarrow>
          (case work (step w) of
             (Inl e, w') \<Rightarrow> (Inl (rollback_error env (tick w') e), (step w')\<lparr>db := db w\<rparr>)
           | (Inr x, w') \<Rightarrow>
               (case deferred_violation (db w) (db w') of
                  Some e \<Rightarrow> (Inl e, (step w')\<lparr>db := db w\<rparr>)
                | None \<Rightarrow>
                    (case env_commit env (tick w') of
                       None \<Rightarrow> (Inr x, step w')
                     | Some (e, applied) \<Rightarrow>
                         (Inl (fault_err e), (step w')\<lparr>db := (if applied then db w' else db w)\<rparr>))))))"

definition ReadCommitted :: "env \<Rightarrow> (world, 'a) io \<Rightarrow> (world, 'a) io" where
  "ReadCommitted env work = within env work"

definition RepeatableReadOnly :: "env \<Rightarrow> (world, 'a) io \<Rightarrow> (world, 'a) io" where
  "RepeatableReadOnly env work = within env work"

definition retryableTransactionAbort :: "err \<Rightarrow> bool" where
  "retryableTransactionAbort e \<longleftrightarrow>
     (case errors_as_pg e of None \<Rightarrow> False | Some (sqlstate, _) \<Rightarrow> sqlstate = ''40P01'' \<or> sqlstate = ''40001'')"

text \<open>
  The loop of \<^verbatim>\<open>ReadCommittedWithRetry\<close>, by the number of attempts left; the pause between
  attempts ends early when the context is done.
\<close>

fun attempts :: "env \<Rightarrow> nat \<Rightarrow> (world, 'a) io \<Rightarrow> (world, 'a) io" where
  "attempts env 0 work w = (Inl (Opaque ''no attempt''), w)"
| "attempts env (Suc n) work w =
     (case ReadCommitted env work w of
        (Inr x, w') \<Rightarrow> (Inr x, w')
      | (Inl e, w') \<Rightarrow>
          if \<not> retryableTransactionAbort e \<or> n = 0 then (Inl e, w')
          else (case env_cancelled env (tick w') of
              Some c \<Rightarrow> (Inl (Transport c), step w')
            | None \<Rightarrow> attempts env n work (step w')))"

definition ReadCommittedWithRetry :: "env \<Rightarrow> (world, 'a) io \<Rightarrow> (world, 'a) io" where
  "ReadCommittedWithRetry env work = attempts env 3 work"

section \<open>Wallet repository\<close>

definition wallet_row_of :: "env \<Rightarrow> wallet \<Rightarrow> wallet_row" where
  "wallet_row_of env w =
     \<lparr>wr_id = w_id w, wr_player_id = w_playerID w, wr_currency = code (currency (w_balance w)),
      wr_balance_minor = minor (w_balance w), wr_version = w_version w,
      wr_created_at = env_timestamptz env (w_createdAt w), wr_updated_at = env_timestamptz env (w_updatedAt w)\<rparr>"

definition wallet_Insert :: "env \<Rightarrow> wallet \<Rightarrow> (world, unit) io" where
  "wallet_Insert env entity =
     exec env (\<lambda>d. uuid_param (w_id entity) (uuid_param (w_playerID entity)
       (insert_wallet (wallet_row_of env entity) d)))"

definition wallet_of_row :: "wallet_row \<Rightarrow> wallet result" where
  "wallet_of_row r =
     and_then (ParseCurrency (wr_currency r)) (\<lambda>c.
     and_then (money_New (wr_balance_minor r) c) (\<lambda>b.
     wallet_Rehydrate \<lparr>w_id = wr_id r, w_playerID = wr_player_id r, w_balance = b,
       w_version = wr_version r, w_createdAt = wr_created_at r, w_updatedAt = wr_updated_at r\<rparr>))"

definition select_wallet :: "string \<Rightarrow> database \<Rightarrow> wallet_row result" where
  "select_wallet i d =
     uuid_param i (case find (\<lambda>r. wr_id r = i) (wallets d) of
        None \<Rightarrow> Inl (Sentinel postgres_ErrNotFound)
      | Some r \<Rightarrow> Inr r)"

definition wallet_find :: "env \<Rightarrow> string \<Rightarrow> (world, wallet) io" where
  "wallet_find env i =
     io_try (query env (select_wallet i)) (\<lambda>r. io_lift (wallet_of_row r))"

definition wallet_FindByID :: "env \<Rightarrow> string \<Rightarrow> (world, wallet) io" where
  "wallet_FindByID env i = wallet_find env i"

definition wallet_FindByIDForUpdate :: "env \<Rightarrow> string \<Rightarrow> (world, wallet) io" where
  "wallet_FindByIDForUpdate env i = wallet_find env i"

fun update_wallets :: "(wallet_row \<Rightarrow> bool) \<Rightarrow> (wallet_row \<Rightarrow> wallet_row) \<Rightarrow> wallet_row list
    \<Rightarrow> (nat \<times> wallet_row list) result" where
  "update_wallets P f [] = Inr (0, [])"
| "update_wallets P f (r # rest) =
     (if P r then
        unless_err (first_violation (wallet_checks (f r)))
         (and_then (update_wallets P f rest) (\<lambda>(n, rows). Inr (Suc n, f r # rows)))
      else and_then (update_wallets P f rest) (\<lambda>(n, rows). Inr (n, r # rows)))"

definition wallet_Update :: "env \<Rightarrow> wallet \<Rightarrow> (world, unit) io" where
  "wallet_Update env entity =
     (if sint (w_version entity) \<le> 1 then io_throw (Sentinel postgres_ErrConcurrentWrite)
      else io_try
       (sql env (\<lambda>_ d. uuid_param (w_id entity)
         (and_then (update_wallets (\<lambda>r. wr_id r = w_id entity \<and> wr_version r = w_version entity - 1)
            (\<lambda>r. r\<lparr>wr_balance_minor := minor (w_balance entity), wr_version := w_version entity,
               wr_updated_at := env_timestamptz env (w_updatedAt entity)\<rparr>) (wallets d))
          (\<lambda>(n, rows). Inr (n, d\<lparr>wallets := rows\<rparr>)))))
       (\<lambda>n. if n \<noteq> 1 then io_throw (Sentinel postgres_ErrConcurrentWrite) else io_return ()))"

section \<open>Wager repository\<close>

record reference_schedule =
  rs_NextAttemptAt :: time
  rs_ExpiresAt :: time

definition schedule_valid :: "reference_schedule \<Rightarrow> bool" where
  "schedule_valid s \<longleftrightarrow>
     \<not> is_zero_time (rs_NextAttemptAt s) \<and> \<not> is_zero_time (rs_ExpiresAt s) \<and>
     rs_NextAttemptAt s < rs_ExpiresAt s"

definition nullString :: "string \<Rightarrow> string option" where
  "nullString v = (if v = [] then None else Some v)"

definition textValue :: "string option \<Rightarrow> string" where
  "textValue v = (case v of None \<Rightarrow> [] | Some s \<Rightarrow> s)"

definition wager_row_of :: "env \<Rightarrow> transaction \<Rightarrow> reference_schedule option \<Rightarrow> wager_row" where
  "wager_row_of env t schedule =
     \<lparr>gr_id = t_id t, gr_origin = t_origin t, gr_provider_id = nullString (t_providerID t),
      gr_external_transaction_id = nullString (t_externalTransactionID t),
      gr_idempotency_key = nullString (t_idempotencyKey t),
      gr_payload_hash = (if t_origin t = OriginExternal then Some (t_payloadHash t) else None),
      gr_wallet_id = t_walletID t, gr_player_id = t_playerID t, gr_round_id = nullString (t_roundID t),
      gr_game_id = nullString (t_gameID t), gr_kind = t_kind t, gr_status = t_status t,
      gr_amount_minor = minor (t_amount t), gr_currency = code (currency (t_amount t)),
      gr_reference_external_transaction_id = nullString (t_referenceExternalTransactionID t),
      gr_reference_transaction_id = nullString (t_referenceTransactionID t),
      gr_failure_code = nullString (t_failureCode t),
      gr_result_balance_minor = map_option minor (t_resultBalance t),
      gr_reference_attempts = 0,
      gr_next_attempt_at = map_option (\<lambda>s. env_timestamptz env (rs_NextAttemptAt s)) schedule,
      gr_expires_at = map_option (\<lambda>s. env_timestamptz env (rs_ExpiresAt s)) schedule,
      gr_lease_token = None, gr_locked_until = None,
      gr_created_at = env_timestamptz env (t_createdAt t), gr_updated_at = env_timestamptz env (t_updatedAt t)\<rparr>"

definition optional_uuid_param :: "string option \<Rightarrow> 'a result \<Rightarrow> 'a result" where
  "optional_uuid_param s r = (case s of None \<Rightarrow> r | Some v \<Rightarrow> uuid_param v r)"

definition wager_Insert :: "env \<Rightarrow> transaction \<Rightarrow> reference_schedule option \<Rightarrow> (world, unit) io" where
  "wager_Insert env entity schedule =
     (if t_status entity = StatusPendingReference \<and>
        (case schedule of None \<Rightarrow> True | Some s \<Rightarrow> \<not> schedule_valid s)
      then io_throw (Sentinel postgres_ErrInvalidSchedule)
      else if t_status entity \<noteq> StatusPendingReference \<and> schedule \<noteq> None
      then io_throw (Sentinel postgres_ErrInvalidSchedule)
      else exec env (\<lambda>d. uuid_param (t_id entity) (uuid_param (t_walletID entity) (uuid_param (t_playerID entity)
        (optional_uuid_param (nullString (t_referenceTransactionID entity))
          (insert_wager (wager_row_of env entity schedule) d))))))"

definition scan_hash :: "payload_hash option \<Rightarrow> payload_hash result" where
  "scan_hash h =
     (case h of None \<Rightarrow> Inr zero_hash
      | Some bytes \<Rightarrow>
          if bytes = [] then Inr zero_hash
          else if length bytes \<noteq> length zero_hash then Inl (Opaque ''payload hash length'')
          else Inr bytes)"

definition scanWager :: "wager_row \<Rightarrow> transaction result" where
  "scanWager r =
     and_then (scan_hash (gr_payload_hash r)) (\<lambda>hash.
     and_then (ParseCurrency (gr_currency r)) (\<lambda>c.
     and_then (money_New (gr_amount_minor r) c) (\<lambda>amount.
     and_then (case gr_result_balance_minor r of None \<Rightarrow> Inr None
               | Some b \<Rightarrow> and_then (money_New b c) (\<lambda>m. Inr (Some m))) (\<lambda>balance.
     transaction_Rehydrate
      \<lparr>t_id = gr_id r, t_origin = gr_origin r, t_providerID = textValue (gr_provider_id r),
       t_externalTransactionID = textValue (gr_external_transaction_id r),
       t_idempotencyKey = textValue (gr_idempotency_key r), t_payloadHash = hash,
       t_walletID = gr_wallet_id r, t_playerID = gr_player_id r, t_roundID = textValue (gr_round_id r),
       t_gameID = textValue (gr_game_id r), t_kind = gr_kind r, t_amount = amount,
       t_referenceExternalTransactionID = textValue (gr_reference_external_transaction_id r),
       t_referenceTransactionID = textValue (gr_reference_transaction_id r), t_status = gr_status r,
       t_failureCode = textValue (gr_failure_code r), t_resultBalance = balance,
       t_createdAt = gr_created_at r, t_updatedAt = gr_updated_at r\<rparr>))))"

text \<open>A query for at most one row, scanned into a transaction.\<close>

definition select_wager :: "(wager_row \<Rightarrow> bool) \<Rightarrow> database \<Rightarrow> transaction result" where
  "select_wager P d =
     (case find P (wagers d) of
        None \<Rightarrow> Inl (Sentinel postgres_ErrNotFound)
      | Some r \<Rightarrow> scanWager r)"

definition wager_FindByID :: "env \<Rightarrow> string \<Rightarrow> (world, transaction) io" where
  "wager_FindByID env i = query env (\<lambda>d. uuid_param i (select_wager (\<lambda>r. gr_id r = i) d))"

definition FindByProviderIdempotencyKey :: "env \<Rightarrow> string \<Rightarrow> string \<Rightarrow> (world, transaction) io" where
  "FindByProviderIdempotencyKey env providerID key =
     query env (select_wager (\<lambda>r. gr_provider_id r = Some providerID \<and> gr_idempotency_key r = Some key))"

definition FindByProviderExternalID :: "env \<Rightarrow> string \<Rightarrow> string \<Rightarrow> (world, transaction) io" where
  "FindByProviderExternalID env providerID externalID =
     query env (select_wager (\<lambda>r. gr_provider_id r = Some providerID \<and>
       gr_external_transaction_id r = Some externalID))"

definition HasProcessedReversal :: "env \<Rightarrow> string \<Rightarrow> (world, bool) io" where
  "HasProcessedReversal env i =
     query env (\<lambda>d. uuid_param i
       (Inr (list_ex (\<lambda>r. gr_reference_transaction_id r = Some i \<and> is_reversal r) (wagers d))))"

definition CompletePending :: "env \<Rightarrow> transaction \<Rightarrow> string \<Rightarrow> (world, unit) io" where
  "CompletePending env entity token =
     (if token = [] \<or> \<not> status_Terminal (t_status entity)
      then io_throw (Sentinel postgres_ErrInvalidSchedule)
      else io_try
       (sql env (\<lambda>_ d. uuid_param (t_id entity) (uuid_param token
         (optional_uuid_param (nullString (t_referenceTransactionID entity))
          (and_then (update_wagers
              (\<lambda>r. gr_id r = t_id entity \<and> gr_status r = StatusPendingReference \<and> gr_lease_token r = Some token)
              (\<lambda>r. r\<lparr>gr_status := t_status entity,
                 gr_reference_transaction_id := nullString (t_referenceTransactionID entity),
                 gr_failure_code := nullString (t_failureCode entity),
                 gr_result_balance_minor := map_option minor (t_resultBalance entity),
                 gr_next_attempt_at := None, gr_lease_token := None, gr_locked_until := None,
                 gr_updated_at := env_timestamptz env (t_updatedAt entity)\<rparr>) [] (wagers d) d)
            (\<lambda>(n, rows). Inr (n, d\<lparr>wagers := rows\<rparr>)))))))
       (\<lambda>n. if n \<noteq> 1 then io_throw (Sentinel postgres_ErrConcurrentWrite) else io_return ()))"

section \<open>Ledger, outbox and inbox repositories\<close>

definition ledger_row_of :: "env \<Rightarrow> entry \<Rightarrow> ledger_row" where
  "ledger_row_of env e =
     \<lparr>lr_id = e_id e, lr_wallet_id = e_walletID e, lr_transaction_id = e_transactionID e,
      lr_direction = e_direction e, lr_amount_minor = minor (e_amount e),
      lr_currency = code (currency (e_amount e)), lr_balance_before_minor = minor (e_balanceBefore e),
      lr_balance_after_minor = minor (e_balanceAfter e), lr_wallet_version = e_walletVersion e,
      lr_created_at = env_timestamptz env (e_createdAt e)\<rparr>"

definition ledger_Insert :: "env \<Rightarrow> entry \<Rightarrow> (world, unit) io" where
  "ledger_Insert env e =
     exec env (\<lambda>d. uuid_param (e_id e) (uuid_param (e_walletID e) (uuid_param (e_transactionID e)
       (insert_ledger (ledger_row_of env e) d))))"

definition scanLedgerEntry :: "ledger_row \<Rightarrow> entry result" where
  "scanLedgerEntry r =
     and_then (ParseCurrency (lr_currency r)) (\<lambda>c.
     and_then (money_New (lr_amount_minor r) c) (\<lambda>amount.
     and_then (money_New (lr_balance_before_minor r) c) (\<lambda>prior.
     and_then (money_New (lr_balance_after_minor r) c) (\<lambda>after.
     ledger_Rehydrate \<lparr>e_id = lr_id r, e_walletID = lr_wallet_id r, e_transactionID = lr_transaction_id r,
       e_direction = lr_direction r, e_amount = amount, e_balanceBefore = prior, e_balanceAfter = after,
       e_walletVersion = lr_wallet_version r, e_createdAt = lr_created_at r\<rparr>))))"

definition outbox_row_of :: "env \<Rightarrow> integration_event \<Rightarrow> json \<Rightarrow> outbox_row" where
  "outbox_row_of env e payload =
     \<lparr>xr_event_id = ev_eventID e, xr_aggregate_id = ev_aggregateID e, xr_event_type = ev_eventType e,
      xr_event_version = ev_version e, xr_correlation_id = ev_correlationID e,
      xr_causation_id = nullString (ev_causationID e), xr_payload = payload,
      xr_occurred_at = env_timestamptz env (ev_occurredAt e), xr_attempts = 0,
      xr_next_attempt_at = env_timestamptz env (ev_occurredAt e), xr_lease_token = None, xr_locked_until = None,
      xr_published_at = None, xr_last_error = None\<rparr>"

definition outbox_Insert :: "env \<Rightarrow> integration_event \<Rightarrow> (world, unit) io" where
  "outbox_Insert env domainEvent =
     io_try (io_lift (event_MarshalJSON domainEvent)) (\<lambda>payload.
     exec env (\<lambda>d. uuid_param (ev_eventID domainEvent) (uuid_param (ev_aggregateID domainEvent)
       (insert_outbox (outbox_row_of env domainEvent payload) d))))"

record claim =
  cl_Completed :: bool
  cl_TransactionID :: string

definition inbox_Claim :: "env \<Rightarrow> string \<Rightarrow> string \<Rightarrow> payload_hash \<Rightarrow> time \<Rightarrow> (world, claim) io" where
  "inbox_Claim env consumer messageID hash receivedAt =
     io_try (exec env (insert_inbox_or_ignore
       \<lparr>ir_consumer_name = consumer, ir_message_id = messageID, ir_payload_hash = hash,
        ir_received_at = env_timestamptz env receivedAt, ir_completed_at = None, ir_transaction_id = None\<rparr>)) (\<lambda>_.
     io_try (query env (\<lambda>d.
       (case find (\<lambda>r. ir_consumer_name r = consumer \<and> ir_message_id r = messageID) (inbox d) of
          None \<Rightarrow> Inl (Sentinel pgx_ErrNoRows) | Some r \<Rightarrow> Inr r))) (\<lambda>r.
     if ir_payload_hash r \<noteq> hash then io_throw (Sentinel ingestion_ErrMessageConflict)
     else if ir_completed_at r \<noteq> None \<and> ir_transaction_id r = None
     then io_throw (Opaque ''completed inbox message has no transaction'')
     else io_return \<lparr>cl_Completed = (ir_completed_at r \<noteq> None),
       cl_TransactionID = textValue (ir_transaction_id r)\<rparr>))"

fun update_inbox :: "(inbox_row \<Rightarrow> bool) \<Rightarrow> (inbox_row \<Rightarrow> inbox_row) \<Rightarrow> database \<Rightarrow> inbox_row list
    \<Rightarrow> (nat \<times> inbox_row list) result" where
  "update_inbox P f d [] = Inr (0, [])"
| "update_inbox P f d (r # rest) =
     (if P r then
        unless_err (first_violation (inbox_checks (f r) d))
         (and_then (update_inbox P f d rest) (\<lambda>(n, rows). Inr (Suc n, f r # rows)))
      else and_then (update_inbox P f d rest) (\<lambda>(n, rows). Inr (n, r # rows)))"

definition inbox_Complete :: "env \<Rightarrow> string \<Rightarrow> string \<Rightarrow> string \<Rightarrow> time \<Rightarrow> (world, unit) io" where
  "inbox_Complete env consumer messageID transactionID completedAt =
     io_try
      (sql env (\<lambda>_ d. uuid_param transactionID
        (and_then (update_inbox
            (\<lambda>r. ir_consumer_name r = consumer \<and> ir_message_id r = messageID \<and> ir_completed_at r = None)
            (\<lambda>r. r\<lparr>ir_completed_at := Some (env_timestamptz env completedAt),
               ir_transaction_id := Some transactionID\<rparr>) d (inbox d))
          (\<lambda>(n, rows). Inr (n, d\<lparr>inbox := rows\<rparr>)))))
      (\<lambda>n. if n \<noteq> 1 then io_throw (Sentinel postgres_ErrConcurrentWrite) else io_return ())"

section \<open>Inversion of successful statements\<close>

lemma step_simps [simp]: "db (step w) = db w" "tick (step w) = Suc (tick w)"
  by (simp_all add: step_def)

lemma time_Now_InrE [elim!, io_elims]:
  assumes "time_Now env w = (Inr t, w')"
  obtains "t = env_now env (tick w)" "db w' = db w"
  using assms by (auto simp: time_Now_def)

lemma newID_InrE [elim!, io_elims]:
  assumes "newID env w = (Inr i, w')"
  obtains "id_New (env_random env (tick w)) = Inr i" "db w' = db w"
  using assms by (auto simp: newID_def)

abbreviation same_db :: "world \<Rightarrow> world \<Rightarrow> bool" where
  "same_db w w' \<equiv> db w' = db w"

lemma same_db_basic [simp]:
  "io_keeps same_db (newID env)" "io_keeps same_db (time_Now env)" "io_keeps same_db (jitter env m)"
  by (simp_all add: io_keeps_def newID_def time_Now_def jitter_def)

lemma sql_InrE [elim!, io_elims]:
  assumes "sql env f w = (Inr x, w')"
  obtains "f (tick w) (db w) = Inr (x, db w')"
  using assms by (auto simp: sql_def split: option.splits sum.splits prod.splits)

lemma exec_InrE [elim!, io_elims]:
  assumes "exec env f w = (Inr x, w')"
  obtains "f (db w) = Inr (db w')"
  using assms by (auto simp: exec_def and_then_eq_Inr)

lemma query_InrE [elim!, io_elims]:
  assumes "query env f w = (Inr x, w')"
  obtains "f (db w) = Inr x" "db w' = db w"
proof -
  from assms have "and_then (f (db w)) (\<lambda>x. Inr (x, db w)) = Inr (x, db w')"
    unfolding query_def by (rule sql_InrE)
  then have "f (db w) = Inr x" "db w = db w'"
    unfolding and_then_eq_Inr sum.inject prod.inject by blast+
  from this(1) this(2) [symmetric] show thesis by (rule that)
qed

lemma query_InlE:
  assumes "query env f w = (Inl e, w')"
  obtains x where "db w' = db w" "e = fault_err x" | "db w' = db w" "f (db w) = Inl e"
proof (cases "env_fault env (tick w)")
  case (Some x)
  with assms have "w' = step w" "e = fault_err x" by (simp_all add: query_def sql_def)
  then show thesis using that(1) [of x] by simp
next
  case None
  show thesis
  proof (cases "f (db w)")
    case (Inl y)
    with assms None show thesis using that(2) by (auto simp: query_def sql_def)
  next
    case (Inr y)
    with assms None show thesis by (simp add: query_def sql_def)
  qed
qed

lemma uuid_param_eq_Inr [simp]: "uuid_param s r = Inr x \<longleftrightarrow> is_uuid s \<and> r = Inr x"
  by (simp add: uuid_param_def)

lemma optional_uuid_param_eq_Inr [simp]:
  "optional_uuid_param s r = Inr x \<longleftrightarrow> (\<forall>v. s = Some v \<longrightarrow> is_uuid v) \<and> r = Inr x"
  by (cases s) (auto simp: optional_uuid_param_def)

lemma insert_wallet_eq_Inr:
  "insert_wallet r d = Inr d' \<longleftrightarrow>
     list_all fst (wallet_checks r) \<and> (\<forall>q \<in> set (wallets d). wr_id q \<noteq> wr_id r) \<and>
     (\<forall>q \<in> set (wallets d). wr_player_id q = wr_player_id r \<longrightarrow> wr_currency q \<noteq> wr_currency r) \<and>
     d' = d\<lparr>wallets := wallets d @ [r]\<rparr>"
  unfolding insert_wallet_def unless_err_eq_Inr first_violation_None
  by (auto simp: list_ex_iff)

lemma insert_wager_eq_Inr:
  "insert_wager r d = Inr d' \<longleftrightarrow>
     list_all fst (wager_checks r) \<and> list_all fst (wager_uniques r (wagers d)) \<and>
     list_all fst (wager_references r d) \<and> d' = d\<lparr>wagers := wagers d @ [r]\<rparr>"
  unfolding insert_wager_def unless_err_eq_Inr first_violation_None list_all_append sum.inject by blast

lemma update_wallets_zero:
  "update_wallets P f rows = Inr (0, rows') \<Longrightarrow> rows' = rows"
  by (induction rows arbitrary: rows') (auto simp: result_invert split: if_splits)

lemma update_wallets_one:
  assumes "update_wallets P f rows = Inr (Suc 0, rows')"
  shows "\<exists>xs r ys. rows = xs @ r # ys \<and> rows' = xs @ f r # ys \<and> P r \<and> list_all fst (wallet_checks (f r))"
  using assms
proof (induction rows arbitrary: rows')
  case (Cons a rows)
  show ?case
  proof (cases "P a")
    case True
    with Cons.prems obtain rest where "update_wallets P f rows = Inr (0, rest)" "rows' = f a # rest"
      "first_violation (wallet_checks (f a)) = None"
      by (auto simp: result_invert)
    with True show ?thesis
      using update_wallets_zero [of P f rows rest]
      by (intro exI [of _ "[]"] exI [of _ a] exI [of _ rows]) (simp add: first_violation_None)
  next
    case False
    with Cons.prems obtain rest where u: "update_wallets P f rows = Inr (Suc 0, rest)" and r: "rows' = a # rest"
      by (auto simp: result_invert)
    from Cons.IH [OF u] obtain xs r ys where "rows = xs @ r # ys" "rest = xs @ f r # ys" "P r"
      "list_all fst (wallet_checks (f r))" by blast
    with r show ?thesis
      by (intro exI [of _ "a # xs"] exI [of _ r] exI [of _ ys]) simp
  qed
qed simp

lemma update_wagers_zero:
  "update_wagers P f prior rows d = Inr (0, rows') \<Longrightarrow> rows' = prior @ rows"
  by (induction P f prior rows d arbitrary: rows' rule: update_wagers.induct)
    (auto simp: result_invert split: if_splits)

text \<open>An update that affected one row: the row, its replacement, and the checks it passed.\<close>

definition wager_updated :: "(wager_row \<Rightarrow> bool) \<Rightarrow> (wager_row \<Rightarrow> wager_row) \<Rightarrow> wager_row list \<Rightarrow> wager_row list
    \<Rightarrow> database \<Rightarrow> wager_row list \<Rightarrow> wager_row \<Rightarrow> wager_row list \<Rightarrow> bool" where
  "wager_updated P f rows rows' d xs r ys \<longleftrightarrow>
     rows = xs @ r # ys \<and> rows' = xs @ f r # ys \<and> P r \<and> protect_terminal_wager r (f r) = None \<and>
     list_all fst (wager_checks (f r)) \<and> list_all fst (wager_uniques (f r) (xs @ ys)) \<and>
     list_all fst (wager_references (f r) d)"

lemma update_wagers_one:
  assumes "update_wagers P f prior rows d = Inr (Suc 0, rows')"
  shows "\<exists>xs r ys. wager_updated P f (prior @ rows) rows' d xs r ys"
  using assms
proof (induction P f prior rows d arbitrary: rows' rule: update_wagers.induct)
  case (2 P f prior r rest d)
  show ?case
  proof (cases "P r")
    case True
    with "2.prems" have "update_wagers P f (prior @ [f r]) rest d = Inr (0, rows')"
      and "protect_terminal_wager r (f r) = None"
      and "first_violation (wager_checks (f r) @ wager_uniques (f r) (prior @ rest) @ wager_references (f r) d) = None"
      by (auto simp: result_invert)
    with True have "wager_updated P f (prior @ r # rest) rows' d prior r rest"
      using update_wagers_zero [of P f "prior @ [f r]" rest d rows']
      by (simp add: wager_updated_def first_violation_None)
    then show ?thesis by blast
  next
    case False
    with "2.prems" "2.IH"(2) [OF False] show ?thesis by simp
  qed
qed simp

section \<open>The unit of work is atomic\<close>

lemma within_cases:
  assumes "within env work w = (r, w')"
  shows "(\<exists>x wa wb. r = Inr x \<and> work wa = (Inr x, wb) \<and> db wa = db w \<and> db w' = db wb \<and>
      deferred_violation (db w) (db wb) = None) \<or>
    (\<exists>e x wa wb. r = Inl (fault_err e) \<and> work wa = (Inr x, wb) \<and> db wa = db w \<and> db w' = db wb \<and>
      env_commit env (tick wb) = Some (e, True) \<and> deferred_violation (db w) (db wb) = None) \<or>
    (\<exists>e. r = Inl e \<and> db w' = db w)"
proof (cases "env_fault env (tick w)")
  case (Some e)
  with assms show ?thesis by (auto simp: within_def)
next
  case None
  obtain q v where q: "work (step w) = (q, v)" by fastforce
  have dbw: "db (step w) = db w" by simp
  show ?thesis
  proof (cases q)
    case (Inl e)
    with assms None q show ?thesis by (auto simp: within_def)
  next
    case (Inr x)
    note run = q [unfolded Inr]
    show ?thesis
    proof (cases "deferred_violation (db w) (db v)")
      case (Some e)
      with assms None run show ?thesis by (auto simp: within_def)
    next
      case dv: None
      show ?thesis
      proof (cases "env_commit env (tick v)")
        case None
        with assms \<open>env_fault env (tick w) = None\<close> run dv have "r = Inr x" "w' = step v"
          by (auto simp: within_def)
        with run dbw dv show ?thesis by (metis step_simps(1))
      next
        case (Some ea)
        obtain e a where ea: "ea = (e, a)" by fastforce
        with assms \<open>env_fault env (tick w) = None\<close> run dv Some
        have r: "r = Inl (fault_err e)" "db w' = (if a then db v else db w)"
          by (auto simp: within_def)
        show ?thesis
        proof (cases a)
          case True
          with r run dbw dv Some ea show ?thesis by (metis (full_types))
        next
          case False
          with r show ?thesis by simp
        qed
      qed
    qed
  qed
qed

lemma deferred_violation_no_sentinel: "deferred_violation d d' = Some e \<Longrightarrow> \<not> errors_is e s"
proof -
  have "first_violation cs = Some e \<Longrightarrow> \<not> errors_is e s" for cs
    by (induction cs rule: first_violation.induct) (auto split: if_splits)
  then show "deferred_violation d d' = Some e \<Longrightarrow> \<not> errors_is e s"
    unfolding deferred_violation_def by blast
qed

lemma within_sentinel:
  assumes "within env work w = (Inl e, w')" "errors_is e s"
  shows "\<exists>e0 v. work (step w) = (Inl e0, v) \<and> errors_is e0 s"
  using assms deferred_violation_no_sentinel
  by (auto simp: within_def rollback_error_def split: option.splits prod.splits sum.splits if_splits)

lemma within_InrE:
  assumes "within env work w = (Inr x, w')"
  obtains wa wb where "work wa = (Inr x, wb)" "db wa = db w" "db w' = db wb"
  using within_cases [OF assms] by auto

text \<open>What every successful run of the work keeps of the database, the unit of work keeps.\<close>

definition work_preserves :: "(database \<Rightarrow> bool) \<Rightarrow> (world, 'a) io \<Rightarrow> bool" where
  "work_preserves P work \<longleftrightarrow> (\<forall>w x w'. P (db w) \<longrightarrow> work w = (Inr x, w') \<longrightarrow> P (db w'))"

definition io_preserves :: "(database \<Rightarrow> bool) \<Rightarrow> (world, 'a) io \<Rightarrow> bool" where
  "io_preserves P m \<longleftrightarrow> (\<forall>w r w'. P (db w) \<longrightarrow> m w = (r, w') \<longrightarrow> P (db w'))"

lemma io_preservesD: "io_preserves P m \<Longrightarrow> P (db w) \<Longrightarrow> m w = (r, w') \<Longrightarrow> P (db w')"
  unfolding io_preserves_def by blast

lemma within_preserves:
  assumes "work_preserves P work"
  shows "io_preserves P (within env work)"
  unfolding io_preserves_def
proof (intro allI impI)
  fix w r w'
  assume p: "P (db w)" and run: "within env work w = (r, w')"
  from within_cases [OF run] consider "db w' = db w"
    | x wa wb where "work wa = (Inr x, wb)" "db wa = db w" "db w' = db wb" by blast
  then show "P (db w')"
    using p assms unfolding work_preserves_def by cases (simp, metis)
qed

lemma attempts_preserves:
  assumes "work_preserves P work"
  shows "io_preserves P (attempts env n work)"
  unfolding io_preserves_def
proof (intro allI impI)
  fix w r w'
  show "P (db w) \<Longrightarrow> attempts env n work w = (r, w') \<Longrightarrow> P (db w')"
  proof (induction n arbitrary: w)
    case (Suc n)
    obtain q v where q: "within env work w = (q, v)" by fastforce
    then have v: "P (db v)" using within_preserves [OF assms] Suc.prems(1) by (blast intro: io_preservesD)
    show ?case
    proof (cases q)
      case (Inr x)
      with Suc.prems(2) q v show ?thesis by (simp add: ReadCommitted_def)
    next
      case (Inl e)
      show ?thesis
      proof (cases "\<not> retryableTransactionAbort e \<or> n = 0 \<or> env_cancelled env (tick v) \<noteq> None")
        case True
        with Suc.prems(2) q v Inl show ?thesis
          by (auto simp: ReadCommitted_def split: if_splits option.splits)
      next
        case False
        with Suc.prems(2) q Inl have "attempts env n work (step v) = (r, w')"
          by (auto simp: ReadCommitted_def)
        then show ?thesis using Suc.IH [of "step v"] v by simp
      qed
    qed
  qed simp
qed

lemma ReadCommittedWithRetry_preserves:
  "work_preserves P work \<Longrightarrow> io_preserves P (ReadCommittedWithRetry env work)"
  by (simp add: ReadCommittedWithRetry_def attempts_preserves)

text \<open>
  The outcome of a retried transaction: a success is one successful run of the work on the
  database as it was, and a failure reported by PostgreSQL leaves the database as it was.
\<close>

definition atomic_outcome :: "(world, 'a) io \<Rightarrow> database \<Rightarrow> 'a result \<Rightarrow> database \<Rightarrow> bool" where
  "atomic_outcome work d r d' \<longleftrightarrow>
     (case r of
        Inr x \<Rightarrow> (\<exists>wa wb. work wa = (Inr x, wb) \<and> db wa = d \<and> db wb = d' \<and> deferred_violation d d' = None)
      | Inl e \<Rightarrow> d' = d \<or>
          (ambiguous e \<and> (\<exists>x wa wb. work wa = (Inr x, wb) \<and> db wa = d \<and> db wb = d' \<and>
             deferred_violation d d' = None)))"

lemma within_atomic:
  assumes "env_ok env" and "within env work w = (r, w')"
  shows "atomic_outcome work (db w) r (db w')"
proof -
  have commit: "ambiguous (fault_err e)" if "env_commit env n = Some (e, True)" for n e
    using assms(1) that unfolding env_ok_def by blast
  from within_cases [OF assms(2)] show ?thesis
  proof (elim disjE exE conjE)
    fix x wa wb
    assume "r = Inr x" "work wa = (Inr x, wb)" "db wa = db w" "db w' = db wb"
      "deferred_violation (db w) (db wb) = None"
    then show ?thesis unfolding atomic_outcome_def by (auto simp del: prod.inject)
  next
    fix e x wa wb
    assume "r = Inl (fault_err e)" "work wa = (Inr x, wb)" "db wa = db w" "db w' = db wb"
      "env_commit env (tick wb) = Some (e, True)" "deferred_violation (db w) (db wb) = None"
    then show ?thesis using commit unfolding atomic_outcome_def by simp metis
  next
    fix e
    assume "r = Inl e" "db w' = db w"
    then show ?thesis by (simp add: atomic_outcome_def)
  qed
qed

lemma retryable_pg: "retryableTransactionAbort e \<Longrightarrow> errors_as_pg e \<noteq> None"
  by (cases "errors_as_pg e") (simp_all add: retryableTransactionAbort_def)

lemma attempts_atomic:
  assumes "env_ok env"
  shows "attempts env n work w = (r, w') \<Longrightarrow> atomic_outcome work (db w) r (db w')"
proof (induction n arbitrary: w)
  case 0
  then show ?case by (auto simp: atomic_outcome_def)
next
  case (Suc n)
  obtain q v where q: "within env work w = (q, v)" by fastforce
  note at = within_atomic [OF assms q]
  show ?case
  proof (cases q)
    case (Inr x)
    with Suc.prems q at show ?thesis by (simp add: ReadCommitted_def)
  next
    case (Inl e)
    show ?thesis
    proof (cases "retryableTransactionAbort e \<and> n \<noteq> 0")
      case False
      with Suc.prems q at Inl show ?thesis by (simp add: ReadCommitted_def split: if_splits)
    next
      case True
      then have "errors_as_pg e \<noteq> None" using retryable_pg by blast
      with at Inl have dv: "db v = db w" by (auto simp: atomic_outcome_def ambiguous_def)
      show ?thesis
      proof (cases "env_cancelled env (tick v)")
        case (Some c)
        with Suc.prems q Inl True have "r = Inl (Transport c)" "w' = step v" by (auto simp: ReadCommitted_def)
        with dv show ?thesis by (simp add: atomic_outcome_def)
      next
        case None
        with Suc.prems q Inl True have "attempts env n work (step v) = (r, w')"
          by (simp add: ReadCommitted_def)
        then show ?thesis using Suc.IH [of "step v"] dv by simp
      qed
    qed
  qed
qed

lemma ReadCommittedWithRetry_atomic:
  "env_ok env \<Longrightarrow> ReadCommittedWithRetry env work w = (r, w') \<Longrightarrow> atomic_outcome work (db w) r (db w')"
  by (simp add: ReadCommittedWithRetry_def attempts_atomic)

lemma atomic_outcome_post:
  assumes "atomic_outcome work d r d'"
    and "\<And>x wa wb. work wa = (Inr x, wb) \<Longrightarrow> db wa = d \<Longrightarrow> db wb = d' \<Longrightarrow> Q x"
  shows "case r of Inr x \<Rightarrow> Q x | Inl e \<Rightarrow> d' = d \<or> (ambiguous e \<and> (\<exists>x. Q x))"
  using assms by (cases r) (auto simp: atomic_outcome_def)

end
