(* ===== verification/Books.thy ===== *)
theory Books
  imports Postgres
begin

text \<open>
  The books: what the wallet, ledger and wager tables say together. \<open>books_ok\<close> is the system
  invariant, \<open>settled\<close> the abstract step that the processing of one wager request takes on the
  tables, and \<open>opened\<close> the step of opening a wallet; both keep the invariant. Under it, the stored
  balance of a wallet is the sum of its ledger movements.
\<close>

section \<open>The ledger of a wallet\<close>

definition entries_of :: "string \<Rightarrow> database \<Rightarrow> ledger_row list" where
  "entries_of i d = filter (\<lambda>e. lr_wallet_id e = i) (ledger d)"

definition row_delta :: "ledger_row \<Rightarrow> int" where
  "row_delta e =
     (if lr_direction e = DirectionCredit then sint (lr_amount_minor e) else - sint (lr_amount_minor e))"

text \<open>Consecutive entries: each starts at the balance and version where the one before ended.\<close>

fun linked :: "ledger_row list \<Rightarrow> bool" where
  "linked (a # b # es) \<longleftrightarrow>
     lr_balance_before_minor b = lr_balance_after_minor a \<and>
     sint (lr_wallet_version b) = sint (lr_wallet_version a) + 1 \<and> linked (b # es)"
| "linked _ \<longleftrightarrow> True"

lemma linked_snoc:
  "linked (es @ [e]) \<longleftrightarrow> linked es \<and> (es = [] \<or>
     (lr_balance_before_minor e = lr_balance_after_minor (last es) \<and>
      sint (lr_wallet_version e) = sint (lr_wallet_version (last es)) + 1))"
  by (induction es rule: linked.induct) auto

text \<open>What a stored entry satisfies by itself: enough to be loaded again.\<close>

definition ledger_entry_ok :: "ledger_row \<Rightarrow> bool" where
  "ledger_entry_ok e \<longleftrightarrow>
     is_uuid (lr_id e) \<and> valid_id (lr_wallet_id e) \<and> valid_id (lr_transaction_id e) \<and>
     0 < sint (lr_amount_minor e) \<and> 0 \<le> sint (lr_balance_before_minor e) \<and>
     0 \<le> sint (lr_balance_after_minor e) \<and> 1 \<le> sint (lr_wallet_version e) \<and> ledger_balance_equation e"

definition wallet_books :: "wallet_row \<Rightarrow> ledger_row list \<Rightarrow> bool" where
  "wallet_books r es \<longleftrightarrow>
     linked es \<and>
     (\<forall>e \<in> set es. ledger_entry_ok e \<and> unix_epoch \<le> lr_created_at e \<and> lr_currency e = wr_currency r) \<and>
     (if es = [] then wr_balance_minor r = 0 \<and> wr_version r = 1
      else lr_balance_before_minor (hd es) = 0 \<and> sint (lr_wallet_version (hd es)) \<in> {1, 2} \<and>
        lr_balance_after_minor (last es) = wr_balance_minor r \<and>
        lr_wallet_version (last es) = wr_version r)"

lemma ledger_equation_delta:
  "ledger_balance_equation e \<Longrightarrow>
     sint (lr_balance_after_minor e) = sint (lr_balance_before_minor e) + row_delta e"
  by (auto simp: ledger_balance_equation_def row_delta_def)

lemma linked_telescopes:
  assumes "linked es" "es \<noteq> []" "\<forall>e \<in> set es. ledger_balance_equation e"
  shows "sint (lr_balance_after_minor (last es)) =
    sint (lr_balance_before_minor (hd es)) + sum_list (map row_delta es)"
  using assms ledger_equation_delta by (induction es rule: linked.induct) auto

lemma wallet_books_sum:
  assumes "wallet_books r es"
  shows "sint (wr_balance_minor r) = sum_list (map row_delta es)"
proof (cases "es = []")
  case True
  with assms show ?thesis by (simp add: wallet_books_def)
next
  case False
  with assms have "sint (lr_balance_after_minor (last es)) =
      sint (lr_balance_before_minor (hd es)) + sum_list (map row_delta es)"
    by (intro linked_telescopes) (auto simp: wallet_books_def ledger_entry_ok_def)
  with assms False show ?thesis by (simp add: wallet_books_def)
qed

section \<open>Stored rows\<close>

definition wallet_row_ok :: "wallet_row \<Rightarrow> bool" where
  "wallet_row_ok r \<longleftrightarrow>
     is_uuid (wr_id r) \<and> is_uuid (wr_player_id r) \<and> list_all fst (wallet_checks r) \<and>
     unix_epoch \<le> wr_created_at r"

lemma unix_epoch_not_zero: "unix_epoch \<le> t \<Longrightarrow> \<not> is_zero_time t"
  by (auto simp: unix_epoch_def is_zero_time_def time_second_def)

definition wallet_of :: "wallet_row \<Rightarrow> wallet" where
  "wallet_of r = \<lparr>w_id = wr_id r, w_playerID = wr_player_id r,
     w_balance = \<lparr>minor = wr_balance_minor r, currency = Currency (wr_currency r)\<rparr>,
     w_version = wr_version r, w_createdAt = wr_created_at r, w_updatedAt = wr_updated_at r\<rparr>"

lemma wallet_of_row_eq_Inr: "wallet_of_row r = Inr a \<Longrightarrow> a = wallet_of r \<and> wallet_wf a"
  by (auto simp: wallet_of_row_def and_then_eq_Inr ParseCurrency_eq_Inr wallet_Rehydrate_def
      wallet_build_eq_Inr wallet_of_def)

lemma wallet_row_ok_loads:
  assumes "wallet_row_ok r"
  shows "wallet_of_row r = Inr (wallet_of r)"
proof -
  have c: "wr_currency r \<in> set supportedCurrencies" "0 \<le> sint (wr_balance_minor r)" "1 \<le> sint (wr_version r)"
    "wr_created_at r \<le> wr_updated_at r"
    using assms by (simp_all add: wallet_row_ok_def wallet_checks_def)
  have t: "\<not> is_zero_time (wr_created_at r)" "\<not> is_zero_time (wr_updated_at r)"
    using assms c by (auto simp: wallet_row_ok_def intro!: unix_epoch_not_zero)
  have i: "valid_id (wr_id r)" "valid_id (wr_player_id r)"
    using assms by (simp_all add: wallet_row_ok_def is_uuid_valid_id)
  have m: "money_New (wr_balance_minor r) (Currency (wr_currency r)) =
      Inr \<lparr>minor = wr_balance_minor r, currency = Currency (wr_currency r)\<rparr>"
    using c(1) by (simp add: currency_Valid_def)
  have "wallet_wf (wallet_of r)"
    using c t i by (simp add: wallet_wf_def wallet_of_def currency_Valid_def)
  then show ?thesis
    using c(1) m unfolding wallet_of_row_def wallet_of_def
    by (simp add: ParseCurrency_def wallet_Rehydrate_def wallet_build_eq_Inr and_then_eq_Inr)
qed

lemma ledger_row_of_ok: "entry_wf e \<Longrightarrow> is_uuid (e_id e) \<Longrightarrow> ledger_entry_ok (ledger_row_of env e)"
  by (auto simp: ledger_entry_ok_def ledger_balance_equation_def ledger_row_of_def entry_wf_def entry_delta_def
      direction_Valid.simps)

definition entry_of :: "ledger_row \<Rightarrow> entry" where
  "entry_of r = \<lparr>e_id = lr_id r, e_walletID = lr_wallet_id r, e_transactionID = lr_transaction_id r,
     e_direction = lr_direction r, e_amount = \<lparr>minor = lr_amount_minor r, currency = Currency (lr_currency r)\<rparr>,
     e_balanceBefore = \<lparr>minor = lr_balance_before_minor r, currency = Currency (lr_currency r)\<rparr>,
     e_balanceAfter = \<lparr>minor = lr_balance_after_minor r, currency = Currency (lr_currency r)\<rparr>,
     e_walletVersion = lr_wallet_version r, e_createdAt = lr_created_at r\<rparr>"

lemma scanLedgerEntry_eq_Inr: "scanLedgerEntry r = Inr e \<Longrightarrow> e = entry_of r"
  by (auto simp: scanLedgerEntry_def and_then_eq_Inr ParseCurrency_eq_Inr ledger_Rehydrate_def entry_of_def
      dest!: entry_build_wf)

lemma ledger_row_loads:
  assumes "ledger_entry_ok r" "unix_epoch \<le> lr_created_at r" "lr_currency r \<in> set supportedCurrencies"
  shows "scanLedgerEntry r = Inr (entry_of r)"
proof -
  have "entry_wf (entry_of r)"
    using assms unix_epoch_not_zero is_uuid_valid_id
    by (auto simp: entry_wf_def entry_of_def ledger_entry_ok_def ledger_balance_equation_def entry_delta_def
        direction_Valid.simps currency_Valid_def)
  then have e: "ledger_Rehydrate (entry_of r) = Inr (entry_of r)"
    using entry_build_of_wf by (simp add: ledger_Rehydrate_def)
  have m: "money_New v (Currency (lr_currency r)) = Inr \<lparr>minor = v, currency = Currency (lr_currency r)\<rparr>" for v
    using assms(3) by (simp add: currency_Valid_def)
  show ?thesis
    using assms(3) e by (simp add: scanLedgerEntry_def ParseCurrency_def entry_of_def m)
qed

section \<open>The invariant\<close>

text \<open>A transaction that moved money: processed and not a loss.\<close>

definition moves_money :: "wager_row \<Rightarrow> bool" where
  "moves_money g \<longleftrightarrow> gr_status g = StatusProcessed \<and> gr_kind g \<noteq> KindLoss"

text \<open>An entry books a transaction: same wallet, currency and amount, and the reported balance.\<close>

definition books_transaction :: "ledger_row \<Rightarrow> wager_row \<Rightarrow> bool" where
  "books_transaction e g \<longleftrightarrow>
     lr_transaction_id e = gr_id g \<and> lr_wallet_id e = gr_wallet_id g \<and> lr_currency e = gr_currency g \<and>
     lr_amount_minor e = gr_amount_minor g \<and> gr_result_balance_minor g = Some (lr_balance_after_minor e) \<and>
     moves_money g"

text \<open>Two rows that some unique index keeps from being in the table together.\<close>

definition wager_clash :: "wager_row \<Rightarrow> wager_row \<Rightarrow> bool" where
  "wager_clash q r \<longleftrightarrow>
     gr_id q = gr_id r \<or>
     (gr_origin q = OriginExternal \<and> gr_origin r = OriginExternal \<and>
      same_key (gr_provider_id q) (gr_provider_id r) \<and>
      (same_key (gr_idempotency_key q) (gr_idempotency_key r) \<or>
       same_key (gr_external_transaction_id q) (gr_external_transaction_id r))) \<or>
     (gr_kind q = KindOpening \<and> gr_kind r = KindOpening \<and> gr_wallet_id q = gr_wallet_id r) \<or>
     (is_reversal q \<and> is_reversal r \<and>
      same_key (gr_reference_transaction_id q) (gr_reference_transaction_id r))"

lemma same_key_sym: "same_key x y \<longleftrightarrow> same_key y x"
  by (auto simp: same_key_def)

lemma wager_clash_sym: "wager_clash q r \<longleftrightarrow> wager_clash r q"
  unfolding wager_clash_def by (metis same_key_sym)

lemma wager_uniques_clash:
  "list_all fst (wager_uniques r others) \<longleftrightarrow> (\<forall>q \<in> set others. \<not> wager_clash q r)"
  by (auto simp: wager_uniques_def wager_clash_def list_ex_iff)

definition wagers_unique :: "wager_row list \<Rightarrow> bool" where
  "wagers_unique gs \<longleftrightarrow> sorted_wrt (\<lambda>q r. \<not> wager_clash q r) gs"

lemma wagers_unique_snoc:
  "wagers_unique gs \<Longrightarrow> list_all fst (wager_uniques g gs) \<Longrightarrow> wagers_unique (gs @ [g])"
  by (simp add: wagers_unique_def sorted_wrt_append wager_uniques_clash)

lemma wagers_unique_replace:
  assumes "wagers_unique (xs @ g0 # ys)" "list_all fst (wager_uniques g (xs @ ys))"
  shows "wagers_unique (xs @ g # ys)"
  using assms wager_clash_sym by (auto simp: wagers_unique_def sorted_wrt_append wager_uniques_clash)

lemma wagers_unique_split:
  assumes "wagers_unique (xs @ g # ys)" "q \<in> set (xs @ ys)"
  shows "\<not> wager_clash q g"
  using assms wager_clash_sym by (auto simp: wagers_unique_def sorted_wrt_append)

lemma wagers_unique_distinct: "wagers_unique gs \<Longrightarrow> distinct (map gr_id gs)"
proof (induction gs rule: rev_induct)
  case (snoc g gs)
  then have "wagers_unique gs" "\<forall>q \<in> set gs. \<not> wager_clash q g"
    by (auto simp: wagers_unique_def sorted_wrt_append)
  with snoc.IH show ?case by (auto simp: wager_clash_def)
qed simp

lemma wagers_unique_eq:
  assumes "wagers_unique gs" "q \<in> set gs" "r \<in> set gs" "wager_clash q r"
  shows "q = r"
proof (rule ccontr)
  assume "q \<noteq> r"
  from assms(3) obtain xs ys where gs: "gs = xs @ r # ys" by (meson split_list)
  with assms(2) \<open>q \<noteq> r\<close> have "q \<in> set (xs @ ys)" by auto
  with wagers_unique_split [of xs r ys q] assms(1,4) gs show False by simp
qed

definition books_ok :: "database \<Rightarrow> bool" where
  "books_ok d \<longleftrightarrow>
     distinct (map wr_id (wallets d)) \<and>
     (\<forall>r \<in> set (wallets d). wallet_row_ok r \<and> wallet_books r (entries_of (wr_id r) d)) \<and>
     (\<forall>e \<in> set (ledger d). \<exists>r \<in> set (wallets d). wr_id r = lr_wallet_id e) \<and>
     wagers_unique (wagers d) \<and>
     (\<forall>e \<in> set (ledger d). \<exists>g \<in> set (wagers d). books_transaction e g) \<and>
     (\<forall>g \<in> set (wagers d). moves_money g \<longrightarrow> (\<exists>e \<in> set (ledger d). lr_transaction_id e = gr_id g)) \<and>
     distinct (map lr_transaction_id (ledger d))"

section \<open>Abstract steps\<close>

text \<open>
  A wager row is written: appended, or put in the place of a row that was waiting for its
  reference, with the request data unchanged.
\<close>

definition wager_written :: "wager_row \<Rightarrow> database \<Rightarrow> database \<Rightarrow> bool" where
  "wager_written g d d' \<longleftrightarrow>
     (wagers d' = wagers d @ [g] \<and> list_all fst (wager_uniques g (wagers d))) \<or>
     (\<exists>xs g0 ys. wagers d = xs @ g0 # ys \<and> wagers d' = xs @ g # ys \<and> gr_id g = gr_id g0 \<and>
        gr_origin g = gr_origin g0 \<and> wager_identity g = wager_identity g0 \<and>
        gr_status g0 = StatusPendingReference \<and> list_all fst (wager_uniques g (xs @ ys)))"

text \<open>
  One wallet row moves to a new balance and the next version, and one ledger entry books the
  movement and the transaction.
\<close>

definition balance_moved :: "wager_row \<Rightarrow> database \<Rightarrow> database \<Rightarrow> bool" where
  "balance_moved g d d' \<longleftrightarrow>
     (\<exists>xs r ys r' e. wallets d = xs @ r # ys \<and> wallets d' = xs @ r' # ys \<and> ledger d' = ledger d @ [e] \<and>
        wr_id r' = wr_id r \<and> wr_player_id r' = wr_player_id r \<and> wr_currency r' = wr_currency r \<and>
        wr_created_at r' = wr_created_at r \<and> list_all fst (wallet_checks r') \<and>
        sint (wr_version r') = sint (wr_version r) + 1 \<and>
        lr_wallet_id e = wr_id r \<and> lr_currency e = wr_currency r \<and>
        lr_balance_before_minor e = wr_balance_minor r \<and> lr_balance_after_minor e = wr_balance_minor r' \<and>
        lr_wallet_version e = wr_version r' \<and> lr_created_at e = wr_updated_at r' \<and> ledger_entry_ok e \<and>
        books_transaction e g)"

text \<open>Events are queued: unpublished rows at the end of the outbox, with new identifiers.\<close>

definition outbox_unique :: "outbox_row list \<Rightarrow> bool" where
  "outbox_unique xs \<longleftrightarrow> distinct (map xr_event_id xs)"

definition queued :: "outbox_row list \<Rightarrow> database \<Rightarrow> database \<Rightarrow> bool" where
  "queued xs d d' \<longleftrightarrow>
     outbox d' = outbox d @ xs \<and> (\<forall>x \<in> set xs. xr_published_at x = None) \<and>
     (outbox_unique (outbox d) \<longrightarrow> outbox_unique (outbox d'))"

text \<open>
  What the rows of the outbox say. The columns of a row are the metadata of an event and its payload
  is the JSON form of that event. The data of the event state a transaction: its identifier, provider,
  kind, status, amount and resulting balance, with the failure code or the reference it waits for; or
  a ledger entry: its wallet, transaction, direction, amount, both balances and the wallet's version.
\<close>

definition stored_event :: "integration_event \<Rightarrow> outbox_row \<Rightarrow> bool" where
  "stored_event v x \<longleftrightarrow>
     xr_event_id x = ev_eventID v \<and> xr_aggregate_id x = ev_aggregateID v \<and> xr_event_type x = ev_eventType v \<and>
     xr_event_version x = ev_version v \<and> xr_correlation_id x = ev_correlationID v \<and>
     xr_causation_id x = nullString (ev_causationID v) \<and> event_MarshalJSON v = Inr (xr_payload x)"

definition states_money :: "money \<Rightarrow> int64 \<Rightarrow> string \<Rightarrow> bool" where
  "states_money m a c \<longleftrightarrow> minor m = a \<and> code (currency m) = c"

fun states_transaction :: "event_data \<Rightarrow> wager_row \<Rightarrow> bool" where
  "states_transaction (ProcessedData d) g \<longleftrightarrow>
     gr_status g = StatusProcessed \<and> pd_Status d = gr_status g \<and> pd_TransactionID d = gr_id g \<and>
     pd_ProviderID d = textValue (gr_provider_id g) \<and> pd_Kind d = gr_kind g \<and>
     states_money (pd_Money d) (gr_amount_minor g) (gr_currency g) \<and>
     (\<exists>b. gr_result_balance_minor g = Some b \<and> states_money (pd_Balance d) b (gr_currency g))"
| "states_transaction (RejectedData d) g \<longleftrightarrow>
     gr_status g = StatusRejected \<and> rd_Status d = gr_status g \<and> rd_TransactionID d = gr_id g \<and>
     rd_ProviderID d = textValue (gr_provider_id g) \<and> rd_Kind d = gr_kind g \<and>
     rd_FailureCode d = textValue (gr_failure_code g) \<and>
     states_money (rd_Money d) (gr_amount_minor g) (gr_currency g) \<and>
     (\<exists>b. gr_result_balance_minor g = Some b \<and> states_money (rd_Balance d) b (gr_currency g))"
| "states_transaction (PendingData d) g \<longleftrightarrow>
     gr_status g = StatusPendingReference \<and> pr_Status d = gr_status g \<and> pr_TransactionID d = gr_id g \<and>
     pr_ProviderID d = textValue (gr_provider_id g) \<and> pr_Kind d = gr_kind g \<and>
     pr_ReferenceExternalTransactionID d = textValue (gr_reference_external_transaction_id g)"
| "states_transaction (BalanceData d) g \<longleftrightarrow> False"

fun states_entry :: "event_data \<Rightarrow> ledger_row \<Rightarrow> bool" where
  "states_entry (BalanceData d) e \<longleftrightarrow>
     bd_WalletID d = lr_wallet_id e \<and> bd_TransactionID d = lr_transaction_id e \<and> bd_Direction d = lr_direction e \<and>
     states_money (bd_Money d) (lr_amount_minor e) (lr_currency e) \<and>
     states_money (bd_BalanceBefore d) (lr_balance_before_minor e) (lr_currency e) \<and>
     states_money (bd_BalanceAfter d) (lr_balance_after_minor e) (lr_currency e) \<and>
     bd_WalletVersion d = lr_wallet_version e"
| "states_entry _ e \<longleftrightarrow> False"

text \<open>A row announces a transaction, the movement of a transaction, or the ledger entry of a movement.\<close>

definition announces :: "wager_row \<Rightarrow> outbox_row \<Rightarrow> bool" where
  "announces g x \<longleftrightarrow>
     xr_aggregate_id x = gr_id g \<and>
     (gr_status g, xr_event_type x) \<in>
       {(StatusProcessed, TypeWagerTransactionProcessed), (StatusRejected, TypeWagerTransactionRejected),
        (StatusPendingReference, TypeWagerTransactionPendingReference)} \<and>
     (\<exists>v. stored_event v x \<and> states_transaction (ev_data v) g)"

definition announces_entry :: "ledger_row \<Rightarrow> outbox_row \<Rightarrow> bool" where
  "announces_entry e x \<longleftrightarrow>
     xr_aggregate_id x = lr_wallet_id e \<and> xr_event_type x = TypeWalletBalanceChanged \<and>
     (\<exists>v. stored_event v x \<and> states_entry (ev_data v) e)"

definition announces_movement :: "wager_row \<Rightarrow> outbox_row \<Rightarrow> bool" where
  "announces_movement g x \<longleftrightarrow>
     xr_aggregate_id x = gr_wallet_id g \<and> xr_event_type x = TypeWalletBalanceChanged \<and>
     (\<exists>v d. stored_event v x \<and> ev_data v = BalanceData d \<and> bd_WalletID d = gr_wallet_id g \<and>
        bd_TransactionID d = gr_id g \<and> states_money (bd_Money d) (gr_amount_minor g) (gr_currency g) \<and>
        gr_result_balance_minor g = Some (minor (bd_BalanceAfter d)))"

definition announced :: "wager_row \<Rightarrow> outbox_row list \<Rightarrow> bool" where
  "announced g xs \<longleftrightarrow>
     list_ex (announces g) xs \<and> (moves_money g \<longrightarrow> list_ex (announces_movement g) xs)"

definition entry_announced :: "ledger_row \<Rightarrow> outbox_row list \<Rightarrow> bool" where
  "entry_announced e xs \<longleftrightarrow> list_ex (announces_entry e) xs"

text \<open>
  The processing of a request: its row is recorded, with the movement it makes, and the events
  that announce it are queued in the same step.
\<close>

definition recorded :: "wager_row \<Rightarrow> database \<Rightarrow> database \<Rightarrow> bool" where
  "recorded g d d' \<longleftrightarrow>
     wager_written g d d' \<and> inbox d' = inbox d \<and>
     (if moves_money g then balance_moved g d d' else wallets d' = wallets d \<and> ledger d' = ledger d)"

definition settled :: "wager_row \<Rightarrow> database \<Rightarrow> database \<Rightarrow> bool" where
  "settled g d d' \<longleftrightarrow>
     recorded g d d' \<and>
     (\<exists>xs. queued xs d d' \<and> announced g xs \<and> (\<forall>e \<in> set (ledger d'). e \<in> set (ledger d) \<or> entry_announced e xs))"

text \<open>A wallet is opened: empty, or with its opening transaction and ledger entry.\<close>

definition opened :: "wallet_row \<Rightarrow> database \<Rightarrow> database \<Rightarrow> bool" where
  "opened r d d' \<longleftrightarrow>
     wallets d' = wallets d @ [r] \<and> wallet_row_ok r \<and> (\<forall>q \<in> set (wallets d). wr_id q \<noteq> wr_id r) \<and>
     wr_version r = 1 \<and> inbox d' = inbox d \<and>
     (if wr_balance_minor r = 0 then wagers d' = wagers d \<and> ledger d' = ledger d \<and> outbox d' = outbox d
      else \<exists>g e xs. queued xs d d' \<and> announced g xs \<and> entry_announced e xs \<and>
        wagers d' = wagers d @ [g] \<and> list_all fst (wager_uniques g (wagers d)) \<and>
        ledger d' = ledger d @ [e] \<and> books_transaction e g \<and> lr_wallet_id e = wr_id r \<and>
        lr_currency e = wr_currency r \<and> lr_balance_before_minor e = 0 \<and>
        lr_balance_after_minor e = wr_balance_minor r \<and> lr_wallet_version e = 1 \<and>
        lr_created_at e = wr_created_at r \<and> ledger_entry_ok e)"

section \<open>The steps keep the invariant\<close>

lemma wallet_books_snoc:
  assumes "wallet_books r es" "wr_currency r' = wr_currency r"
    and "sint (wr_version r') = sint (wr_version r) + 1"
    and "lr_currency e = wr_currency r" "lr_balance_before_minor e = wr_balance_minor r"
    and "lr_balance_after_minor e = wr_balance_minor r'" "lr_wallet_version e = wr_version r'"
    and "ledger_entry_ok e" "unix_epoch \<le> lr_created_at e"
  shows "wallet_books r' (es @ [e])"
  using assms by (cases "es = []") (auto simp: wallet_books_def linked_snoc)

lemma wager_written_keeps:
  assumes "wager_written g d d'" "q \<in> set (wagers d)" "gr_status q \<noteq> StatusPendingReference"
  shows "q \<in> set (wagers d')"
  using assms by (auto simp: wager_written_def)

lemma wager_written_mem: "wager_written g d d' \<Longrightarrow> g \<in> set (wagers d')"
  by (auto simp: wager_written_def)

lemma wager_written_cases:
  assumes "wager_written g d d'" "q \<in> set (wagers d')"
  shows "q = g \<or> q \<in> set (wagers d)"
  using assms by (auto simp: wager_written_def)

lemma wager_written_unique:
  assumes "wager_written g d d'" "wagers_unique (wagers d)"
  shows "wagers_unique (wagers d')"
  using assms wagers_unique_snoc wagers_unique_replace by (fastforce simp: wager_written_def)

lemma wager_written_new_id:
  assumes "wager_written g d d'" "q \<in> set (wagers d)" "gr_status q \<noteq> StatusPendingReference"
  shows "gr_id q \<noteq> gr_id g"
  using assms by (auto simp: wager_written_def wager_uniques_clash wager_clash_def)

lemma books_transaction_not_pending: "books_transaction e g \<Longrightarrow> gr_status g \<noteq> StatusPendingReference"
  by (simp add: books_transaction_def moves_money_def)

text \<open>The invariant in parts: wallets with their entries, and entries with their transactions.\<close>

definition wallets_booked :: "database \<Rightarrow> bool" where
  "wallets_booked d \<longleftrightarrow>
     distinct (map wr_id (wallets d)) \<and>
     (\<forall>r \<in> set (wallets d). wallet_row_ok r \<and> wallet_books r (entries_of (wr_id r) d)) \<and>
     (\<forall>e \<in> set (ledger d). \<exists>r \<in> set (wallets d). wr_id r = lr_wallet_id e)"

definition wagers_booked :: "database \<Rightarrow> bool" where
  "wagers_booked d \<longleftrightarrow>
     wagers_unique (wagers d) \<and>
     (\<forall>e \<in> set (ledger d). \<exists>g \<in> set (wagers d). books_transaction e g) \<and>
     (\<forall>g \<in> set (wagers d). moves_money g \<longrightarrow> (\<exists>e \<in> set (ledger d). lr_transaction_id e = gr_id g)) \<and>
     distinct (map lr_transaction_id (ledger d))"

lemma books_ok_parts: "books_ok d \<longleftrightarrow> wallets_booked d \<and> wagers_booked d"
  by (simp add: books_ok_def wallets_booked_def wagers_booked_def)

lemma entries_of_snoc:
  assumes "ledger d' = ledger d @ [e]"
  shows "entries_of i d' = entries_of i d @ (if lr_wallet_id e = i then [e] else [])"
  using assms by (simp add: entries_of_def)

lemma entries_of_cong: "ledger d' = ledger d \<Longrightarrow> entries_of i d' = entries_of i d"
  by (simp add: entries_of_def)

lemma balance_moved_wallets:
  assumes "balance_moved g d d'" "wallets_booked d"
  shows "wallets_booked d'"
proof -
  from assms(1) obtain xs r ys r' e where w: "wallets d = xs @ r # ys" "wallets d' = xs @ r' # ys"
    and l: "ledger d' = ledger d @ [e]"
    and r': "wr_id r' = wr_id r" "wr_player_id r' = wr_player_id r" "wr_currency r' = wr_currency r"
      "wr_created_at r' = wr_created_at r" "list_all fst (wallet_checks r')"
    and v: "sint (wr_version r') = sint (wr_version r) + 1"
    and e: "lr_wallet_id e = wr_id r" "lr_currency e = wr_currency r"
      "lr_balance_before_minor e = wr_balance_minor r" "lr_balance_after_minor e = wr_balance_minor r'"
      "lr_wallet_version e = wr_version r'" "ledger_entry_ok e"
    and t: "lr_created_at e = wr_updated_at r'"
    unfolding balance_moved_def by blast
  have dist: "distinct (map wr_id (wallets d))" and ok: "wallet_row_ok r"
    and books: "wallet_books r (entries_of (wr_id r) d)"
    using assms(2) w(1) by (simp_all add: wallets_booked_def)
  have ok': "wallet_row_ok r'" using ok r' by (simp add: wallet_row_ok_def)
  then have "unix_epoch \<le> lr_created_at e" unfolding t by (simp add: wallet_row_ok_def wallet_checks_def)
  then have new: "wallet_books r' (entries_of (wr_id r') d')"
    unfolding entries_of_snoc [OF l] using wallet_books_snoc [OF books r'(3) v] e r' by simp
  note ok'
  moreover have "wallet_row_ok q \<and> wallet_books q (entries_of (wr_id q) d')" if q: "q \<in> set (xs @ ys)" for q
  proof -
    have "wr_id r \<notin> wr_id ` set (xs @ ys)" using dist w(1) by auto
    then have "wr_id q \<noteq> wr_id r" using q by (metis image_eqI)
    then have "entries_of (wr_id q) d' = entries_of (wr_id q) d"
      unfolding entries_of_snoc [OF l] using e(1) by simp
    then show ?thesis using assms(2) q w(1) by (auto simp: wallets_booked_def)
  qed
  ultimately have "\<forall>q \<in> set (wallets d'). wallet_row_ok q \<and> wallet_books q (entries_of (wr_id q) d')"
    using new unfolding w(2) by auto
  moreover have "distinct (map wr_id (wallets d'))" using dist unfolding w using r'(1) by simp
  moreover have "\<exists>q \<in> set (wallets d'). wr_id q = lr_wallet_id a" if "a \<in> set (ledger d')" for a
  proof (cases "a = e")
    case True
    then show ?thesis using e(1) r'(1) w(2) by auto
  next
    case False
    with that l obtain q where "q \<in> set (wallets d)" "wr_id q = lr_wallet_id a"
      using assms(2) by (auto simp: wallets_booked_def)
    then show ?thesis using r'(1) unfolding w by auto
  qed
  ultimately show ?thesis by (simp add: wallets_booked_def)
qed

lemma wager_written_entries:
  assumes "wager_written g d d'" "a \<in> set (ledger d)" "wagers_booked d"
  shows "(\<exists>q \<in> set (wagers d'). books_transaction a q) \<and> lr_transaction_id a \<noteq> gr_id g"
proof -
  from assms(2,3) obtain q where q: "q \<in> set (wagers d)" "books_transaction a q"
    by (auto simp: wagers_booked_def)
  then have "gr_status q \<noteq> StatusPendingReference" by (simp add: books_transaction_not_pending)
  with q assms(1) show ?thesis
    using wager_written_keeps wager_written_new_id by (metis books_transaction_def)
qed

lemma recorded_wagers:
  assumes "recorded g d d'" "wagers_booked d"
  shows "wagers_booked d'"
proof -
  have ww: "wager_written g d d'" using assms(1) by (simp add: recorded_def)
  have u: "wagers_unique (wagers d')"
    using wager_written_unique [OF ww] assms(2) by (simp add: wagers_booked_def)
  note old = wager_written_entries [OF ww _ assms(2)]
  obtain es where es: "ledger d' = ledger d @ es" "\<forall>e \<in> set es. books_transaction e g"
    "moves_money g \<longrightarrow> es \<noteq> []" "length es \<le> 1"
  proof (cases "moves_money g")
    case True
    with assms(1) obtain e where "ledger d' = ledger d @ [e]" "books_transaction e g"
      unfolding recorded_def balance_moved_def by fastforce
    then show thesis using that [of "[e]"] by simp
  next
    case False
    with assms(1) show thesis using that [of "[]"] by (simp add: recorded_def)
  qed
  have "\<forall>e \<in> set (ledger d'). \<exists>q \<in> set (wagers d'). books_transaction e q"
    using old es wager_written_mem [OF ww] by auto
  moreover have "\<exists>e \<in> set (ledger d'). lr_transaction_id e = gr_id q"
    if "q \<in> set (wagers d')" "moves_money q" for q
  proof (cases "q = g")
    case True
    with that es obtain e where "e \<in> set es" "books_transaction e g" by (metis hd_in_set)
    then show ?thesis using True es(1) by (auto simp: books_transaction_def)
  next
    case False
    then have "q \<in> set (wagers d)" using wager_written_cases [OF ww that(1)] by simp
    then show ?thesis using assms(2) that(2) es(1) by (auto simp: wagers_booked_def)
  qed
  moreover have "distinct (map lr_transaction_id (ledger d'))"
  proof -
    have e: "\<forall>e \<in> set es. lr_transaction_id e = gr_id g" using es(2) by (simp add: books_transaction_def)
    have "gr_id g \<notin> set (map lr_transaction_id (ledger d))" using old by (metis imageE list.set_map)
    then show ?thesis
      using e es(1,4) assms(2) by (cases es) (auto simp: wagers_booked_def)
  qed
  ultimately show ?thesis using u by (simp add: wagers_booked_def)
qed

lemma recorded_books: "recorded g d d' \<Longrightarrow> books_ok d \<Longrightarrow> books_ok d'"
  unfolding books_ok_parts
proof (intro conjI)
  assume s: "recorded g d d'" and b: "wallets_booked d \<and> wagers_booked d"
  then show "wagers_booked d'" using recorded_wagers by blast
  show "wallets_booked d'"
  proof (cases "moves_money g")
    case True
    with s have "balance_moved g d d'" by (simp add: recorded_def)
    then show ?thesis using b balance_moved_wallets by blast
  next
    case False
    with s have "wallets d' = wallets d" "ledger d' = ledger d" by (simp_all add: recorded_def)
    then show ?thesis using b by (simp add: wallets_booked_def entries_of_def)
  qed
qed

lemma settled_recorded: "settled g d d' \<Longrightarrow> recorded g d d'"
  by (simp add: settled_def)

lemma settled_written: "settled g d d' \<Longrightarrow> wager_written g d d'"
  by (simp add: settled_def recorded_def)

lemma settled_books: "settled g d d' \<Longrightarrow> books_ok d \<Longrightarrow> books_ok d'"
  using recorded_books settled_recorded by blast

text \<open>Events.\<close>

lemma announced_append:
  "announced g xs \<Longrightarrow> announced g (xs @ ys)" "announced g ys \<Longrightarrow> announced g (xs @ ys)"
  by (auto simp: announced_def)

lemma entry_announced_append:
  "entry_announced e xs \<Longrightarrow> entry_announced e (xs @ ys)" "entry_announced e ys \<Longrightarrow> entry_announced e (xs @ ys)"
  by (auto simp: entry_announced_def)

lemma entry_announced_movement:
  assumes "books_transaction e g" "entry_announced e xs"
  shows "list_ex (announces_movement g) xs"
proof -
  from assms(2) obtain x v where x: "x \<in> set xs" "stored_event v x" "states_entry (ev_data v) e"
    and row: "xr_aggregate_id x = lr_wallet_id e" "xr_event_type x = TypeWalletBalanceChanged"
    by (auto simp: entry_announced_def list_ex_iff announces_entry_def)
  from x(3) obtain d where "ev_data v = BalanceData d" by (cases "ev_data v") auto
  with x row assms(1) have "announces_movement g x"
    unfolding announces_movement_def by (intro conjI exI [of _ v] exI [of _ d]) (auto simp: books_transaction_def states_money_def)
  with x(1) show ?thesis by (auto simp: list_ex_iff)
qed

lemma queued_unique: "queued xs d d' \<Longrightarrow> outbox_unique (outbox d) \<Longrightarrow> outbox_unique (outbox d')"
  unfolding queued_def by blast

lemma queued_from: "queued xs d1 d' \<Longrightarrow> outbox d1 = outbox d \<Longrightarrow> queued xs d d'"
  unfolding queued_def by metis

text \<open>The rows of a list of events, inserted one after the other.\<close>

definition events_queued :: "env \<Rightarrow> integration_event list \<Rightarrow> database \<Rightarrow> database \<Rightarrow> bool" where
  "events_queued env vs d d' \<longleftrightarrow>
     (\<exists>ps. list_all2 (\<lambda>v p. event_MarshalJSON v = Inr p) vs ps \<and>
        d' = d\<lparr>outbox := outbox d @ map2 (outbox_row_of env) vs ps\<rparr>) \<and>
     (outbox_unique (outbox d) \<longrightarrow> outbox_unique (outbox d'))"

lemma events_queued_Nil: "events_queued env [] d d"
  by (simp add: events_queued_def)

lemma events_queued_insert:
  assumes "insert_outbox (outbox_row_of env v p) d = Inr d'" "event_MarshalJSON v = Inr p"
  shows "events_queued env [v] d d'"
proof -
  from assms(1) have "d' = d\<lparr>outbox := outbox d @ [outbox_row_of env v p]\<rparr>"
    and "\<forall>q \<in> set (outbox d). xr_event_id q \<noteq> xr_event_id (outbox_row_of env v p)"
    by (auto simp: insert_outbox_def unless_err_eq_Inr list_ex_iff split: if_splits)
  then show ?thesis
    unfolding events_queued_def using assms(2) by (intro conjI exI [of _ "[p]"]) (auto simp: outbox_unique_def)
qed

lemma events_queued_append:
  assumes "events_queued env vs d d1" "events_queued env us d1 d'"
  shows "events_queued env (vs @ us) d d'"
proof -
  from assms obtain ps qs where l: "list_all2 (\<lambda>v p. event_MarshalJSON v = Inr p) vs ps"
      "list_all2 (\<lambda>v p. event_MarshalJSON v = Inr p) us qs"
    and d: "d1 = d\<lparr>outbox := outbox d @ map2 (outbox_row_of env) vs ps\<rparr>"
      "d' = d1\<lparr>outbox := outbox d1 @ map2 (outbox_row_of env) us qs\<rparr>"
    unfolding events_queued_def by blast
  have "d' = d\<lparr>outbox := outbox d @ map2 (outbox_row_of env) (vs @ us) (ps @ qs)\<rparr>"
    using d list_all2_lengthD [OF l(1)] by simp
  moreover have "outbox_unique (outbox d) \<longrightarrow> outbox_unique (outbox d')"
    using assms unfolding events_queued_def by blast
  ultimately show ?thesis
    unfolding events_queued_def using l by (intro conjI exI [of _ "ps @ qs"]) (simp_all add: list_all2_appendI)
qed

text \<open>The queued rows store the events.\<close>

lemma outbox_row_stores: "event_MarshalJSON v = Inr p \<Longrightarrow> stored_event v (outbox_row_of env v p)"
  by (simp add: stored_event_def outbox_row_of_def)

lemma events_queued_rows:
  assumes "events_queued env vs d d'"
  shows "\<exists>xs. queued xs d d' \<and> d' = d\<lparr>outbox := outbox d @ xs\<rparr> \<and> (\<forall>v \<in> set vs. \<exists>x \<in> set xs. stored_event v x)"
proof -
  from assms obtain ps where l: "list_all2 (\<lambda>v p. event_MarshalJSON v = Inr p) vs ps"
    and d: "d' = d\<lparr>outbox := outbox d @ map2 (outbox_row_of env) vs ps\<rparr>"
    and u: "outbox_unique (outbox d) \<longrightarrow> outbox_unique (outbox d')"
    unfolding events_queued_def by blast
  let ?xs = "map2 (outbox_row_of env) vs ps"
  have "\<exists>x \<in> set ?xs. stored_event v x" if "v \<in> set vs" for v
  proof -
    from that obtain k where k: "k < length vs" "v = vs ! k" by (metis in_set_conv_nth)
    then have "k < length ?xs" "event_MarshalJSON v = Inr (ps ! k)"
      using list_all2_lengthD [OF l] list_all2_nthD [OF l k(1)] by simp_all
    moreover from this k have "?xs ! k = outbox_row_of env v (ps ! k)" by simp
    ultimately show ?thesis using outbox_row_stores nth_mem by metis
  qed
  moreover have "queued ?xs d d'"
    using d u by (auto simp: queued_def outbox_row_of_def)
  ultimately show ?thesis using d by blast
qed

lemma stored_event_announces:
  "stored_event v x \<Longrightarrow> states_transaction (ev_data v) g \<Longrightarrow> ev_aggregateID v = gr_id g \<Longrightarrow>
     (gr_status g, ev_eventType v) \<in>
       {(StatusProcessed, TypeWagerTransactionProcessed), (StatusRejected, TypeWagerTransactionRejected),
        (StatusPendingReference, TypeWagerTransactionPendingReference)} \<Longrightarrow> announces g x"
  "stored_event v x \<Longrightarrow> states_entry (ev_data v) e \<Longrightarrow> ev_aggregateID v = lr_wallet_id e \<Longrightarrow>
     ev_eventType v = TypeWalletBalanceChanged \<Longrightarrow> announces_entry e x"
  unfolding announces_def announces_entry_def by (auto simp: stored_event_def)

lemma opened_wallets:
  assumes "opened r d d'" "wallets_booked d"
  shows "wallets_booked d'"
proof -
  have w: "wallets d' = wallets d @ [r]" and ok: "wallet_row_ok r" and v: "wr_version r = 1"
    and fresh: "\<forall>q \<in> set (wallets d). wr_id q \<noteq> wr_id r"
    using assms(1) by (simp_all add: opened_def)
  have none: "entries_of (wr_id r) d = []"
    using assms(2) fresh by (auto simp: wallets_booked_def entries_of_def filter_empty_conv)
  obtain es where es: "ledger d' = ledger d @ es" "\<forall>e \<in> set es. lr_wallet_id e = wr_id r"
    "wallet_books r es"
  proof (cases "wr_balance_minor r = 0")
    case True
    with assms(1) have "ledger d' = ledger d" by (simp add: opened_def)
    moreover have "wallet_books r []" using True v by (simp add: wallet_books_def)
    ultimately show thesis using that [of "[]"] by simp
  next
    case False
    with assms(1) obtain e where "ledger d' = ledger d @ [e]" "lr_wallet_id e = wr_id r"
      "lr_currency e = wr_currency r" "lr_balance_before_minor e = 0"
      "lr_balance_after_minor e = wr_balance_minor r" "lr_wallet_version e = 1" "ledger_entry_ok e"
      "lr_created_at e = wr_created_at r"
      by (auto simp: opened_def)
    then show thesis using that [of "[e]"] v ok by (simp add: wallet_books_def wallet_row_ok_def)
  qed
  have en: "entries_of i d' = entries_of i d @ (if i = wr_id r then es else [])" for i
    using es(1,2) by (auto simp: entries_of_def filter_empty_conv)
  have "wallet_row_ok q \<and> wallet_books q (entries_of (wr_id q) d')" if "q \<in> set (wallets d)" for q
    using that assms(2) fresh by (auto simp: en wallets_booked_def)
  moreover have "wallet_books r (entries_of (wr_id r) d')" using es(3) none by (simp add: en)
  moreover have "distinct (map wr_id (wallets d'))" using assms(2) fresh by (auto simp: w wallets_booked_def)
  moreover have "\<exists>q \<in> set (wallets d'). wr_id q = lr_wallet_id a" if "a \<in> set (ledger d')" for a
    using that es(1,2) assms(2) by (auto simp: w wallets_booked_def)
  ultimately show ?thesis using ok by (auto simp: w wallets_booked_def)
qed

lemma opened_wagers:
  assumes "opened r d d'" "wagers_booked d"
  shows "wagers_booked d'"
proof (cases "wr_balance_minor r = 0")
  case True
  with assms show ?thesis by (simp add: opened_def wagers_booked_def)
next
  case False
  with assms(1) obtain g e where g: "wagers d' = wagers d @ [g]" "list_all fst (wager_uniques g (wagers d))"
    and e: "ledger d' = ledger d @ [e]" "books_transaction e g"
    by (auto simp: opened_def)
  have fresh: "\<forall>q \<in> set (wagers d). gr_id q \<noteq> gr_id g"
    using g(2) by (auto simp: wager_uniques_clash wager_clash_def)
  have "wagers_unique (wagers d')" using wagers_unique_snoc g assms(2) by (simp add: wagers_booked_def)
  moreover have "lr_transaction_id a \<noteq> lr_transaction_id e" if "a \<in> set (ledger d)" for a
    using that assms(2) fresh e(2) unfolding wagers_booked_def books_transaction_def by metis
  ultimately show ?thesis
    using assms(2) g(1) e by (auto simp: wagers_booked_def books_transaction_def)
qed

lemma opened_books: "opened r d d' \<Longrightarrow> books_ok d \<Longrightarrow> books_ok d'"
  using opened_wallets opened_wagers unfolding books_ok_parts by blast

lemma books_ok_empty: "books_ok empty_database"
  by (simp add: books_ok_def empty_database_def wagers_unique_def)

text \<open>Steps that leave the three tables alone.\<close>

lemma books_ok_cong:
  "wallets d' = wallets d \<Longrightarrow> wagers d' = wagers d \<Longrightarrow> ledger d' = ledger d \<Longrightarrow> books_ok d' \<longleftrightarrow> books_ok d"
  by (simp add: books_ok_def entries_of_def)

lemma books_ok_balance:
  assumes "books_ok d" "r \<in> set (wallets d)"
  shows "sint (wr_balance_minor r) = sum_list (map row_delta (entries_of (wr_id r) d))"
  using assms by (intro wallet_books_sum) (simp add: books_ok_def)

end
