(* ===== verification/Wager_Service.thy ===== *)
theory Wager_Service
  imports Books Canonical
begin

text \<open>
  The package \<^verbatim>\<open>internal/application/wagering\<close> (\<^verbatim>\<open>service.go\<close>, \<^verbatim>\<open>process.go\<close>) and the
  PostgreSQL implementation of its \<^verbatim>\<open>Session\<close> interface (\<^verbatim>\<open>wager_store.go\<close>). A session is a
  record of the interface's methods, so that the service is written once and run on any of the
  implementations, as in the code.
\<close>

section \<open>Session and service\<close>

record 's session =
  FindByID :: "string \<Rightarrow> ('s, transaction option) io"
  FindByIdempotencyKey :: "string \<Rightarrow> string \<Rightarrow> ('s, transaction option) io"
  FindByExternalID :: "string \<Rightarrow> string \<Rightarrow> ('s, transaction option) io"
  LockWallet :: "string \<Rightarrow> ('s, wallet) io"
  HasReversal :: "string \<Rightarrow> ('s, bool) io"
  InsertTransaction :: "transaction \<Rightarrow> reference_schedule option \<Rightarrow> ('s, unit) io"
  UpdateTransaction :: "transaction \<Rightarrow> ('s, unit) io"
  UpdateWallet :: "wallet \<Rightarrow> ('s, unit) io"
  InsertLedger :: "entry \<Rightarrow> ('s, unit) io"
  InsertEvent :: "integration_event \<Rightarrow> ('s, unit) io"

text \<open>The fields \<^verbatim>\<open>now\<close> and \<^verbatim>\<open>newID\<close> of \<^verbatim>\<open>Service\<close>, and the hash function it calls.\<close>

record 's service =
  sv_now :: "('s, time) io"
  sv_newID :: "('s, string) io"
  sv_sha256 :: "string \<Rightarrow> payload_hash"

record submit_result =
  sr_Transaction :: transaction
  sr_Replay :: bool

section \<open>Identities\<close>

definition validateInput :: "submit_input \<Rightarrow> err option" where
  "validateInput input =
     (if \<not> valid_id (si_ProviderID input) \<or> \<not> valid_id (si_ExternalTransactionID input) \<or>
         \<not> valid_id (si_IdempotencyKey input) \<or> \<not> valid_id (si_RoundID input) \<or>
         \<not> valid_id (si_GameID input) \<or> si_CorrelationID input = []
      then Some (Sentinel app_ErrInvalidInput)
      else if id_Validate (si_WalletID input) \<noteq> None \<or> id_Validate (si_PlayerID input) \<noteq> None
      then Some (Sentinel app_ErrInvalidInput)
      else if money_Validate (si_Amount input) \<noteq> None \<or> money_IsNegative (si_Amount input)
      then Some (Sentinel app_ErrInvalidInput)
      else None)"

text \<open>
  The decision of \<^verbatim>\<open>evaluateIdentities\<close> on what the two lookups returned: a replay, no earlier
  request, or an error.
\<close>

fun identity_decision :: "submit_input \<Rightarrow> payload_hash \<Rightarrow> transaction option \<Rightarrow> transaction option
    \<Rightarrow> transaction option result" where
  "identity_decision input hash (Some byKey) byExternal =
     (if t_payloadHash byKey \<noteq> hash then Inl (Sentinel app_ErrIdempotencyConflict)
      else (case byExternal of
          None \<Rightarrow> Inl (Sentinel app_ErrExternalIDConflict)
        | Some x \<Rightarrow>
            if t_id x \<noteq> t_id byKey then Inl (Sentinel app_ErrExternalIDConflict) else Inr (Some byKey)))"
| "identity_decision input hash None (Some byExternal) =
     (if t_idempotencyKey byExternal = si_IdempotencyKey input then
        (if t_payloadHash byExternal \<noteq> hash then Inl (Sentinel app_ErrIdempotencyConflict)
         else Inr (Some byExternal))
      else Inl (Sentinel app_ErrExternalIDConflict))"
| "identity_decision input hash None None = Inr None"

definition evaluateIdentities ::
  "'s session \<Rightarrow> submit_input \<Rightarrow> payload_hash \<Rightarrow> ('s, transaction option) io" where
  "evaluateIdentities session input hash =
     io_try (FindByIdempotencyKey session (si_ProviderID input) (si_IdempotencyKey input)) (\<lambda>byKey.
     io_try (FindByExternalID session (si_ProviderID input) (si_ExternalTransactionID input)) (\<lambda>byExternal.
     io_lift (identity_decision input hash byKey byExternal)))"

section \<open>References\<close>

text \<open>
  \<^verbatim>\<open>resolveReference\<close> returns the reference, whether it is still pending, and a failure code;
  the checks on a reference that was found are \<open>reference_failure\<close>, empty when there is none.
\<close>

datatype resolution = Pending | Resolved "transaction option" failure_code

definition reference_failure :: "submit_input \<Rightarrow> transaction \<Rightarrow> failure_code" where
  "reference_failure input reference =
     (if t_status reference \<noteq> StatusProcessed then FailureReferenceNotProcessed
      else if t_providerID reference \<noteq> si_ProviderID input \<or> t_playerID reference \<noteq> si_PlayerID input \<or>
        t_walletID reference \<noteq> si_WalletID input \<or> t_roundID reference \<noteq> si_RoundID input \<or>
        currency (t_amount reference) \<noteq> currency (si_Amount input)
      then FailureReferenceMismatch
      else if si_Kind input = KindRefund \<and> t_kind reference \<noteq> KindBet then FailureReferenceTypeNotAllowed
      else if si_Kind input = KindRollback \<and> t_kind reference \<noteq> KindBet \<and>
        t_kind reference \<noteq> KindWin \<and> t_kind reference \<noteq> KindRefund
      then FailureReferenceTypeNotAllowed
      else if si_Kind input = KindWin \<and> t_kind reference \<noteq> KindBet then FailureReferenceTypeNotAllowed
      else if (si_Kind input = KindRefund \<or> si_Kind input = KindRollback) \<and>
        \<not> money_Equal (t_amount reference) (si_Amount input)
      then FailureInvalidOperationAmount
      else [])"

definition resolveReference :: "'s session \<Rightarrow> submit_input \<Rightarrow> ('s, resolution) io" where
  "resolveReference session input =
     (if si_ReferenceExternalTransactionID input = [] then io_return (Resolved None [])
      else io_try (FindByExternalID session (si_ProviderID input) (si_ReferenceExternalTransactionID input))
       (\<lambda>found. case found of
          None \<Rightarrow> io_return Pending
        | Some reference \<Rightarrow>
            if t_status reference = StatusPending \<or> t_status reference = StatusPendingReference
            then io_return Pending
            else io_return (Resolved (Some reference) (reference_failure input reference))))"

section \<open>Persistence\<close>

definition persistTransaction :: "'s session \<Rightarrow> transaction \<Rightarrow> bool \<Rightarrow> ('s, unit) io" where
  "persistTransaction session t existing =
     (if existing then UpdateTransaction session t else InsertTransaction session t None)"

definition persistPending ::
  "'s service \<Rightarrow> 's session \<Rightarrow> transaction \<Rightarrow> submit_input \<Rightarrow> time \<Rightarrow> ('s, transaction) io" where
  "persistPending sv session t input now =
     io_try (io_lift (MarkPendingReference t now)) (\<lambda>t.
     io_try (InsertTransaction session t
       (Some \<lparr>rs_NextAttemptAt = now + time_second, rs_ExpiresAt = now + 24 * time_hour\<rparr>)) (\<lambda>_.
     io_try (sv_newID sv) (\<lambda>eventID.
     io_try (io_lift (NewWagerTransactionPendingReference
       \<lparr>md_EventID = eventID, md_AggregateID = t_id t, md_CorrelationID = si_CorrelationID input,
        md_CausationID = [], md_OccurredAt = now\<rparr>
       (t_id t) (si_ProviderID input) (si_Kind input) (si_ReferenceExternalTransactionID input))) (\<lambda>pendingEvent.
     io_try (InsertEvent session (as_event PendingData pendingEvent)) (\<lambda>_.
     io_return t)))))"

definition persistRejected ::
  "'s service \<Rightarrow> 's session \<Rightarrow> transaction \<Rightarrow> money \<Rightarrow> submit_input \<Rightarrow> failure_code \<Rightarrow> bool \<Rightarrow> time
    \<Rightarrow> ('s, transaction) io" where
  "persistRejected sv session t balance input fc existing now =
     io_try (io_lift (transaction_Reject t fc balance now)) (\<lambda>t.
     io_try (persistTransaction session t existing) (\<lambda>_.
     io_try (sv_newID sv) (\<lambda>eventID.
     io_try (io_lift (NewWagerTransactionRejected
       \<lparr>md_EventID = eventID, md_AggregateID = t_id t, md_CorrelationID = si_CorrelationID input,
        md_CausationID = [], md_OccurredAt = now\<rparr>
       (t_id t) (si_ProviderID input) (si_Kind input) fc (si_Amount input) balance)) (\<lambda>rejectedEvent.
     io_try (InsertEvent session (as_event RejectedData rejectedEvent)) (\<lambda>_.
     io_return t)))))"

definition insertProcessedEvent ::
  "'s service \<Rightarrow> 's session \<Rightarrow> transaction \<Rightarrow> submit_input \<Rightarrow> money \<Rightarrow> time \<Rightarrow> ('s, string) io" where
  "insertProcessedEvent sv session t input balance now =
     io_try (sv_newID sv) (\<lambda>eventID.
     io_try (io_lift (NewWagerTransactionProcessed
       \<lparr>md_EventID = eventID, md_AggregateID = t_id t, md_CorrelationID = si_CorrelationID input,
        md_CausationID = [], md_OccurredAt = now\<rparr>
       (t_id t) (si_ProviderID input) (si_Kind input) (si_Amount input) balance)) (\<lambda>processedEvent.
     io_try (InsertEvent session (as_event ProcessedData processedEvent)) (\<lambda>_.
     io_return eventID)))"

definition insertBalanceEvent ::
  "'s service \<Rightarrow> 's session \<Rightarrow> transaction \<Rightarrow> submit_input \<Rightarrow> direction \<Rightarrow> money \<Rightarrow> money \<Rightarrow> int64
    \<Rightarrow> string \<Rightarrow> time \<Rightarrow> ('s, unit) io" where
  "insertBalanceEvent sv session t input direction prior after walletVersion causationID now =
     io_try (sv_newID sv) (\<lambda>eventID.
     io_try (io_lift (NewWalletBalanceChanged
       \<lparr>md_EventID = eventID, md_AggregateID = si_WalletID input, md_CorrelationID = si_CorrelationID input,
        md_CausationID = causationID, md_OccurredAt = now\<rparr>
       \<lparr>bd_WalletID = si_WalletID input, bd_TransactionID = t_id t, bd_Direction = direction,
        bd_Money = si_Amount input, bd_BalanceBefore = prior, bd_BalanceAfter = after,
        bd_WalletVersion = walletVersion\<rparr>)) (\<lambda>balanceEvent.
     InsertEvent session (as_event BalanceData balanceEvent)))"

section \<open>Processing\<close>

text \<open>The part of \<^verbatim>\<open>finish\<close> for a kind that moves no money.\<close>

definition finish_loss ::
  "'s service \<Rightarrow> 's session \<Rightarrow> wallet \<Rightarrow> transaction \<Rightarrow> submit_input \<Rightarrow> bool \<Rightarrow> time \<Rightarrow> ('s, transaction) io" where
  "finish_loss sv session account t input existing now =
     io_try (io_lift (MarkProcessed t (w_balance account) now)) (\<lambda>t.
     io_try (persistTransaction session t existing) (\<lambda>_.
     io_try (insertProcessedEvent sv session t input (w_balance account) now) (\<lambda>_.
     io_return t)))"

definition movement_direction :: "submit_input \<Rightarrow> transaction option \<Rightarrow> direction" where
  "movement_direction input reference =
     (if si_Kind input = KindBet \<or>
         (si_Kind input = KindRollback \<and>
          (case reference of None \<Rightarrow> True | Some r \<Rightarrow> t_kind r \<noteq> KindBet))
      then DirectionDebit else DirectionCredit)"

text \<open>
  The part of \<^verbatim>\<open>finish\<close> after the movement of the wallet has succeeded: the transaction, the
  wallet, the ledger entry and the two events are written.
\<close>

definition finish_movement ::
  "'s service \<Rightarrow> 's session \<Rightarrow> wallet \<Rightarrow> transaction \<Rightarrow> submit_input \<Rightarrow> direction \<Rightarrow> money \<Rightarrow> money
    \<Rightarrow> bool \<Rightarrow> time \<Rightarrow> ('s, transaction) io" where
  "finish_movement sv session account t input direction prior after existing now =
     io_try (io_lift (MarkProcessed t after now)) (\<lambda>t.
     io_try (sv_newID sv) (\<lambda>entryID.
     io_try (io_lift (ledger_New
       \<lparr>e_id = entryID, e_walletID = w_id account, e_transactionID = t_id t, e_direction = direction,
        e_amount = si_Amount input, e_balanceBefore = prior, e_balanceAfter = after,
        e_walletVersion = w_version account, e_createdAt = now\<rparr>)) (\<lambda>entry.
     io_try (UpdateWallet session account) (\<lambda>_.
     io_try (persistTransaction session t existing) (\<lambda>_.
     io_try (InsertLedger session entry) (\<lambda>_.
     io_try (insertProcessedEvent sv session t input after now) (\<lambda>processedEventID.
     io_try (insertBalanceEvent sv session t input direction prior after (w_version account)
       processedEventID now) (\<lambda>_.
     io_return t))))))))"

definition move_wallet :: "direction \<Rightarrow> wallet \<Rightarrow> money \<Rightarrow> time \<Rightarrow> movement_result" where
  "move_wallet direction account amount now =
     (if direction = DirectionDebit then wallet_Debit account amount now
      else wallet_Credit account amount now)"

definition finish_moving ::
  "'s service \<Rightarrow> 's session \<Rightarrow> wallet \<Rightarrow> transaction \<Rightarrow> submit_input \<Rightarrow> transaction option
    \<Rightarrow> bool \<Rightarrow> time \<Rightarrow> ('s, transaction) io" where
  "finish_moving sv session account t input reference existing now =
     (let direction = movement_direction input reference
      in (case move_wallet direction account (si_Amount input) now of
          Inl e \<Rightarrow>
            if errors_is e wallet_ErrInsufficientFunds then
              persistRejected sv session t (w_balance account) input
                (if si_Kind input = KindRollback then FailureReversalInsufficientFunds
                 else FailureBetInsufficientFunds) existing now
            else if errors_is e money_ErrOverflow then
              persistRejected sv session t (w_balance account) input FailureMoneyOverflow existing now
            else io_throw e
        | Inr ((prior, after), account') \<Rightarrow>
            finish_movement sv session account' t input direction prior after existing now))"

definition finish ::
  "'s service \<Rightarrow> 's session \<Rightarrow> wallet \<Rightarrow> transaction \<Rightarrow> submit_input \<Rightarrow> transaction option \<Rightarrow> failure_code
    \<Rightarrow> bool \<Rightarrow> time \<Rightarrow> ('s, transaction) io" where
  "finish sv session account t input reference failure existing now =
     (if failure \<noteq> [] then
        persistRejected sv session t (w_balance account) input failure existing now
      else
       io_try (case reference of
           None \<Rightarrow> io_return (t, False)
         | Some r \<Rightarrow>
             io_try (io_lift (ResolveReference t (t_id r) now)) (\<lambda>t.
             if si_Kind input = KindRefund \<or> si_Kind input = KindRollback
             then io_try (HasReversal session (t_id r)) (\<lambda>reversed. io_return (t, reversed))
             else io_return (t, False)))
        (\<lambda>(t, reversed).
          if reversed then
            persistRejected sv session t (w_balance account) input FailureAlreadyReversed existing now
          else if si_Kind input = KindLoss then finish_loss sv session account t input existing now
          else finish_moving sv session account t input reference existing now))"

definition process ::
  "'s service \<Rightarrow> 's session \<Rightarrow> wallet \<Rightarrow> transaction \<Rightarrow> submit_input \<Rightarrow> time \<Rightarrow> ('s, transaction) io" where
  "process sv session account t input now =
     io_try (resolveReference session input) (\<lambda>r. case r of
       Pending \<Rightarrow> persistPending sv session t input now
     | Resolved reference failure \<Rightarrow> finish sv session account t input reference failure False now)"

definition resume_input :: "transaction \<Rightarrow> submit_input" where
  "resume_input t =
     \<lparr>si_ProviderID = t_providerID t, si_ExternalTransactionID = t_externalTransactionID t,
      si_IdempotencyKey = t_idempotencyKey t, si_WalletID = t_walletID t, si_PlayerID = t_playerID t,
      si_RoundID = t_roundID t, si_GameID = t_gameID t, si_Kind = t_kind t, si_Amount = t_amount t,
      si_ReferenceExternalTransactionID = t_referenceExternalTransactionID t, si_CorrelationID = t_id t\<rparr>"

definition ResumePendingInSession ::
  "'s service \<Rightarrow> 's session \<Rightarrow> wallet \<Rightarrow> transaction \<Rightarrow> bool \<Rightarrow> time \<Rightarrow> ('s, bool) io" where
  "ResumePendingInSession sv session account t expired now =
     (if t_status t \<noteq> StatusPendingReference \<or> w_id account \<noteq> t_walletID t
      then io_throw (Sentinel app_ErrInvalidInput)
      else
       let input = resume_input t;
           now = max now (t_updatedAt t);
           now = max now (w_updatedAt account)
       in io_try (resolveReference session input) (\<lambda>r. case r of
            Pending \<Rightarrow>
              if \<not> expired then io_return False
              else io_try (finish sv session account t input None FailureReferenceNotFound True now)
                (\<lambda>_. io_return True)
          | Resolved reference failure \<Rightarrow>
              io_try (finish sv session account t input reference failure True now) (\<lambda>_. io_return True)))"

section \<open>Submission\<close>

text \<open>
  \<^verbatim>\<open>SubmitInSession\<close> in three parts: the transaction built from the request, the work under the
  wallet lock, and the whole.
\<close>

definition submit_transaction :: "submit_input \<Rightarrow> payload_hash \<Rightarrow> string \<Rightarrow> time \<Rightarrow> transaction result" where
  "submit_transaction input payloadHash transactionID receivedAt =
     (case NewExternal
         \<lparr>xp_ID = transactionID, xp_ProviderID = si_ProviderID input,
          xp_ExternalTransactionID = si_ExternalTransactionID input,
          xp_IdempotencyKey = si_IdempotencyKey input, xp_PayloadHash = payloadHash,
          xp_WalletID = si_WalletID input, xp_PlayerID = si_PlayerID input, xp_RoundID = si_RoundID input,
          xp_GameID = si_GameID input, xp_Kind = si_Kind input, xp_Amount = si_Amount input,
          xp_ReferenceExternalTransactionID = si_ReferenceExternalTransactionID input\<rparr> receivedAt of
         Inl _ \<Rightarrow> Inl (Sentinel app_ErrInvalidInput) | Inr t \<Rightarrow> Inr t)"

definition submit_locked ::
  "'s service \<Rightarrow> 's session \<Rightarrow> submit_input \<Rightarrow> payload_hash \<Rightarrow> transaction \<Rightarrow> time \<Rightarrow> wallet
    \<Rightarrow> ('s, submit_result) io" where
  "submit_locked sv session input payloadHash t receivedAt account =
     (if w_playerID account \<noteq> si_PlayerID input \<or> currency (w_balance account) \<noteq> currency (si_Amount input)
      then io_throw (Sentinel app_ErrWalletMismatch)
      else
       io_try (evaluateIdentities session input payloadHash) (\<lambda>replay. case replay of
         Some earlier \<Rightarrow> io_return \<lparr>sr_Transaction = earlier, sr_Replay = True\<rparr>
       | None \<Rightarrow>
           io_try (sv_now sv) (\<lambda>processedAt.
           io_try (process sv session account t input (max (max processedAt receivedAt) (w_updatedAt account))) (\<lambda>t.
           io_return \<lparr>sr_Transaction = t, sr_Replay = False\<rparr>))))"

definition SubmitInSession ::
  "'s service \<Rightarrow> 's session \<Rightarrow> submit_input \<Rightarrow> ('s, submit_result) io" where
  "SubmitInSession sv session input =
     (let payloadHash = sv_sha256 sv (canonicalPayload input) in
      io_try (io_lift (unless_err (validateInput input) (Inr ()))) (\<lambda>_.
      io_try (sv_newID sv) (\<lambda>transactionID.
      io_try (sv_now sv) (\<lambda>receivedAt.
      io_try (io_lift (submit_transaction input payloadHash transactionID receivedAt)) (\<lambda>t.
      io_try (evaluateIdentities session input payloadHash) (\<lambda>replay. case replay of
        Some earlier \<Rightarrow> io_return \<lparr>sr_Transaction = earlier, sr_Replay = True\<rparr>
      | None \<Rightarrow>
          io_try (LockWallet session (si_WalletID input))
            (submit_locked sv session input payloadHash t receivedAt)))))))"

section \<open>The PostgreSQL session and store\<close>

definition none_if_not_found :: "(world, 'a) io \<Rightarrow> (world, 'a option) io" where
  "none_if_not_found m =
     io_catch m (\<lambda>r. case r of
       Inl e \<Rightarrow> if errors_is e postgres_ErrNotFound then io_return None else io_throw e
     | Inr x \<Rightarrow> io_return (Some x))"

definition session_LockWallet :: "env \<Rightarrow> string \<Rightarrow> (world, wallet) io" where
  "session_LockWallet env walletID =
     io_catch (wallet_FindByIDForUpdate env walletID) (\<lambda>r. case r of
       Inl e \<Rightarrow> if errors_is e postgres_ErrNotFound then io_throw (Sentinel app_ErrWalletNotFound) else io_throw e
     | Inr x \<Rightarrow> io_return x)"

definition session_UpdateWallet :: "env \<Rightarrow> wallet \<Rightarrow> (world, unit) io" where
  "session_UpdateWallet env account =
     io_catch (wallet_Update env account) (\<lambda>r. case r of
       Inl e \<Rightarrow> if errors_is e postgres_ErrConcurrentWrite then io_throw (Sentinel app_ErrConcurrentWrite)
                else io_throw e
     | Inr x \<Rightarrow> io_return x)"

definition wagerSession :: "env \<Rightarrow> string \<Rightarrow> world session" where
  "wagerSession env pendingToken =
     \<lparr>FindByID = (\<lambda>i. none_if_not_found (wager_FindByID env i)),
      FindByIdempotencyKey = (\<lambda>p k. none_if_not_found (FindByProviderIdempotencyKey env p k)),
      FindByExternalID = (\<lambda>p x. none_if_not_found (FindByProviderExternalID env p x)),
      LockWallet = session_LockWallet env,
      HasReversal = HasProcessedReversal env,
      InsertTransaction = wager_Insert env,
      UpdateTransaction = (\<lambda>t. CompletePending env t pendingToken),
      UpdateWallet = session_UpdateWallet env,
      InsertLedger = ledger_Insert env,
      InsertEvent = outbox_Insert env\<rparr>"

definition identity_race :: "err \<Rightarrow> err" where
  "identity_race e =
     (case errors_as_pg e of
        Some (_, name) \<Rightarrow>
          if name = ''wager_provider_idempotency_key'' \<or> name = ''wager_provider_external_transaction_key''
          then Sentinel app_ErrIdentityRace else e
      | None \<Rightarrow> e)"

definition WagerStore_WithinTransaction :: "env \<Rightarrow> (world session \<Rightarrow> (world, 'a) io) \<Rightarrow> (world, 'a) io" where
  "WagerStore_WithinTransaction env work =
     io_catch (ReadCommittedWithRetry env (work (wagerSession env []))) (\<lambda>r. case r of
       Inl e \<Rightarrow> io_throw (identity_race e)
     | Inr x \<Rightarrow> io_return x)"

definition wager_service :: "env \<Rightarrow> world service" where
  "wager_service env = \<lparr>sv_now = time_Now env, sv_newID = newID env, sv_sha256 = env_sha256 env\<rparr>"

definition Submit :: "env \<Rightarrow> submit_input \<Rightarrow> (world, submit_result) io" where
  "Submit env input =
     io_catch (WagerStore_WithinTransaction env (\<lambda>session. SubmitInSession (wager_service env) session input))
      (\<lambda>r. case r of
         Inl e \<Rightarrow>
           if errors_is e app_ErrIdentityRace then
             WagerStore_WithinTransaction env (\<lambda>session. SubmitInSession (wager_service env) session input)
           else io_throw e
       | Inr x \<Rightarrow> io_return x)"

definition service_FindByID :: "env \<Rightarrow> string \<Rightarrow> string \<Rightarrow> (world, transaction) io" where
  "service_FindByID env providerID transactionID =
     (if providerID = [] \<or> id_Validate transactionID \<noteq> None then io_throw (Sentinel app_ErrInvalidInput)
      else WagerStore_WithinTransaction env (\<lambda>session.
        io_try (FindByID session transactionID) (\<lambda>found. case found of
          None \<Rightarrow> io_throw (Sentinel app_ErrTransactionNotFound)
        | Some t \<Rightarrow> if t_providerID t \<noteq> providerID then io_throw (Sentinel app_ErrTransactionNotFound)
                    else io_return t)))"

definition service_FindByExternalID :: "env \<Rightarrow> string \<Rightarrow> string \<Rightarrow> (world, transaction) io" where
  "service_FindByExternalID env providerID externalID =
     (if providerID = [] \<or> \<not> valid_id externalID then io_throw (Sentinel app_ErrInvalidInput)
      else WagerStore_WithinTransaction env (\<lambda>session.
        io_try (FindByExternalID session providerID externalID) (\<lambda>found. case found of
          None \<Rightarrow> io_throw (Sentinel app_ErrTransactionNotFound)
        | Some t \<Rightarrow> io_return t)))"

end
