(* ===== verification/Example.thy ===== *)
theory Example
  imports Books Canonical
begin

text \<open>
  A concrete environment and database on which the theorems about the services are instantiated:
  clocks that advance by a microsecond, a random source that counts, no failures, a wallet that was
  opened with 100.00 BRL, and a bet of 25.00 on it.
\<close>

definition ex_bytes :: "nat \<Rightarrow> byte list" where
  "ex_bytes n = replicate 16 (word_of_nat n)"

definition ex_uuid :: "nat \<Rightarrow> string" where
  "ex_uuid n = id_format (ex_bytes n)"

definition ex_env :: env where
  "ex_env =
     \<lparr>env_now = (\<lambda>n. unix_epoch + 1000 * int n), env_random = (\<lambda>n. Some (ex_bytes n)),
      env_fault = (\<lambda>_. None), env_commit = (\<lambda>_. None), env_cancelled = (\<lambda>_. None),
      env_timestamptz = (\<lambda>t. t div 1000 * 1000), env_db_now = (\<lambda>n. unix_epoch + 1000 * int n),
      env_gen_random_uuid = ex_uuid, env_sha256 = (\<lambda>s. take 32 (map of_char s @ replicate 32 7)),
      env_jitter = (\<lambda>n m. int n mod m)\<rparr>"

definition ex_wallet :: wallet_row where
  "ex_wallet = \<lparr>wr_id = ex_uuid 200, wr_player_id = ex_uuid 201, wr_currency = ''BRL'', wr_balance_minor = 10000,
     wr_version = 1, wr_created_at = unix_epoch, wr_updated_at = unix_epoch\<rparr>"

definition ex_opening :: wager_row where
  "ex_opening = \<lparr>gr_id = ex_uuid 202, gr_origin = OriginInternal, gr_provider_id = None,
     gr_external_transaction_id = None, gr_idempotency_key = None, gr_payload_hash = None,
     gr_wallet_id = ex_uuid 200, gr_player_id = ex_uuid 201, gr_round_id = None, gr_game_id = None,
     gr_kind = KindOpening, gr_status = StatusProcessed, gr_amount_minor = 10000, gr_currency = ''BRL'',
     gr_reference_external_transaction_id = None, gr_reference_transaction_id = None, gr_failure_code = None,
     gr_result_balance_minor = Some 10000, gr_reference_attempts = 0, gr_next_attempt_at = None,
     gr_expires_at = None, gr_lease_token = None, gr_locked_until = None,
     gr_created_at = unix_epoch, gr_updated_at = unix_epoch\<rparr>"

definition ex_entry :: ledger_row where
  "ex_entry = \<lparr>lr_id = ex_uuid 203, lr_wallet_id = ex_uuid 200, lr_transaction_id = ex_uuid 202,
     lr_direction = DirectionCredit, lr_amount_minor = 10000, lr_currency = ''BRL'',
     lr_balance_before_minor = 0, lr_balance_after_minor = 10000, lr_wallet_version = 1,
     lr_created_at = unix_epoch\<rparr>"

definition ex_db :: database where
  "ex_db = \<lparr>wallets = [ex_wallet], wagers = [ex_opening], ledger = [ex_entry], inbox = [], outbox = []\<rparr>"

definition ex_world :: world where
  "ex_world = \<lparr>tick = 0, db = ex_db\<rparr>"

definition ex_input :: submit_input where
  "ex_input =
     \<lparr>si_ProviderID = ''provider'', si_ExternalTransactionID = ''x1'', si_IdempotencyKey = ''k1'',
      si_WalletID = ex_uuid 200, si_PlayerID = ex_uuid 201, si_RoundID = ''r1'', si_GameID = ''g1'',
      si_Kind = KindBet, si_Amount = brl 2500, si_ReferenceExternalTransactionID = [],
      si_CorrelationID = ''c1''\<rparr>"

lemma ex_uuid_is_uuid [simp]: "is_uuid (ex_uuid n)"
  by (simp add: ex_uuid_def ex_bytes_def id_format_uuid)

lemma ex_uuid_valid [simp]: "valid_id (ex_uuid n)"
  by (simp add: is_uuid_valid_id)

lemma ex_env_ok: "env_ok ex_env"
proof -
  have "s div 1000 * 1000 \<le> t div 1000 * 1000" if "s \<le> t" for s t :: int
    using zdiv_mono1 [OF that, of 1000] by simp
  then show ?thesis
    by (simp add: env_ok_def ex_env_def ex_bytes_def unix_epoch_def time_second_def min_def)
qed

lemma ex_db_books: "books_ok ex_db"
  by (simp add: books_ok_def ex_db_def ex_wallet_def ex_opening_def ex_entry_def wallet_row_ok_def wallet_checks_def
      wallet_books_def entries_of_def ledger_entry_ok_def ledger_balance_equation_def wagers_unique_def books_transaction_def
      moves_money_def supportedCurrencies_def)

lemma ex_world_books: "books_ok (db ex_world)"
  by (simp add: ex_world_def ex_db_books)

end
