(* ===== verification/Settlement.thy ===== *)
theory Settlement
  imports Wager_Service Example
begin

text \<open>
  What a wager request does to the books. The locale \<open>wager_session\<close> is the contract of the
  \<^verbatim>\<open>Session\<close> interface: what each method promises about the tables when it succeeds. Within it
  the application service is shown to take the abstract step \<open>settled\<close>, or none for a replay; the
  PostgreSQL session is its interpretation.
\<close>

section \<open>Rows and transactions\<close>

text \<open>The result of a lookup by a condition on the rows.\<close>

fun found :: "(wager_row \<Rightarrow> bool) \<Rightarrow> database \<Rightarrow> transaction option \<Rightarrow> bool" where
  "found P d None \<longleftrightarrow> (\<forall>r \<in> set (wagers d). \<not> P r)"
| "found P d (Some t) \<longleftrightarrow> (\<exists>r \<in> set (wagers d). P r \<and> scanWager r = Inr t)"

text \<open>A row carries the request data of a transaction.\<close>

definition row_matches :: "wager_row \<Rightarrow> transaction \<Rightarrow> bool" where
  "row_matches g t \<longleftrightarrow>
     gr_id g = t_id t \<and> gr_kind g = t_kind t \<and> gr_wallet_id g = t_walletID t \<and>
     gr_amount_minor g = minor (t_amount t) \<and> gr_currency g = code (currency (t_amount t)) \<and>
     gr_origin g = t_origin t \<and> textValue (gr_provider_id g) = t_providerID t \<and>
     textValue (gr_external_transaction_id g) = t_externalTransactionID t \<and>
     textValue (gr_idempotency_key g) = t_idempotencyKey t \<and>
     (t_origin t = OriginExternal \<longrightarrow> gr_payload_hash g = Some (t_payloadHash t))"

lemma textValue_nullString [simp]: "textValue (nullString v) = v"
  by (simp add: textValue_def nullString_def)

lemma textValue_Some: "textValue x = v \<Longrightarrow> v \<noteq> [] \<Longrightarrow> x = Some v"
  by (cases x) (simp_all add: textValue_def)

text \<open>Only an external transaction has a provider or a payload hash.\<close>

lemma transaction_wf_origin:
  assumes "transaction_wf t"
  shows "t_providerID t \<noteq> [] \<Longrightarrow> t_origin t = OriginExternal"
    "t_origin t = OriginExternal \<Longrightarrow> t_payloadHash t \<noteq> zero_hash"
  using assms by (auto simp: transaction_wf_def validateOrigin_def origin_Valid_def payload_hash_Valid_def split: if_splits)

lemma scan_hash_Inr: "scan_hash h = Inr x \<Longrightarrow> x \<noteq> zero_hash \<Longrightarrow> h = Some x"
  by (auto simp: scan_hash_def split: option.splits if_splits)

lemma row_matches_same: "row_matches g t \<Longrightarrow> same_request t t' \<Longrightarrow> row_matches g t'"
  by (simp add: row_matches_def same_request_def)

lemma scanWager_Inr:
  assumes "scanWager r = Inr t"
  shows "transaction_wf t" "row_matches r t" "t_status t = gr_status r"
    "t_referenceTransactionID t = textValue (gr_reference_transaction_id r)"
proof -
  from assms have h: "scan_hash (gr_payload_hash r) = Inr (t_payloadHash t)" and wf: "transaction_wf t"
    and f: "gr_id r = t_id t \<and> gr_kind r = t_kind t \<and> gr_wallet_id r = t_walletID t \<and>
      gr_amount_minor r = minor (t_amount t) \<and> gr_currency r = code (currency (t_amount t)) \<and>
      gr_origin r = t_origin t \<and> textValue (gr_provider_id r) = t_providerID t \<and>
      textValue (gr_external_transaction_id r) = t_externalTransactionID t \<and>
      textValue (gr_idempotency_key r) = t_idempotencyKey t"
    and st: "t_status t = gr_status r" "t_referenceTransactionID t = textValue (gr_reference_transaction_id r)"
    by (auto simp: scanWager_def and_then_eq_Inr transaction_Rehydrate_def transaction_build_eq_Inr
        ParseCurrency_eq_Inr)
  show "transaction_wf t" "t_status t = gr_status r"
    "t_referenceTransactionID t = textValue (gr_reference_transaction_id r)" by (fact wf st)+
  show "row_matches r t"
    using f scan_hash_Inr [OF h] transaction_wf_origin [OF wf] by (simp add: row_matches_def)
qed

text \<open>The row of a wallet is replaced by the wallet's new state.\<close>

definition wallet_replaced :: "env \<Rightarrow> wallet \<Rightarrow> database \<Rightarrow> database \<Rightarrow> bool" where
  "wallet_replaced env a d d' \<longleftrightarrow>
     (\<exists>xs r ys r'. wallets d = xs @ r # ys \<and> d' = d\<lparr>wallets := xs @ r' # ys\<rparr> \<and> wr_id r = w_id a \<and>
        r' = r\<lparr>wr_balance_minor := minor (w_balance a), wr_version := w_version a,
          wr_updated_at := env_timestamptz env (w_updatedAt a)\<rparr> \<and> list_all fst (wallet_checks r'))"

text \<open>The row of a waiting transaction is replaced by its terminal state.\<close>

definition pending_completed :: "transaction \<Rightarrow> database \<Rightarrow> database \<Rightarrow> bool" where
  "pending_completed t d d' \<longleftrightarrow>
     (\<exists>xs g0 ys g. wagers d = xs @ g0 # ys \<and> d' = d\<lparr>wagers := xs @ g # ys\<rparr> \<and>
        gr_id g0 = t_id t \<and> gr_status g0 = StatusPendingReference \<and> gr_id g = gr_id g0 \<and>
        gr_origin g = gr_origin g0 \<and> wager_identity g = wager_identity g0 \<and> gr_status g = t_status t \<and>
        gr_result_balance_minor g = map_option minor (t_resultBalance t) \<and>
        gr_failure_code g = nullString (t_failureCode t) \<and>
        list_all fst (wager_uniques g (xs @ ys)))"

text \<open>Every way to finish a transaction ends in a terminal status.\<close>

lemma persistRejected_terminal:
  "persistRejected sv S t b input fc existing now s = (Inr t', s') \<Longrightarrow> status_Terminal (t_status t')"
  unfolding persistRejected_def by (auto simp: transaction_Reject_Inr status_Terminal_def)

lemma finish_moving_terminal:
  "finish_moving sv S account t input reference existing now s = (Inr t', s') \<Longrightarrow> status_Terminal (t_status t')"
  unfolding finish_moving_def finish_movement_def Let_def
  by (auto simp: MarkProcessed_Inr status_Terminal_def split: sum.splits if_splits
      dest!: persistRejected_terminal)

lemma finish_terminal:
  assumes "finish sv S account t input reference failure existing now s = (Inr t', s')"
  shows "status_Terminal (t_status t')"
proof -
  have loss: "finish_loss sv S account u input existing now v = (Inr t', v') \<Longrightarrow> status_Terminal (t_status t')" for u v v'
    unfolding finish_loss_def by (auto simp: MarkProcessed_Inr status_Terminal_def)
  show ?thesis
    using assms unfolding finish_def
    by (auto split: if_splits dest: persistRejected_terminal finish_moving_terminal loss)
qed

text \<open>The transaction carries the data of the request.\<close>

definition request_of :: "submit_input \<Rightarrow> transaction \<Rightarrow> bool" where
  "request_of input t \<longleftrightarrow>
     t_kind t = si_Kind input \<and> t_amount t = si_Amount input \<and> t_walletID t = si_WalletID input \<and>
     t_providerID t = si_ProviderID input \<and>
     t_referenceExternalTransactionID t = si_ReferenceExternalTransactionID input"

lemma request_of_same: "request_of input t \<Longrightarrow> same_request t t' \<Longrightarrow> request_of input t'"
  by (simp add: request_of_def same_request_def)

text \<open>An event that reports a row, and the events that report a processed transaction and its movement.\<close>

definition status_event :: "integration_event \<Rightarrow> wager_row \<Rightarrow> bool" where
  "status_event v g \<longleftrightarrow>
     ev_aggregateID v = gr_id g \<and> states_transaction (ev_data v) g \<and>
     (gr_status g, ev_eventType v) \<in>
       {(StatusProcessed, TypeWagerTransactionProcessed), (StatusRejected, TypeWagerTransactionRejected),
        (StatusPendingReference, TypeWagerTransactionPendingReference)}"

definition processed_event :: "integration_event \<Rightarrow> transaction \<Rightarrow> submit_input \<Rightarrow> money \<Rightarrow> bool" where
  "processed_event v t input b \<longleftrightarrow>
     ev_aggregateID v = t_id t \<and> ev_eventType v = TypeWagerTransactionProcessed \<and>
     currency b = currency (si_Amount input) \<and>
     ev_data v = ProcessedData \<lparr>pd_TransactionID = t_id t, pd_ProviderID = si_ProviderID input, pd_Kind = si_Kind input,
       pd_Status = StatusProcessed, pd_Money = si_Amount input, pd_Balance = b\<rparr>"

section \<open>The contract of a session\<close>

locale wager_session =
  fixes env :: env and S :: "'s session" and sv :: "'s service" and view :: "'s \<Rightarrow> database"
  assumes now_law: "sv_now sv s = (Inr n, s') \<Longrightarrow> view s' = view s"
    and newID_law: "sv_newID sv s = (Inr i, s') \<Longrightarrow> view s' = view s"
    and find_id_law: "FindByID S i s = (Inr r, s') \<Longrightarrow>
      view s' = view s \<and> found (\<lambda>g. gr_id g = i) (view s) r"
    and find_key_law: "FindByIdempotencyKey S p k s = (Inr r, s') \<Longrightarrow>
      view s' = view s \<and> found (\<lambda>g. gr_provider_id g = Some p \<and> gr_idempotency_key g = Some k) (view s) r"
    and find_external_law: "FindByExternalID S p x s = (Inr r, s') \<Longrightarrow>
      view s' = view s \<and> found (\<lambda>g. gr_provider_id g = Some p \<and> gr_external_transaction_id g = Some x) (view s) r"
    and lock_law: "LockWallet S i s = (Inr a, s') \<Longrightarrow>
      view s' = view s \<and> (\<exists>r \<in> set (wallets (view s)). wr_id r = i \<and> wallet_of_row r = Inr a)"
    and reversal_law: "HasReversal S i s = (Inr b, s') \<Longrightarrow> view s' = view s \<and>
      (b \<longleftrightarrow> (\<exists>g \<in> set (wagers (view s)). is_reversal g \<and> gr_reference_transaction_id g = Some i))"
    and insert_law: "InsertTransaction S t sched s = (Inr u, s') \<Longrightarrow>
      insert_wager (wager_row_of env t sched) (view s) = Inr (view s')"
    and update_law: "UpdateTransaction S t s = (Inr u, s') \<Longrightarrow> pending_completed t (view s) (view s')"
    and wallet_law: "UpdateWallet S a s = (Inr u, s') \<Longrightarrow> wallet_replaced env a (view s) (view s')"
    and ledger_law: "InsertLedger S e s = (Inr u, s') \<Longrightarrow>
      view s' = (view s)\<lparr>ledger := ledger (view s) @ [ledger_row_of env e]\<rparr> \<and> is_uuid (e_id e)"
    and event_law: "InsertEvent S v s = (Inr u, s') \<Longrightarrow>
      \<exists>payload. event_MarshalJSON v = Inr payload \<and> insert_outbox (outbox_row_of env v payload) (view s) = Inr (view s')"
begin

text \<open>A computation that only queues events.\<close>

definition publishes :: "integration_event list \<Rightarrow> 's \<Rightarrow> 's \<Rightarrow> bool" where
  "publishes vs s s' \<longleftrightarrow> events_queued env vs (view s) (view s')"

lemma publishes_same: "view s' = view s \<Longrightarrow> publishes [] s s'"
  by (simp add: publishes_def events_queued_Nil)

lemma publishes_event: "InsertEvent S v s = (Inr u, s') \<Longrightarrow> publishes [v] s s'"
  using event_law events_queued_insert unfolding publishes_def by blast

lemma publishes_trans: "publishes vs s t \<Longrightarrow> publishes us t u \<Longrightarrow> publishes (vs @ us) s u"
  unfolding publishes_def by (rule events_queued_append)

lemma publishes_new:
  assumes "sv_newID sv s = (Inr i, t)" "InsertEvent S v t = (Inr u, s')"
  shows "publishes [v] s s'"
  using publishes_trans [OF publishes_same [OF newID_law [OF assms(1)]] publishes_event [OF assms(2)]] by simp

lemma insertProcessedEvent_publishes:
  assumes "insertProcessedEvent sv S t input b now s = (Inr i, s')"
  shows "\<exists>v. publishes [v] s s' \<and> processed_event v t input b"
proof -
  from assms obtain j e s1 where j: "sv_newID sv s = (Inr j, s1)"
    and e: "NewWagerTransactionProcessed
       \<lparr>md_EventID = j, md_AggregateID = t_id t, md_CorrelationID = si_CorrelationID input,
        md_CausationID = [], md_OccurredAt = now\<rparr>
       (t_id t) (si_ProviderID input) (si_Kind input) (si_Amount input) b = Inr e"
    and v: "InsertEvent S (as_event ProcessedData e) s1 = (Inr (), s')"
    unfolding insertProcessedEvent_def by (auto elim!: io_try_InrE)
  from publishes_new [OF j v] event_contents(1) [OF e, of ProcessedData] show ?thesis
    by (intro exI [of _ "as_event ProcessedData e"]) (simp add: processed_event_def envelope_of_def)
qed

lemma insertBalanceEvent_publishes:
  assumes "insertBalanceEvent sv S t input d b a v c now s = (Inr u, s')"
  shows "\<exists>e. publishes [e] s s' \<and> ev_aggregateID e = si_WalletID input \<and> ev_eventType e = TypeWalletBalanceChanged \<and>
    ev_data e = BalanceData \<lparr>bd_WalletID = si_WalletID input, bd_TransactionID = t_id t, bd_Direction = d,
      bd_Money = si_Amount input, bd_BalanceBefore = b, bd_BalanceAfter = a, bd_WalletVersion = v\<rparr>"
proof -
  from assms obtain j e s1 where j: "sv_newID sv s = (Inr j, s1)"
    and e: "NewWalletBalanceChanged
       \<lparr>md_EventID = j, md_AggregateID = si_WalletID input, md_CorrelationID = si_CorrelationID input,
        md_CausationID = c, md_OccurredAt = now\<rparr>
       \<lparr>bd_WalletID = si_WalletID input, bd_TransactionID = t_id t, bd_Direction = d, bd_Money = si_Amount input,
        bd_BalanceBefore = b, bd_BalanceAfter = a, bd_WalletVersion = v\<rparr> = Inr e"
    and v: "InsertEvent S (as_event BalanceData e) s1 = (Inr (), s')"
    unfolding insertBalanceEvent_def by (auto elim!: io_try_InrE)
  from publishes_new [OF j v] event_contents(4) [OF e, of BalanceData] show ?thesis
    by (intro exI [of _ "as_event BalanceData e"]) (simp add: envelope_of_def)
qed

text \<open>Writing a transaction, by insertion or by completing its waiting row.\<close>

definition stores :: "transaction \<Rightarrow> wager_row \<Rightarrow> database \<Rightarrow> database \<Rightarrow> bool" where
  "stores t g d d' \<longleftrightarrow>
     wager_written g d d' \<and> d' = d\<lparr>wagers := wagers d'\<rparr> \<and> row_matches g t \<and> gr_status g = t_status t \<and>
     gr_result_balance_minor g = map_option minor (t_resultBalance t) \<and> gr_failure_code g = nullString (t_failureCode t)"

definition storable :: "transaction \<Rightarrow> bool \<Rightarrow> database \<Rightarrow> bool" where
  "storable t existing d \<longleftrightarrow>
     wagers_unique (wagers d) \<and> (existing \<longrightarrow> (\<exists>g \<in> set (wagers d). row_matches g t))"

lemma storable_same: "storable t existing d \<Longrightarrow> same_request t t' \<Longrightarrow> storable t' existing d"
  unfolding storable_def using row_matches_same by blast

lemma insert_stores:
  assumes "InsertTransaction S t sched s = (Inr u, s')"
  shows "stores t (wager_row_of env t sched) (view s) (view s')"
  using insert_law [OF assms]
  by (simp add: insert_wager_eq_Inr stores_def wager_written_def row_matches_def wager_row_of_def)

lemma update_stores:
  assumes "UpdateTransaction S t s = (Inr u, s')" and "storable t True (view s)"
  shows "\<exists>g. stores t g (view s) (view s')"
proof -
  from update_law [OF assms(1)] obtain xs g0 ys g where d: "wagers (view s) = xs @ g0 # ys"
    and d': "view s' = (view s)\<lparr>wagers := xs @ g # ys\<rparr>" and g0: "gr_id g0 = t_id t"
    and g: "gr_status g0 = StatusPendingReference" "gr_id g = gr_id g0" "gr_origin g = gr_origin g0"
      "wager_identity g = wager_identity g0" "gr_status g = t_status t"
      "gr_result_balance_minor g = map_option minor (t_resultBalance t)" "gr_failure_code g = nullString (t_failureCode t)"
      "list_all fst (wager_uniques g (xs @ ys))"
    unfolding pending_completed_def by blast
  from assms(2) obtain q where q: "q \<in> set (wagers (view s))" "row_matches q t"
    and u: "wagers_unique (wagers (view s))"
    unfolding storable_def by blast
  have "q = g0"
    by (rule wagers_unique_eq [OF u q(1)]) (use d g0 q(2) in \<open>auto simp: wager_clash_def row_matches_def\<close>)
  with q(2) g have "row_matches g t"
    by (auto simp: row_matches_def wager_identity_def)
  moreover have "wager_written g (view s) (view s')"
    unfolding wager_written_def using d d' g by auto
  ultimately show ?thesis using d' g by (auto simp: stores_def)
qed

lemma persistTransaction_stores:
  assumes "persistTransaction S t existing s = (Inr u, s')" and "storable t existing (view s)"
  shows "\<exists>g. stores t g (view s) (view s')"
proof (cases existing)
  case True
  with assms show ?thesis using update_stores by (simp add: persistTransaction_def)
next
  case False
  with assms(1) have "InsertTransaction S t None s = (Inr u, s')" by (simp add: persistTransaction_def)
  then show ?thesis using insert_stores by blast
qed

text \<open>Storing a transaction that moves no money, then publishing its event, settles it.\<close>

lemma processed_event_status:
  assumes "stores t g d d'" "processed_event v t input b" "request_of input t"
    and "t_status t = StatusProcessed" "t_resultBalance t = Some b"
  shows "status_event v g"
  using assms by (simp add: stores_def processed_event_def request_of_def status_event_def row_matches_def states_money_def)

lemma stores_settles:
  assumes g: "stores t g (view s) (view s1)" and v: "publishes [v] s1 s'" "status_event v g"
    and t: "t_status t \<noteq> StatusProcessed \<or> t_kind t = KindLoss"
  shows "settled g (view s) (view s') \<and> row_matches g t \<and> gr_status g = t_status t \<and>
    gr_result_balance_minor g = map_option minor (t_resultBalance t)"
proof -
  from events_queued_rows [OF v(1) [unfolded publishes_def]] obtain xs x where
    q: "queued xs (view s1) (view s')" and d: "view s' = (view s1)\<lparr>outbox := outbox (view s1) @ xs\<rparr>"
    and x: "x \<in> set xs" "stored_event v x" by auto
  obtain ws where s1: "view s1 = (view s)\<lparr>wagers := ws\<rparr>" using g unfolding stores_def by metis
  have nm: "\<not> moves_money g" using g t by (auto simp: stores_def moves_money_def row_matches_def)
  have "wager_written g (view s) (view s')"
    using g d unfolding stores_def wager_written_def by simp
  then have "recorded g (view s) (view s')" using nm d s1 by (simp add: recorded_def)
  moreover have "announced g xs"
    using x v(2) nm stored_event_announces(1) by (auto simp: announced_def list_ex_iff status_event_def)
  moreover have "queued xs (view s) (view s')" using q by (rule queued_from) (simp add: s1)
  moreover have "ledger (view s') = ledger (view s)" using d s1 by simp
  ultimately show ?thesis using g unfolding settled_def stores_def by auto
qed

definition settles :: "transaction \<Rightarrow> 's \<Rightarrow> 's \<Rightarrow> bool" where
  "settles t s s' \<longleftrightarrow>
     (\<exists>g. settled g (view s) (view s') \<and> row_matches g t \<and> gr_status g = t_status t \<and>
        gr_result_balance_minor g = map_option minor (t_resultBalance t))"

lemma persistRejected_settles:
  assumes "persistRejected sv S t b input fc existing now s = (Inr t', s')"
    and "storable t existing (view s)" and req: "request_of input t"
  shows "transaction_Reject t fc b now = Inr t' \<and> settles t' s s'"
proof -
  from assms(1) obtain i s1 s2 e where rej: "transaction_Reject t fc b now = Inr t'"
    and p: "persistTransaction S t' existing s = (Inr (), s1)"
    and n: "sv_newID sv s1 = (Inr i, s2)" and v: "InsertEvent S (as_event RejectedData e) s2 = (Inr (), s')"
    and e: "NewWagerTransactionRejected
       \<lparr>md_EventID = i, md_AggregateID = t_id t', md_CorrelationID = si_CorrelationID input,
        md_CausationID = [], md_OccurredAt = now\<rparr>
       (t_id t') (si_ProviderID input) (si_Kind input) fc (si_Amount input) b = Inr e"
    unfolding persistRejected_def by (auto elim!: io_try_InrE)
  have same: "same_request t t'" using tr_rejected [OF rej] by (rule transition_same_request)
  with assms(2) have "storable t' existing (view s)" by (rule storable_same)
  with p obtain g where g: "stores t' g (view s) (view s1)" using persistTransaction_stores by blast
  have st: "t_status t' = StatusRejected" "t_failureCode t' = fc" "t_resultBalance t' = Some b"
    using rej by (auto simp: transaction_Reject_Inr)
  have "status_event (as_event RejectedData e) g"
    using event_contents(2) [OF e, of RejectedData] g st request_of_same [OF req same]
    by (simp add: status_event_def envelope_of_def stores_def row_matches_def request_of_def states_money_def)
  then show ?thesis
    using rej st stores_settles [OF g publishes_new [OF n v]] unfolding settles_def by auto
qed

lemma persistPending_settles:
  assumes "persistPending sv S t input now s = (Inr t', s')" and req: "request_of input t"
  shows "MarkPendingReference t now = Inr t' \<and> settles t' s s'"
proof -
  from assms(1) obtain i sched s1 s2 e where m: "MarkPendingReference t now = Inr t'"
    and p: "InsertTransaction S t' sched s = (Inr (), s1)"
    and n: "sv_newID sv s1 = (Inr i, s2)" and v: "InsertEvent S (as_event PendingData e) s2 = (Inr (), s')"
    and e: "NewWagerTransactionPendingReference
       \<lparr>md_EventID = i, md_AggregateID = t_id t', md_CorrelationID = si_CorrelationID input,
        md_CausationID = [], md_OccurredAt = now\<rparr>
       (t_id t') (si_ProviderID input) (si_Kind input) (si_ReferenceExternalTransactionID input) = Inr e"
    unfolding persistPending_def by (auto elim!: io_try_InrE)
  have same: "same_request t t'" using tr_pending [OF m] by (rule transition_same_request)
  have st: "t_status t' = StatusPendingReference" using m by (auto simp: MarkPendingReference_Inr)
  have "status_event (as_event PendingData e) (wager_row_of env t' sched)"
    using event_contents(3) [OF e, of PendingData] st request_of_same [OF req same]
    by (simp add: status_event_def envelope_of_def wager_row_of_def request_of_def)
  then show ?thesis
    using m st stores_settles [OF insert_stores [OF p] publishes_new [OF n v]] unfolding settles_def by auto
qed

lemma finish_loss_settles:
  assumes "finish_loss sv S account t input existing now s = (Inr t', s')"
    and "storable t existing (view s)" and req: "request_of input t" and "t_kind t = KindLoss"
  shows "MarkProcessed t (w_balance account) now = Inr t' \<and> settles t' s s'"
proof -
  from assms(1) obtain i s1 where m: "MarkProcessed t (w_balance account) now = Inr t'"
    and p: "persistTransaction S t' existing s = (Inr (), s1)"
    and e: "insertProcessedEvent sv S t' input (w_balance account) now s1 = (Inr i, s')"
    unfolding finish_loss_def by (auto elim!: io_try_InrE)
  have same: "same_request t t'" using tr_processed [OF m] by (rule transition_same_request)
  with assms(2) have "storable t' existing (view s)" by (rule storable_same)
  with p obtain g where g: "stores t' g (view s) (view s1)" using persistTransaction_stores by blast
  have kind: "t_kind t' = KindLoss" using same assms(4) by (simp add: same_request_def)
  obtain v where v: "publishes [v] s1 s'" "processed_event v t' input (w_balance account)"
    using insertProcessedEvent_publishes [OF e] by blast
  have "status_event v g"
    by (rule processed_event_status [OF g v(2) request_of_same [OF req same]]) (use m in \<open>auto simp: MarkProcessed_Inr\<close>)
  then show ?thesis
    using m kind stores_settles [OF g v(1)] unfolding settles_def by blast
qed

text \<open>The movement: wallet, transaction, ledger entry and events, written in this order.\<close>

lemma finish_movement_settles:
  assumes run: "finish_movement sv S account' t input direction prior after existing now s = (Inr t', s')"
    and move: "move_wallet direction account (si_Amount input) now = Inr ((prior, after), account')"
    and row: "r \<in> set (wallets (view s))" "wallet_of_row r = Inr account"
    and inv: "distinct (map wr_id (wallets (view s)))" and st: "storable t existing (view s)"
    and t: "t_kind t \<noteq> KindLoss" "request_of input t" "wr_id r = si_WalletID input"
    and dir: "direction = DirectionDebit \<or> direction = DirectionCredit"
  shows "MarkProcessed t after now = Inr t' \<and> settles t' s s'"
proof -
  from run obtain eid entry pid s1 s2 s3 s4 s5 where m: "MarkProcessed t after now = Inr t'"
    and n: "sv_newID sv s = (Inr eid, s1)"
    and en: "ledger_New \<lparr>e_id = eid, e_walletID = w_id account', e_transactionID = t_id t', e_direction = direction,
        e_amount = si_Amount input, e_balanceBefore = prior, e_balanceAfter = after,
        e_walletVersion = w_version account', e_createdAt = now\<rparr> = Inr entry"
    and w: "UpdateWallet S account' s1 = (Inr (), s2)"
    and p: "persistTransaction S t' existing s2 = (Inr (), s3)"
    and l: "InsertLedger S entry s3 = (Inr (), s4)"
    and ep: "insertProcessedEvent sv S t' input after now s4 = (Inr pid, s5)"
    and eb: "insertBalanceEvent sv S t' input direction prior after (w_version account') pid now s5 = (Inr (), s')"
    unfolding finish_movement_def by (auto elim!: io_try_InrE)
  note v1 = newID_law [OF n]
  have acc: "account = wallet_of r" "wallet_wf account" using wallet_of_row_eq_Inr [OF row(2)] by auto
  have same: "same_request t t'" using tr_processed [OF m] by (rule transition_same_request)
  have mv: "prior = w_balance account" "currency after = currency (w_balance account)"
    "account' = account\<lparr>w_balance := after, w_version := w_version account + 1, w_updatedAt := now\<rparr>"
    "w_version account \<noteq> max_int64"
    using move dir
      credit.move_before credit.move_currency credit.move_wallet credit.move_guard
      debit.move_before debit.move_currency debit.move_wallet debit.move_guard
    by (auto simp: move_wallet_def validateMovement_None split: if_splits)
  from wallet_law [OF w] obtain xs q ys q' where ws: "wallets (view s) = xs @ q # ys"
    and v2: "view s2 = (view s)\<lparr>wallets := xs @ q' # ys\<rparr>" and q: "wr_id q = w_id account'"
    and q': "q' = q\<lparr>wr_balance_minor := minor (w_balance account'), wr_version := w_version account',
          wr_updated_at := env_timestamptz env (w_updatedAt account')\<rparr>" "list_all fst (wallet_checks q')"
    unfolding wallet_replaced_def v1 by blast
  have "wr_id q = wr_id r" using q mv(3) acc(1) by (simp add: wallet_of_def)
  then have qr: "q = r" using inv row(1) ws by (metis distinct_map in_set_conv_decomp inj_on_def)
  have st2: "storable t' existing (view s2)"
    using storable_same [OF st same] v2 by (simp add: storable_def)
  from persistTransaction_stores [OF p st2] obtain g where g: "stores t' g (view s2) (view s3)" by blast
  then obtain gs where v3: "view s3 = (view s2)\<lparr>wagers := gs\<rparr>" unfolding stores_def by metis
  have v4: "view s4 = (view s3)\<lparr>ledger := ledger (view s3) @ [ledger_row_of env entry]\<rparr>" and iu: "is_uuid (e_id entry)"
    using ledger_law [OF l] by simp_all
  obtain pv bv where pv: "publishes [pv] s4 s5" "processed_event pv t' input after"
    and bv: "publishes [bv] s5 s'" "ev_aggregateID bv = si_WalletID input" "ev_eventType bv = TypeWalletBalanceChanged"
      "ev_data bv = BalanceData \<lparr>bd_WalletID = si_WalletID input, bd_TransactionID = t_id t', bd_Direction = direction,
        bd_Money = si_Amount input, bd_BalanceBefore = prior, bd_BalanceAfter = after, bd_WalletVersion = w_version account'\<rparr>"
    using insertProcessedEvent_publishes [OF ep] insertBalanceEvent_publishes [OF eb] by blast
  from publishes_trans [OF pv(1) bv(1)] have "events_queued env [pv, bv] (view s4) (view s')"
    by (simp add: publishes_def)
  from events_queued_rows [OF this] obtain evs where qe: "queued evs (view s4) (view s')"
    and v5: "view s' = (view s4)\<lparr>outbox := outbox (view s4) @ evs\<rparr>"
    and rows: "\<forall>v \<in> set [pv, bv]. \<exists>x \<in> set evs. stored_event v x"
    by blast
  have ew: "entry_wf entry" and eq: "entry = \<lparr>e_id = eid, e_walletID = w_id account', e_transactionID = t_id t',
        e_direction = direction, e_amount = si_Amount input, e_balanceBefore = prior, e_balanceAfter = after,
        e_walletVersion = w_version account', e_createdAt = now\<rparr>"
    using entry_build_wf [OF en [unfolded ledger_New_def]] by auto
  let ?e = "ledger_row_of env entry"
  note req = request_of_same [OF t(2) same]
  have t': "t_kind t' \<noteq> KindLoss" "t_amount t' = si_Amount input" "t_walletID t' = wr_id r"
    "t_status t' = StatusProcessed" "t_resultBalance t' = Some after"
    using same t m req by (auto simp: same_request_def MarkProcessed_Inr request_of_def)
  have gm: "row_matches g t'" "gr_status g = StatusProcessed" "gr_result_balance_minor g = Some (minor after)"
    using g t' by (simp_all add: stores_def)
  have cur: "code (currency (si_Amount input)) = wr_currency r"
    using ew eq mv(1) acc(1) by (simp add: entry_wf_def wallet_of_def) (metis currency.sel)
  have bt: "books_transaction ?e g"
    using gm t' eq mv(3) acc(1)
    by (simp add: books_transaction_def ledger_row_of_def row_matches_def moves_money_def wallet_of_def)
  have le: "ledger_entry_ok ?e" using ew iu by (rule ledger_row_of_ok)
  have ver: "sint (wr_version q') = sint (wr_version r) + 1"
    using q'(1) mv(3,4) acc(1) sint_version_Suc [of "w_version account"] by (simp add: wallet_of_def)
  have "balance_moved g (view s) (view s')"
    unfolding balance_moved_def
    by (rule exI [of _ xs], rule exI [of _ r], rule exI [of _ ys], rule exI [of _ q'], rule exI [of _ ?e])
      (use ws qr v2 v3 v4 v5 q' bt le ver cur eq mv acc(1) in
        \<open>simp add: ledger_row_of_def wallet_of_def\<close>)
  moreover have "moves_money g" using gm t' by (simp add: moves_money_def row_matches_def)
  moreover have "wager_written g (view s) (view s')"
    using g v2 v4 v5 unfolding stores_def wager_written_def by simp
  ultimately have "recorded g (view s) (view s')"
    using v2 v3 v4 v5 by (simp add: recorded_def)
  moreover have "queued evs (view s) (view s')" using qe by (rule queued_from) (simp add: v2 v3 v4)
  moreover have ea: "entry_announced ?e evs"
  proof -
    from rows obtain x where "x \<in> set evs" "stored_event bv x" by auto
    moreover have "states_entry (ev_data bv) ?e" "ev_aggregateID bv = lr_wallet_id ?e"
      using bv eq mv acc(1) t(3) cur by (simp_all add: states_money_def ledger_row_of_def wallet_of_def)
    ultimately show ?thesis
      using stored_event_announces(2) bv(3) by (auto simp: entry_announced_def list_ex_iff)
  qed
  moreover have "announced g evs"
  proof -
    from rows obtain x where "x \<in> set evs" "stored_event pv x" by auto
    moreover have "status_event pv g" by (rule processed_event_status [OF g pv(2) req t'(4,5)])
    ultimately have "list_ex (announces g) evs"
      using stored_event_announces(1) by (auto simp: status_event_def list_ex_iff)
    then show ?thesis using entry_announced_movement [OF bt ea] by (simp add: announced_def)
  qed
  moreover have "ledger (view s') = ledger (view s) @ [?e]" using v2 v3 v4 v5 by simp
  ultimately have "settled g (view s) (view s')" unfolding settled_def by auto
  then show ?thesis using m g unfolding settles_def stores_def by auto
qed

text \<open>What the caller of \<^verbatim>\<open>finish\<close> has established.\<close>

definition ready :: "wallet \<Rightarrow> transaction \<Rightarrow> submit_input \<Rightarrow> bool \<Rightarrow> database \<Rightarrow> bool" where
  "ready account t input existing d \<longleftrightarrow>
     distinct (map wr_id (wallets d)) \<and> storable t existing d \<and> request_of input t \<and>
     (\<exists>r \<in> set (wallets d). wr_id r = si_WalletID input \<and> wallet_of_row r = Inr account)"

lemma ready_same: "ready account t input existing d \<Longrightarrow> same_request t t' \<Longrightarrow> ready account t' input existing d"
  unfolding ready_def using storable_same request_of_same by blast

lemma movement_direction_cases:
  "movement_direction input reference = DirectionDebit \<or> movement_direction input reference = DirectionCredit"
  by (simp add: movement_direction_def)

lemma finish_moving_settles:
  assumes run: "finish_moving sv S account t input reference existing now s = (Inr t', s')"
    and ready: "ready account t input existing (view s)" and kind: "si_Kind input \<noteq> KindLoss"
  shows "transition t t' \<and> settles t' s s'"
proof -
  let ?dir = "movement_direction input reference"
  have st: "storable t existing (view s)" and req: "request_of input t" using ready by (simp_all add: ready_def)
  show ?thesis
  proof (cases "move_wallet ?dir account (si_Amount input) now")
    case (Inl e)
    from run Inl obtain b fc where "persistRejected sv S t b input fc existing now s = (Inr t', s')"
      unfolding finish_moving_def Let_def by (auto split: if_splits)
    from persistRejected_settles [OF this st req] show ?thesis using tr_rejected by blast
  next
    case (Inr x)
    obtain prior after account' where x: "x = ((prior, after), account')" by (metis surj_pair)
    from run Inr x have fm: "finish_movement sv S account' t input ?dir prior after existing now s = (Inr t', s')"
      unfolding finish_moving_def Let_def by simp
    from ready obtain r where r: "r \<in> set (wallets (view s))" "wr_id r = si_WalletID input"
      "wallet_of_row r = Inr account" unfolding ready_def by blast
    have "MarkProcessed t after now = Inr t' \<and> settles t' s s'"
      by (rule finish_movement_settles [OF fm Inr [unfolded x] r(1) r(3)])
        (use ready kind r(2) movement_direction_cases in \<open>auto simp: ready_def request_of_def\<close>)
    then show ?thesis using tr_processed by blast
  qed
qed

lemma resolve_transitions: "ResolveReference t r now = Inr t' \<Longrightarrow> transition\<^sup>*\<^sup>* t t'"
  by (rule r_into_rtranclp) (rule tr_resolve)

lemma finish_settles:
  assumes run: "finish sv S account t input reference failure existing now s = (Inr t', s')"
    and ready: "ready account t input existing (view s)"
  shows "transition\<^sup>*\<^sup>* t t' \<and> settles t' s s'"
proof (cases "failure = []")
  case False
  with run have "persistRejected sv S t (w_balance account) input failure existing now s = (Inr t', s')"
    by (simp add: finish_def)
  from persistRejected_settles [OF this] ready show ?thesis
    using tr_rejected by (auto simp: ready_def)
next
  case True
  with run obtain t1 reversed s1 where res: "(case reference of
           None \<Rightarrow> io_return (t, False)
         | Some r \<Rightarrow>
             io_try (io_lift (ResolveReference t (t_id r) now)) (\<lambda>t.
             if si_Kind input = KindRefund \<or> si_Kind input = KindRollback
             then io_try (HasReversal S (t_id r)) (\<lambda>reversed. io_return (t, reversed))
             else io_return (t, False))) s = (Inr (t1, reversed), s1)"
    and rest: "(if reversed then
            persistRejected sv S t1 (w_balance account) input FailureAlreadyReversed existing now
          else if si_Kind input = KindLoss then finish_loss sv S account t1 input existing now
          else finish_moving sv S account t1 input reference existing now) s1 = (Inr t', s')"
    unfolding finish_def by (auto elim!: io_try_InrE)
  have t1: "transition\<^sup>*\<^sup>* t t1" and v1: "view s1 = view s"
    using res reversal_law by (auto split: option.splits if_splits dest: resolve_transitions)
  have ready1: "ready account t1 input existing (view s1)"
    unfolding v1 using ready transitions_same_request [OF t1] by (rule ready_same)
  have st1: "storable t1 existing (view s1)" and req: "request_of input t1" and kind: "t_kind t1 = si_Kind input"
    using ready1 by (simp_all add: ready_def request_of_def)
  have "transition t1 t' \<and> settles t' s1 s'"
    using rest persistRejected_settles [OF _ st1 req] finish_loss_settles [OF _ st1 req]
      finish_moving_settles [OF _ ready1] kind tr_rejected tr_processed
    by (auto split: if_splits) blast+
  then show ?thesis
    using t1 v1 unfolding settles_def by auto
qed

lemma resolveReference_view: "resolveReference S input s = (Inr r, s') \<Longrightarrow> view s' = view s"
  unfolding resolveReference_def
  by (auto split: if_splits option.splits dest!: find_external_law)

lemma process_settles:
  assumes run: "process sv S account t input now s = (Inr t', s')"
    and ready: "ready account t input False (view s)"
  shows "transition\<^sup>*\<^sup>* t t' \<and> settles t' s s'"
proof -
  from run obtain r s1 where res: "resolveReference S input s = (Inr r, s1)"
    and rest: "(case r of Pending \<Rightarrow> persistPending sv S t input now
       | Resolved reference failure \<Rightarrow> finish sv S account t input reference failure False now) s1 = (Inr t', s')"
    unfolding process_def by (auto elim!: io_try_InrE)
  note v1 = resolveReference_view [OF res]
  have "transition\<^sup>*\<^sup>* t t' \<and> settles t' s1 s'"
  proof (cases r)
    case Pending
    with rest have "persistPending sv S t input now s1 = (Inr t', s')" by simp
    from persistPending_settles [OF this] ready show ?thesis using tr_pending by (auto simp: ready_def)
  next
    case (Resolved reference failure)
    with rest have "finish sv S account t input reference failure False now s1 = (Inr t', s')" by simp
    then show ?thesis using finish_settles ready v1 by metis
  qed
  then show ?thesis using v1 by (simp add: settles_def)
qed

text \<open>Resuming a waiting transaction: it stays as it is, or is settled.\<close>

lemma ResumePending_settles:
  assumes run: "ResumePendingInSession sv S account t expired now s = (Inr completed, s')"
    and stored: "g \<in> set (wagers (view s))" "scanWager g = Inr t"
    and acc: "r \<in> set (wallets (view s))" "wallet_of_row r = Inr account"
    and inv: "books_ok (view s)"
  shows "if completed then \<exists>t'. transition\<^sup>*\<^sup>* t t' \<and> status_Terminal (t_status t') \<and> settles t' s s'
    else view s' = view s"
proof -
  let ?input = "resume_input t" and ?now = "max (max now (t_updatedAt t)) (w_updatedAt account)"
  from run have w: "w_id account = t_walletID t"
    unfolding ResumePendingInSession_def by (auto split: if_splits)
  from run obtain q s1 where res: "resolveReference S ?input s = (Inr q, s1)"
    and rest: "(case q of
        Pending \<Rightarrow> if \<not> expired then io_return False
          else io_try (finish sv S account t ?input None FailureReferenceNotFound True ?now) (\<lambda>_. io_return True)
      | Resolved reference failure \<Rightarrow>
          io_try (finish sv S account t ?input reference failure True ?now) (\<lambda>_. io_return True)) s1
        = (Inr completed, s')"
    unfolding ResumePendingInSession_def Let_def by (auto elim!: io_try_InrE split: if_splits)
  note v1 = resolveReference_view [OF res]
  have "wr_id r = t_walletID t" using w wallet_of_row_eq_Inr [OF acc(2)] by (simp add: wallet_of_def)
  then have ready: "ready account t ?input True (view s1)"
    unfolding v1 using inv acc stored scanWager_Inr(2) [OF stored(2)]
    by (auto simp: ready_def storable_def request_of_def resume_input_def books_ok_def)
  have fin: "\<exists>t'. transition\<^sup>*\<^sup>* t t' \<and> status_Terminal (t_status t') \<and> settles t' s s'"
    if "finish sv S account t ?input reference failure True ?now s1 = (Inr t', s')" for reference failure t'
    using finish_settles [OF that ready] finish_terminal [OF that] v1 by (auto simp: settles_def)
  show ?thesis
    using rest fin v1 by (auto elim!: io_try_InrE split: resolution.splits if_splits)
qed

end

section \<open>Identities of a request\<close>

text \<open>The row an earlier submission of a request left, under its idempotency key or external id.\<close>

definition earlier_row :: "submit_input \<Rightarrow> wager_row \<Rightarrow> bool" where
  "earlier_row input g \<longleftrightarrow> gr_provider_id g = Some (si_ProviderID input) \<and>
     (gr_idempotency_key g = Some (si_IdempotencyKey input) \<or>
      gr_external_transaction_id g = Some (si_ExternalTransactionID input))"

text \<open>The row of this request: both identities and the hash of its payload.\<close>

definition request_row :: "submit_input \<Rightarrow> payload_hash \<Rightarrow> wager_row \<Rightarrow> bool" where
  "request_row input hash g \<longleftrightarrow>
     gr_origin g = OriginExternal \<and> gr_provider_id g = Some (si_ProviderID input) \<and>
     gr_idempotency_key g = Some (si_IdempotencyKey input) \<and>
     gr_external_transaction_id g = Some (si_ExternalTransactionID input) \<and> gr_payload_hash g = Some hash"

lemma request_row_unique:
  assumes "wagers_unique gs" "g \<in> set gs" "q \<in> set gs" "request_row input hash g" "request_row input hash' q"
  shows "q = g"
  by (rule wagers_unique_eq [OF assms(1,3,2)])
    (use assms(4,5) in \<open>auto simp: request_row_def wager_clash_def same_key_def\<close>)

lemma request_row_earlier: "request_row input hash g \<Longrightarrow> earlier_row input g"
  by (simp add: request_row_def earlier_row_def)

definition identified :: "submit_input \<Rightarrow> bool" where
  "identified input \<longleftrightarrow>
     si_ProviderID input \<noteq> [] \<and> si_IdempotencyKey input \<noteq> [] \<and> si_ExternalTransactionID input \<noteq> []"

lemma validateInput_identified: "validateInput input = None \<Longrightarrow> identified input"
  by (simp add: validateInput_def identified_def valid_id_def split: if_splits)

text \<open>The data of a request in a transaction.\<close>

definition carries :: "submit_input \<Rightarrow> payload_hash \<Rightarrow> transaction \<Rightarrow> bool" where
  "carries input hash t \<longleftrightarrow>
     t_origin t = OriginExternal \<and> t_providerID t = si_ProviderID input \<and>
     t_externalTransactionID t = si_ExternalTransactionID input \<and>
     t_idempotencyKey t = si_IdempotencyKey input \<and> t_payloadHash t = hash \<and>
     t_walletID t = si_WalletID input \<and> t_playerID t = si_PlayerID input \<and> t_roundID t = si_RoundID input \<and>
     t_gameID t = si_GameID input \<and> t_kind t = si_Kind input \<and> t_amount t = si_Amount input \<and>
     t_referenceExternalTransactionID t = si_ReferenceExternalTransactionID input"

lemma carries_same: "carries input hash t \<Longrightarrow> same_request t t' \<Longrightarrow> carries input hash t'"
  by (simp add: carries_def same_request_def)

lemma row_matches_request:
  assumes "row_matches g t" "carries input hash t" "identified input"
  shows "request_row input hash g"
proof -
  have "textValue (gr_provider_id g) = si_ProviderID input"
    "textValue (gr_idempotency_key g) = si_IdempotencyKey input"
    "textValue (gr_external_transaction_id g) = si_ExternalTransactionID input"
    using assms(1,2) by (simp_all add: row_matches_def carries_def)
  then show ?thesis
    using assms by (simp add: request_row_def row_matches_def carries_def identified_def textValue_Some)
qed

text \<open>The outcome of a submission that succeeds: the replay of a stored one, or a new settlement.\<close>

definition submitted :: "payload_hash \<Rightarrow> submit_input \<Rightarrow> submit_result \<Rightarrow> database \<Rightarrow> database \<Rightarrow> bool" where
  "submitted hash input res d d' \<longleftrightarrow>
     (let t = sr_Transaction res in
      if sr_Replay res then
        d' = d \<and> (\<exists>g \<in> set (wagers d). request_row input hash g \<and> scanWager g = Inr t)
      else
        (\<forall>g \<in> set (wagers d). \<not> earlier_row input g) \<and> carries input hash t \<and> transaction_wf t \<and>
        (\<exists>g. settled g d d' \<and> request_row input hash g \<and> row_matches g t \<and> gr_status g = t_status t \<and>
           gr_result_balance_minor g = map_option minor (t_resultBalance t)))"

context wager_session
begin

lemma evaluateIdentities_effect:
  assumes run: "evaluateIdentities S input hash s = (Inr r, s')"
    and u: "wagers_unique (wagers (view s))" and id: "identified input"
  shows "view s' = view s \<and>
    (case r of
       None \<Rightarrow> \<forall>g \<in> set (wagers (view s)). \<not> earlier_row input g
     | Some t \<Rightarrow> \<exists>g \<in> set (wagers (view s)). request_row input hash g \<and> scanWager g = Inr t)"
proof -
  from run obtain k x s1 where k: "FindByIdempotencyKey S (si_ProviderID input) (si_IdempotencyKey input) s = (Inr k, s1)"
    and x: "FindByExternalID S (si_ProviderID input) (si_ExternalTransactionID input) s1 = (Inr x, s')"
    and dec: "identity_decision input hash k x = Inr r"
    unfolding evaluateIdentities_def by (auto elim!: io_try_InrE)
  have v: "view s1 = view s" "view s' = view s"
    and fk: "found (\<lambda>g. gr_provider_id g = Some (si_ProviderID input) \<and>
        gr_idempotency_key g = Some (si_IdempotencyKey input)) (view s) k"
    and fx: "found (\<lambda>g. gr_provider_id g = Some (si_ProviderID input) \<and>
        gr_external_transaction_id g = Some (si_ExternalTransactionID input)) (view s) x"
    using find_key_law [OF k] find_external_law [OF x] by auto
  show ?thesis
  proof (cases k)
    case (Some t)
    with dec obtain y where y: "x = Some y" "t_id y = t_id t" "r = Some t" "t_payloadHash t = hash"
      by (auto split: if_splits option.splits)
    from fk Some obtain g where g: "g \<in> set (wagers (view s))" "gr_provider_id g = Some (si_ProviderID input)"
      "gr_idempotency_key g = Some (si_IdempotencyKey input)" "scanWager g = Inr t" by auto
    from fx y(1) obtain q where q: "q \<in> set (wagers (view s))"
      "gr_external_transaction_id q = Some (si_ExternalTransactionID input)" "scanWager q = Inr y" by auto
    note m = scanWager_Inr(1,2) [OF g(4)]
    have "gr_id q = gr_id g" using m(2) scanWager_Inr(2) [OF q(3)] y(2) by (simp add: row_matches_def)
    then have "q = g" using wagers_unique_eq [OF u q(1) g(1)] by (simp add: wager_clash_def)
    moreover have "t_origin t = OriginExternal"
      using transaction_wf_origin(1) [OF m(1)] m(2) g(2) id by (auto simp: row_matches_def textValue_def identified_def)
    ultimately have "request_row input hash g"
      using g(2,3) q(2) m(2) y(4) by (simp add: request_row_def row_matches_def)
    then show ?thesis using g v y(3) by auto
  next
    case None
    show ?thesis
    proof (cases x)
      case (Some t)
      with dec None have "t_idempotencyKey t = si_IdempotencyKey input" by (auto split: if_splits)
      moreover from fx Some obtain q where q: "q \<in> set (wagers (view s))"
        "gr_provider_id q = Some (si_ProviderID input)" "scanWager q = Inr t" by auto
      ultimately have "gr_idempotency_key q = Some (si_IdempotencyKey input)"
        using scanWager_Inr(2) [OF q(3)] id by (intro textValue_Some) (simp_all add: row_matches_def identified_def)
      with fk None q show ?thesis by auto
    next
      case xn: None
      with dec None have "r = None" by simp
      then show ?thesis using fk fx v None xn by (auto simp: earlier_row_def)
    qed
  qed
qed

lemma submit_locked_effect:
  assumes run: "submit_locked sv S input (sv_sha256 sv (canonicalPayload input)) t received account s = (Inr res, s')"
    and c: "carries input (sv_sha256 sv (canonicalPayload input)) t" and wf: "transaction_wf t"
    and acc: "r \<in> set (wallets (view s))" "wr_id r = si_WalletID input" "wallet_of_row r = Inr account"
    and inv: "books_ok (view s)" and id: "identified input"
  shows "submitted (sv_sha256 sv (canonicalPayload input)) input res (view s) (view s')"
proof -
  have u: "wagers_unique (wagers (view s))" using inv by (simp add: books_ok_def)
  from run obtain q s1 where i: "evaluateIdentities S input (sv_sha256 sv (canonicalPayload input)) s = (Inr q, s1)"
    and rest: "(case q of Some earlier \<Rightarrow> io_return \<lparr>sr_Transaction = earlier, sr_Replay = True\<rparr> | None \<Rightarrow>
       io_try (sv_now sv) (\<lambda>processedAt.
       io_try (process sv S account t input (max (max processedAt received) (w_updatedAt account))) (\<lambda>t.
       io_return \<lparr>sr_Transaction = t, sr_Replay = False\<rparr>))) s1 = (Inr res, s')"
    unfolding submit_locked_def by (auto elim!: io_try_InrE split: if_splits)
  note e = evaluateIdentities_effect [OF i u id]
  show ?thesis
  proof (cases q)
    case (Some earlier)
    with rest e show ?thesis by (auto simp: submitted_def)
  next
    case None
    with rest obtain pt s2 t' where now2: "sv_now sv s1 = (Inr pt, s2)"
      and p: "process sv S account t input (max (max pt received) (w_updatedAt account)) s2 = (Inr t', s')"
      and res: "res = \<lparr>sr_Transaction = t', sr_Replay = False\<rparr>"
      by (auto elim!: io_try_InrE)
    have v: "view s2 = view s" using now_law [OF now2] e by simp
    have "ready account t input False (view s2)"
      using acc inv c unfolding v
      by (auto simp: ready_def storable_def request_of_def carries_def books_ok_def)
    from process_settles [OF p this] have tr: "transition\<^sup>*\<^sup>* t t'" and st: "settles t' s2 s'" by auto
    have c': "carries input (sv_sha256 sv (canonicalPayload input)) t'"
      using carries_same [OF c transitions_same_request [OF tr]] .
    from st obtain g where "settled g (view s) (view s')" "row_matches g t'" "gr_status g = t_status t'"
      "gr_result_balance_minor g = map_option minor (t_resultBalance t')"
      unfolding settles_def v by blast
    then show ?thesis
      using e None v c' row_matches_request [OF _ c' id] transitions_wf [OF tr wf] res
      by (auto simp: submitted_def)
  qed
qed

lemma submit_transaction_carries:
  assumes "submit_transaction input hash i received = Inr t"
  shows "carries input hash t" "transaction_wf t"
  using assms
  by (auto simp: submit_transaction_def NewExternal_def transaction_build_eq_Inr carries_def split: sum.splits)

lemma SubmitInSession_effect:
  assumes run: "SubmitInSession sv S input s = (Inr res, s')" and inv: "books_ok (view s)"
  shows "submitted (sv_sha256 sv (canonicalPayload input)) input res (view s) (view s')"
proof -
  let ?hash = "sv_sha256 sv (canonicalPayload input)"
  have u: "wagers_unique (wagers (view s))" using inv by (simp add: books_ok_def)
  from run obtain tid s1 received s2 t r1 s3 where val: "validateInput input = None"
    and n: "sv_newID sv s = (Inr tid, s1)"
    and now1: "sv_now sv s1 = (Inr received, s2)"
    and t: "submit_transaction input ?hash tid received = Inr t"
    and i1: "evaluateIdentities S input ?hash s2 = (Inr r1, s3)"
    and rest: "(case r1 of Some earlier \<Rightarrow> io_return \<lparr>sr_Transaction = earlier, sr_Replay = True\<rparr>
      | None \<Rightarrow> io_try (LockWallet S (si_WalletID input)) (submit_locked sv S input ?hash t received)) s3
        = (Inr res, s')"
    unfolding SubmitInSession_def Let_def by (auto simp: unless_err_eq_Inr elim!: io_try_InrE)
  note id = validateInput_identified [OF val]
  have v2: "view s2 = view s" using newID_law [OF n] now_law [OF now1] by simp
  note e1 = evaluateIdentities_effect [OF i1 _ id, unfolded v2, OF u]
  have v: "view s2 = view s" "view s3 = view s" using e1 v2 by simp_all
  show ?thesis
  proof (cases r1)
    case (Some earlier)
    with rest e1 v show ?thesis by (auto simp: submitted_def)
  next
    case None
    with rest obtain account s4 where lk: "LockWallet S (si_WalletID input) s3 = (Inr account, s4)"
      and sl: "submit_locked sv S input ?hash t received account s4 = (Inr res, s')"
      by (auto elim!: io_try_InrE)
    from lock_law [OF lk] v obtain r where "view s4 = view s" "r \<in> set (wallets (view s))"
      "wr_id r = si_WalletID input" "wallet_of_row r = Inr account" by auto
    with submit_locked_effect [OF sl submit_transaction_carries [OF t], of r] inv id show ?thesis by simp
  qed
qed

end

section \<open>The PostgreSQL session fulfils the contract\<close>

lemma none_if_not_found_InrE:
  assumes "none_if_not_found m w = (Inr r, w')"
  obtains x where "r = Some x" "m w = (Inr x, w')"
    | e where "r = None" "m w = (Inl e, w')" "errors_is e postgres_ErrNotFound"
  using assms by (auto simp: none_if_not_found_def io_catch_def split: prod.splits sum.splits if_splits)

text \<open>A row that cannot be scanned is not reported as missing.\<close>

lemma validator_errors:
  "validateOrigin t = Some e \<Longrightarrow> \<not> errors_is e postgres_ErrNotFound"
  "validateKindAndReference t = Some e \<Longrightarrow> \<not> errors_is e postgres_ErrNotFound"
  "validateResultBalance t b = Some e \<Longrightarrow> \<not> errors_is e postgres_ErrNotFound"
  "validateResult t = Some e \<Longrightarrow> \<not> errors_is e postgres_ErrNotFound"
proof -
  show "validateOrigin t = Some e \<Longrightarrow> \<not> errors_is e postgres_ErrNotFound"
    by (auto simp: validateOrigin_def split: if_splits)
  show "validateKindAndReference t = Some e \<Longrightarrow> \<not> errors_is e postgres_ErrNotFound"
    by (auto simp: validateKindAndReference_def Let_def split: if_splits)
  have b: "validateResultBalance t b = Some e \<Longrightarrow> \<not> errors_is e postgres_ErrNotFound" for b
    by (auto simp: validateResultBalance_def split: if_splits)
  then show "validateResultBalance t b = Some e \<Longrightarrow> \<not> errors_is e postgres_ErrNotFound" .
  show "validateResult t = Some e \<Longrightarrow> \<not> errors_is e postgres_ErrNotFound"
    by (auto simp: validateResult_def dest: b split: if_splits option.splits)
qed

lemma unless_err_eq_Inl: "unless_err x r = Inl e \<longleftrightarrow> x = Some e \<or> (x = None \<and> r = Inl e)"
  by (cases x) auto

lemma transaction_build_errors:
  assumes "transaction_build t = Inl e"
  shows "\<not> errors_is e postgres_ErrNotFound"
proof -
  from assms consider s where "e = Sentinel s" "s \<noteq> postgres_ErrNotFound" | "validateOrigin t = Some e"
    | "validateKindAndReference t = Some e" | "validateResult t = Some e"
    unfolding transaction_build_def by (auto simp: unless_err_eq_Inl split: if_splits)
  then show ?thesis using validator_errors by cases auto
qed

lemma scan_errors:
  assumes "scanWager r = Inl e"
  shows "\<not> errors_is e postgres_ErrNotFound"
proof -
  from assms consider x where "transaction_build x = Inl e" | "e = Opaque ''payload hash length''"
    | "e = Sentinel money_ErrInvalidCurrency"
    unfolding scanWager_def and_then_def scan_hash_def ParseCurrency_def money_New_def transaction_Rehydrate_def
    by (auto split: option.splits if_splits sum.splits)
  then show ?thesis using transaction_build_errors by cases auto
qed

lemma wager_lookup_found:
  assumes "none_if_not_found (query env f) w = (Inr r, w')"
    and "\<And>d x. f d = Inr x \<Longrightarrow> select_wager P d = Inr x"
    and "\<And>d e. f d = Inl e \<Longrightarrow> errors_is e postgres_ErrNotFound \<Longrightarrow> select_wager P d = Inl e"
  shows "db w' = db w \<and> found P (db w) r"
  using assms(1)
proof (cases rule: none_if_not_found_InrE)
  case (1 x)
  then have "db w' = db w" "f (db w) = Inr x" by (auto elim!: query_InrE)
  with assms(2) have "select_wager P (db w) = Inr x" by blast
  then show ?thesis using \<open>db w' = db w\<close> 1(1)
    by (auto simp: select_wager_def find_Some_iff split: option.splits)
next
  case (2 e)
  from 2(2) have v: "db w' = db w" and "f (db w) = Inl e"
    using 2(3) by (auto elim!: query_InlE)
  with assms(3) 2(3) have "select_wager P (db w) = Inl e" by blast
  then have "find P (wagers (db w)) = None"
    using scan_errors 2(3) by (auto simp: select_wager_def split: option.splits)
  with v 2(1) show ?thesis by (auto simp: find_None_iff)
qed

lemma CompletePending_completes:
  assumes "CompletePending env t token w = (Inr u, w')"
  shows "pending_completed t (db w) (db w')"
proof -
  let ?P = "\<lambda>r. gr_id r = t_id t \<and> gr_status r = StatusPendingReference \<and> gr_lease_token r = Some token"
  let ?f = "\<lambda>r. r\<lparr>gr_status := t_status t, gr_reference_transaction_id := nullString (t_referenceTransactionID t),
      gr_failure_code := nullString (t_failureCode t), gr_result_balance_minor := map_option minor (t_resultBalance t),
      gr_next_attempt_at := None, gr_lease_token := None, gr_locked_until := None,
      gr_updated_at := env_timestamptz env (t_updatedAt t)\<rparr>"
  from assms obtain rows where u: "update_wagers ?P ?f [] (wagers (db w)) (db w) = Inr (Suc 0, rows)"
    and d: "db w' = (db w)\<lparr>wagers := rows\<rparr>"
    unfolding CompletePending_def by (auto simp: and_then_eq_Inr split: if_splits)
  from update_wagers_one [OF u] obtain xs g0 ys where "wager_updated ?P ?f (wagers (db w)) rows (db w) xs g0 ys"
    by auto
  then show ?thesis
    unfolding pending_completed_def wager_updated_def using d
    by (intro exI [of _ xs] exI [of _ g0] exI [of _ ys] exI [of _ "?f g0"]) (simp add: wager_identity_def)
qed

lemma session_UpdateWallet_replaces:
  assumes "session_UpdateWallet env a w = (Inr u, w')"
  shows "wallet_replaced env a (db w) (db w')"
proof -
  let ?f = "\<lambda>r. r\<lparr>wr_balance_minor := minor (w_balance a), wr_version := w_version a,
               wr_updated_at := env_timestamptz env (w_updatedAt a)\<rparr>"
  from assms have "wallet_Update env a w = (Inr u, w')"
    by (auto simp: session_UpdateWallet_def io_catch_def split: prod.splits sum.splits if_splits)
  then obtain rows where u: "update_wallets (\<lambda>r. wr_id r = w_id a \<and> wr_version r = w_version a - 1) ?f
      (wallets (db w)) = Inr (Suc 0, rows)" and d: "db w' = (db w)\<lparr>wallets := rows\<rparr>"
    unfolding wallet_Update_def by (auto simp: and_then_eq_Inr split: if_splits)
  from update_wallets_one [OF u] obtain xs r ys where "wallets (db w) = xs @ r # ys" "rows = xs @ ?f r # ys"
    "wr_id r = w_id a" "list_all fst (wallet_checks (?f r))" by auto
  then show ?thesis unfolding wallet_replaced_def using d by blast
qed

interpretation pg: wager_session env "wagerSession env token" "wager_service env" db for env token
proof unfold_locales
  fix s s' :: world and n i p k x a b t sched e v and r :: "transaction option" and u :: unit
  show "db s' = db s" if "sv_now (wager_service env) s = (Inr n, s')"
    using that by (auto simp: wager_service_def)
  show "db s' = db s" if "sv_newID (wager_service env) s = (Inr i, s')"
    using that by (auto simp: wager_service_def)
  show "db s' = db s \<and> found (\<lambda>g. gr_id g = i) (db s) r"
    if "FindByID (wagerSession env token) i s = (Inr r, s')"
    by (rule wager_lookup_found [where f = "\<lambda>d. uuid_param i (select_wager (\<lambda>r. gr_id r = i) d)"])
      (use that in \<open>auto simp: wagerSession_def wager_FindByID_def uuid_param_def split: if_splits\<close>)
  show "db s' = db s \<and> found (\<lambda>g. gr_provider_id g = Some p \<and> gr_idempotency_key g = Some k) (db s) r"
    if "FindByIdempotencyKey (wagerSession env token) p k s = (Inr r, s')"
    by (rule wager_lookup_found) (use that in \<open>auto simp: wagerSession_def FindByProviderIdempotencyKey_def\<close>)
  show "db s' = db s \<and> found (\<lambda>g. gr_provider_id g = Some p \<and> gr_external_transaction_id g = Some x) (db s) r"
    if "FindByExternalID (wagerSession env token) p x s = (Inr r, s')"
    by (rule wager_lookup_found) (use that in \<open>auto simp: wagerSession_def FindByProviderExternalID_def\<close>)
  show "db s' = db s \<and> (\<exists>r \<in> set (wallets (db s)). wr_id r = i \<and> wallet_of_row r = Inr a)"
    if "LockWallet (wagerSession env token) i s = (Inr a, s')"
  proof -
    from that have "wallet_find env i s = (Inr a, s')"
      by (auto simp: wagerSession_def session_LockWallet_def wallet_FindByIDForUpdate_def io_catch_def
          split: prod.splits sum.splits if_splits)
    then obtain r where "select_wallet i (db s) = Inr r" "wallet_of_row r = Inr a" "db s' = db s"
      by (auto simp: wallet_find_def)
    then show ?thesis by (auto simp: select_wallet_def find_Some_iff split: option.splits)
  qed
  show "db s' = db s \<and> (b \<longleftrightarrow> (\<exists>g \<in> set (wagers (db s)). is_reversal g \<and> gr_reference_transaction_id g = Some i))"
    if "HasReversal (wagerSession env token) i s = (Inr b, s')"
    using that by (auto simp: wagerSession_def HasProcessedReversal_def list_ex_iff)
  show "insert_wager (wager_row_of env t sched) (db s) = Inr (db s')"
    if "InsertTransaction (wagerSession env token) t sched s = (Inr u, s')"
    using that by (auto simp: wagerSession_def wager_Insert_def split: if_splits)
  show "pending_completed t (db s) (db s')" if "UpdateTransaction (wagerSession env token) t s = (Inr u, s')"
    using that CompletePending_completes by (simp add: wagerSession_def)
  show "wallet_replaced env a (db s) (db s')" if "UpdateWallet (wagerSession env token) a s = (Inr u, s')"
    using that session_UpdateWallet_replaces by (simp add: wagerSession_def)
  show "db s' = (db s)\<lparr>ledger := ledger (db s) @ [ledger_row_of env e]\<rparr> \<and> is_uuid (e_id e)"
    if "InsertLedger (wagerSession env token) e s = (Inr u, s')"
    using that by (auto simp: wagerSession_def ledger_Insert_def insert_ledger_def unless_err_eq_Inr)
  show "\<exists>payload. event_MarshalJSON v = Inr payload \<and> insert_outbox (outbox_row_of env v payload) (db s) = Inr (db s')"
    if "InsertEvent (wagerSession env token) v s = (Inr u, s')"
    using that by (auto simp: wagerSession_def outbox_Insert_def)
qed

section \<open>Submission as one atomic step\<close>

lemma ambiguous_identity_race: "ambiguous e \<Longrightarrow> identity_race e = e"
  by (simp add: ambiguous_def identity_race_def)

lemma atomic_outcome_Inl:
  assumes "atomic_outcome work d (Inl e) d'" "ambiguous e \<Longrightarrow> e' = e"
  shows "atomic_outcome work d (Inl e') d'"
  using assms by (auto simp: atomic_outcome_def)

text \<open>The two shapes the stores and services share: the mapping of races, and the second attempt.\<close>

lemma identity_race_atomic:
  assumes ok: "env_ok env" and run: "io_catch (ReadCommittedWithRetry env work)
      (\<lambda>r. case r of Inl e \<Rightarrow> io_throw (identity_race e) | Inr x \<Rightarrow> io_return x) w = (r, w')"
  shows "atomic_outcome work (db w) r (db w')"
proof -
  obtain q v where q: "ReadCommittedWithRetry env work w = (q, v)" by fastforce
  note at = ReadCommittedWithRetry_atomic [OF ok q]
  show ?thesis
  proof (cases q)
    case (Inr x)
    with run q at show ?thesis by (simp add: io_catch_def)
  next
    case (Inl e)
    with run q have "r = Inl (identity_race e)" "w' = v" by (auto simp: io_catch_def)
    with at Inl show ?thesis by (auto intro: atomic_outcome_Inl dest: ambiguous_identity_race)
  qed
qed

lemma second_attempt_atomic:
  assumes tx: "\<And>w r w'. tx w = (r, w') \<Longrightarrow> atomic_outcome work (db w) r (db w')"
    and run: "io_catch tx (\<lambda>r. case r of
        Inl e \<Rightarrow> if errors_is e app_ErrIdentityRace then tx else io_throw e | Inr x \<Rightarrow> io_return x) w = (r, w')"
  shows "atomic_outcome work (db w) r (db w')"
proof -
  obtain q v where q: "tx w = (q, v)" by fastforce
  note at = tx [OF q]
  show ?thesis
  proof (cases q)
    case (Inr x)
    with run q at show ?thesis by (simp add: io_catch_def)
  next
    case (Inl e)
    show ?thesis
    proof (cases "errors_is e app_ErrIdentityRace")
      case False
      with run q at Inl show ?thesis by (simp add: io_catch_def)
    next
      case True
      then have "db v = db w" using at Inl by (auto simp: atomic_outcome_def ambiguous_def)
      moreover have "tx v = (r, w')" using run q Inl True by (simp add: io_catch_def)
      ultimately show ?thesis using tx by metis
    qed
  qed
qed

lemma Submit_atomic:
  assumes ok: "env_ok env" and run: "Submit env input w = (r, w')"
  shows "atomic_outcome (SubmitInSession (wager_service env) (wagerSession env []) input) (db w) r (db w')"
  by (rule second_attempt_atomic [OF _ run [unfolded Submit_def]])
    (rule identity_race_atomic [OF ok], simp add: WagerStore_WithinTransaction_def)

lemma SubmitInSession_submitted:
  assumes "SubmitInSession (wager_service env) (wagerSession env token) input w = (Inr res, w')"
    and "books_ok (db w)"
  shows "submitted (env_sha256 env (canonicalPayload input)) input res (db w) (db w')"
  using pg.SubmitInSession_effect [OF assms] by (simp add: wager_service_def)

lemma submitted_books:
  assumes "submitted hash input res d d'" "books_ok d"
  shows "books_ok d'"
  using assms settled_books by (auto simp: submitted_def Let_def split: if_splits)

lemma Submit_outcome:
  assumes "env_ok env" and "books_ok (db w)" and "Submit env input w = (r, w')"
  shows "case r of
      Inr res \<Rightarrow> submitted (env_sha256 env (canonicalPayload input)) input res (db w) (db w')
    | Inl e \<Rightarrow> db w' = db w \<or>
        (ambiguous e \<and> (\<exists>res. submitted (env_sha256 env (canonicalPayload input)) input res (db w) (db w')))"
  by (rule atomic_outcome_post [OF Submit_atomic [OF assms(1,3)]])
    (metis SubmitInSession_submitted assms(2))

text \<open>What a submission leaves behind, and what it finds when the request is already stored.\<close>

lemma submitted_row:
  assumes "submitted hash input res d d'"
  shows "\<exists>g \<in> set (wagers d'). request_row input hash g \<and> gr_id g = t_id (sr_Transaction res)"
proof (cases "sr_Replay res")
  case True
  with assms obtain g where "g \<in> set (wagers d')" "request_row input hash g" "scanWager g = Inr (sr_Transaction res)"
    by (auto simp: submitted_def)
  then show ?thesis using scanWager_Inr(2) by (auto simp: row_matches_def)
next
  case False
  with assms obtain g where "settled g d d'" "request_row input hash g" "row_matches g (sr_Transaction res)"
    by (auto simp: submitted_def Let_def)
  then show ?thesis using wager_written_mem [OF settled_written] by (auto simp: row_matches_def)
qed

lemma submitted_again:
  assumes "submitted hash input res d d'" "wagers_unique (wagers d)" "g \<in> set (wagers d)" "request_row input hash g"
  shows "d' = d" "sr_Replay res" "t_id (sr_Transaction res) = gr_id g"
proof -
  show rep: "sr_Replay res"
    using assms(1,3) request_row_earlier [OF assms(4)] by (auto simp: submitted_def Let_def split: if_splits)
  with assms(1) obtain q where q: "d' = d" "q \<in> set (wagers d)" "request_row input hash q"
    "scanWager q = Inr (sr_Transaction res)" by (auto simp: submitted_def)
  from request_row_unique [OF assms(2,3) q(2) assms(4) q(3)] q
  show "d' = d" "t_id (sr_Transaction res) = gr_id g"
    using scanWager_Inr(2) [OF q(4)] by (simp_all add: row_matches_def)
qed

lemma submitted_conflict:
  assumes "submitted hash input res d d'" "wagers_unique (wagers d)" "g \<in> set (wagers d)"
    and "gr_origin g = OriginExternal" "earlier_row input g"
  shows "request_row input hash g"
proof -
  from assms(1,3,5) obtain q where q: "q \<in> set (wagers d)" "request_row input hash q"
    by (auto simp: submitted_def Let_def split: if_splits)
  then have "wager_clash q g"
    using assms(4,5) by (auto simp: request_row_def earlier_row_def wager_clash_def same_key_def)
  then show ?thesis using wagers_unique_eq [OF assms(2) q(1) assms(3)] q(2) by simp
qed

section \<open>Properties\<close>

text \<open>
  Property C9. Submission of a wager is one atomic step on the books. When it succeeds, either an
  earlier request with this idempotency key, external id and payload hash is replayed
  and nothing changes, or there was none and exactly one transaction is settled: its row is
  written, if it moves money, one wallet moves to the next version and one ledger entry books
  the movement, and the events that announce all of this are queued in the outbox in the same
  step. When it fails, nothing has changed, except that the outcome of a commit whose
  connection broke is unknown; it is then the same step or none.
\<close>

theorem Submit_refines_settlement:
  assumes "env_ok env" and "books_ok (db w)" and "Submit env input w = (r, w')"
  shows "case r of
      Inr res \<Rightarrow> submitted (env_sha256 env (canonicalPayload input)) input res (db w) (db w')
    | Inl e \<Rightarrow> db w' = db w \<or>
        (ambiguous e \<and> (\<exists>res. submitted (env_sha256 env (canonicalPayload input)) input res (db w) (db w')))"
  by (rule Submit_outcome [OF assms])

theorem Submit_refines_settlement_witness:
  "env_ok ex_env \<and> books_ok (db ex_world) \<and>
    (case fst (Submit ex_env ex_input ex_world) of
      Inr res \<Rightarrow> submitted (env_sha256 ex_env (canonicalPayload ex_input)) ex_input res (db ex_world)
        (db (snd (Submit ex_env ex_input ex_world)))
    | Inl e \<Rightarrow> db (snd (Submit ex_env ex_input ex_world)) = db ex_world \<or>
        (ambiguous e \<and> (\<exists>res. submitted (env_sha256 ex_env (canonicalPayload ex_input)) ex_input res (db ex_world)
          (db (snd (Submit ex_env ex_input ex_world))))))"
  using Submit_refines_settlement [OF ex_env_ok ex_world_books surjective_pairing] ex_env_ok ex_world_books by blast

text \<open>
  Property C10. A stored request is never applied again: once a row carries the provider, the
  idempotency key, the external id and the payload hash of a request, submitting it changes nothing,
  whatever the outcome, and a success is the replay of that row.
\<close>

theorem Submit_replays:
  assumes "env_ok env" and "books_ok (db w)" and "Submit env input w = (r, w')"
    and "g \<in> set (wagers (db w))" and "request_row input (env_sha256 env (canonicalPayload input)) g"
  shows "db w' = db w \<and> (\<forall>res. r = Inr res \<longrightarrow> sr_Replay res \<and> t_id (sr_Transaction res) = gr_id g)"
proof -
  have u: "wagers_unique (wagers (db w))" using assms(2) by (simp add: books_ok_def)
  have post: "case r of
      Inr res \<Rightarrow> submitted (env_sha256 env (canonicalPayload input)) input res (db w) (db w')
    | Inl e \<Rightarrow> db w' = db w \<or>
        (ambiguous e \<and> (\<exists>res. submitted (env_sha256 env (canonicalPayload input)) input res (db w) (db w')))"
    by (rule Submit_outcome [OF assms(1-3)])
  show ?thesis
  proof (cases r)
    case (Inl e)
    then show ?thesis using post submitted_again(1) [OF _ u assms(4,5)] by auto
  next
    case (Inr res)
    then show ?thesis using post submitted_again [OF _ u assms(4,5)] by auto
  qed
qed

text \<open>The example database with the bet already stored, as rejected.\<close>

definition ex_bet :: wager_row where
  "ex_bet = ex_opening\<lparr>gr_id := ex_uuid 204, gr_origin := OriginExternal, gr_provider_id := Some ''provider'',
     gr_external_transaction_id := Some ''x1'', gr_idempotency_key := Some ''k1'',
     gr_payload_hash := Some (env_sha256 ex_env (canonicalPayload ex_input)), gr_round_id := Some ''r1'',
     gr_game_id := Some ''g1'', gr_kind := KindBet, gr_status := StatusRejected, gr_amount_minor := 2500,
     gr_failure_code := Some FailureBetInsufficientFunds, gr_result_balance_minor := Some 0\<rparr>"

definition ex_replay_world :: world where
  "ex_replay_world = ex_world\<lparr>db := ex_db\<lparr>wagers := [ex_opening, ex_bet]\<rparr>\<rparr>"

lemma ex_uuid_distinct: "ex_uuid 202 \<noteq> ex_uuid 204"
  by code_simp

lemma ex_replay_world_books: "books_ok (db ex_replay_world)"
  using ex_uuid_distinct
  by (simp add: books_ok_def ex_replay_world_def ex_db_def ex_bet_def ex_opening_def ex_wallet_def ex_entry_def
      moves_money_def wagers_unique_def wager_clash_def is_reversal_def entries_of_def wallet_row_ok_def
      wallet_checks_def wallet_books_def ledger_entry_ok_def ledger_balance_equation_def books_transaction_def supportedCurrencies_def)

lemma ex_bet_request: "request_row ex_input (env_sha256 ex_env (canonicalPayload ex_input)) ex_bet"
  by (simp add: request_row_def ex_bet_def ex_input_def)

theorem Submit_replays_witness:
  "ex_bet \<in> set (wagers (db ex_replay_world)) \<and>
   db (snd (Submit ex_env ex_input ex_replay_world)) = db ex_replay_world \<and>
   (case fst (Submit ex_env ex_input ex_replay_world) of
      Inr res \<Rightarrow> sr_Replay res \<and> t_id (sr_Transaction res) = gr_id ex_bet
    | Inl e \<Rightarrow> True)"
proof -
  have m: "ex_bet \<in> set (wagers (db ex_replay_world))" by (simp add: ex_replay_world_def)
  note run = Submit_replays [OF ex_env_ok ex_replay_world_books surjective_pairing m ex_bet_request]
  show ?thesis
    using m run by (cases "fst (Submit ex_env ex_input ex_replay_world)") auto
qed

text \<open>
  Property C11. An identity is never reused for another request: while a stored external transaction
  has the idempotency key or the external id of a request but differs from it in one of them or in
  the payload hash, submitting the request fails and changes nothing.
\<close>

theorem Submit_rejects_conflict:
  assumes "env_ok env" and "books_ok (db w)" and "Submit env input w = (r, w')"
    and "g \<in> set (wagers (db w))" and "gr_origin g = OriginExternal" and "earlier_row input g"
    and "\<not> request_row input (env_sha256 env (canonicalPayload input)) g"
  shows "db w' = db w \<and> (\<exists>e. r = Inl e)"
proof -
  have "wagers_unique (wagers (db w))" using assms(2) by (simp add: books_ok_def)
  then have no: "\<not> submitted (env_sha256 env (canonicalPayload input)) input res (db w) (db w')" for res
    using submitted_conflict assms(4-7) by blast
  then show ?thesis
    using Submit_outcome [OF assms(1-3)] by (cases r) auto
qed

definition ex_other_input :: submit_input where
  "ex_other_input = ex_input\<lparr>si_ExternalTransactionID := ''x2''\<rparr>"

theorem Submit_rejects_conflict_witness:
  "db (snd (Submit ex_env ex_other_input ex_replay_world)) = db ex_replay_world \<and>
   (\<exists>e. fst (Submit ex_env ex_other_input ex_replay_world) = Inl e)"
proof -
  have "ex_bet \<in> set (wagers (db ex_replay_world))" "gr_origin ex_bet = OriginExternal"
    "earlier_row ex_other_input ex_bet"
    "\<not> request_row ex_other_input (env_sha256 ex_env (canonicalPayload ex_other_input)) ex_bet"
    by (simp_all add: ex_replay_world_def ex_bet_def earlier_row_def request_row_def ex_other_input_def ex_input_def)
  then show ?thesis
    by (rule Submit_rejects_conflict [OF ex_env_ok ex_replay_world_books surjective_pairing])
qed

end
