(* ===== verification/Wallet_Service.thy ===== *)
theory Wallet_Service
  imports Settlement
begin

text \<open>
  The package \<^verbatim>\<open>internal/application/wallet\<close> and its PostgreSQL store: opening a wallet with its
  opening transaction, ledger entry and events, and reading wallets. Opening is shown to be the
  abstract step \<open>opened\<close> of the books.
\<close>

section \<open>Opening\<close>

record creation =
  cr_Wallet :: wallet
  cr_Opening :: "transaction option"
  cr_Ledger :: "entry option"
  cr_Events :: "integration_event list"

record open_input =
  oi_PlayerID :: string
  oi_Initial :: money
  oi_CorrelationID :: string

definition opening_entry :: "string \<Rightarrow> string \<Rightarrow> string \<Rightarrow> money \<Rightarrow> money \<Rightarrow> time \<Rightarrow> entry" where
  "opening_entry ledgerID walletID openingID zero initial now =
     \<lparr>e_id = ledgerID, e_walletID = walletID, e_transactionID = openingID, e_direction = DirectionCredit,
      e_amount = initial, e_balanceBefore = zero, e_balanceAfter = initial, e_walletVersion = 1,
      e_createdAt = now\<rparr>"

definition addOpening :: "env \<Rightarrow> wallet \<Rightarrow> open_input \<Rightarrow> time \<Rightarrow> (world, creation) io" where
  "addOpening env account input now =
     io_try (newID env) (\<lambda>openingID.
     io_try (newID env) (\<lambda>ledgerID.
     io_try (newID env) (\<lambda>processedEventID.
     io_try (newID env) (\<lambda>balanceEventID.
     io_try (io_lift (money_Zero (currency (oi_Initial input)))) (\<lambda>zero.
     io_try (io_lift (NewOpening openingID (w_id account) (oi_PlayerID input) (oi_Initial input) now)) (\<lambda>opening.
     io_try (io_lift (ledger_New
       (opening_entry ledgerID (w_id account) openingID zero (oi_Initial input) now))) (\<lambda>entry.
     io_try (io_lift (NewWagerTransactionProcessed
       \<lparr>md_EventID = processedEventID, md_AggregateID = openingID, md_CorrelationID = oi_CorrelationID input,
        md_CausationID = [], md_OccurredAt = now\<rparr>
       openingID [] KindOpening (oi_Initial input) (oi_Initial input))) (\<lambda>processed.
     io_try (io_lift (NewWalletBalanceChanged
       \<lparr>md_EventID = balanceEventID, md_AggregateID = w_id account, md_CorrelationID = oi_CorrelationID input,
        md_CausationID = processedEventID, md_OccurredAt = now\<rparr>
       \<lparr>bd_WalletID = w_id account, bd_TransactionID = openingID, bd_Direction = DirectionCredit,
        bd_Money = oi_Initial input, bd_BalanceBefore = zero, bd_BalanceAfter = oi_Initial input,
        bd_WalletVersion = 1\<rparr>)) (\<lambda>balanceChanged.
     io_return \<lparr>cr_Wallet = account, cr_Opening = Some opening, cr_Ledger = Some entry,
       cr_Events = [as_event ProcessedData processed, as_event BalanceData balanceChanged]\<rparr>)))))))))"

fun insert_events :: "env \<Rightarrow> integration_event list \<Rightarrow> (world, unit) io" where
  "insert_events env [] = io_return ()"
| "insert_events env (e # es) = io_try (outbox_Insert env e) (\<lambda>_. insert_events env es)"

definition create_work :: "env \<Rightarrow> creation \<Rightarrow> (world, unit) io" where
  "create_work env c =
     io_try (wallet_Insert env (cr_Wallet c)) (\<lambda>_.
     case cr_Opening c of
       None \<Rightarrow>
         if cr_Ledger c \<noteq> None \<or> cr_Events c \<noteq> []
         then io_throw (Opaque ''zero-balance wallet cannot contain financial records'')
         else io_return ()
     | Some opening \<Rightarrow>
         (case cr_Ledger c of
            None \<Rightarrow> io_throw (Opaque ''positive opening requires ledger entry'')
          | Some entry \<Rightarrow>
              io_try (wager_Insert env opening None) (\<lambda>_.
              io_try (ledger_Insert env entry) (\<lambda>_.
              insert_events env (cr_Events c)))))"

definition create_error :: "err \<Rightarrow> err" where
  "create_error e =
     (if errors_as_pg e = Some (unique_violation, ''wallets_player_currency_key'')
      then Sentinel appwallet_ErrWalletAlreadyExists else e)"

definition WalletStore_Create :: "env \<Rightarrow> creation \<Rightarrow> (world, unit) io" where
  "WalletStore_Create env c =
     io_catch (ReadCommittedWithRetry env (create_work env c)) (\<lambda>r. case r of
       Inl e \<Rightarrow> io_throw (create_error e) | Inr u \<Rightarrow> io_return u)"

definition Open :: "env \<Rightarrow> open_input \<Rightarrow> (world, wallet) io" where
  "Open env input =
     (if id_Validate (oi_PlayerID input) \<noteq> None then io_throw (Sentinel appwallet_ErrInvalidInput)
      else if oi_CorrelationID input = [] then io_throw (Sentinel appwallet_ErrInvalidInput)
      else if money_Validate (oi_Initial input) \<noteq> None \<or> money_IsNegative (oi_Initial input)
      then io_throw (Sentinel appwallet_ErrInvalidInput)
      else
       io_try (newID env) (\<lambda>walletID.
       io_try (time_Now env) (\<lambda>now.
       io_try (io_lift (wallet_New walletID (oi_PlayerID input) (oi_Initial input) now)) (\<lambda>account.
       io_try (if money_IsPositive (oi_Initial input) then addOpening env account input now
               else io_return \<lparr>cr_Wallet = account, cr_Opening = None, cr_Ledger = None, cr_Events = []\<rparr>) (\<lambda>creation.
       io_try (WalletStore_Create env creation) (\<lambda>_.
       io_return account))))))"

section \<open>Reading\<close>

definition not_found_wallet :: "(world, 'a) io \<Rightarrow> (world, 'a) io" where
  "not_found_wallet m =
     io_catch m (\<lambda>r. case r of
       Inl e \<Rightarrow> if errors_is e postgres_ErrNotFound then io_throw (Sentinel appwallet_ErrWalletNotFound) else io_throw e
     | Inr x \<Rightarrow> io_return x)"

definition WalletStore_FindByID :: "env \<Rightarrow> string \<Rightarrow> (world, wallet) io" where
  "WalletStore_FindByID env walletID =
     not_found_wallet (ReadCommitted env (wallet_FindByID env walletID))"

definition wallet_service_FindByID :: "env \<Rightarrow> string \<Rightarrow> (world, wallet) io" where
  "wallet_service_FindByID env walletID =
     (if id_Validate walletID \<noteq> None then io_throw (Sentinel appwallet_ErrInvalidInput)
      else WalletStore_FindByID env walletID)"

section \<open>Opening is one step on the books\<close>

lemma insert_events_queued:
  "insert_events env es w = (Inr u, w') \<Longrightarrow> events_queued env es (db w) (db w')"
proof (induction es arbitrary: w)
  case Nil
  then show ?case by (auto simp: events_queued_Nil)
next
  case (Cons e es)
  then obtain v where e: "outbox_Insert env e w = (Inr (), v)" and es: "insert_events env es v = (Inr u, w')"
    by auto
  from e have "events_queued env [e] (db w) (db v)"
    by (auto simp: outbox_Insert_def intro: events_queued_insert)
  from events_queued_append [OF this Cons.IH [OF es]] show ?case by simp
qed

text \<open>What the service has put together when it calls the store, with the data of the two events.\<close>

definition opening_processed :: "string \<Rightarrow> money \<Rightarrow> event_data" where
  "opening_processed i a = ProcessedData \<lparr>pd_TransactionID = i, pd_ProviderID = [], pd_Kind = KindOpening,
     pd_Status = StatusProcessed, pd_Money = a, pd_Balance = a\<rparr>"

definition opening_change :: "string \<Rightarrow> string \<Rightarrow> money \<Rightarrow> money \<Rightarrow> event_data" where
  "opening_change w i zero a = BalanceData \<lparr>bd_WalletID = w, bd_TransactionID = i, bd_Direction = DirectionCredit,
     bd_Money = a, bd_BalanceBefore = zero, bd_BalanceAfter = a, bd_WalletVersion = 1\<rparr>"

definition creation_ok :: "env \<Rightarrow> creation \<Rightarrow> bool" where
  "creation_ok env c \<longleftrightarrow>
     w_version (cr_Wallet c) = 1 \<and> unix_epoch \<le> env_timestamptz env (w_createdAt (cr_Wallet c)) \<and>
     (case cr_Opening c of
        None \<Rightarrow> sint (minor (w_balance (cr_Wallet c))) = 0
      | Some t \<Rightarrow>
          0 < sint (minor (w_balance (cr_Wallet c))) \<and>
          NewOpening (t_id t) (w_id (cr_Wallet c)) (w_playerID (cr_Wallet c)) (w_balance (cr_Wallet c))
            (w_createdAt (cr_Wallet c)) = Inr t \<and>
          (\<exists>i e. e = opening_entry i (w_id (cr_Wallet c)) (t_id t)
              \<lparr>minor = 0, currency = currency (w_balance (cr_Wallet c))\<rparr> (w_balance (cr_Wallet c))
              (w_createdAt (cr_Wallet c)) \<and> cr_Ledger c = Some e \<and> entry_wf e) \<and>
          (\<exists>v \<in> set (cr_Events c). ev_aggregateID v = t_id t \<and> ev_eventType v = TypeWagerTransactionProcessed \<and>
             ev_data v = opening_processed (t_id t) (w_balance (cr_Wallet c))) \<and>
          (\<exists>v \<in> set (cr_Events c). ev_aggregateID v = w_id (cr_Wallet c) \<and> ev_eventType v = TypeWalletBalanceChanged \<and>
             ev_data v = opening_change (w_id (cr_Wallet c)) (t_id t)
               \<lparr>minor = 0, currency = currency (w_balance (cr_Wallet c))\<rparr> (w_balance (cr_Wallet c))))"

lemma NewOpening_fields:
  assumes "NewOpening i w p a now = Inr t"
  shows "t_id t = i" "t_walletID t = w" "t_kind t = KindOpening" "t_status t = StatusProcessed"
    "t_amount t = a" "t_resultBalance t = Some a" "t_providerID t = []"
  using assms by (auto simp: NewOpening_def transaction_build_eq_Inr)

lemma create_work_opened:
  assumes run: "create_work env c w = (Inr u, w')" and ok: "creation_ok env c"
  shows "opened (wallet_row_of env (cr_Wallet c)) (db w) (db w')"
proof -
  let ?a = "cr_Wallet c" and ?r = "wallet_row_of env (cr_Wallet c)"
  from run obtain w1 where ins: "wallet_Insert env ?a w = (Inr (), w1)"
    and rest: "(case cr_Opening c of
       None \<Rightarrow> if cr_Ledger c \<noteq> None \<or> cr_Events c \<noteq> []
         then io_throw (Opaque ''zero-balance wallet cannot contain financial records'') else io_return ()
     | Some opening \<Rightarrow> (case cr_Ledger c of
            None \<Rightarrow> io_throw (Opaque ''positive opening requires ledger entry'')
          | Some entry \<Rightarrow> io_try (wager_Insert env opening None) (\<lambda>_. io_try (ledger_Insert env entry) (\<lambda>_.
              insert_events env (cr_Events c))))) w1 = (Inr u, w')"
    unfolding create_work_def by (auto elim!: io_try_InrE)
  from ins have uu: "is_uuid (w_id ?a)" "is_uuid (w_playerID ?a)"
    and d1: "db w1 = (db w)\<lparr>wallets := wallets (db w) @ [?r]\<rparr>" and ch: "list_all fst (wallet_checks ?r)"
    and fresh: "\<forall>q \<in> set (wallets (db w)). wr_id q \<noteq> wr_id ?r"
    by (auto simp: wallet_Insert_def insert_wallet_eq_Inr)
  have row: "wallet_row_ok ?r"
    using ch uu ok by (simp add: wallet_row_ok_def wallet_row_of_def creation_ok_def)
  have v: "wr_version ?r = 1" using ok by (simp add: creation_ok_def wallet_row_of_def)
  show ?thesis
  proof (cases "cr_Opening c")
    case None
    with rest have "w' = w1" by (auto split: if_splits)
    moreover have "wr_balance_minor ?r = 0"
      using ok None by (simp add: creation_ok_def wallet_row_of_def sint64_eq_0_iff)
    ultimately show ?thesis using d1 row fresh v by (simp add: opened_def)
  next
    case (Some t)
    with ok have bal: "0 < sint (minor (w_balance ?a))"
      and t: "NewOpening (t_id t) (w_id ?a) (w_playerID ?a) (w_balance ?a) (w_createdAt ?a) = Inr t"
      by (simp_all add: creation_ok_def)
    from ok Some obtain i where en: "cr_Ledger c = Some (opening_entry i (w_id ?a) (t_id t)
        \<lparr>minor = 0, currency = currency (w_balance ?a)\<rparr> (w_balance ?a) (w_createdAt ?a))"
      and ew: "entry_wf (opening_entry i (w_id ?a) (t_id t)
        \<lparr>minor = 0, currency = currency (w_balance ?a)\<rparr> (w_balance ?a) (w_createdAt ?a))"
      unfolding creation_ok_def by auto
    let ?en = "opening_entry i (w_id ?a) (t_id t) \<lparr>minor = 0, currency = currency (w_balance ?a)\<rparr>
        (w_balance ?a) (w_createdAt ?a)"
    from rest Some en obtain w2 w3 where wg: "wager_Insert env t None w1 = (Inr (), w2)"
      and lg: "ledger_Insert env ?en w2 = (Inr (), w3)" and ev: "insert_events env (cr_Events c) w3 = (Inr u, w')"
      by (auto elim!: io_try_InrE)
    let ?g = "wager_row_of env t None" and ?e = "ledger_row_of env ?en"
    have d2: "db w2 = (db w1)\<lparr>wagers := wagers (db w1) @ [?g]\<rparr>" and gu: "list_all fst (wager_uniques ?g (wagers (db w1)))"
      using wg by (auto simp: wager_Insert_def insert_wager_eq_Inr split: if_splits)
    have d3: "db w3 = (db w2)\<lparr>ledger := ledger (db w2) @ [?e]\<rparr>"
      using lg by (auto simp: ledger_Insert_def insert_ledger_def unless_err_eq_Inr)
    from events_queued_rows [OF insert_events_queued [OF ev]] obtain xs where q3: "queued xs (db w3) (db w')"
      and d4: "db w' = (db w3)\<lparr>outbox := outbox (db w3) @ xs\<rparr>"
      and rows: "\<forall>v \<in> set (cr_Events c). \<exists>x \<in> set xs. stored_event v x"
      by blast
    note tf = NewOpening_fields [OF t]
    have qx: "queued xs (db w) (db w')" using q3 by (rule queued_from) (simp add: d1 d2 d3)
    have bt: "books_transaction ?e ?g"
      using tf by (simp add: books_transaction_def ledger_row_of_def opening_entry_def wager_row_of_def moves_money_def)
    have "entry_announced ?e xs"
    proof -
      from ok Some obtain v where v: "v \<in> set (cr_Events c)" "ev_aggregateID v = w_id ?a" "ev_eventType v = TypeWalletBalanceChanged"
        "ev_data v = opening_change (w_id ?a) (t_id t) \<lparr>minor = 0, currency = currency (w_balance ?a)\<rparr> (w_balance ?a)"
        unfolding creation_ok_def by auto
      with rows obtain x where x: "x \<in> set xs" "stored_event v x" by blast
      have "announces_entry ?e x"
        by (rule stored_event_announces(2) [OF x(2)])
          (simp_all add: v(2-4) opening_change_def states_money_def ledger_row_of_def opening_entry_def)
      with x(1) show ?thesis unfolding entry_announced_def list_ex_iff by blast
    qed
    moreover from this have "announced ?g xs"
    proof -
      from ok Some obtain v where v: "v \<in> set (cr_Events c)" "ev_aggregateID v = t_id t" "ev_eventType v = TypeWagerTransactionProcessed"
        "ev_data v = opening_processed (t_id t) (w_balance ?a)"
        unfolding creation_ok_def by auto
      with rows obtain x where x: "x \<in> set xs" "stored_event v x" by blast
      have g: "gr_status ?g = StatusProcessed" "gr_id ?g = t_id t" using tf(4) by (simp_all add: wager_row_of_def)
      have "states_transaction (ev_data v) ?g"
        unfolding v(4) opening_processed_def states_transaction.simps
        using tf(2-) by (simp add: states_money_def wager_row_of_def)
      then have "announces ?g x"
        by (rule stored_event_announces(1) [OF x(2)]) (simp_all only: g v(2,3), simp)
      with x(1) have "list_ex (announces ?g) xs" unfolding list_ex_iff by blast
      then show ?thesis using entry_announced_movement [OF bt \<open>entry_announced ?e xs\<close>] by (simp add: announced_def)
    qed
    ultimately have ann: "announced ?g xs" "entry_announced ?e xs" by blast+
    have le: "ledger_entry_ok ?e"
      using ew lg by (intro ledger_row_of_ok) (auto simp: ledger_Insert_def uuid_param_eq_Inr)
    have "wr_balance_minor ?r \<noteq> 0"
      using bal sint64_eq_0_iff [of "minor (w_balance ?a)"] by (auto simp: wallet_row_of_def)
    moreover have "\<exists>g e xs. queued xs (db w) (db w') \<and> announced g xs \<and> entry_announced e xs \<and>
        wagers (db w') = wagers (db w) @ [g] \<and> list_all fst (wager_uniques g (wagers (db w))) \<and>
        ledger (db w') = ledger (db w) @ [e] \<and> books_transaction e g \<and> lr_wallet_id e = wr_id ?r \<and>
        lr_currency e = wr_currency ?r \<and> lr_balance_before_minor e = 0 \<and>
        lr_balance_after_minor e = wr_balance_minor ?r \<and> lr_wallet_version e = 1 \<and>
        lr_created_at e = wr_created_at ?r \<and> ledger_entry_ok e"
      by (intro exI [of _ ?g] exI [of _ ?e] exI [of _ xs])
        (use d1 d2 d3 d4 gu bt le qx ann in \<open>simp add: ledger_row_of_def opening_entry_def wallet_row_of_def\<close>)
    ultimately show ?thesis
      using d1 d2 d3 d4 row fresh v by (simp add: opened_def)
  qed
qed

text \<open>The service only hands over creations of this form.\<close>

lemma addOpening_ok:
  assumes run: "addOpening env a input now w = (Inr c, w')" and a: "wallet_New i (oi_PlayerID input) (oi_Initial input) now = Inr a"
    and pos: "money_IsPositive (oi_Initial input)" and now: "unix_epoch \<le> env_timestamptz env now"
  shows "cr_Wallet c = a \<and> creation_ok env c \<and> db w' = db w"
proof -
  from run obtain oid lid zero t where z: "money_Zero (currency (oi_Initial input)) = Inr zero"
    and t: "NewOpening oid (w_id a) (oi_PlayerID input) (oi_Initial input) now = Inr t"
    and l: "cr_Ledger c = Some (opening_entry lid (w_id a) oid zero (oi_Initial input) now)"
      "entry_wf (opening_entry lid (w_id a) oid zero (oi_Initial input) now)"
    and c: "cr_Wallet c = a" "cr_Opening c = Some t" and d: "db w' = db w"
    and ev: "\<exists>v \<in> set (cr_Events c). ev_aggregateID v = oid \<and> ev_eventType v = TypeWagerTransactionProcessed \<and>
        ev_data v = opening_processed oid (oi_Initial input)"
      "\<exists>v \<in> set (cr_Events c). ev_aggregateID v = w_id a \<and> ev_eventType v = TypeWalletBalanceChanged \<and>
        ev_data v = opening_change (w_id a) oid zero (oi_Initial input)"
    unfolding addOpening_def
    by (auto simp: ledger_New_def envelope_of_def opening_processed_def opening_change_def
        dest!: entry_build_wf event_contents(1) [where f = ProcessedData] event_contents(4) [where o' = BalanceData])
  from a have a: "w_playerID a = oi_PlayerID input" "w_balance a = oi_Initial input" "w_createdAt a = now" "w_version a = 1"
    by (auto simp: wallet_New_def wallet_build_eq_Inr)
  have "zero = \<lparr>minor = 0, currency = currency (oi_Initial input)\<rparr>" using z by (simp add: money_Zero_def)
  moreover have "t_id t = oid" using t NewOpening_fields by blast
  moreover have "0 < sint (minor (oi_Initial input))" using pos by (simp add: money_IsPositive_def)
  ultimately show ?thesis using a c d l t now ev by (auto simp: creation_ok_def)
qed

lemma env_timestamptz_epoch: "env_ok env \<Longrightarrow> unix_epoch \<le> t \<Longrightarrow> unix_epoch \<le> env_timestamptz env t"
  unfolding env_ok_def by metis

lemma create_error_ambiguous: "ambiguous e \<Longrightarrow> create_error e = e"
  by (simp add: ambiguous_def create_error_def)

lemma WalletStore_Create_opened:
  assumes "env_ok env" "creation_ok env c" "WalletStore_Create env c w = (r, w')"
  shows "case r of Inr _ \<Rightarrow> opened (wallet_row_of env (cr_Wallet c)) (db w) (db w')
    | Inl e \<Rightarrow> db w' = db w \<or> (ambiguous e \<and> opened (wallet_row_of env (cr_Wallet c)) (db w) (db w'))"
proof -
  obtain q v where q: "ReadCommittedWithRetry env (create_work env c) w = (q, v)" by fastforce
  have "case q of Inr _ \<Rightarrow> opened (wallet_row_of env (cr_Wallet c)) (db w) (db v)
    | Inl e \<Rightarrow> db v = db w \<or> (ambiguous e \<and> (\<exists>x :: unit. opened (wallet_row_of env (cr_Wallet c)) (db w) (db v)))"
    by (rule atomic_outcome_post [OF ReadCommittedWithRetry_atomic [OF assms(1) q]])
      (metis create_work_opened assms(2))
  moreover have "w' = v" "r = (case q of Inl e \<Rightarrow> Inl (create_error e) | Inr u \<Rightarrow> Inr u)"
    using assms(3) q by (auto simp: WalletStore_Create_def io_catch_def split: sum.splits)
  ultimately show ?thesis using create_error_ambiguous by (cases q) auto
qed

text \<open>Nothing before the store is called changes the database.\<close>

lemma addOpening_same_db: "io_keeps same_db (addOpening env a input now)"
  unfolding addOpening_def by (intro io_keeps_try io_keeps_basic same_db_basic) simp_all

definition open_outcome :: "env \<Rightarrow> open_input \<Rightarrow> database \<Rightarrow> wallet result \<Rightarrow> database \<Rightarrow> bool" where
  "open_outcome env input d r d' \<longleftrightarrow>
     (case r of
        Inr account \<Rightarrow> w_playerID account = oi_PlayerID input \<and> w_balance account = oi_Initial input \<and>
          opened (wallet_row_of env account) d d'
      | Inl e \<Rightarrow> d' = d \<or> (ambiguous e \<and> (\<exists>account. opened (wallet_row_of env account) d d')))"

lemma Open_store_outcome:
  assumes env: "env_ok env" and a: "wallet_New i (oi_PlayerID input) (oi_Initial input) now = Inr a"
    and c: "cr_Wallet c = a" "creation_ok env c"
    and run: "io_try (WalletStore_Create env c) (\<lambda>_. io_return a) v = (r, w')"
  shows "open_outcome env input (db v) r (db w')"
  using run
proof (rule io_try_post)
  fix e t
  assume "WalletStore_Create env c v = (Inl e, t)"
  from WalletStore_Create_opened [OF env c(2) this] show "open_outcome env input (db v) (Inl e) (db t)"
    by (auto simp: open_outcome_def)
next
  fix x t
  assume s: "WalletStore_Create env c v = (Inr x, t)" "io_return a t = (r, w')"
  have "w_playerID a = oi_PlayerID input" "w_balance a = oi_Initial input"
    using a by (auto simp: wallet_New_def wallet_build_eq_Inr)
  with WalletStore_Create_opened [OF env c(2) s(1)] s(2) c(1) show "open_outcome env input (db v) r (db w')"
    by (auto simp: open_outcome_def)
qed

lemma open_creation_ok:
  assumes "(if money_IsPositive (oi_Initial input) then addOpening env a input now
      else io_return \<lparr>cr_Wallet = a, cr_Opening = None, cr_Ledger = None, cr_Events = []\<rparr>) w = (Inr c, w')"
    and a: "wallet_New i (oi_PlayerID input) (oi_Initial input) now = Inr a"
    and neg: "\<not> money_IsNegative (oi_Initial input)" and now: "unix_epoch \<le> env_timestamptz env now"
  shows "cr_Wallet c = a \<and> creation_ok env c \<and> db w' = db w"
proof (cases "money_IsPositive (oi_Initial input)")
  case True
  with assms show ?thesis using addOpening_ok by auto
next
  case False
  then have "sint (minor (oi_Initial input)) = 0"
    using neg a by (auto simp: money_IsPositive_def money_IsNegative_def wallet_New_def wallet_build_eq_Inr wallet_wf_def)
  with False assms show ?thesis by (auto simp: creation_ok_def wallet_New_def wallet_build_eq_Inr)
qed

lemma open_step:
  assumes "io_try m f v = (r, w')" "io_keeps same_db m" "db v = d"
    and "\<And>x t. m v = (Inr x, t) \<Longrightarrow> db t = d \<Longrightarrow> f x t = (r, w') \<Longrightarrow> open_outcome env input d r (db w')"
  shows "open_outcome env input d r (db w')"
  using assms(1)
proof (rule io_try_post)
  show "open_outcome env input d (Inl e) (db t)" if "m v = (Inl e, t)" for e t
    using io_keepsD [OF assms(2) that] assms(3) by (simp add: open_outcome_def)
  show "open_outcome env input d r (db w')" if "m v = (Inr x, t)" "f x t = (r, w')" for x t
    using assms(4) that io_keepsD [OF assms(2) that(1)] assms(3) by simp
qed

lemma Open_outcome:
  assumes env: "env_ok env" and run: "Open env input w = (r, w')"
  shows "open_outcome env input (db w) r (db w')"
proof -
  let ?creation = "\<lambda>a now. if money_IsPositive (oi_Initial input) then addOpening env a input now
               else io_return \<lparr>cr_Wallet = a, cr_Opening = None, cr_Ledger = None, cr_Events = []\<rparr>"
  define store where "store = (\<lambda>(a :: wallet) c. io_try (WalletStore_Create env c) (\<lambda>_. io_return a))"
  let ?rest = "io_try (newID env) (\<lambda>i. io_try (time_Now env) (\<lambda>now.
       io_try (io_lift (wallet_New i (oi_PlayerID input) (oi_Initial input) now)) (\<lambda>a.
       io_try (?creation a now) (store a))))"
  have keeps: "io_keeps same_db (?creation a now)" for a now by (simp add: addOpening_same_db)
  show ?thesis
  proof (cases "?rest w = (r, w') \<and> \<not> money_IsNegative (oi_Initial input)")
    case False
    then have "\<exists>e. r = Inl e \<and> w' = w" using run unfolding Open_def store_def by (auto split: if_splits)
    then show ?thesis by (auto simp: open_outcome_def)
  next
    case True
    then have "?rest w = (r, w')" ..
    then show ?thesis
    proof (elim open_step)
      fix i w1 now w2 a w3 c w4
      assume t: "time_Now env w1 = (Inr now, w2)"
        and "io_lift (wallet_New i (oi_PlayerID input) (oi_Initial input) now) w2 = (Inr a, w3)"
        and d3: "db w3 = db w" and c: "?creation a now w3 = (Inr c, w4)" and s: "store a c w4 = (r, w')"
      then have na: "wallet_New i (oi_PlayerID input) (oi_Initial input) now = Inr a" by simp
      from t have "unix_epoch \<le> now" using env by (auto simp: env_ok_def)
      then have "unix_epoch \<le> env_timestamptz env now" by (rule env_timestamptz_epoch [OF env])
      from open_creation_ok [OF c na _ this] True d3 have "cr_Wallet c = a" "creation_ok env c" "db w4 = db w" by auto
      then show "open_outcome env input (db w) r (db w')" using Open_store_outcome [OF env na _ _ s [unfolded store_def]] by simp
    qed (use keeps in simp_all)
  qed
qed

section \<open>Properties\<close>

text \<open>
  Property C35. Opening a wallet is one atomic step on the books. When it succeeds, the wallet it
  returns has been added with version 1 and, if its balance is positive, together with its opening
  transaction, the ledger entry that books it and the events that announce both. When it fails,
  nothing has changed, except that
  the outcome of a commit whose connection broke is unknown; it is then the same step or none.
\<close>

theorem Open_refines_opening:
  assumes "env_ok env" and "Open env input w = (r, w')"
  shows "case r of
      Inr account \<Rightarrow> w_playerID account = oi_PlayerID input \<and> w_balance account = oi_Initial input \<and>
        opened (wallet_row_of env account) (db w) (db w')
    | Inl e \<Rightarrow> db w' = db w \<or> (ambiguous e \<and> (\<exists>account. opened (wallet_row_of env account) (db w) (db w')))"
  using Open_outcome [OF assms] unfolding open_outcome_def .

definition ex_open :: open_input where
  "ex_open = \<lparr>oi_PlayerID = ex_uuid 210, oi_Initial = brl 5000, oi_CorrelationID = ''c''\<rparr>"

theorem Open_refines_opening_witness:
  "case fst (Open ex_env ex_open ex_world) of
      Inr account \<Rightarrow> w_playerID account = oi_PlayerID ex_open \<and> w_balance account = oi_Initial ex_open \<and>
        opened (wallet_row_of ex_env account) (db ex_world) (db (snd (Open ex_env ex_open ex_world)))
    | Inl e \<Rightarrow> db (snd (Open ex_env ex_open ex_world)) = db ex_world \<or>
        (ambiguous e \<and> (\<exists>account. opened (wallet_row_of ex_env account) (db ex_world)
          (db (snd (Open ex_env ex_open ex_world)))))"
  by (rule Open_refines_opening [OF ex_env_ok surjective_pairing])

end
