(* ===== verification/Reconciliation.thy ===== *)
theory Reconciliation
  imports Example
begin

text \<open>
  The package \<^verbatim>\<open>internal/application/reconciliation\<close> and its PostgreSQL store: the stored
  balance of a wallet against the sum of its ledger entries. On books that hold, a wallet always
  reconciles.
\<close>

section \<open>Snapshot\<close>

record snapshot =
  sn_StoredMinor :: int64
  sn_Currency :: string
  sn_CalculatedMinor :: string
  sn_CheckedEntries :: int64

text \<open>The \<^verbatim>\<open>numeric\<close> sum as text, and \<^verbatim>\<open>big.Int.SetString\<close> in base 10.\<close>

definition numeric_text :: "int \<Rightarrow> string" where
  "numeric_text v = (if v < 0 then ''-'' @ dec (nat (- v)) else dec (nat v))"

definition natural_text :: "string \<Rightarrow> int option" where
  "natural_text s = (if s \<noteq> [] \<and> list_all is_digit s then Some (int (dec_val s)) else None)"

fun big_SetString :: "string \<Rightarrow> int option" where
  "big_SetString [] = None"
| "big_SetString (c # s) =
     (if c = CHR ''-'' then map_option uminus (natural_text s)
      else if c = CHR ''+'' then natural_text s
      else natural_text (c # s))"

definition snapshot_of :: "wallet_row \<Rightarrow> database \<Rightarrow> snapshot" where
  "snapshot_of r d =
     \<lparr>sn_StoredMinor = wr_balance_minor r, sn_Currency = wr_currency r,
      sn_CalculatedMinor = numeric_text (\<Sum>e \<leftarrow> filter (\<lambda>e. lr_wallet_id e = wr_id r) (ledger d).
        if lr_direction e = DirectionCredit then sint (lr_amount_minor e) else - sint (lr_amount_minor e)),
      sn_CheckedEntries = word_of_nat (length (filter (\<lambda>e. lr_wallet_id e = wr_id r) (ledger d)))\<rparr>"

definition Snapshot :: "env \<Rightarrow> string \<Rightarrow> (world, snapshot) io" where
  "Snapshot env walletID =
     io_catch (RepeatableReadOnly env (query env (\<lambda>d. uuid_param walletID
       (case find (\<lambda>r. wr_id r = walletID) (wallets d) of
          None \<Rightarrow> Inl (Sentinel pgx_ErrNoRows) | Some r \<Rightarrow> Inr (snapshot_of r d)))))
      (\<lambda>r. case r of
         Inl e \<Rightarrow> if errors_is e pgx_ErrNoRows then io_throw (Sentinel reconciliation_ErrWalletNotFound) else io_throw e
       | Inr s \<Rightarrow> io_return s)"

section \<open>Reconciliation\<close>

record reconciliation =
  rc_WalletID :: string
  rc_StoredBalance :: money
  rc_CalculatedBalance :: money
  rc_Difference :: money
  rc_Consistent :: bool
  rc_CheckedEntries :: int64

text \<open>The arithmetic of \<^verbatim>\<open>Reconcile\<close> on a snapshot.\<close>

definition reconcile_snapshot :: "string \<Rightarrow> snapshot \<Rightarrow> reconciliation result" where
  "reconcile_snapshot walletID snapshot =
     (case ParseCurrency (sn_Currency snapshot) of
        Inl _ \<Rightarrow> Inl (Sentinel reconciliation_ErrInvalidSnapshot)
      | Inr c \<Rightarrow>
          if sint (sn_CheckedEntries snapshot) < 0 \<or> sint (sn_StoredMinor snapshot) < 0
          then Inl (Sentinel reconciliation_ErrInvalidSnapshot)
          else (case big_SetString (sn_CalculatedMinor snapshot) of
              None \<Rightarrow> Inl (Sentinel reconciliation_ErrOverflow)
            | Some calculated \<Rightarrow>
                if \<not> in_int64 calculated then Inl (Sentinel reconciliation_ErrOverflow)
                else
                  let difference = sint (sn_StoredMinor snapshot) - calculated
                  in if \<not> in_int64 difference then Inl (Sentinel reconciliation_ErrOverflow)
                     else Inr
                      \<lparr>rc_WalletID = walletID,
                       rc_StoredBalance = \<lparr>minor = sn_StoredMinor snapshot, currency = c\<rparr>,
                       rc_CalculatedBalance = \<lparr>minor = word_of_int calculated, currency = c\<rparr>,
                       rc_Difference = \<lparr>minor = word_of_int difference, currency = c\<rparr>,
                       rc_Consistent = (difference = 0),
                       rc_CheckedEntries = sn_CheckedEntries snapshot\<rparr>))"

definition Reconcile :: "env \<Rightarrow> string \<Rightarrow> (world, reconciliation) io" where
  "Reconcile env walletID =
     (if id_Validate walletID \<noteq> None then io_throw (Sentinel reconciliation_ErrInvalidWalletID)
      else io_try (Snapshot env walletID) (\<lambda>snapshot. io_lift (reconcile_snapshot walletID snapshot)))"

section \<open>The text of the sum\<close>

lemma big_SetString_digits:
  "s \<noteq> [] \<Longrightarrow> list_all is_digit s \<Longrightarrow> big_SetString s = Some (int (dec_val s))"
  by (cases s) (auto simp: natural_text_def)

lemma big_SetString_numeric_text: "big_SetString (numeric_text v) = Some v"
proof -
  have d: "list_all is_digit (dec n)" for n by (simp add: list_all_iff dec_digits)
  show ?thesis
    by (auto simp: numeric_text_def natural_text_def d big_SetString_digits)
qed

lemma snapshot_of_entries:
  "snapshot_of r d =
     \<lparr>sn_StoredMinor = wr_balance_minor r, sn_Currency = wr_currency r,
      sn_CalculatedMinor = numeric_text (\<Sum>e \<leftarrow> entries_of (wr_id r) d. row_delta e),
      sn_CheckedEntries = word_of_nat (length (entries_of (wr_id r) d))\<rparr>"
proof -
  have "(\<lambda>e. if lr_direction e = DirectionCredit then sint (lr_amount_minor e) else - sint (lr_amount_minor e)) = row_delta"
    by (simp add: fun_eq_iff row_delta_def)
  then show ?thesis by (simp add: snapshot_of_def entries_of_def)
qed

lemma reconcile_snapshot_books:
  assumes ok: "books_ok d" and r: "r \<in> set (wallets d)" and few: "length (ledger d) < 2 ^ 63"
  shows "reconcile_snapshot i (snapshot_of r d) =
    Inr \<lparr>rc_WalletID = i, rc_StoredBalance = \<lparr>minor = wr_balance_minor r, currency = Currency (wr_currency r)\<rparr>,
      rc_CalculatedBalance = \<lparr>minor = wr_balance_minor r, currency = Currency (wr_currency r)\<rparr>,
      rc_Difference = \<lparr>minor = 0, currency = Currency (wr_currency r)\<rparr>, rc_Consistent = True,
      rc_CheckedEntries = word_of_nat (length (entries_of (wr_id r) d))\<rparr>"
proof -
  have "wallet_row_ok r" using ok r by (simp add: books_ok_def)
  then have c: "ParseCurrency (wr_currency r) = Inr (Currency (wr_currency r))"
    and b: "0 \<le> sint (wr_balance_minor r)"
    by (simp_all add: wallet_row_ok_def wallet_checks_def ParseCurrency_def)
  have s: "(\<Sum>e \<leftarrow> entries_of (wr_id r) d. row_delta e) = sint (wr_balance_minor r)"
    using books_ok_balance [OF ok r] by simp
  have "length (entries_of (wr_id r) d) < 2 ^ 63"
    using few unfolding entries_of_def by (rule le_less_trans [OF length_filter_le])
  then have "in_int64 (int (length (entries_of (wr_id r) d)))"
    by (simp add: in_int64_def)
  then have "0 \<le> sint (word_of_nat (length (entries_of (wr_id r) d)) :: int64)"
    using sint_word_of_int64 by fastforce
  moreover have zero: "in_int64 0" by (simp add: in_int64_def)
  ultimately show ?thesis
    using c b s by (simp add: reconcile_snapshot_def snapshot_of_entries big_SetString_numeric_text zero)
qed

section \<open>What the snapshot reads\<close>

lemma Snapshot_cases:
  assumes "Snapshot env i w = (r, w')"
  shows "db w' = db w \<and> (case r of
      Inr s \<Rightarrow> \<exists>q \<in> set (wallets (db w)). wr_id q = i \<and> s = snapshot_of q (db w)
    | Inl e \<Rightarrow> \<forall>s. errors_is e s \<longrightarrow>
        s = reconciliation_ErrWalletNotFound \<and> (\<forall>q \<in> set (wallets (db w)). wr_id q \<noteq> i))"
proof -
  let ?f = "\<lambda>d. uuid_param i (case find (\<lambda>r. wr_id r = i) (wallets d) of
          None \<Rightarrow> Inl (Sentinel pgx_ErrNoRows) | Some r \<Rightarrow> Inr (snapshot_of r d))"
  obtain q v where q: "within env (query env ?f) w = (q, v)" by fastforce
  have v: "db v = db w" using within_cases [OF q] by (auto elim!: query_InrE)
  show ?thesis
  proof (cases q)
    case (Inr s)
    from q [unfolded Inr] obtain wa wb where "query env ?f wa = (Inr s, wb)" and wa: "db wa = db w"
      by (rule within_InrE)
    then have "?f (db wa) = Inr s" by (elim query_InrE)
    then have "?f (db w) = Inr s" unfolding wa .
    moreover have "r = Inr s" "w' = v"
      using assms q Inr by (auto simp: Snapshot_def RepeatableReadOnly_def io_catch_def)
    ultimately show ?thesis using v by (auto simp: find_Some_iff split: option.splits)
  next
    case (Inl e)
    have only: "s = pgx_ErrNoRows \<and> (\<forall>q \<in> set (wallets (db w)). wr_id q \<noteq> i)" if "errors_is e s" for s
    proof -
      from within_sentinel [OF q [unfolded Inl] that] obtain e0 u
        where e0: "query env ?f (step w) = (Inl e0, u)" "errors_is e0 s" by blast
      then have "?f (db (step w)) = Inl e0" by (elim query_InlE) simp_all
      then show ?thesis
        using e0(2) by (auto simp: uuid_param_def find_None_iff split: option.splits if_splits)
    qed
    have "w' = v" "r = Inl (if errors_is e pgx_ErrNoRows then Sentinel reconciliation_ErrWalletNotFound else e)"
      using assms q Inl by (auto simp: Snapshot_def RepeatableReadOnly_def io_catch_def split: if_splits)
    then show ?thesis using v only by auto
  qed
qed

lemma Reconcile_outcome:
  assumes "Reconcile env i w = (r, w')"
  shows "db w' = db w \<and> (\<forall>c. r = Inr c \<longrightarrow>
    (\<exists>q \<in> set (wallets (db w)). wr_id q = i \<and> minor (rc_StoredBalance c) = wr_balance_minor q \<and>
      sint (minor (rc_Difference c)) =
        sint (wr_balance_minor q) - (\<Sum>e \<leftarrow> entries_of i (db w). row_delta e) \<and>
      (rc_Consistent c \<longleftrightarrow> sint (wr_balance_minor q) = (\<Sum>e \<leftarrow> entries_of i (db w). row_delta e))))"
proof (cases "id_Validate i")
  case (Some e)
  with assms show ?thesis by (auto simp: Reconcile_def)
next
  case None
  obtain q v where q: "Snapshot env i w = (q, v)" by fastforce
  note sn = Snapshot_cases [OF q]
  show ?thesis
  proof (cases q)
    case (Inl e)
    with assms None q sn show ?thesis by (auto simp: Reconcile_def io_try_def)
  next
    case (Inr s)
    with assms None q have r: "r = reconcile_snapshot i s" "w' = v" by (auto simp: Reconcile_def io_try_def)
    from sn Inr obtain p where p: "p \<in> set (wallets (db w))" "wr_id p = i" "s = snapshot_of p (db w)" "db v = db w"
      by auto
    have "minor (rc_StoredBalance c) = wr_balance_minor p \<and>
      sint (minor (rc_Difference c)) = sint (wr_balance_minor p) - (\<Sum>e \<leftarrow> entries_of i (db w). row_delta e) \<and>
      (rc_Consistent c \<longleftrightarrow> sint (wr_balance_minor p) = (\<Sum>e \<leftarrow> entries_of i (db w). row_delta e))"
      if "reconcile_snapshot i s = Inr c" for c
      using that p
      by (auto simp: reconcile_snapshot_def snapshot_of_entries big_SetString_numeric_text Let_def
          sint_word_of_int64 simp del: of_int_diff split: sum.splits if_splits)
    then show ?thesis using r p by auto
  qed
qed

section \<open>Properties\<close>

text \<open>
  Property C36. Reconciliation is exact on any database: it never writes, and when it answers, the
  answer is consistent exactly when the stored balance equals the sum of the wallet's ledger
  movements, and the difference it reports is theirs.
\<close>

theorem Reconcile_exact:
  assumes "Reconcile env i w = (r, w')"
  shows "db w' = db w \<and> (\<forall>c. r = Inr c \<longrightarrow>
    (\<exists>q \<in> set (wallets (db w)). wr_id q = i \<and> minor (rc_StoredBalance c) = wr_balance_minor q \<and>
      sint (minor (rc_Difference c)) =
        sint (wr_balance_minor q) - (\<Sum>e \<leftarrow> entries_of i (db w). row_delta e) \<and>
      (rc_Consistent c \<longleftrightarrow> sint (wr_balance_minor q) = (\<Sum>e \<leftarrow> entries_of i (db w). row_delta e))))"
  by (rule Reconcile_outcome [OF assms])

theorem Reconcile_exact_witness:
  "db (snd (Reconcile ex_env (ex_uuid 200) ex_world)) = db ex_world \<and>
   (case fst (Reconcile ex_env (ex_uuid 200) ex_world) of
      Inr c \<Rightarrow> (\<exists>q \<in> set (wallets (db ex_world)). wr_id q = ex_uuid 200 \<and>
        (rc_Consistent c \<longleftrightarrow> sint (wr_balance_minor q) = (\<Sum>e \<leftarrow> entries_of (ex_uuid 200) (db ex_world). row_delta e)))
    | Inl e \<Rightarrow> True)"
  using Reconcile_exact [OF surjective_pairing, of ex_env "ex_uuid 200" ex_world]
  by (cases "fst (Reconcile ex_env (ex_uuid 200) ex_world)") auto

text \<open>
  On books that hold every wallet reconciles: the answer is consistent with difference
  zero, an overflow or an invalid snapshot is never reported, and a wallet is only reported as
  missing when it is.
\<close>

theorem Reconcile_consistent:
  assumes "books_ok (db w)" and "length (ledger (db w)) < 2 ^ 63" and "Reconcile env i w = (r, w')"
    and "id_Validate i = None"
  shows "case r of
      Inr c \<Rightarrow> rc_Consistent c \<and> minor (rc_Difference c) = 0 \<and> rc_CalculatedBalance c = rc_StoredBalance c \<and>
        sint (rc_CheckedEntries c) = int (length (entries_of i (db w)))
    | Inl e \<Rightarrow> \<forall>s. errors_is e s \<longrightarrow>
        s = reconciliation_ErrWalletNotFound \<and> (\<forall>q \<in> set (wallets (db w)). wr_id q \<noteq> i)"
proof -
  obtain q v where q: "Snapshot env i w = (q, v)" by fastforce
  note sn = Snapshot_cases [OF q]
  show ?thesis
  proof (cases q)
    case (Inl e)
    with assms(3,4) q have "r = Inl e" by (auto simp: Reconcile_def io_try_def)
    then show ?thesis using sn Inl by simp
  next
    case (Inr s)
    with assms(3,4) q have r: "r = reconcile_snapshot i s" by (auto simp: Reconcile_def io_try_def)
    from sn Inr obtain p where p: "p \<in> set (wallets (db w))" "wr_id p = i" "s = snapshot_of p (db w)" by auto
    have "length (entries_of i (db w)) < 2 ^ 63"
      using assms(2) unfolding entries_of_def by (rule le_less_trans [OF length_filter_le])
    then have "sint (word_of_nat (length (entries_of i (db w))) :: int64) = int (length (entries_of i (db w)))"
      using sint_word_of_int64 [of "int (length (entries_of i (db w)))"] by (simp add: in_int64_def)
    then show ?thesis using r p reconcile_snapshot_books [OF assms(1) p(1) assms(2)] by simp
  qed
qed

theorem Reconcile_consistent_witness:
  "case fst (Reconcile ex_env (ex_uuid 200) ex_world) of
      Inr c \<Rightarrow> rc_Consistent c \<and> minor (rc_Difference c) = 0 \<and> rc_CalculatedBalance c = rc_StoredBalance c \<and>
        sint (rc_CheckedEntries c) = int (length (entries_of (ex_uuid 200) (db ex_world)))
    | Inl e \<Rightarrow> \<not> errors_is e reconciliation_ErrWalletNotFound"
proof -
  have n: "length (ledger (db ex_world)) < 2 ^ 63" by (simp add: ex_world_def ex_db_def)
  have i: "id_Validate (ex_uuid 200) = None" by (rule is_uuid_Validate) simp
  have "\<exists>q \<in> set (wallets (db ex_world)). wr_id q = ex_uuid 200"
    by (simp add: ex_world_def ex_db_def ex_wallet_def)
  then show ?thesis
    using Reconcile_consistent [OF ex_world_books n surjective_pairing i, of ex_env]
    by (cases "fst (Reconcile ex_env (ex_uuid 200) ex_world)") auto
qed

end
