(* ===== verification/Backoff.thy ===== *)
theory Backoff
  imports Example
begin

text \<open>
  The retry delays: \<^verbatim>\<open>backoff\<close> of \<^verbatim>\<open>internal/application/reference\<close> and of
  \<^verbatim>\<open>internal/application/outbox\<close>, and \<^verbatim>\<open>retryVisibilitySeconds\<close> of
  \<^verbatim>\<open>internal/adapters/sqs\<close>. All three double a delay in a loop until it reaches a cap; the locale
  \<open>doubling\<close> has the closed form, the bounds and the monotonicity of that loop.
\<close>

section \<open>The loop\<close>

function doubling_loop :: "int \<Rightarrow> int \<Rightarrow> int \<Rightarrow> int \<Rightarrow> int" where
  "doubling_loop cap attempt i delay =
     (if i < attempt \<and> delay < cap
      then doubling_loop cap attempt (i + 1) (let delay' = delay * 2 in if delay' > cap then cap else delay')
      else delay)"
  by pat_completeness auto
termination
  by (relation "measure (\<lambda>(cap, attempt, i, delay). nat (attempt - i))") auto

declare doubling_loop.simps [simp del]

definition max_backoff :: duration where
  "max_backoff = 5 * time_minute"

text \<open>The two functions \<^verbatim>\<open>backoff\<close>: the delay of the loop, with jitter unless it is the cap.\<close>

definition reference_backoff :: "env \<Rightarrow> int \<Rightarrow> (world, duration) io" where
  "reference_backoff env attempt =
     (let delay = doubling_loop max_backoff attempt 1 time_second
      in if delay = max_backoff then io_return delay
         else io_try (jitter env (delay div 4 + 1)) (\<lambda>j. io_return (delay + j)))"

definition outbox_backoff :: "env \<Rightarrow> int \<Rightarrow> (world, duration) io" where
  "outbox_backoff env attempt =
     (let delay = doubling_loop max_backoff attempt 1 time_second
      in if delay = max_backoff then io_return delay
         else io_try (jitter env (delay div 4 + 1)) (\<lambda>j. io_return (delay + j)))"

definition retryVisibilitySeconds :: "int \<Rightarrow> int" where
  "retryVisibilitySeconds receiveCount = doubling_loop 300 receiveCount 1 5"

text \<open>A lease: \<^verbatim>\<open>($1::bigint * interval '1 millisecond')\<close> with \<^verbatim>\<open>lease.Milliseconds()\<close>.\<close>

definition lease_interval :: "duration \<Rightarrow> duration" where
  "lease_interval lease = lease div time_millisecond * time_millisecond"

section \<open>Doubling up to a cap\<close>

locale doubling =
  fixes start cap :: int
  assumes start_pos: "0 < start" and start_le: "start \<le> cap"
begin

lemma loop_closed:
  assumes "1 \<le> i" "i \<le> attempt"
  shows "doubling_loop cap attempt i (min cap (start * 2 ^ nat (i - 1))) = min cap (start * 2 ^ nat (attempt - 1))"
  using assms
proof (induction "nat (attempt - i)" arbitrary: i)
  case 0
  then have "i = attempt" by simp
  then show ?case by (simp add: doubling_loop.simps [of cap attempt attempt])
next
  case (Suc n)
  then have lt: "i < attempt" by simp
  let ?d = "min cap (start * 2 ^ nat (i - 1))" and ?e = "min cap (start * 2 ^ nat (i + 1 - 1))"
  have p: "nat i = Suc (nat (i - 1))" using Suc.prems by simp
  then have e: "start * 2 ^ nat i = 2 * (start * 2 ^ nat (i - 1))" by simp
  show ?case
  proof (cases "?d < cap")
    case True
    then have d: "?d = start * 2 ^ nat (i - 1)" by simp
    have "?d * 2 = start * 2 ^ nat i" unfolding d e by simp
    then have step: "(let delay' = ?d * 2 in if delay' > cap then cap else delay') = ?e" by (auto simp: Let_def)
    have "doubling_loop cap attempt i ?d = doubling_loop cap attempt (i + 1) ?e"
      unfolding doubling_loop.simps [of cap attempt i ?d] step using True lt by (simp only: if_True simp_thms)
    also have "\<dots> = min cap (start * 2 ^ nat (attempt - 1))"
      using Suc.hyps(1) [of "i + 1"] Suc.hyps(2) Suc.prems lt by simp
    finally show ?thesis .
  next
    case False
    then have d: "cap \<le> start * 2 ^ nat (i - 1)" by simp
    have "(2 :: int) ^ nat (i - 1) \<le> 2 ^ nat (attempt - 1)" using Suc.prems by (intro power_increasing) auto
    then have "start * 2 ^ nat (i - 1) \<le> start * 2 ^ nat (attempt - 1)" using start_pos by simp
    with d have "cap \<le> start * 2 ^ nat (attempt - 1)" by simp
    then show ?thesis using d by (simp add: doubling_loop.simps [of cap attempt i])
  qed
qed

lemma loop_value:
  "doubling_loop cap attempt 1 start = min cap (start * 2 ^ nat (attempt - 1))"
proof (cases "1 \<le> attempt")
  case True
  then show ?thesis using loop_closed [of 1 attempt] start_le by simp
next
  case False
  then show ?thesis using start_le by (simp add: doubling_loop.simps [of cap attempt 1])
qed

lemma loop_bounds: "start \<le> doubling_loop cap attempt 1 start" "doubling_loop cap attempt 1 start \<le> cap"
proof -
  have "start * 1 \<le> start * 2 ^ nat (attempt - 1)"
    using start_pos by (intro mult_left_mono) (simp_all add: one_le_power)
  then show "start \<le> doubling_loop cap attempt 1 start" using start_le by (simp add: loop_value)
  show "doubling_loop cap attempt 1 start \<le> cap" by (simp add: loop_value)
qed

lemma loop_mono: "a \<le> b \<Longrightarrow> doubling_loop cap a 1 start \<le> doubling_loop cap b 1 start"
proof -
  assume "a \<le> b"
  then have "(2 :: int) ^ nat (a - 1) \<le> 2 ^ nat (b - 1)" by (intro power_increasing) auto
  then have "start * 2 ^ nat (a - 1) \<le> start * 2 ^ nat (b - 1)" using start_pos by simp
  then show ?thesis unfolding loop_value by (rule min.mono [OF order_refl])
qed

end

interpretation delays: doubling time_second max_backoff
  by unfold_locales (simp_all add: time_second_def max_backoff_def time_minute_def)

interpretation visibility: doubling 5 300
  by unfold_locales simp_all

section \<open>Delays with jitter\<close>

text \<open>The delay below the cap is at most 256 seconds, the largest power of two below 300.\<close>

lemma delay_below_cap:
  assumes "doubling_loop max_backoff attempt 1 time_second \<noteq> max_backoff"
  shows "doubling_loop max_backoff attempt 1 time_second \<le> 256 * time_second"
proof -
  let ?k = "nat (attempt - 1)"
  from assms have "time_second * 2 ^ ?k < max_backoff" unfolding delays.loop_value by simp
  then have lt: "(2 :: int) ^ ?k < 300" by (simp add: time_second_def max_backoff_def time_minute_def)
  have "?k < 9"
  proof (rule ccontr)
    assume "\<not> ?k < 9"
    then have "(2 :: int) ^ 9 \<le> 2 ^ ?k" by (intro power_increasing) simp_all
    with lt show False by simp
  qed
  then have "(2 :: int) ^ ?k \<le> 2 ^ 8" by (intro power_increasing) simp_all
  then show ?thesis unfolding delays.loop_value by (simp add: time_second_def)
qed

lemma reference_backoff_run:
  assumes "env_ok env"
  shows "\<exists>r w'. reference_backoff env attempt w = (Inr r, w') \<and> db w' = db w \<and>
    doubling_loop max_backoff attempt 1 time_second \<le> r \<and> r \<le> max_backoff + 20 * time_second"
proof (cases "doubling_loop max_backoff attempt 1 time_second = max_backoff")
  case True
  then show ?thesis by (simp add: reference_backoff_def time_second_def)
next
  case False
  let ?d = "doubling_loop max_backoff attempt 1 time_second"
  have d: "time_second \<le> ?d" "?d \<le> 256 * time_second"
    using delays.loop_bounds(1) delay_below_cap [OF False] by simp_all
  then have pos: "0 < ?d div 4 + 1" by (simp add: time_second_def)
  have j: "0 \<le> env_jitter env (tick w) (?d div 4 + 1)" "env_jitter env (tick w) (?d div 4 + 1) < ?d div 4 + 1"
    using assms pos unfolding env_ok_def by blast+
  have "?d div 4 \<le> 64 * time_second" using d(2) by (simp add: time_second_def)
  then have "?d + env_jitter env (tick w) (?d div 4 + 1) \<le> max_backoff + 20 * time_second"
    using d j by (simp add: max_backoff_def time_minute_def time_second_def)
  then show ?thesis using False j by (simp add: reference_backoff_def jitter_def io_try_def Let_def)
qed

lemma outbox_backoff_eq: "outbox_backoff = reference_backoff"
  by (simp add: fun_eq_iff outbox_backoff_def reference_backoff_def)

section \<open>Properties\<close>

text \<open>
  Property C34. The delays before a retry have a closed form and bounds: they are the start doubled
  for each further attempt and capped, and the
  visibility of a queue message stays between 5 and 300 seconds, far inside the range of
  \<^verbatim>\<open>int32\<close>.
\<close>

theorem retry_delays_closed_form:
  "doubling_loop max_backoff attempt 1 time_second = min max_backoff (time_second * 2 ^ nat (attempt - 1)) \<and>
   retryVisibilitySeconds count = min 300 (5 * 2 ^ nat (count - 1)) \<and>
   5 \<le> retryVisibilitySeconds count \<and> retryVisibilitySeconds count \<le> 300"
  using delays.loop_value visibility.loop_value visibility.loop_bounds by (simp add: retryVisibilitySeconds_def)

text \<open>
  The delay of a retry always exists, changes nothing in the database and lies between
  one second and 320 seconds: at least the doubled delay, and at most a quarter more.
\<close>

theorem backoff_bounds:
  assumes "env_ok env"
  shows "\<exists>r w'. reference_backoff env attempt w = (Inr r, w') \<and> outbox_backoff env attempt w = (Inr r, w') \<and>
    db w' = db w \<and> time_second \<le> r \<and> r \<le> 320 * time_second"
proof -
  obtain r w' where "reference_backoff env attempt w = (Inr r, w')" "db w' = db w"
    "doubling_loop max_backoff attempt 1 time_second \<le> r" "r \<le> max_backoff + 20 * time_second"
    using reference_backoff_run [OF assms] by blast
  then show ?thesis
    using delays.loop_bounds(1) [of attempt] outbox_backoff_eq
    by (auto simp: max_backoff_def time_minute_def time_second_def)
qed

theorem backoff_bounds_witness:
  "\<exists>r w'. reference_backoff ex_env 4 ex_world = (Inr r, w') \<and> outbox_backoff ex_env 4 ex_world = (Inr r, w') \<and>
    db w' = db ex_world \<and> time_second \<le> r \<and> r \<le> 320 * time_second"
  by (rule backoff_bounds [OF ex_env_ok])

text \<open>
  The bound of 320 seconds is reached, although the documentation gives five minutes as
  the longest delay: the ninth attempt waits 256 seconds and up to 64 seconds of jitter.
\<close>

definition ex_slow_env :: env where
  "ex_slow_env = ex_env\<lparr>env_jitter := (\<lambda>n m. m - 1)\<rparr>"

theorem backoff_exceeds_documented_cap:
  "env_ok ex_slow_env \<and> fst (reference_backoff ex_slow_env 9 ex_world) = Inr (320 * time_second) \<and>
   5 * time_minute < 320 * time_second"
proof (intro conjI)
  show "env_ok ex_slow_env" using ex_env_ok by (simp add: env_ok_def ex_slow_env_def)
  have "doubling_loop max_backoff 9 1 time_second = 256 * time_second"
    unfolding delays.loop_value by (simp add: max_backoff_def time_minute_def time_second_def)
  then show "fst (reference_backoff ex_slow_env 9 ex_world) = Inr (320 * time_second)"
    by (simp add: reference_backoff_def jitter_def io_try_def ex_slow_env_def max_backoff_def time_minute_def
        time_second_def Let_def)
  show "5 * time_minute < 320 * time_second" by (simp add: time_minute_def time_second_def)
qed

end
