(* ===== verification/Reference.thy ===== *)
theory Reference
  imports Settlement Backoff "HOL-Library.List_Lexorder" "HOL-Library.Char_ord" "HOL-Library.Product_Lexorder"
begin

text \<open>
  The package \<^verbatim>\<open>internal/application/reference\<close> and its PostgreSQL store: the worker that
  re-evaluates transactions waiting for their reference. It leases one due row, then resumes the
  transaction under the wallet lock, and completes or reschedules it.
\<close>

section \<open>Claims\<close>

record ref_claim =
  rf_TransactionID :: string
  rf_WalletID :: string
  rf_Token :: string

record pending_reference =
  pn_Transaction :: transaction
  pn_Attempts :: int
  pn_ExpiresAt :: time
  pn_Now :: time

datatype ref_outcome = RefIdle | RefStale | RefRescheduled | RefCompleted

definition due :: "time \<Rightarrow> wager_row \<Rightarrow> bool" where
  "due now r \<longleftrightarrow>
     gr_status r = StatusPendingReference \<and>
     (case gr_next_attempt_at r of None \<Rightarrow> False | Some n \<Rightarrow> n \<le> now) \<and>
     (case gr_locked_until r of None \<Rightarrow> True | Some l \<Rightarrow> l \<le> now)"

text \<open>\<^verbatim>\<open>ORDER BY next_attempt_at, id LIMIT 1\<close>; no row is locked by another transaction.\<close>

definition candidate :: "time \<Rightarrow> database \<Rightarrow> wager_row option" where
  "candidate now d =
     (case filter (due now) (wagers d) of
        [] \<Rightarrow> None
      | r # rs \<Rightarrow> Some (arg_min_list (\<lambda>r. (the (gr_next_attempt_at r), gr_id r)) (r # rs)))"

definition least_time :: "time \<Rightarrow> time option \<Rightarrow> time" where
  "least_time t u = (case u of None \<Rightarrow> t | Some x \<Rightarrow> min t x)"

definition lease_row :: "string \<Rightarrow> time \<Rightarrow> wager_row \<Rightarrow> wager_row" where
  "lease_row token until r =
     r\<lparr>gr_lease_token := Some token, gr_locked_until := Some until,
       gr_next_attempt_at := Some (least_time until (gr_expires_at r))\<rparr>"

definition claim_statement :: "env \<Rightarrow> duration \<Rightarrow> nat \<Rightarrow> database \<Rightarrow> (ref_claim option \<times> database) result" where
  "claim_statement env lease n d =
     (case candidate (env_db_now env n) d of
        None \<Rightarrow> Inr (None, d)
      | Some r \<Rightarrow>
          and_then (update_wagers (\<lambda>q. gr_id q = gr_id r)
            (lease_row (env_gen_random_uuid env n) (env_db_now env n + lease_interval lease)) [] (wagers d) d)
           (\<lambda>(_, rows). Inr (Some \<lparr>rf_TransactionID = gr_id r, rf_WalletID = gr_wallet_id r,
             rf_Token = env_gen_random_uuid env n\<rparr>, d\<lparr>wagers := rows\<rparr>)))"

definition ReferenceStore_Claim :: "env \<Rightarrow> duration \<Rightarrow> (world, ref_claim option) io" where
  "ReferenceStore_Claim env lease =
     (if lease \<le> 0 then io_throw (Sentinel reference_ErrInvalidClaim)
      else ReadCommitted env (sql env (claim_statement env lease)))"

section \<open>The session\<close>

definition select_pending :: "env \<Rightarrow> ref_claim \<Rightarrow> nat \<Rightarrow> database \<Rightarrow> (transaction \<times> database) result" where
  "select_pending env c n d =
     uuid_param (rf_TransactionID c) (uuid_param (rf_Token c)
      (and_then (select_wager (\<lambda>r. gr_id r = rf_TransactionID c \<and> gr_status r = StatusPendingReference \<and>
          gr_lease_token r = Some (rf_Token c) \<and>
          (case gr_locked_until r of None \<Rightarrow> False | Some l \<Rightarrow> l > env_db_now env n)) d) (\<lambda>t. Inr (t, d))))"

definition select_schedule :: "env \<Rightarrow> ref_claim \<Rightarrow> nat \<Rightarrow> database \<Rightarrow> ((int \<times> time \<times> time) \<times> database) result" where
  "select_schedule env c n d =
     uuid_param (rf_TransactionID c) (uuid_param (rf_Token c)
      (case find (\<lambda>r. gr_id r = rf_TransactionID c \<and> gr_lease_token r = Some (rf_Token c)) (wagers d) of
         None \<Rightarrow> Inl (Sentinel pgx_ErrNoRows)
       | Some r \<Rightarrow>
           (case gr_expires_at r of
              None \<Rightarrow> Inl (Opaque ''cannot scan null'')
            | Some e \<Rightarrow> Inr ((gr_reference_attempts r, e, env_db_now env n), d))))"

definition LockPending :: "env \<Rightarrow> ref_claim \<Rightarrow> (world, pending_reference option) io" where
  "LockPending env c =
     io_try (none_if_not_found (sql env (select_pending env c))) (\<lambda>found. case found of
       None \<Rightarrow> io_return None
     | Some t \<Rightarrow>
         if t_walletID t \<noteq> rf_WalletID c then io_throw (Sentinel reference_ErrInvalidClaim)
         else io_try (sql env (select_schedule env c)) (\<lambda>(attempts, expiresAt, now).
           io_return (Some \<lparr>pn_Transaction = t, pn_Attempts = attempts, pn_ExpiresAt = expiresAt, pn_Now = now\<rparr>)))"

definition reschedule_row :: "time \<Rightarrow> wager_row \<Rightarrow> wager_row" where
  "reschedule_row next r =
     r\<lparr>gr_reference_attempts := gr_reference_attempts r + 1, gr_next_attempt_at := Some next,
       gr_lease_token := None, gr_locked_until := None\<rparr>"

text \<open>The argument \<open>pendingToken\<close> is the field the session keeps from \<^verbatim>\<open>LockPending\<close>.\<close>

definition Reschedule :: "env \<Rightarrow> string \<Rightarrow> ref_claim \<Rightarrow> time \<Rightarrow> (world, unit) io" where
  "Reschedule env pendingToken c next =
     (if pendingToken \<noteq> rf_Token c \<or> is_zero_time next then io_throw (Sentinel reference_ErrInvalidClaim)
      else io_try
       (sql env (\<lambda>_ d. uuid_param (rf_TransactionID c) (uuid_param (rf_Token c)
         (and_then (update_wagers
             (\<lambda>r. gr_id r = rf_TransactionID c \<and> gr_status r = StatusPendingReference \<and>
               gr_lease_token r = Some (rf_Token c))
             (reschedule_row (env_timestamptz env next)) [] (wagers d) d)
           (\<lambda>(n, rows). Inr (n, d\<lparr>wagers := rows\<rparr>))))))
       (\<lambda>n. if n \<noteq> 1 then io_throw (Sentinel postgres_ErrConcurrentWrite) else io_return ()))"

section \<open>Processing\<close>

definition process_pending :: "env \<Rightarrow> ref_claim \<Rightarrow> wallet \<Rightarrow> pending_reference \<Rightarrow> (world, ref_outcome) io" where
  "process_pending env c account p =
     (if is_zero_time (pn_ExpiresAt p) \<or> is_zero_time (pn_Now p) then io_throw (Sentinel reference_ErrInvalidClaim)
      else
       io_try (ResumePendingInSession (wager_service env) (wagerSession env (rf_Token c)) account
         (pn_Transaction p) (\<not> pn_Now p < pn_ExpiresAt p) (pn_Now p)) (\<lambda>completed.
       if completed then io_return RefCompleted
       else
         io_try (reference_backoff env (pn_Attempts p + 1)) (\<lambda>delay.
         io_try (Reschedule env (rf_Token c) c (min (pn_Now p + delay) (pn_ExpiresAt p))) (\<lambda>_.
         io_return RefRescheduled))))"

definition process_claim :: "env \<Rightarrow> ref_claim \<Rightarrow> (world, ref_outcome) io" where
  "process_claim env c =
     io_try (session_LockWallet env (rf_WalletID c)) (\<lambda>account.
     io_try (LockPending env c) (\<lambda>pending. case pending of
       None \<Rightarrow> io_return RefStale
     | Some p \<Rightarrow> process_pending env c account p))"

definition ReferenceStore_WithinTransaction :: "env \<Rightarrow> (world, 'a) io \<Rightarrow> (world, 'a) io" where
  "ReferenceStore_WithinTransaction env work = ReadCommittedWithRetry env work"

definition ProcessOneWithClaim :: "env \<Rightarrow> duration \<Rightarrow> (world, ref_outcome \<times> ref_claim option) io" where
  "ProcessOneWithClaim env lease =
     io_try (ReferenceStore_Claim env lease) (\<lambda>claim. case claim of
       None \<Rightarrow> io_return (RefIdle, None)
     | Some c \<Rightarrow>
         if rf_TransactionID c = [] \<or> rf_WalletID c = [] \<or> rf_Token c = []
         then io_throw (Sentinel reference_ErrInvalidClaim)
         else io_try (ReferenceStore_WithinTransaction env (process_claim env c)) (\<lambda>outcome.
           io_return (outcome, Some c)))"

definition ref_ProcessOne :: "env \<Rightarrow> duration \<Rightarrow> (world, ref_outcome) io" where
  "ref_ProcessOne env lease = io_try (ProcessOneWithClaim env lease) (\<lambda>(outcome, _). io_return outcome)"

section \<open>Leases and rescheduling on the books\<close>

text \<open>
  A waiting row is touched: only its schedule, its lease and its attempts change, and no other
  table.
\<close>

definition same_but_schedule :: "wager_row \<Rightarrow> wager_row \<Rightarrow> bool" where
  "same_but_schedule g0 g \<longleftrightarrow>
     (\<exists>attempts next token until. g = g0\<lparr>gr_reference_attempts := attempts, gr_next_attempt_at := next,
       gr_lease_token := token, gr_locked_until := until\<rparr>)"

definition touched :: "wager_row \<Rightarrow> wager_row \<Rightarrow> database \<Rightarrow> database \<Rightarrow> bool" where
  "touched g0 g d d' \<longleftrightarrow>
     gr_status g0 = StatusPendingReference \<and> same_but_schedule g0 g \<and>
     (\<exists>xs ys. wagers d = xs @ g0 # ys \<and> d' = d\<lparr>wagers := xs @ g # ys\<rparr>) \<and>
     list_all fst (wager_checks g)"

lemma same_but_schedule_fields:
  assumes "same_but_schedule g0 g"
  shows "gr_id g = gr_id g0" "gr_origin g = gr_origin g0" "gr_status g = gr_status g0"
    "wager_identity g = wager_identity g0" "wager_clash q g \<longleftrightarrow> wager_clash q g0"
proof -
  from assms obtain a n l u where "g = g0\<lparr>gr_reference_attempts := a, gr_next_attempt_at := n,
       gr_lease_token := l, gr_locked_until := u\<rparr>"
    unfolding same_but_schedule_def by blast
  then show "gr_id g = gr_id g0" "gr_origin g = gr_origin g0" "gr_status g = gr_status g0"
    "wager_identity g = wager_identity g0" "wager_clash q g \<longleftrightarrow> wager_clash q g0"
    by (simp_all add: wager_identity_def wager_clash_def is_reversal_def)
qed

lemma touched_recorded:
  assumes "touched g0 g d d'" "wagers_unique (wagers d)"
  shows "recorded g d d'" "gr_status g = StatusPendingReference"
proof -
  from assms(1) obtain xs ys where d: "wagers d = xs @ g0 # ys" "d' = d\<lparr>wagers := xs @ g # ys\<rparr>"
    and g: "gr_status g0 = StatusPendingReference" "same_but_schedule g0 g"
    unfolding touched_def by blast
  note f = same_but_schedule_fields [OF g(2)]
  show st: "gr_status g = StatusPendingReference" using f g by simp
  have "\<forall>q \<in> set (xs @ ys). \<not> wager_clash q g"
    using wagers_unique_split assms(2) d(1) f(5) by metis
  then have "wager_written g d d'"
    unfolding wager_written_def wager_uniques_clash using d f g(1)
    by (intro disjI2 exI [of _ xs] exI [of _ g0] exI [of _ ys]) simp
  then show "recorded g d d'"
    using st d(2) by (simp add: recorded_def moves_money_def)
qed

lemma schedule_rows:
  "same_but_schedule r (lease_row token until r)" "same_but_schedule r (reschedule_row next r)"
  by (cases r; auto simp: same_but_schedule_def lease_row_def reschedule_row_def)+

lemma candidate_due:
  assumes "candidate now d = Some r"
  shows "r \<in> set (wagers d)" "due now r"
    "\<And>q. q \<in> set (wagers d) \<Longrightarrow> due now q \<Longrightarrow>
      (the (gr_next_attempt_at r), gr_id r) \<le> (the (gr_next_attempt_at q), gr_id q)"
proof -
  let ?f = "\<lambda>r. (the (gr_next_attempt_at r), gr_id r)" and ?rs = "filter (due now) (wagers d)"
  from assms have ne: "?rs \<noteq> []" and r: "r = arg_min_list ?f ?rs"
    by (auto simp: candidate_def split: list.splits)
  from arg_min_list_in [OF ne, of ?f] r show "r \<in> set (wagers d)" "due now r" by auto
  show "?f r \<le> ?f q" if "q \<in> set (wagers d)" "due now q" for q
    using that f_arg_min_list_f [OF ne, of ?f] r by simp
qed

text \<open>An update of the only row with an identifier.\<close>

lemma update_wagers_none:
  assumes "\<forall>q \<in> set rows. \<not> P q"
  shows "update_wagers P f prior rows d = Inr (0, prior @ rows)"
  using assms by (induction P f prior rows d rule: update_wagers.induct) auto

lemma update_wagers_only:
  assumes "update_wagers P f prior (xs @ r # ys) d = Inr (n, rows)" "P r" "\<forall>q \<in> set (xs @ ys). \<not> P q"
  shows "n = 1 \<and> rows = prior @ xs @ f r # ys \<and> list_all fst (wager_checks (f r))"
  using assms
proof (induction xs arbitrary: prior)
  case Nil
  then show ?case
    by (auto simp: result_invert first_violation_None update_wagers_none)
next
  case (Cons a xs)
  then have "update_wagers P f (prior @ [a]) (xs @ r # ys) d = Inr (n, rows)" by simp
  from Cons.IH [OF this] Cons.prems show ?case by simp
qed

lemma claim_statement_touches:
  assumes run: "claim_statement env lease n d = Inr (c, d')" and u: "wagers_unique (wagers d)"
  shows "case c of None \<Rightarrow> d' = d \<and> (\<forall>r \<in> set (wagers d). \<not> due (env_db_now env n) r)
    | Some k \<Rightarrow> \<exists>g. candidate (env_db_now env n) d = Some g \<and> rf_TransactionID k = gr_id g \<and> rf_WalletID k = gr_wallet_id g \<and>
        touched g (lease_row (rf_Token k) (env_db_now env n + lease_interval lease) g) d d'"
proof (cases "candidate (env_db_now env n) d")
  case None
  with run show ?thesis
    by (auto simp: claim_statement_def candidate_def filter_empty_conv split: list.splits)
next
  case (Some r)
  note r = candidate_due [OF Some]
  from run Some obtain m rows where up: "update_wagers (\<lambda>q. gr_id q = gr_id r)
      (lease_row (env_gen_random_uuid env n) (env_db_now env n + lease_interval lease)) [] (wagers d) d = Inr (m, rows)"
    and c: "c = Some \<lparr>rf_TransactionID = gr_id r, rf_WalletID = gr_wallet_id r, rf_Token = env_gen_random_uuid env n\<rparr>"
    and d': "d' = d\<lparr>wagers := rows\<rparr>"
    by (auto simp: claim_statement_def and_then_eq_Inr)
  from r(1) obtain xs ys where split: "wagers d = xs @ r # ys" by (meson split_list)
  have "\<forall>q \<in> set (xs @ ys). gr_id q \<noteq> gr_id r"
    using wagers_unique_split [of xs r ys] u split by (auto simp: wager_clash_def)
  with update_wagers_only [of _ _ "[]" xs r ys d m rows] up split
  have rows: "rows = xs @ lease_row (env_gen_random_uuid env n) (env_db_now env n + lease_interval lease) r # ys"
    and ch: "list_all fst (wager_checks (lease_row (env_gen_random_uuid env n) (env_db_now env n + lease_interval lease) r))"
    by auto
  show ?thesis
    using r(2) split rows ch d' c Some schedule_rows(1) unfolding touched_def due_def by auto
qed

lemma Reschedule_touches:
  assumes "Reschedule env token c next w = (Inr u, w')"
  shows "\<exists>g. gr_id g = rf_TransactionID c \<and> touched g (reschedule_row (env_timestamptz env next) g) (db w) (db w')"
proof -
  let ?P = "\<lambda>r. gr_id r = rf_TransactionID c \<and> gr_status r = StatusPendingReference \<and> gr_lease_token r = Some (rf_Token c)"
  let ?f = "reschedule_row (env_timestamptz env next)"
  from assms obtain rows where up: "update_wagers ?P ?f [] (wagers (db w)) (db w) = Inr (Suc 0, rows)"
    and d: "db w' = (db w)\<lparr>wagers := rows\<rparr>"
    unfolding Reschedule_def by (auto simp: and_then_eq_Inr split: if_splits)
  from update_wagers_one [OF up] obtain xs g ys where "wager_updated ?P ?f (wagers (db w)) rows (db w) xs g ys" by auto
  then show ?thesis
    using d schedule_rows(2) unfolding wager_updated_def touched_def by auto
qed

lemma find_Some_mem: "find P xs = Some x \<Longrightarrow> x \<in> set xs \<and> P x"
  by (auto simp: find_Some_iff)

lemma sql_Inl_db: "sql env f w = (Inl e, w') \<Longrightarrow> db w' = db w"
  by (auto simp: sql_def split: option.splits sum.splits prod.splits)

lemma select_schedule_row:
  assumes "select_schedule env c n d = Inr ((a, e, now), d')"
  shows "d' = d" "now = env_db_now env n"
    "\<exists>h \<in> set (wagers d). gr_id h = rf_TransactionID c \<and> gr_expires_at h = Some e"
  using assms by (auto simp: select_schedule_def dest!: find_Some_mem split: option.splits)

lemma LockPending_locks:
  assumes run: "LockPending env c w = (Inr pend, w')" and u: "wagers_unique (wagers (db w))"
  shows "db w' = db w \<and> (case pend of None \<Rightarrow> True
    | Some p \<Rightarrow> \<exists>g \<in> set (wagers (db w)). gr_id g = rf_TransactionID c \<and> scanWager g = Inr (pn_Transaction p) \<and>
        gr_expires_at g = Some (pn_ExpiresAt p) \<and> (\<exists>n. pn_Now p = env_db_now env n))"
proof -
  let ?P = "\<lambda>n r. gr_id r = rf_TransactionID c \<and> gr_status r = StatusPendingReference \<and>
      gr_lease_token r = Some (rf_Token c) \<and> (case gr_locked_until r of None \<Rightarrow> False | Some l \<Rightarrow> l > env_db_now env n)"
  from run obtain q w1 where q: "none_if_not_found (sql env (select_pending env c)) w = (Inr q, w1)"
    and rest: "(case q of None \<Rightarrow> io_return None
     | Some t \<Rightarrow> if t_walletID t \<noteq> rf_WalletID c then io_throw (Sentinel reference_ErrInvalidClaim)
         else io_try (sql env (select_schedule env c)) (\<lambda>(attempts, expiresAt, now).
           io_return (Some \<lparr>pn_Transaction = t, pn_Attempts = attempts, pn_ExpiresAt = expiresAt, pn_Now = now\<rparr>))) w1
      = (Inr pend, w')"
    unfolding LockPending_def by (elim io_try_InrE)
  show ?thesis
  proof (cases q)
    case None
    then have "db w1 = db w" using q by (auto elim!: none_if_not_found_InrE dest: sql_Inl_db)
    with rest None show ?thesis by auto
  next
    case (Some t)
    with q have "sql env (select_pending env c) w = (Inr t, w1)" by (auto elim: none_if_not_found_InrE)
    then have "select_pending env c (tick w) (db w) = Inr (t, db w1)" by (rule sql_InrE)
    then have d1: "db w1 = db w" and sel: "select_wager (?P (tick w)) (db w) = Inr t"
      by (auto simp: select_pending_def and_then_eq_Inr)
    then obtain g where g: "g \<in> set (wagers (db w))" "gr_id g = rf_TransactionID c" "scanWager g = Inr t"
      by (auto simp: select_wager_def dest!: find_Some_mem split: option.splits)
    from rest Some obtain a e now where sch: "select_schedule env c (tick w1) (db w1) = Inr ((a, e, now), db w')"
      and pend: "pend = Some \<lparr>pn_Transaction = t, pn_Attempts = a, pn_ExpiresAt = e, pn_Now = now\<rparr>"
      by (auto elim!: io_try_InrE split: if_splits)
    from select_schedule_row [OF sch] obtain h where d': "db w' = db w"
      and now: "now = env_db_now env (tick w1)"
      and h: "h \<in> set (wagers (db w))" "gr_id h = rf_TransactionID c" "gr_expires_at h = Some e"
      unfolding d1 by blast
    have "h = g" using wagers_unique_eq [OF u h(1) g(1)] g(2) h(2) by (simp add: wager_clash_def)
    then show ?thesis using pend g h(3) now d' by auto
  qed
qed

lemma reference_backoff_same_db: "reference_backoff env a w = (Inr r, w') \<Longrightarrow> db w' = db w"
  by (auto simp: reference_backoff_def jitter_def Let_def split: if_splits)

text \<open>The outcome of the processing of a claim, as a step on the books.\<close>

definition reference_step :: "env \<Rightarrow> ref_claim \<Rightarrow> ref_outcome \<Rightarrow> database \<Rightarrow> database \<Rightarrow> bool" where
  "reference_step env c outcome d d' \<longleftrightarrow>
     (case outcome of
        RefIdle \<Rightarrow> False
      | RefStale \<Rightarrow> d' = d
      | RefRescheduled \<Rightarrow> \<exists>g0 g e n. touched g0 g d d' \<and> gr_id g0 = rf_TransactionID c \<and>
          gr_expires_at g0 = Some e \<and> env_db_now env n < e \<and> gr_reference_attempts g = gr_reference_attempts g0 + 1
      | RefCompleted \<Rightarrow> \<exists>g. settled g d d' \<and> gr_id g = rf_TransactionID c \<and> status_Terminal (gr_status g))"

lemma expired_completes:
  "ResumePendingInSession sv S account t True now s = (Inr completed, s') \<Longrightarrow> completed"
  unfolding ResumePendingInSession_def Let_def
  by (auto split: if_splits resolution.splits)

lemma touched_row:
  assumes "touched g0 g d d'"
  shows "g0 \<in> set (wagers d)"
  using assms by (auto simp: touched_def)

lemma process_pending_step:
  assumes run: "process_pending env c account p w = (Inr outcome, w')" and inv: "books_ok (db w)"
    and g: "g \<in> set (wagers (db w))" "gr_id g = rf_TransactionID c" "scanWager g = Inr (pn_Transaction p)"
      "gr_expires_at g = Some (pn_ExpiresAt p)" "pn_Now p = env_db_now env n"
    and acc: "r \<in> set (wallets (db w))" "wallet_of_row r = Inr account"
  shows "reference_step env c outcome (db w) (db w')"
proof -
  have u: "wagers_unique (wagers (db w))" using inv by (simp add: books_ok_def)
  from run obtain completed w1 where res: "ResumePendingInSession (wager_service env) (wagerSession env (rf_Token c)) account
         (pn_Transaction p) (\<not> pn_Now p < pn_ExpiresAt p) (pn_Now p) w = (Inr completed, w1)"
    and rest: "(if completed then io_return RefCompleted
       else io_try (reference_backoff env (pn_Attempts p + 1)) (\<lambda>delay.
         io_try (Reschedule env (rf_Token c) c (min (pn_Now p + delay) (pn_ExpiresAt p))) (\<lambda>_.
         io_return RefRescheduled))) w1 = (Inr outcome, w')"
    unfolding process_pending_def by (auto elim!: io_try_InrE split: if_splits)
  note eff = pg.ResumePending_settles [OF res g(1,3) acc inv]
  show ?thesis
  proof (cases completed)
    case True
    with eff obtain t' h where "transition\<^sup>*\<^sup>* (pn_Transaction p) t'" "status_Terminal (t_status t')"
      "settled h (db w) (db w1)" "row_matches h t'" "gr_status h = t_status t'"
      by (auto simp: pg.settles_def)
    moreover have "gr_id g = t_id (pn_Transaction p)" using scanWager_Inr(2) [OF g(3)] by (simp add: row_matches_def)
    moreover have "outcome = RefCompleted" "w' = w1" using rest True by simp_all
    ultimately show ?thesis
      using g(2) transitions_same_request [of "pn_Transaction p" t']
      by (auto simp: reference_step_def row_matches_def same_request_def)
  next
    case False
    with eff have v1: "db w1 = db w" by simp
    from rest False obtain delay w2 where b: "reference_backoff env (pn_Attempts p + 1) w1 = (Inr delay, w2)"
      and rs: "Reschedule env (rf_Token c) c (min (pn_Now p + delay) (pn_ExpiresAt p)) w2 = (Inr (), w')"
      and out: "outcome = RefRescheduled"
      by (auto elim!: io_try_InrE)
    have "db w2 = db w" using reference_backoff_same_db [OF b] v1 by simp
    with Reschedule_touches [OF rs] obtain h where h: "gr_id h = rf_TransactionID c"
      "touched h (reschedule_row (env_timestamptz env (min (pn_Now p + delay) (pn_ExpiresAt p))) h) (db w) (db w')" by auto
    have "h = g"
      using wagers_unique_eq [OF u touched_row [OF h(2)] g(1)] g(2) h(1) by (simp add: wager_clash_def)
    moreover define g' where "g' = reschedule_row (env_timestamptz env (min (pn_Now p + delay) (pn_ExpiresAt p))) h"
    moreover have "pn_Now p < pn_ExpiresAt p" using expired_completes res False by (metis (full_types))
    ultimately have "touched g g' (db w) (db w')" "env_db_now env n < pn_ExpiresAt p"
      "gr_reference_attempts g' = gr_reference_attempts g + 1"
      using h(2) g(5) by (simp_all add: reschedule_row_def)
    then show ?thesis
      using g(2,4) out unfolding reference_step_def
      by (simp only: ref_outcome.case) (intro exI [of _ g] exI [of _ g'] exI [of _ "pn_ExpiresAt p"] exI [of _ n] conjI)
  qed
qed

lemma process_claim_step:
  assumes run: "process_claim env c w = (Inr outcome, w')" and inv: "books_ok (db w)"
  shows "reference_step env c outcome (db w) (db w')"
proof -
  from run obtain account w1 pend w2 where lk: "session_LockWallet env (rf_WalletID c) w = (Inr account, w1)"
    and lp: "LockPending env c w1 = (Inr pend, w2)"
    and rest: "(case pend of None \<Rightarrow> io_return RefStale | Some p \<Rightarrow> process_pending env c account p) w2 = (Inr outcome, w')"
    unfolding process_claim_def by (elim io_try_InrE)
  from pg.lock_law [of env "[]" "rf_WalletID c" w account w1] lk obtain r where d1: "db w1 = db w"
    and r: "r \<in> set (wallets (db w))" "wallet_of_row r = Inr account"
    by (auto simp: wagerSession_def)
  have u: "wagers_unique (wagers (db w1))" using inv d1 by (simp add: books_ok_def)
  note lock = LockPending_locks [OF lp u, unfolded d1]
  show ?thesis
  proof (cases pend)
    case None
    with rest lock show ?thesis by (simp add: reference_step_def)
  next
    case (Some p)
    with lock obtain g n where g: "g \<in> set (wagers (db w))" "gr_id g = rf_TransactionID c"
      "scanWager g = Inr (pn_Transaction p)" "gr_expires_at g = Some (pn_ExpiresAt p)" "pn_Now p = env_db_now env n"
      and d2: "db w2 = db w" by auto
    from rest Some have pp: "process_pending env c account p w2 = (Inr outcome, w')" by simp
    show ?thesis
      using process_pending_step [OF pp] g r inv unfolding d2 by blast
  qed
qed

section \<open>The worker as steps on the books\<close>

text \<open>The lease a claim takes: the first due row gets a fresh token until the lease ends.\<close>

definition leased :: "env \<Rightarrow> duration \<Rightarrow> ref_claim \<Rightarrow> database \<Rightarrow> database \<Rightarrow> bool" where
  "leased env lease k d d' \<longleftrightarrow>
     (\<exists>g n. candidate (env_db_now env n) d = Some g \<and> rf_TransactionID k = gr_id g \<and> rf_WalletID k = gr_wallet_id g \<and>
        touched g (lease_row (rf_Token k) (env_db_now env n + lease_interval lease) g) d d')"

lemma ReferenceStore_Claim_outcome:
  assumes ok: "env_ok env" and run: "ReferenceStore_Claim env lease w = (r, w')" and u: "wagers_unique (wagers (db w))"
  shows "case r of
      Inr None \<Rightarrow> db w' = db w
    | Inr (Some k) \<Rightarrow> leased env lease k (db w) (db w')
    | Inl e \<Rightarrow> db w' = db w \<or> (ambiguous e \<and> (\<exists>k. leased env lease k (db w) (db w')))"
proof (cases "lease \<le> 0")
  case True
  with run show ?thesis by (auto simp: ReferenceStore_Claim_def)
next
  case False
  with run have w: "within env (sql env (claim_statement env lease)) w = (r, w')"
    by (simp add: ReferenceStore_Claim_def ReadCommitted_def)
  have eff: "case x of None \<Rightarrow> db w' = db w | Some k \<Rightarrow> leased env lease k (db w) (db w')"
    if "sql env (claim_statement env lease) wa = (Inr x, wb)" "db wa = db w" "db wb = db w'" for x wa wb
  proof -
    from that(1) have "claim_statement env lease (tick wa) (db wa) = Inr (x, db wb)" by (rule sql_InrE)
    from claim_statement_touches [OF this] u that(2,3) show ?thesis
      by (cases x) (auto simp: leased_def)
  qed
  have "case r of
      Inr x \<Rightarrow> (case x of None \<Rightarrow> db w' = db w | Some k \<Rightarrow> leased env lease k (db w) (db w'))
    | Inl e \<Rightarrow> db w' = db w \<or>
        (ambiguous e \<and> (\<exists>x. case x of None \<Rightarrow> db w' = db w | Some k \<Rightarrow> leased env lease k (db w) (db w')))"
    using within_atomic [OF ok w] eff by (rule atomic_outcome_post)
  then show ?thesis by (auto split: sum.splits option.splits)
qed

text \<open>One round of the worker: the lease, then the processing of the claim in its own transaction.\<close>

definition reference_round ::
  "env \<Rightarrow> duration \<Rightarrow> (ref_outcome \<times> ref_claim option) result \<Rightarrow> database \<Rightarrow> database \<Rightarrow> bool" where
  "reference_round env lease r d d' \<longleftrightarrow>
     (case r of
        Inr (outcome, None) \<Rightarrow> outcome = RefIdle \<and> d' = d
      | Inr (outcome, Some c) \<Rightarrow> \<exists>d1. leased env lease c d d1 \<and> reference_step env c outcome d1 d'
      | Inl e \<Rightarrow> d' = d \<or>
          (\<exists>c d1. leased env lease c d d1 \<and>
             (d' = d1 \<or> (ambiguous e \<and> (\<exists>outcome. reference_step env c outcome d1 d')))))"

lemma leased_recorded:
  assumes "leased env lease k d d'" "wagers_unique (wagers d)"
  shows "\<exists>g. recorded g d d'"
  using assms touched_recorded(1) unfolding leased_def by blast

lemma ReferenceStore_transaction_outcome:
  assumes "env_ok env" "ReferenceStore_WithinTransaction env (process_claim env c) w = (r, w')" "books_ok (db w)"
  shows "case r of Inr outcome \<Rightarrow> reference_step env c outcome (db w) (db w')
    | Inl e \<Rightarrow> db w' = db w \<or> (ambiguous e \<and> (\<exists>outcome. reference_step env c outcome (db w) (db w')))"
  by (rule atomic_outcome_post [OF ReadCommittedWithRetry_atomic [OF assms(1) assms(2) [unfolded ReferenceStore_WithinTransaction_def]]])
    (metis process_claim_step assms(3))

lemma ProcessOneWithClaim_round:
  assumes ok: "env_ok env" and run: "ProcessOneWithClaim env lease w = (r, w')" and inv: "books_ok (db w)"
  shows "reference_round env lease r (db w) (db w')"
proof -
  have u: "wagers_unique (wagers (db w))" using inv by (simp add: books_ok_def)
  from run [unfolded ProcessOneWithClaim_def] show ?thesis
  proof (rule io_try_post)
    fix e t
    assume "ReferenceStore_Claim env lease w = (Inl e, t)"
    from ReferenceStore_Claim_outcome [OF ok this u] show "reference_round env lease (Inl e) (db w) (db t)"
      by (auto simp: reference_round_def)
  next
    fix k t
    assume k: "ReferenceStore_Claim env lease w = (Inr k, t)"
      and rest: "(case k of None \<Rightarrow> io_return (RefIdle, None)
       | Some c \<Rightarrow> if rf_TransactionID c = [] \<or> rf_WalletID c = [] \<or> rf_Token c = []
         then io_throw (Sentinel reference_ErrInvalidClaim)
         else io_try (ReferenceStore_WithinTransaction env (process_claim env c)) (\<lambda>outcome.
           io_return (outcome, Some c))) t = (r, w')"
    show "reference_round env lease r (db w) (db w')"
    proof (cases k)
      case None
      with rest ReferenceStore_Claim_outcome [OF ok k u] show ?thesis by (auto simp: reference_round_def)
    next
      case (Some c)
      with ReferenceStore_Claim_outcome [OF ok k u] have l: "leased env lease c (db w) (db t)" by simp
      then have b: "books_ok (db t)" using leased_recorded [OF l u] inv recorded_books by blast
      show ?thesis
      proof (cases "rf_TransactionID c = [] \<or> rf_WalletID c = [] \<or> rf_Token c = []")
        case True
        with rest Some obtain e where "r = Inl e" "w' = t" by auto
        with l show ?thesis unfolding reference_round_def by auto
      next
        case False
        with rest Some have "io_try (ReferenceStore_WithinTransaction env (process_claim env c)) (\<lambda>outcome.
           io_return (outcome, Some c)) t = (r, w')" by simp
        then show ?thesis
        proof (rule io_try_post)
          fix e v
          assume "ReferenceStore_WithinTransaction env (process_claim env c) t = (Inl e, v)"
          from ReferenceStore_transaction_outcome [OF ok this b] l
          show "reference_round env lease (Inl e) (db w) (db v)" by (auto simp: reference_round_def)
        next
          fix x v
          assume "ReferenceStore_WithinTransaction env (process_claim env c) t = (Inr x, v)"
            and "io_return (x, Some c) v = (r, w')"
          with ReferenceStore_transaction_outcome [OF ok _ b] l
          show "reference_round env lease r (db w) (db w')" by (fastforce simp: reference_round_def)
        qed
      qed
    qed
  qed
qed

lemma reference_step_books:
  assumes "reference_step env c outcome d d'" "books_ok d"
  shows "books_ok d'"
proof -
  have u: "wagers_unique (wagers d)" using assms(2) by (simp add: books_ok_def)
  from assms(1) have "d' = d \<or> (\<exists>g. recorded g d d')"
    by (auto simp: reference_step_def dest: touched_recorded(1) [OF _ u] settled_recorded split: ref_outcome.splits)
  then show ?thesis using assms(2) recorded_books by blast
qed

lemma leased_books: "leased env lease k d d' \<Longrightarrow> books_ok d \<Longrightarrow> books_ok d'"
  using leased_recorded recorded_books unfolding books_ok_def by blast

lemma reference_round_books:
  assumes "reference_round env lease r d d'" "books_ok d"
  shows "books_ok d'"
  using assms leased_books reference_step_books
  by (auto simp: reference_round_def split: sum.splits prod.splits option.splits)

section \<open>Properties\<close>

text \<open>
  Property C33. A round of the reference worker is at most two steps on the books: the lease of the
  first due waiting row, and the outcome of its transaction. A completed round has settled that row
  with a terminal status, a rescheduled one has only changed its schedule and counted the attempt,
  an idle or stale one has done nothing. A failure leaves the lease, unless the outcome of a commit
  is unknown.
\<close>

theorem ProcessOne_refines_round:
  assumes "env_ok env" and "books_ok (db w)" and "ProcessOneWithClaim env lease w = (r, w')"
  shows "reference_round env lease r (db w) (db w') \<and> books_ok (db w')"
  using ProcessOneWithClaim_round [OF assms(1,3,2)] reference_round_books assms(2) by blast

theorem ProcessOne_refines_round_witness:
  "reference_round ex_env time_second (fst (ProcessOneWithClaim ex_env time_second ex_world)) (db ex_world)
     (db (snd (ProcessOneWithClaim ex_env time_second ex_world))) \<and>
   books_ok (db (snd (ProcessOneWithClaim ex_env time_second ex_world)))"
  by (rule ProcessOne_refines_round [OF ex_env_ok ex_world_books surjective_pairing])

text \<open>
  A claim leases the row that has been due longest: it was waiting, due and not leased
  at the time, no other due row precedes it in the order of due time and identifier, and it is now
  leased to the returned token for the whole lease.
\<close>

theorem Claim_leases_first_due:
  assumes "env_ok env" and "wagers_unique (wagers (db w))" and "ReferenceStore_Claim env lease w = (Inr (Some k), w')"
  shows "\<exists>g now. g \<in> set (wagers (db w)) \<and> due now g \<and> gr_id g = rf_TransactionID k \<and>
    (\<forall>q. q \<in> set (wagers (db w)) \<and> due now q \<longrightarrow>
      (the (gr_next_attempt_at g), gr_id g) \<le> (the (gr_next_attempt_at q), gr_id q)) \<and>
    lease_row (rf_Token k) (now + lease_interval lease) g \<in> set (wagers (db w'))"
proof -
  from ReferenceStore_Claim_outcome [OF assms(1,3,2)] obtain g n
    where g: "candidate (env_db_now env n) (db w) = Some g" "rf_TransactionID k = gr_id g"
      "touched g (lease_row (rf_Token k) (env_db_now env n + lease_interval lease) g) (db w) (db w')"
    by (auto simp: leased_def)
  note c = candidate_due [OF g(1)]
  from g(3) have "lease_row (rf_Token k) (env_db_now env n + lease_interval lease) g \<in> set (wagers (db w'))"
    by (auto simp: touched_def)
  with c g(2) show ?thesis by metis
qed


definition ex_waiting :: wager_row where
  "ex_waiting = ex_opening\<lparr>gr_id := ex_uuid 204, gr_origin := OriginExternal, gr_provider_id := Some ''provider'',
     gr_external_transaction_id := Some ''x2'', gr_idempotency_key := Some ''k2'',
     gr_payload_hash := Some (replicate 32 7), gr_round_id := Some ''r1'', gr_game_id := Some ''g1'',
     gr_kind := KindRefund, gr_status := StatusPendingReference, gr_amount_minor := 2500,
     gr_reference_external_transaction_id := Some ''x1'', gr_result_balance_minor := None,
     gr_next_attempt_at := Some unix_epoch, gr_expires_at := Some (unix_epoch + time_second)\<rparr>"

definition ex_waiting_world :: world where
  "ex_waiting_world = \<lparr>tick = 0, db = ex_db\<lparr>wagers := [ex_opening, ex_waiting]\<rparr>\<rparr>"

theorem Claim_leases_first_due_witness:
  "fst (ReferenceStore_Claim ex_env time_second ex_waiting_world) =
     Inr (Some \<lparr>rf_TransactionID = ex_uuid 204, rf_WalletID = ex_uuid 200, rf_Token = ex_uuid 1\<rparr>) \<and>
   (\<exists>g now. g \<in> set (wagers (db ex_waiting_world)) \<and> due now g \<and> gr_id g = ex_uuid 204 \<and>
     lease_row (ex_uuid 1) (now + lease_interval time_second) g
       \<in> set (wagers (db (snd (ReferenceStore_Claim ex_env time_second ex_waiting_world)))))"
proof -
  let ?k = "\<lparr>rf_TransactionID = ex_uuid 204, rf_WalletID = ex_uuid 200, rf_Token = ex_uuid 1\<rparr>"
  have u: "wagers_unique (wagers (db ex_waiting_world))"
    by (simp add: ex_waiting_world_def wagers_unique_def wager_clash_def ex_waiting_def ex_opening_def ex_uuid_distinct
       is_reversal_def same_key_def)
  have c: "fst (ReferenceStore_Claim ex_env time_second ex_waiting_world) = Inr (Some ?k)"
    by (simp add: ReferenceStore_Claim_def ReadCommitted_def within_def sql_def claim_statement_def candidate_def
      ex_waiting_world_def ex_db_def ex_wallet_def ex_waiting_def ex_opening_def ex_env_def step_def due_def ex_uuid_distinct deferred_violation_def
      lease_row_def lease_interval_def least_time_def time_second_def time_millisecond_def unless_err_def
      protect_terminal_wager_def wager_identity_def wager_checks_def wager_uniques_def wager_references_def
      wager_reference_by_kind_def due_before_expiry_def is_reversal_def same_key_def is_null_def
      wager_origin_fields_def supportedCurrencies_def validate_wager_financial_result_def
      origin_Valid_def status_Terminal_def non_blank_def)
  then have "ReferenceStore_Claim ex_env time_second ex_waiting_world =
    (Inr (Some ?k), snd (ReferenceStore_Claim ex_env time_second ex_waiting_world))"
    by (metis surjective_pairing)
  from Claim_leases_first_due [OF ex_env_ok u this] c show ?thesis by auto
qed

end
