(* ===== verification/Ingestion.thy ===== *)
theory Ingestion
  imports Settlement
begin

text \<open>
  The package \<^verbatim>\<open>internal/application/ingestion\<close> and its PostgreSQL store: the messages of the
  input queue, their canonical envelope, and their consumption, which claims the message in the
  inbox, submits the wager and completes the message in one transaction. A completed message is
  never applied again.
\<close>

section \<open>Messages\<close>

definition MessageTypeWagerRequested :: string where
  "MessageTypeWagerRequested = ''WagerTransactionRequested''"

definition maxMessageBytes :: nat where
  "maxMessageBytes = 256 * 1024"

record message =
  ms_ID :: string
  ms_Type :: string
  ms_OccurredAt :: time
  ms_Input :: submit_input
  ms_hash :: payload_hash

record money_dto =
  md_Amount :: string
  md_Currency :: string

record message_dto =
  dt_MessageID :: string
  dt_Type :: string
  dt_OccurredAt :: time
  dt_ProviderID :: string
  dt_ExternalTransactionID :: string
  dt_IdempotencyKey :: string
  dt_PlayerID :: string
  dt_WalletID :: string
  dt_RoundID :: string
  dt_GameID :: string
  dt_Kind :: kind
  dt_Money :: money_dto
  dt_ReferenceExternalTransactionID :: string

subsection \<open>Time stamps\<close>

text \<open>
  \<^verbatim>\<open>time.Format(time.RFC3339Nano)\<close> in UTC. The civil date is found by counting days from the
  first of March of the year 0, so that the leap day is the last day of a year, in cycles of 400
  years.
\<close>

definition civil_date :: "int \<Rightarrow> int \<times> int \<times> int" where
  "civil_date days =
     (let z = days + 306;
          era = z div 146097;
          doe = z mod 146097;
          yoe = (doe - doe div 1460 + doe div 36524 - doe div 146096) div 365;
          doy = doe - (365 * yoe + yoe div 4 - yoe div 100);
          mp = (5 * doy + 2) div 153;
          m = (if mp < 10 then mp + 3 else mp - 9)
      in (yoe + era * 400 + (if m \<le> 2 then 1 else 0), m, doy - (153 * mp + 2) div 5 + 1))"

definition pad_int :: "nat \<Rightarrow> int \<Rightarrow> string" where
  "pad_int width n =
     (if n < 0 then ''-'' else []) @
     (let digits = dec (nat \<bar>n\<bar>) in replicate (width - length digits) (CHR ''0'') @ digits)"

definition fraction_text :: "int \<Rightarrow> string" where
  "fraction_text nanos =
     (if nanos = 0 then []
      else ''.'' @ rev (dropWhile (\<lambda>c. c = CHR ''0'') (rev (pad_int 9 nanos))))"

definition format_RFC3339Nano :: "time \<Rightarrow> string" where
  "format_RFC3339Nano t =
     (let seconds = t div time_second;
          (year, month, day) = civil_date (seconds div 86400);
          clock = seconds mod 86400
      in pad_int 4 year @ ''-'' @ pad_int 2 month @ ''-'' @ pad_int 2 day @ ''T'' @
         pad_int 2 (clock div 3600) @ '':'' @ pad_int 2 (clock div 60 mod 60) @ '':'' @ pad_int 2 (clock mod 60) @
         fraction_text (t mod time_second) @ ''Z'')"

subsection \<open>Canonical envelope and decoding\<close>

definition canonicalEnvelope :: "message \<Rightarrow> string" where
  "canonicalEnvelope m =
     (let input = ms_Input m in
      ''{'' @ json_string ''data'' @ '':{'' @
      writeJSONField ''externalTransactionId'' (si_ExternalTransactionID input)
      @ '','' @ writeJSONField ''gameId'' (si_GameID input)
      @ '','' @ writeJSONField ''idempotencyKey'' (si_IdempotencyKey input)
      @ '','' @ writeJSONField ''kind'' (kind_string (si_Kind input))
      @ '','' @ json_string ''money'' @ '':{'' @ json_string ''amount'' @ '':'' @ json_string (money_String (si_Amount input))
      @ '','' @ json_string ''currency'' @ '':'' @ json_string (code (currency (si_Amount input))) @ ''}''
      @ '','' @ writeJSONField ''playerId'' (si_PlayerID input)
      @ '','' @ writeJSONField ''providerId'' (si_ProviderID input)
      @ (if si_ReferenceExternalTransactionID input \<noteq> []
         then '','' @ writeJSONField ''referenceExternalTransactionId'' (si_ReferenceExternalTransactionID input)
         else [])
      @ '','' @ writeJSONField ''roundId'' (si_RoundID input)
      @ '','' @ writeJSONField ''walletId'' (si_WalletID input) @ ''}''
      @ '','' @ writeJSONField ''messageId'' (ms_ID m)
      @ '','' @ writeJSONField ''occurredAt'' (format_RFC3339Nano (ms_OccurredAt m))
      @ '','' @ writeJSONField ''type'' (ms_Type m) @ ''}'')"

definition dto_input :: "message_dto \<Rightarrow> money \<Rightarrow> submit_input" where
  "dto_input dto amount =
     \<lparr>si_ProviderID = dt_ProviderID dto, si_ExternalTransactionID = dt_ExternalTransactionID dto,
      si_IdempotencyKey = dt_IdempotencyKey dto, si_WalletID = dt_WalletID dto, si_PlayerID = dt_PlayerID dto,
      si_RoundID = dt_RoundID dto, si_GameID = dt_GameID dto, si_Kind = dt_Kind dto, si_Amount = amount,
      si_ReferenceExternalTransactionID = dt_ReferenceExternalTransactionID dto,
      si_CorrelationID = dt_MessageID dto\<rparr>"

text \<open>
  The parameter \<open>decode\<close> is the JSON decoder with unknown fields disallowed, followed by the check
  that the body ends after one object: the value of the body, or nothing.
\<close>

definition DecodeMessage :: "env \<Rightarrow> (string \<Rightarrow> message_dto option) \<Rightarrow> string \<Rightarrow> message result" where
  "DecodeMessage env decode body =
     (if body = [] \<or> length body > maxMessageBytes then Inl (Sentinel ingestion_ErrInvalidMessage)
      else (case decode body of
          None \<Rightarrow> Inl (Sentinel ingestion_ErrInvalidMessage)
        | Some dto \<Rightarrow>
            if trim_space (dt_MessageID dto) \<noteq> dt_MessageID dto \<or> dt_MessageID dto = [] \<or>
              dt_Type dto \<noteq> MessageTypeWagerRequested \<or> is_zero_time (dt_OccurredAt dto)
            then Inl (Sentinel ingestion_ErrInvalidMessage)
            else (case ParseNonNegative (md_Amount (dt_Money dto)) (md_Currency (dt_Money dto)) of
                Inl _ \<Rightarrow> Inl (Sentinel ingestion_ErrInvalidMessage)
              | Inr amount \<Rightarrow>
                  let m = \<lparr>ms_ID = dt_MessageID dto, ms_Type = dt_Type dto, ms_OccurredAt = dt_OccurredAt dto,
                    ms_Input = dto_input dto amount, ms_hash = zero_hash\<rparr>
                  in Inr (m\<lparr>ms_hash := env_sha256 env (canonicalEnvelope m)\<rparr>))))"

section \<open>Consumption\<close>

text \<open>The session embeds the session of the wager service, as in the code.\<close>

record 's ingestion_session =
  ig_wagers :: "'s session"
  ClaimMessage :: "string \<Rightarrow> string \<Rightarrow> payload_hash \<Rightarrow> time \<Rightarrow> ('s, claim) io"
  CompleteMessage :: "string \<Rightarrow> string \<Rightarrow> string \<Rightarrow> time \<Rightarrow> ('s, unit) io"

record consume_result =
  co_WagerResult :: submit_result
  co_Duplicate :: bool

definition consume_in_session ::
  "'s service \<Rightarrow> string \<Rightarrow> message \<Rightarrow> 's ingestion_session \<Rightarrow> ('s, consume_result) io" where
  "consume_in_session sv consumer m session =
     io_try (sv_now sv) (\<lambda>receivedAt.
     io_try (ClaimMessage session consumer (ms_ID m) (ms_hash m) receivedAt) (\<lambda>claim.
     if cl_Completed claim then
       io_try (FindByID (ig_wagers session) (cl_TransactionID claim)) (\<lambda>found. case found of
         None \<Rightarrow> io_throw (Sentinel app_ErrTransactionNotFound)
       | Some t \<Rightarrow> io_return \<lparr>co_WagerResult = \<lparr>sr_Transaction = t, sr_Replay = True\<rparr>, co_Duplicate = True\<rparr>)
     else
       io_try (SubmitInSession sv (ig_wagers session) (ms_Input m)) (\<lambda>wagerResult.
       io_try (sv_now sv) (\<lambda>completedAt.
       io_try (CompleteMessage session consumer (ms_ID m) (t_id (sr_Transaction wagerResult)) completedAt) (\<lambda>_.
       io_return \<lparr>co_WagerResult = wagerResult, co_Duplicate = False\<rparr>)))))"

definition ingestionSession :: "env \<Rightarrow> world ingestion_session" where
  "ingestionSession env =
     \<lparr>ig_wagers = wagerSession env [], ClaimMessage = inbox_Claim env, CompleteMessage = inbox_Complete env\<rparr>"

definition IngestionStore_WithinTransaction ::
  "env \<Rightarrow> (world ingestion_session \<Rightarrow> (world, 'a) io) \<Rightarrow> (world, 'a) io" where
  "IngestionStore_WithinTransaction env work =
     io_catch (ReadCommittedWithRetry env (work (ingestionSession env))) (\<lambda>r. case r of
       Inl e \<Rightarrow> io_throw (identity_race e)
     | Inr x \<Rightarrow> io_return x)"

definition Consume :: "env \<Rightarrow> string \<Rightarrow> message \<Rightarrow> (world, consume_result) io" where
  "Consume env consumer m =
     (if trim_space consumer \<noteq> consumer \<or> consumer = [] then io_throw (Sentinel ingestion_ErrInvalidConsumer)
      else if ms_ID m = [] \<or> ms_hash m = zero_hash then io_throw (Sentinel ingestion_ErrInvalidMessage)
      else io_catch (IngestionStore_WithinTransaction env (consume_in_session (wager_service env) consumer m))
        (\<lambda>r. case r of
           Inl e \<Rightarrow>
             if errors_is e app_ErrIdentityRace
             then IngestionStore_WithinTransaction env (consume_in_session (wager_service env) consumer m)
             else io_throw e
         | Inr x \<Rightarrow> io_return x))"

section \<open>The contract of the inbox\<close>

definition keyed :: "string \<Rightarrow> string \<Rightarrow> inbox_row \<Rightarrow> bool" where
  "keyed consumer i r \<longleftrightarrow> ir_consumer_name r = consumer \<and> ir_message_id r = i"

definition inbox_unique :: "database \<Rightarrow> bool" where
  "inbox_unique d \<longleftrightarrow> distinct (map (\<lambda>r. (ir_consumer_name r, ir_message_id r)) (inbox d))"

text \<open>A row that records the completion of a message by a transaction.\<close>

definition completed_by :: "string \<Rightarrow> inbox_row \<Rightarrow> bool" where
  "completed_by i r \<longleftrightarrow> ir_completed_at r \<noteq> None \<and> ir_transaction_id r = Some i"

text \<open>
  Claiming a message: its row is there afterwards, with the hash of the message; it was there
  before, or is added without a completion.
\<close>

definition message_claimed :: "string \<Rightarrow> message \<Rightarrow> claim \<Rightarrow> inbox_row list \<Rightarrow> inbox_row list \<Rightarrow> bool" where
  "message_claimed consumer m c rows rows' \<longleftrightarrow>
     (\<exists>r \<in> set rows'. keyed consumer (ms_ID m) r \<and> ir_payload_hash r = ms_hash m \<and>
        (cl_Completed c \<longleftrightarrow> ir_completed_at r \<noteq> None) \<and>
        (cl_Completed c \<longrightarrow> completed_by (cl_TransactionID c) r) \<and>
        (rows' = rows \<or>
         (rows' = rows @ [r] \<and> ir_completed_at r = None \<and> (\<forall>q \<in> set rows. \<not> keyed consumer (ms_ID m) q))))"

definition message_completed :: "string \<Rightarrow> string \<Rightarrow> string \<Rightarrow> inbox_row list \<Rightarrow> inbox_row list \<Rightarrow> bool" where
  "message_completed consumer i t rows rows' \<longleftrightarrow>
     (\<exists>xs r ys r'. rows = xs @ r # ys \<and> rows' = xs @ r' # ys \<and> keyed consumer i r \<and> keyed consumer i r' \<and>
        ir_completed_at r = None \<and> completed_by t r' \<and> ir_payload_hash r' = ir_payload_hash r)"

locale inbox_session = wager_session env "ig_wagers I" sv view
  for env :: env and I :: "'s ingestion_session" and sv :: "'s service" and view :: "'s \<Rightarrow> database" +
  assumes claim_law: "ClaimMessage I consumer (ms_ID m) (ms_hash m) t s = (Inr c, s') \<Longrightarrow>
      view s' = (view s)\<lparr>inbox := inbox (view s')\<rparr> \<and>
      message_claimed consumer m c (inbox (view s)) (inbox (view s'))"
    and complete_law: "CompleteMessage I consumer i x t s = (Inr u, s') \<Longrightarrow>
      view s' = (view s)\<lparr>inbox := inbox (view s')\<rparr> \<and>
      message_completed consumer i x (inbox (view s)) (inbox (view s'))"

text \<open>
  The outcome of a consumption that succeeds. A duplicate changes nothing. Otherwise the message
  was not completed before, its row is now completed by the transaction, and apart from the inbox
  the database took the step of a submission.
\<close>

definition inbox_taken :: "string \<Rightarrow> message \<Rightarrow> string \<Rightarrow> inbox_row list \<Rightarrow> inbox_row list \<Rightarrow> bool" where
  "inbox_taken consumer m t rows rows' \<longleftrightarrow>
     (\<exists>xs r ys. rows' = xs @ r # ys \<and> keyed consumer (ms_ID m) r \<and> ir_payload_hash r = ms_hash m \<and>
        completed_by t r \<and>
        ((rows = xs \<and> ys = [] \<and> (\<forall>q \<in> set rows. \<not> keyed consumer (ms_ID m) q)) \<or>
         (\<exists>q. rows = xs @ q # ys \<and> keyed consumer (ms_ID m) q \<and> ir_completed_at q = None)))"

definition consumed :: "payload_hash \<Rightarrow> string \<Rightarrow> message \<Rightarrow> consume_result \<Rightarrow> database \<Rightarrow> database \<Rightarrow> bool" where
  "consumed hash consumer m res d d' \<longleftrightarrow>
     (let t = sr_Transaction (co_WagerResult res) in
      if co_Duplicate res then
        d' = d \<and> sr_Replay (co_WagerResult res) \<and>
        (\<exists>r \<in> set (inbox d). keyed consumer (ms_ID m) r \<and> ir_payload_hash r = ms_hash m \<and> completed_by (t_id t) r)
      else
        inbox_taken consumer m (t_id t) (inbox d) (inbox d') \<and>
        (\<exists>rows. submitted hash (ms_Input m) (co_WagerResult res) (d\<lparr>inbox := rows\<rparr>) (d'\<lparr>inbox := rows\<rparr>)))"

lemma submitted_inbox: "submitted hash input res d d' \<Longrightarrow> inbox d' = inbox d"
  by (auto simp: submitted_def settled_def recorded_def Let_def split: if_splits)

lemma inbox_unique_eq:
  assumes "inbox_unique d" "q \<in> set (inbox d)" "r \<in> set (inbox d)" "keyed consumer i q" "keyed consumer i r"
  shows "q = r"
  using assms inj_onD [of "\<lambda>r. (ir_consumer_name r, ir_message_id r)" "set (inbox d)" q r]
  by (simp add: inbox_unique_def keyed_def distinct_map)

lemma claimed_unique:
  assumes "message_claimed consumer m c (inbox d) (inbox d')" "inbox_unique d"
  shows "inbox_unique d'"
  using assms by (fastforce simp: message_claimed_def inbox_unique_def keyed_def)

text \<open>Claiming and then completing a message takes it.\<close>

lemma claimed_completed_taken:
  fixes d d1 d' :: database
  assumes c: "message_claimed consumer m c (inbox d) (inbox d1)" and u: "inbox_unique d"
    and f: "message_completed consumer (ms_ID m) t (inbox d1) (inbox d')"
  shows "inbox_taken consumer m t (inbox d) (inbox d')"
proof -
  from f obtain xs q ys r where q: "inbox d1 = xs @ q # ys" "inbox d' = xs @ r # ys" "keyed consumer (ms_ID m) q"
    "keyed consumer (ms_ID m) r" "ir_completed_at q = None" "completed_by t r" "ir_payload_hash r = ir_payload_hash q"
    unfolding message_completed_def by blast
  from c obtain p where p: "p \<in> set (inbox d1)" "keyed consumer (ms_ID m) p" "ir_payload_hash p = ms_hash m"
    and cases: "inbox d1 = inbox d \<or>
      (inbox d1 = inbox d @ [p] \<and> (\<forall>q \<in> set (inbox d). \<not> keyed consumer (ms_ID m) q))"
    unfolding message_claimed_def by blast
  have pq: "q = p"
    using inbox_unique_eq [OF claimed_unique [OF c u] _ p(1) q(3) p(2)] q(1) by simp
  from cases show ?thesis
  proof
    assume "inbox d1 = inbox d"
    then show ?thesis unfolding inbox_taken_def using q p(3) pq by metis
  next
    assume new: "inbox d1 = inbox d @ [p] \<and> (\<forall>q \<in> set (inbox d). \<not> keyed consumer (ms_ID m) q)"
    have "xs = inbox d \<and> ys = []"
    proof (cases ys rule: rev_cases)
      case Nil
      then show ?thesis using new q(1) pq by simp
    next
      case (snoc zs z)
      then have "inbox d = xs @ p # zs" using new q(1) pq by simp
      then show ?thesis using new p(2) by simp
    qed
    then show ?thesis unfolding inbox_taken_def using q p(3) pq new by metis
  qed
qed

context inbox_session
begin

lemma consume_effect:
  assumes run: "consume_in_session sv consumer m I s = (Inr res, s')"
    and inv: "books_ok (view s)" and u: "inbox_unique (view s)"
  shows "consumed (sv_sha256 sv (canonicalPayload (ms_Input m))) consumer m res (view s) (view s')"
proof -
  from run obtain received s1 c s2 where now: "sv_now sv s = (Inr received, s1)"
    and cl: "ClaimMessage I consumer (ms_ID m) (ms_hash m) received s1 = (Inr c, s2)"
    and rest: "(if cl_Completed c then
       io_try (FindByID (ig_wagers I) (cl_TransactionID c)) (\<lambda>found. case found of
         None \<Rightarrow> io_throw (Sentinel app_ErrTransactionNotFound)
       | Some t \<Rightarrow> io_return \<lparr>co_WagerResult = \<lparr>sr_Transaction = t, sr_Replay = True\<rparr>, co_Duplicate = True\<rparr>)
     else
       io_try (SubmitInSession sv (ig_wagers I) (ms_Input m)) (\<lambda>wagerResult.
       io_try (sv_now sv) (\<lambda>completedAt.
       io_try (CompleteMessage I consumer (ms_ID m) (t_id (sr_Transaction wagerResult)) completedAt) (\<lambda>_.
       io_return \<lparr>co_WagerResult = wagerResult, co_Duplicate = False\<rparr>)))) s2 = (Inr res, s')"
    unfolding consume_in_session_def by (elim io_try_InrE)
  have v1: "view s1 = view s" by (rule now_law [OF now])
  have d2: "view s2 = (view s)\<lparr>inbox := inbox (view s2)\<rparr>"
    and claimed: "message_claimed consumer m c (inbox (view s)) (inbox (view s2))"
    using claim_law [OF cl] v1 by simp_all
  show ?thesis
  proof (cases "cl_Completed c")
    case True
    with rest obtain t where t: "FindByID (ig_wagers I) (cl_TransactionID c) s2 = (Inr (Some t), s')"
      and res: "res = \<lparr>co_WagerResult = \<lparr>sr_Transaction = t, sr_Replay = True\<rparr>, co_Duplicate = True\<rparr>"
      by (auto elim!: io_try_InrE split: option.splits)
    from claimed True obtain r where r: "r \<in> set (inbox (view s))" "keyed consumer (ms_ID m) r"
      "ir_payload_hash r = ms_hash m" "completed_by (cl_TransactionID c) r" and same: "inbox (view s2) = inbox (view s)"
      unfolding message_claimed_def by auto
    have "view s' = view s2" "t_id t = cl_TransactionID c"
      using find_id_law [OF t] by (auto dest: scanWager_Inr(2) simp: row_matches_def)
    then show ?thesis using res r d2 same by (auto simp: consumed_def)
  next
    case False
    with rest obtain wr s3 completed s4 where sub: "SubmitInSession sv (ig_wagers I) (ms_Input m) s2 = (Inr wr, s3)"
      and now2: "sv_now sv s3 = (Inr completed, s4)"
      and fin: "CompleteMessage I consumer (ms_ID m) (t_id (sr_Transaction wr)) completed s4 = (Inr (), s')"
      and res: "res = \<lparr>co_WagerResult = wr, co_Duplicate = False\<rparr>"
      by (auto elim!: io_try_InrE)
    have "books_ok (view s2)" using inv d2 books_ok_cong [of "view s2" "view s"] by (metis database.select_convs(1-3) database.surjective database.update_convs(4))
    from SubmitInSession_effect [OF sub this]
    have st: "submitted (sv_sha256 sv (canonicalPayload (ms_Input m))) (ms_Input m) wr (view s2) (view s3)" .
    have v4: "view s4 = view s3" by (rule now_law [OF now2])
    have d': "view s' = (view s3)\<lparr>inbox := inbox (view s')\<rparr>"
      and comp: "message_completed consumer (ms_ID m) (t_id (sr_Transaction wr)) (inbox (view s3)) (inbox (view s'))"
      using complete_law [OF fin] v4 by simp_all
    have in3: "inbox (view s3) = inbox (view s2)" by (rule submitted_inbox [OF st])
    have "inbox_taken consumer m (t_id (sr_Transaction wr)) (inbox (view s)) (inbox (view s'))"
      using claimed_completed_taken [OF claimed u] comp in3 by simp
    moreover have "(view s)\<lparr>inbox := inbox (view s2)\<rparr> = view s2" "(view s')\<lparr>inbox := inbox (view s2)\<rparr> = view s3"
      using d2 d' in3 by (simp, metis database.surjective database.update_convs(4))
    ultimately show ?thesis using st res unfolding consumed_def Let_def by (metis consume_result.select_convs(1,2))
  qed
qed

end

section \<open>The PostgreSQL inbox fulfils the contract\<close>

lemma update_inbox_zero: "update_inbox P f d rows = Inr (0, rows') \<Longrightarrow> rows' = rows"
  by (induction rows arbitrary: rows') (auto simp: result_invert split: if_splits)

lemma update_inbox_one:
  assumes "update_inbox P f d rows = Inr (Suc 0, rows')"
  shows "\<exists>xs r ys. rows = xs @ r # ys \<and> rows' = xs @ f r # ys \<and> P r"
  using assms
proof (induction rows arbitrary: rows')
  case (Cons a rows)
  show ?case
  proof (cases "P a")
    case True
    with Cons.prems obtain rest where "update_inbox P f d rows = Inr (0, rest)" "rows' = f a # rest"
      by (auto simp: result_invert)
    with True show ?thesis
      using update_inbox_zero [of P f d rows rest] by (intro exI [of _ "[]"] exI [of _ a] exI [of _ rows]) simp
  next
    case False
    with Cons.prems obtain rest where u: "update_inbox P f d rows = Inr (Suc 0, rest)" and r: "rows' = a # rest"
      by (auto simp: result_invert)
    from Cons.IH [OF u] obtain xs r ys where "rows = xs @ r # ys" "rest = xs @ f r # ys" "P r" by blast
    with r show ?thesis by (intro exI [of _ "a # xs"] exI [of _ r] exI [of _ ys]) simp
  qed
qed simp

lemma inbox_Complete_completes:
  assumes "inbox_Complete env consumer i x t w = (Inr u, w')"
  shows "db w' = (db w)\<lparr>inbox := inbox (db w')\<rparr> \<and> message_completed consumer i x (inbox (db w)) (inbox (db w'))"
proof -
  let ?P = "\<lambda>r. ir_consumer_name r = consumer \<and> ir_message_id r = i \<and> ir_completed_at r = None"
  let ?f = "\<lambda>r. r\<lparr>ir_completed_at := Some (env_timestamptz env t), ir_transaction_id := Some x\<rparr>"
  from assms obtain rows where up: "update_inbox ?P ?f (db w) (inbox (db w)) = Inr (Suc 0, rows)"
    and d: "db w' = (db w)\<lparr>inbox := rows\<rparr>"
    unfolding inbox_Complete_def by (auto simp: and_then_eq_Inr split: if_splits)
  from update_inbox_one [OF up] obtain xs r ys where rows: "inbox (db w) = xs @ r # ys" "rows = xs @ ?f r # ys"
    and r: "?P r" by blast
  have "message_completed consumer i x (xs @ r # ys) (xs @ ?f r # ys)"
    unfolding message_completed_def
    by (intro exI [of _ xs] exI [of _ r] exI [of _ ys] exI [of _ "?f r"])
      (use r in \<open>simp add: keyed_def completed_by_def\<close>)
  then show ?thesis using d rows by simp
qed

lemma inbox_Claim_claims:
  assumes "inbox_Claim env consumer (ms_ID m) (ms_hash m) t w = (Inr c, w')"
  shows "db w' = (db w)\<lparr>inbox := inbox (db w')\<rparr> \<and> message_claimed consumer m c (inbox (db w)) (inbox (db w'))"
proof -
  let ?r = "\<lparr>ir_consumer_name = consumer, ir_message_id = ms_ID m, ir_payload_hash = ms_hash m,
        ir_received_at = env_timestamptz env t, ir_completed_at = None, ir_transaction_id = None\<rparr>"
  let ?find = "\<lambda>d. case find (\<lambda>r. ir_consumer_name r = consumer \<and> ir_message_id r = ms_ID m) (inbox d) of
      None \<Rightarrow> Inl (Sentinel pgx_ErrNoRows) | Some r \<Rightarrow> Inr r"
  from assms obtain u w1 r w2 where ex: "exec env (insert_inbox_or_ignore ?r) w = (Inr u, w1)"
    and qu: "query env ?find w1 = (Inr r, w2)"
    and fin: "(if ir_payload_hash r \<noteq> ms_hash m then io_throw (Sentinel ingestion_ErrMessageConflict)
      else if ir_completed_at r \<noteq> None \<and> ir_transaction_id r = None
      then io_throw (Opaque ''completed inbox message has no transaction'')
      else io_return \<lparr>cl_Completed = (ir_completed_at r \<noteq> None),
        cl_TransactionID = textValue (ir_transaction_id r)\<rparr>) w2 = (Inr c, w')"
    unfolding inbox_Claim_def by (elim io_try_InrE)
  have ins: "insert_inbox_or_ignore ?r (db w) = Inr (db w1)" using ex by (rule exec_InrE)
  have "?find (db w1) = Inr r" using qu by (rule query_InrE)
  have d2: "db w2 = db w1" using qu by (rule query_InrE)
  have r: "find (\<lambda>r. ir_consumer_name r = consumer \<and> ir_message_id r = ms_ID m) (inbox (db w1)) = Some r"
    using \<open>?find (db w1) = Inr r\<close> by (auto split: option.splits)
  have h: "ir_payload_hash r = ms_hash m" "\<not> (ir_completed_at r \<noteq> None \<and> ir_transaction_id r = None)"
    using fin by (auto split: if_splits)
  then have c: "c = \<lparr>cl_Completed = (ir_completed_at r \<noteq> None), cl_TransactionID = textValue (ir_transaction_id r)\<rparr>"
    and d': "db w' = db w1"
    using fin d2 by (auto split: if_splits)
  from r have rk: "r \<in> set (inbox (db w1))" "keyed consumer (ms_ID m) r"
    by (auto simp: find_Some_iff keyed_def)
  have cc: "cl_Completed c \<longrightarrow> completed_by (cl_TransactionID c) r" "cl_Completed c \<longleftrightarrow> ir_completed_at r \<noteq> None"
    using c h(2) by (auto simp: completed_by_def textValue_def split: option.splits)
  show ?thesis
  proof (cases "list_ex (\<lambda>q. ir_consumer_name q = consumer \<and> ir_message_id q = ms_ID m) (inbox (db w))")
    case True
    with ins have "db w1 = db w" by (auto simp: insert_inbox_or_ignore_def unless_err_eq_Inr)
    then show ?thesis using d' rk h(1) cc unfolding message_claimed_def by auto
  next
    case False
    with ins have d1: "db w1 = (db w)\<lparr>inbox := inbox (db w) @ [?r]\<rparr>"
      by (auto simp: insert_inbox_or_ignore_def unless_err_eq_Inr)
    have no: "\<forall>q \<in> set (inbox (db w)). \<not> keyed consumer (ms_ID m) q"
      using False by (auto simp: list_ex_iff keyed_def)
    then have "r = ?r" using rk d1 by auto
    then show ?thesis using d' d1 rk h(1) cc no unfolding message_claimed_def by auto
  qed
qed

interpretation pgi: inbox_session env "ingestionSession env" "wager_service env" db for env
proof (intro inbox_session.intro inbox_session_axioms.intro)
  show "wager_session env (ig_wagers (ingestionSession env)) (wager_service env) db"
    using pg.wager_session_axioms [of env "[]"] by (simp add: ingestionSession_def)
  have ops: "ClaimMessage (ingestionSession env) = inbox_Claim env"
    "CompleteMessage (ingestionSession env) = inbox_Complete env"
    by (simp_all add: ingestionSession_def)
  show "db s' = (db s)\<lparr>inbox := inbox (db s')\<rparr> \<and> message_claimed consumer m c (inbox (db s)) (inbox (db s'))"
    if "ClaimMessage (ingestionSession env) consumer (ms_ID m) (ms_hash m) t s = (Inr c, s')"
    for consumer and m :: message and t s c s'
    using that unfolding ops by (rule inbox_Claim_claims)
  show "db s' = (db s)\<lparr>inbox := inbox (db s')\<rparr> \<and> message_completed consumer i x (inbox (db s)) (inbox (db s'))"
    if "CompleteMessage (ingestionSession env) consumer i x t s = (Inr u, s')" for consumer i x t s u s'
    using that unfolding ops by (rule inbox_Complete_completes)
qed

section \<open>Consumption as one atomic step\<close>

lemma Consume_atomic:
  assumes ok: "env_ok env" and run: "Consume env consumer m w = (r, w')"
  shows "atomic_outcome (consume_in_session (wager_service env) consumer m (ingestionSession env)) (db w) r (db w')"
proof -
  let ?tx = "IngestionStore_WithinTransaction env (consume_in_session (wager_service env) consumer m)"
  consider e where "r = Inl e" "w' = w" | "io_catch ?tx (\<lambda>r. case r of
        Inl e \<Rightarrow> if errors_is e app_ErrIdentityRace then ?tx else io_throw e | Inr x \<Rightarrow> io_return x) w = (r, w')"
    using run unfolding Consume_def by (auto split: if_splits)
  then show ?thesis
  proof cases
    case 1
    then show ?thesis by (simp add: atomic_outcome_def)
  next
    case 2
    show ?thesis
      by (rule second_attempt_atomic [OF _ 2])
        (rule identity_race_atomic [OF ok], simp add: IngestionStore_WithinTransaction_def)
  qed
qed

lemma Consume_outcome:
  assumes "env_ok env" and "books_ok (db w)" and "inbox_unique (db w)" and "Consume env consumer m w = (r, w')"
  shows "case r of
      Inr res \<Rightarrow> consumed (env_sha256 env (canonicalPayload (ms_Input m))) consumer m res (db w) (db w')
    | Inl e \<Rightarrow> db w' = db w \<or>
        (ambiguous e \<and> (\<exists>res. consumed (env_sha256 env (canonicalPayload (ms_Input m))) consumer m res (db w) (db w')))"
proof (rule atomic_outcome_post [OF Consume_atomic [OF assms(1,4)]])
  fix x wa wb
  assume run: "consume_in_session (wager_service env) consumer m (ingestionSession env) wa = (Inr x, wb)"
    and d: "db wa = db w" "db wb = db w'"
  from pgi.consume_effect [OF run] assms(2,3)
  show "consumed (env_sha256 env (canonicalPayload (ms_Input m))) consumer m x (db w) (db w')"
    unfolding d by (simp add: wager_service_def)
qed

lemma consumed_books:
  assumes "consumed hash consumer m res d d'" "books_ok d"
  shows "books_ok d'"
proof (cases "co_Duplicate res")
  case True
  with assms show ?thesis by (simp add: consumed_def)
next
  case False
  with assms(1) obtain rows where
    "submitted hash (ms_Input m) (co_WagerResult res) (d\<lparr>inbox := rows\<rparr>) (d'\<lparr>inbox := rows\<rparr>)"
    by (auto simp: consumed_def Let_def)
  moreover have "books_ok (d\<lparr>inbox := rows\<rparr>)" using assms(2) books_ok_cong [of "d\<lparr>inbox := rows\<rparr>" d] by simp
  ultimately have "books_ok (d'\<lparr>inbox := rows\<rparr>)" by (rule submitted_books)
  then show ?thesis using books_ok_cong [of "d'\<lparr>inbox := rows\<rparr>" d'] by simp
qed

lemma consumed_inbox_unique:
  assumes "consumed hash consumer m res d d'" "inbox_unique d"
  shows "inbox_unique d'"
proof (cases "co_Duplicate res")
  case True
  with assms show ?thesis by (simp add: consumed_def)
next
  case False
  with assms(1) have "inbox_taken consumer m (t_id (sr_Transaction (co_WagerResult res))) (inbox d) (inbox d')"
    by (simp add: consumed_def Let_def)
  with assms(2) show ?thesis by (fastforce simp: inbox_taken_def inbox_unique_def keyed_def)
qed

lemma consumed_again:
  assumes "consumed hash consumer m res d d'" "inbox_unique d" "r \<in> set (inbox d)" "keyed consumer (ms_ID m) r"
    and "completed_by x r"
  shows "d' = d \<and> co_Duplicate res \<and> ir_payload_hash r = ms_hash m \<and> t_id (sr_Transaction (co_WagerResult res)) = x"
proof (cases "co_Duplicate res")
  case True
  with assms(1) obtain q where "d' = d" "q \<in> set (inbox d)" "keyed consumer (ms_ID m) q"
    "ir_payload_hash q = ms_hash m" "completed_by (t_id (sr_Transaction (co_WagerResult res))) q"
    by (auto simp: consumed_def Let_def)
  with True show ?thesis
    using inbox_unique_eq [OF assms(2,3) _ assms(4), of q] assms(5) by (auto simp: completed_by_def)
next
  case False
  with assms(1) have "inbox_taken consumer m (t_id (sr_Transaction (co_WagerResult res))) (inbox d) (inbox d')"
    by (simp add: consumed_def Let_def)
  then have "\<exists>q. q \<in> set (inbox d) \<and> keyed consumer (ms_ID m) q \<and> ir_completed_at q = None"
    using assms(3,4) unfolding inbox_taken_def by (elim exE conjE disjE) auto
  then obtain q where "q \<in> set (inbox d)" "keyed consumer (ms_ID m) q" "ir_completed_at q = None" by blast
  then show ?thesis
    using inbox_unique_eq [OF assms(2,3) _ assms(4), of q] assms(5) by (simp add: completed_by_def)
qed

lemma consumed_completes:
  assumes "consumed hash consumer m res d d'"
  shows "\<exists>r \<in> set (inbox d'). keyed consumer (ms_ID m) r \<and> ir_payload_hash r = ms_hash m \<and>
    completed_by (t_id (sr_Transaction (co_WagerResult res))) r"
  using assms by (auto simp: consumed_def inbox_taken_def Let_def split: if_splits)

section \<open>Properties\<close>

text \<open>
  Property C12. Consuming a message is one atomic step. When it succeeds, either the message was
  already completed and nothing changes, or it was not and now its inbox row is completed by the
  transaction of a submission that happened in the same step. When it fails, nothing has changed,
  except that the outcome of a commit whose connection broke is unknown; it is then the same step
  or none.
\<close>

theorem Consume_refines_submission:
  assumes "env_ok env" and "books_ok (db w)" and "inbox_unique (db w)" and "Consume env consumer m w = (r, w')"
  shows "case r of
      Inr res \<Rightarrow> consumed (env_sha256 env (canonicalPayload (ms_Input m))) consumer m res (db w) (db w')
    | Inl e \<Rightarrow> db w' = db w \<or>
        (ambiguous e \<and> (\<exists>res. consumed (env_sha256 env (canonicalPayload (ms_Input m))) consumer m res (db w) (db w')))"
  by (rule Consume_outcome [OF assms])

definition ex_message :: message where
  "ex_message = \<lparr>ms_ID = ''m1'', ms_Type = MessageTypeWagerRequested, ms_OccurredAt = unix_epoch,
     ms_Input = ex_input, ms_hash = replicate 32 1\<rparr>"

lemma ex_world_inbox: "inbox_unique (db ex_world)"
  by (simp add: inbox_unique_def ex_world_def ex_db_def)

theorem Consume_refines_submission_witness:
  "case fst (Consume ex_env ''wallet'' ex_message ex_world) of
      Inr res \<Rightarrow> consumed (env_sha256 ex_env (canonicalPayload (ms_Input ex_message))) ''wallet'' ex_message res
        (db ex_world) (db (snd (Consume ex_env ''wallet'' ex_message ex_world)))
    | Inl e \<Rightarrow> db (snd (Consume ex_env ''wallet'' ex_message ex_world)) = db ex_world \<or>
        (ambiguous e \<and> (\<exists>res. consumed (env_sha256 ex_env (canonicalPayload (ms_Input ex_message))) ''wallet''
          ex_message res (db ex_world) (db (snd (Consume ex_env ''wallet'' ex_message ex_world)))))"
  by (rule Consume_refines_submission [OF ex_env_ok ex_world_books ex_world_inbox surjective_pairing])

text \<open>
  Property C13. A completed message is never applied again: whatever the outcome of consuming it once
  more, nothing changes; a success reports a duplicate with the transaction that completed it, and
  is only possible with the payload it was completed with.
\<close>

theorem Consume_at_most_once:
  assumes "env_ok env" and "books_ok (db w)" and "inbox_unique (db w)" and "Consume env consumer m w = (r, w')"
    and "q \<in> set (inbox (db w))" and "keyed consumer (ms_ID m) q" and "completed_by x q"
  shows "db w' = db w \<and>
    (case r of Inl e \<Rightarrow> True
     | Inr res \<Rightarrow> co_Duplicate res \<and> ir_payload_hash q = ms_hash m \<and> t_id (sr_Transaction (co_WagerResult res)) = x)"
  using Consume_outcome [OF assms(1-4)] consumed_again [OF _ assms(3,5-7)] by (cases r) auto

definition ex_inbox_world :: world where
  "ex_inbox_world = ex_world\<lparr>db := ex_db\<lparr>inbox :=
     [\<lparr>ir_consumer_name = ''wallet'', ir_message_id = ''m1'', ir_payload_hash = replicate 32 1,
       ir_received_at = unix_epoch, ir_completed_at = Some unix_epoch, ir_transaction_id = Some (ex_uuid 202)\<rparr>]\<rparr>\<rparr>"

theorem Consume_at_most_once_witness:
  "db (snd (Consume ex_env ''wallet'' ex_message ex_inbox_world)) = db ex_inbox_world \<and>
   (case fst (Consume ex_env ''wallet'' ex_message ex_inbox_world) of Inl e \<Rightarrow> True
    | Inr res \<Rightarrow> co_Duplicate res \<and> t_id (sr_Transaction (co_WagerResult res)) = ex_uuid 202)"
proof -
  let ?q = "hd (inbox (db ex_inbox_world))"
  have b: "books_ok (db ex_inbox_world)"
    using ex_db_books books_ok_cong [of "db ex_inbox_world" ex_db] by (simp add: ex_inbox_world_def)
  have u: "inbox_unique (db ex_inbox_world)" by (simp add: inbox_unique_def ex_inbox_world_def)
  have q: "?q \<in> set (inbox (db ex_inbox_world))" "keyed ''wallet'' (ms_ID ex_message) ?q" "completed_by (ex_uuid 202) ?q"
    by (simp_all add: ex_inbox_world_def keyed_def completed_by_def ex_message_def)
  show ?thesis
    using Consume_at_most_once [OF ex_env_ok b u surjective_pairing q]
    by (cases "fst (Consume ex_env ''wallet'' ex_message ex_inbox_world)") auto
qed

end
