(* ===== verification/Failures.thy ===== *)
theory Failures
  imports Prelude
begin

text \<open>
  How failures are classified: \<^verbatim>\<open>internal/platform/safeerror\<close>, which reduces an error to a word
  that may be logged and stored, and \<^verbatim>\<open>isTransientDependencyError\<close> of the HTTP adapter, which
  decides whether a client is told to try again.
\<close>

section \<open>Looking into an error\<close>

text \<open>\<^verbatim>\<open>errors.Is\<close> for the errors of contexts, connections and streams.\<close>

fun errors_is_transport :: "err \<Rightarrow> transport \<Rightarrow> bool" where
  "errors_is_transport (Transport s) t \<longleftrightarrow> s = t"
| "errors_is_transport (Join a b) t \<longleftrightarrow> errors_is_transport a t \<or> errors_is_transport b t"
| "errors_is_transport _ t \<longleftrightarrow> False"

text \<open>
  The transport errors that implement \<^verbatim>\<open>net.Error\<close>, with what \<^verbatim>\<open>Timeout()\<close> returns: the
  deadline of a context, system call errors, and the errors of package \<^verbatim>\<open>net\<close>.
\<close>

fun net_timeout :: "transport \<Rightarrow> bool option" where
  "net_timeout ContextDeadlineExceeded = Some True"
| "net_timeout ConnRefused = Some False"
| "net_timeout ConnReset = Some False"
| "net_timeout BrokenPipe = Some False"
| "net_timeout (NetError b) = Some b"
| "net_timeout _ = None"

text \<open>\<^verbatim>\<open>errors.As(err, &networkError)\<close>: the first one in the tree.\<close>

fun errors_as_net :: "err \<Rightarrow> bool option" where
  "errors_as_net (Transport t) = net_timeout t"
| "errors_as_net (Join a b) = (case errors_as_net a of Some r \<Rightarrow> Some r | None \<Rightarrow> errors_as_net b)"
| "errors_as_net _ = None"

section \<open>Operational categories\<close>

definition Reason :: "err option \<Rightarrow> string" where
  "Reason e =
     (case e of
        None \<Rightarrow> ''none''
      | Some e \<Rightarrow>
          if errors_is_transport e ContextCanceled then ''cancelled''
          else if errors_is_transport e ContextDeadlineExceeded then ''timeout''
          else (case errors_as_net e of
              Some timeout \<Rightarrow> if timeout then ''timeout'' else ''network''
            | None \<Rightarrow> if errors_as_pg e \<noteq> None then ''database'' else ''unexpected''))"

section \<open>Transient dependency failures\<close>

definition isTransientDependencyError :: "err \<Rightarrow> bool" where
  "isTransientDependencyError e =
     (if errors_is_transport e ConnClosed \<or> errors_is_transport e SafeToRetry then True
      else if errors_is_transport e ContextDeadlineExceeded \<or> errors_is_transport e EOF \<or>
        errors_is_transport e UnexpectedEOF \<or> errors_is_transport e ConnRefused \<or>
        errors_is_transport e ConnReset \<or> errors_is_transport e BrokenPipe then True
      else if errors_as_net e \<noteq> None then True
      else (case errors_as_pg e of
          Some (sqlstate, _) \<Rightarrow>
            2 \<le> length sqlstate \<and>
            (take 2 sqlstate = ''08'' \<or> take 2 sqlstate = ''40'' \<or> take 2 sqlstate = ''53'' \<or>
             sqlstate = ''57P01'' \<or> sqlstate = ''57P02'' \<or> sqlstate = ''57P03'')
        | None \<Rightarrow> False))"

text \<open>An error the program itself made: sentinels and texts, no driver or transport error in it.\<close>

fun own_error :: "err \<Rightarrow> bool" where
  "own_error (Sentinel s) \<longleftrightarrow> True"
| "own_error (Opaque s) \<longleftrightarrow> True"
| "own_error (Join a b) \<longleftrightarrow> own_error a \<and> own_error b"
| "own_error _ \<longleftrightarrow> False"

lemma own_error_plain:
  "own_error e \<Longrightarrow> \<not> errors_is_transport e t" "own_error e \<Longrightarrow> errors_as_net e = None"
  "own_error e \<Longrightarrow> errors_as_pg e = None"
  by (induction e) auto

section \<open>Properties\<close>

text \<open>
  What is logged or stored of an error is one of six words, whatever the error carries;
  it is \<^verbatim>\<open>unexpected\<close> for every error the program itself made.
\<close>

theorem Reason_bounded:
  "Reason e \<in> {''none'', ''cancelled'', ''timeout'', ''network'', ''database'', ''unexpected''} \<and>
   (Reason e = ''none'' \<longleftrightarrow> e = None) \<and> (own_error x \<longrightarrow> Reason (Some x) = ''unexpected'')"
  by (auto simp: Reason_def own_error_plain split: option.splits)

theorem Reason_bounded_witness:
  "own_error (Join (Sentinel outbox_ErrInvalidClaim) (Opaque ''secret'')) \<and>
   Reason (Some (Join (Sentinel outbox_ErrInvalidClaim) (Opaque ''secret''))) = ''unexpected''"
  using Reason_bounded [of None "Join (Sentinel outbox_ErrInvalidClaim) (Opaque ''secret'')"] by simp

text \<open>
  A client is told to try again only for a failure of a dependency: never for an error
  the program itself made, never for a constraint PostgreSQL enforced (class 23) or a trigger raised
  (55000), and always for a deadline, a broken connection or a transaction PostgreSQL aborted
  (class 40), also when the error is joined with one of the program's own.
\<close>

theorem transient_classification:
  assumes "own_error x"
  shows "\<not> isTransientDependencyError x \<and>
    \<not> isTransientDependencyError (PgError (CHR ''2'' # CHR ''3'' # rest) name) \<and>
    \<not> isTransientDependencyError (PgError ''55000'' name) \<and>
    isTransientDependencyError (Join x (PgError (CHR ''4'' # CHR ''0'' # rest) name)) \<and>
    isTransientDependencyError (Join x (Transport t)) = (t \<noteq> ContextCanceled)"
proof -
  have "isTransientDependencyError (Join x (Transport t)) = (t \<noteq> ContextCanceled)"
    using assms by (cases t) (simp_all add: isTransientDependencyError_def own_error_plain)
  then show ?thesis
    using assms by (simp add: isTransientDependencyError_def own_error_plain)
qed

theorem transient_classification_witness:
  "\<not> isTransientDependencyError (Sentinel app_ErrWalletNotFound) \<and>
   \<not> isTransientDependencyError (PgError ''23505'' ''wallets_pkey'') \<and>
   isTransientDependencyError (Join (Sentinel app_ErrWalletNotFound) (PgError ''40P01'' ''wallets_pkey'')) \<and>
   isTransientDependencyError (Join (Sentinel app_ErrWalletNotFound) (Transport EOF))"
  using transient_classification [of "Sentinel app_ErrWalletNotFound" "''505''" "''wallets_pkey''" EOF]
    transient_classification [of "Sentinel app_ErrWalletNotFound" "''P01''" "''wallets_pkey''" EOF] by simp

end
