(* ===== verification/Broker.thy ===== *)
theory Broker
  imports Books Failures
begin

text \<open>
  The SQS adapter's \<^verbatim>\<open>broker.go\<close> and \<^verbatim>\<open>outbox_sender.go\<close>. The client of the AWS SDK is the
  parameter \<open>sqs_client\<close>: its answers, indexed by the number of calls made so far. The state
  \<open>node\<close> is the world of the database with the calls made to the queue service and the queue URLs
  the adapters have cached.
\<close>

section \<open>The queue service\<close>

text \<open>A received message of the SDK: pointers that may be nil, and the receive count attribute.\<close>

record sdk_message =
  sm_MessageId :: "string option"
  sm_Body :: "string option"
  sm_ReceiptHandle :: "string option"
  sm_ApproximateReceiveCount :: string

text \<open>
  A nil result or pointer is \<open>None\<close>; looking up an attribute that is missing gives the empty text.
\<close>

record sqs_client =
  cl_GetQueueUrl :: "nat \<Rightarrow> string \<Rightarrow> string option result"
  cl_GetQueueAttributes :: "nat \<Rightarrow> string \<Rightarrow> string \<Rightarrow> (string \<Rightarrow> string) option result"
  cl_ReceiveMessage :: "nat \<Rightarrow> string \<Rightarrow> int \<Rightarrow> int \<Rightarrow> int \<Rightarrow> sdk_message list result"
  cl_DeleteMessage :: "nat \<Rightarrow> string \<Rightarrow> string \<Rightarrow> unit result"
  cl_ChangeMessageVisibility :: "nat \<Rightarrow> string \<Rightarrow> string \<Rightarrow> int \<Rightarrow> unit result"
  cl_SendMessage :: "nat \<Rightarrow> string \<Rightarrow> string \<Rightarrow> string \<Rightarrow> string \<Rightarrow> string option option result"

text \<open>A call that was made, and whether the service answered without an error.\<close>

datatype sqs_call =
    CalledGetQueueUrl string bool
  | CalledGetQueueAttributes string string bool
  | CalledReceiveMessage string int int int bool
  | CalledDeleteMessage string string bool
  | CalledChangeMessageVisibility string string int bool
  | CalledSendMessage string string string string bool

record node =
  nd_world :: world
  nd_calls :: "sqs_call list"
  nd_senderURL :: string

definition on_world :: "(world, 'a) io \<Rightarrow> (node, 'a) io" where
  "on_world m = (\<lambda>s. case m (nd_world s) of (r, w) \<Rightarrow> (r, s\<lparr>nd_world := w\<rparr>))"

definition answered :: "'a result \<Rightarrow> bool" where
  "answered r = (case r of Inl _ \<Rightarrow> False | Inr _ \<Rightarrow> True)"

definition sqs :: "(bool \<Rightarrow> sqs_call) \<Rightarrow> (nat \<Rightarrow> 'a result) \<Rightarrow> (node, 'a) io" where
  "sqs c f = (\<lambda>s. let r = f (length (nd_calls s)) in (r, s\<lparr>nd_calls := nd_calls s @ [c (answered r)]\<rparr>))"

section \<open>The broker\<close>

record sqs_message =
  mg_ID :: string
  mg_Body :: string
  mg_ReceiptHandle :: string
  mg_ReceiveCount :: int

definition QueueURL :: "sqs_client \<Rightarrow> string \<Rightarrow> (node, string) io" where
  "QueueURL cl name =
     io_try (sqs (CalledGetQueueUrl name) (\<lambda>n. cl_GetQueueUrl cl n name)) (\<lambda>url.
     case url of
       None \<Rightarrow> io_throw (Opaque ''get SQS queue URL: empty response'')
     | Some u \<Rightarrow> if u = [] then io_throw (Opaque ''get SQS queue URL: empty response'') else io_return u)"

definition Ping :: "sqs_client \<Rightarrow> string \<Rightarrow> (node, unit) io" where
  "Ping cl queueURL =
     io_try (sqs (CalledGetQueueAttributes queueURL ''QueueArn'')
       (\<lambda>n. cl_GetQueueAttributes cl n queueURL ''QueueArn'')) (\<lambda>_. io_return ())"

definition ApproximateMessages :: "sqs_client \<Rightarrow> string \<Rightarrow> (node, int) io" where
  "ApproximateMessages cl queueURL =
     io_try (sqs (CalledGetQueueAttributes queueURL ''ApproximateNumberOfMessages'')
       (\<lambda>n. cl_GetQueueAttributes cl n queueURL ''ApproximateNumberOfMessages'')) (\<lambda>result.
     case result of
       None \<Rightarrow> io_throw (Opaque ''read SQS queue depth: empty response'')
     | Some attributes \<Rightarrow>
         (case parse_int64 (attributes ''ApproximateNumberOfMessages'') of
            Inl _ \<Rightarrow> io_throw (Opaque ''read SQS queue depth: invalid response'')
          | Inr count \<Rightarrow>
              if sint count < 0 then io_throw (Opaque ''read SQS queue depth: invalid response'')
              else io_return (sint count)))"

text \<open>\<^verbatim>\<open>Receive\<close> skips messages with a nil field, and reads an unusable receive count as one.\<close>

definition receive_count :: "string \<Rightarrow> int" where
  "receive_count text = (case parse_int64 text of Inl _ \<Rightarrow> 1 | Inr n \<Rightarrow> if sint n < 1 then 1 else sint n)"

fun usable_message :: "sdk_message \<Rightarrow> sqs_message option" where
  "usable_message m =
     (case (sm_MessageId m, sm_Body m, sm_ReceiptHandle m) of
        (Some i, Some b, Some h) \<Rightarrow>
          Some \<lparr>mg_ID = i, mg_Body = b, mg_ReceiptHandle = h,
            mg_ReceiveCount = receive_count (sm_ApproximateReceiveCount m)\<rparr>
      | _ \<Rightarrow> None)"

definition Receive :: "sqs_client \<Rightarrow> string \<Rightarrow> int \<Rightarrow> int \<Rightarrow> int \<Rightarrow> (node, sqs_message list) io" where
  "Receive cl queueURL batch waitSeconds visibilitySeconds =
     io_try (sqs (CalledReceiveMessage queueURL batch waitSeconds visibilitySeconds)
       (\<lambda>n. cl_ReceiveMessage cl n queueURL batch waitSeconds visibilitySeconds)) (\<lambda>received.
     io_return (List.map_filter usable_message received))"

definition Delete :: "sqs_client \<Rightarrow> string \<Rightarrow> string \<Rightarrow> (node, unit) io" where
  "Delete cl queueURL receiptHandle =
     sqs (CalledDeleteMessage queueURL receiptHandle) (\<lambda>n. cl_DeleteMessage cl n queueURL receiptHandle)"

definition ChangeVisibility :: "sqs_client \<Rightarrow> string \<Rightarrow> string \<Rightarrow> int \<Rightarrow> (node, unit) io" where
  "ChangeVisibility cl queueURL receiptHandle seconds =
     sqs (CalledChangeMessageVisibility queueURL receiptHandle seconds)
       (\<lambda>n. cl_ChangeMessageVisibility cl n queueURL receiptHandle seconds)"

definition Release :: "sqs_client \<Rightarrow> string \<Rightarrow> string \<Rightarrow> (node, unit) io" where
  "Release cl queueURL receiptHandle = ChangeVisibility cl queueURL receiptHandle 0"

definition Send :: "sqs_client \<Rightarrow> string \<Rightarrow> string \<Rightarrow> string \<Rightarrow> string \<Rightarrow> (node, unit) io" where
  "Send cl queueURL eventID groupID payload =
     (if queueURL = [] \<or> eventID = [] \<or> groupID = [] \<or> payload = []
      then io_throw (Opaque ''send SQS event: incomplete event'')
      else io_try (sqs (CalledSendMessage queueURL eventID groupID payload)
        (\<lambda>n. cl_SendMessage cl n queueURL payload groupID eventID)) (\<lambda>result.
      case result of
        Some (Some i) \<Rightarrow> if i = [] then io_throw (Opaque ''send SQS event: empty message ID'') else io_return ()
      | _ \<Rightarrow> io_throw (Opaque ''send SQS event: empty message ID'')))"

section \<open>The sender of outbox events\<close>

record outbox_event =
  ob_ID :: string
  ob_GroupID :: string
  ob_CorrelationID :: string
  ob_Payload :: string
  ob_Token :: string
  ob_Attempts :: int

definition sender_url :: "(node, string) io" where
  "sender_url = (\<lambda>s. (Inr (nd_senderURL s), s))"

definition sender_Check :: "sqs_client \<Rightarrow> string \<Rightarrow> (node, unit) io" where
  "sender_Check cl name =
     io_try (QueueURL cl name) (\<lambda>url.
     io_try (Ping cl url) (\<lambda>_ s. (Inr (), s\<lparr>nd_senderURL := url\<rparr>)))"

definition sender_Publish :: "sqs_client \<Rightarrow> string \<Rightarrow> outbox_event \<Rightarrow> (node, unit) io" where
  "sender_Publish cl name event =
     io_try sender_url (\<lambda>url.
     io_try (if url = [] then io_try (sender_Check cl name) (\<lambda>_. sender_url) else io_return url) (\<lambda>url.
     Send cl url (ob_ID event) (ob_GroupID event) (ob_Payload event)))"

section \<open>What the queue has accepted\<close>

text \<open>The messages the service accepted: identifier, group and body.\<close>

fun sent_message :: "sqs_call \<Rightarrow> (string \<times> string \<times> string) list" where
  "sent_message (CalledSendMessage url i g p ok) = (if ok then [(i, g, p)] else [])"
| "sent_message _ = []"

definition accepted :: "node \<Rightarrow> (string \<times> string \<times> string) list" where
  "accepted s = concat (map sent_message (nd_calls s))"

lemma sqs_apply:
  "sqs c f s = (f (length (nd_calls s)), s\<lparr>nd_calls := nd_calls s @ [c (answered (f (length (nd_calls s))))]\<rparr>)"
  by (simp add: sqs_def Let_def)

text \<open>Calls that send nothing.\<close>

definition quiet :: "node \<Rightarrow> node \<Rightarrow> bool" where
  "quiet s s' \<longleftrightarrow> nd_world s' = nd_world s \<and> accepted s' = accepted s"

lemma quiet_refl: "quiet s s"
  by (simp add: quiet_def)

lemma quiet_trans: "quiet s t \<Longrightarrow> quiet t u \<Longrightarrow> quiet s u"
  by (simp add: quiet_def)

lemma quiet_sqs:
  assumes "\<And>b. sent_message (c b) = []"
  shows "io_keeps quiet (sqs c f)"
  using assms by (auto simp: io_keeps_def sqs_apply quiet_def accepted_def)

lemma quiet_calls:
  "io_keeps quiet (QueueURL cl name)" "io_keeps quiet (Ping cl url)" "io_keeps quiet (ApproximateMessages cl url)"
  "io_keeps quiet (Receive cl url b ws v)" "io_keeps quiet (Delete cl url h)"
  "io_keeps quiet (ChangeVisibility cl url h n)" "io_keeps quiet (Release cl url h)"
  unfolding QueueURL_def Ping_def ApproximateMessages_def Receive_def Delete_def Release_def ChangeVisibility_def
  by (intro io_keeps_try quiet_sqs; (erule (1) quiet_trans)?;
      auto intro: quiet_refl simp: io_keeps_def split: option.splits sum.splits)+

lemma quiet_Check: "io_keeps quiet (sender_Check cl name)"
  unfolding sender_Check_def
  by (intro io_keeps_try quiet_calls; (erule (1) quiet_trans)?) (auto simp: io_keeps_def quiet_def accepted_def)

text \<open>
  A publication leaves the database alone and sends at most one message; when it reports success,
  the service has accepted the event.
\<close>

definition event_message :: "outbox_event \<Rightarrow> string \<times> string \<times> string" where
  "event_message event = (ob_ID event, ob_GroupID event, ob_Payload event)"

definition sends :: "string \<times> string \<times> string \<Rightarrow> node \<Rightarrow> unit result \<Rightarrow> node \<Rightarrow> bool" where
  "sends m s r s' \<longleftrightarrow>
     nd_world s' = nd_world s \<and> (accepted s' = accepted s \<or> accepted s' = accepted s @ [m]) \<and>
     (answered r \<longrightarrow> accepted s' = accepted s @ [m])"

lemma Send_sends: "Send cl url i g p s = (r, s') \<Longrightarrow> sends (i, g, p) s r s'"
  by (auto simp: Send_def io_try_def sqs_apply accepted_def answered_def sends_def
      split: if_splits sum.splits option.splits prod.splits)

lemma Publish_sends:
  assumes "sender_Publish cl name event s = (r, s')"
  shows "sends (event_message event) s r s'"
proof -
  let ?m = "if nd_senderURL s = [] then io_try (sender_Check cl name) (\<lambda>_. sender_url) else io_return (nd_senderURL s)"
  have url: "io_keeps quiet sender_url" by (simp add: sender_url_def io_keeps_def quiet_refl)
  have q: "io_keeps quiet ?m"
    by (auto intro!: io_keeps_try quiet_Check url io_keeps_basic quiet_refl elim: quiet_trans)
  have "io_try ?m (\<lambda>url. Send cl url (ob_ID event) (ob_GroupID event) (ob_Payload event)) s = (r, s')"
    using assms by (simp add: sender_Publish_def sender_url_def io_try_def)
  then show ?thesis
  proof (rule io_try_post)
    fix e t
    assume "?m s = (Inl e, t)"
    with q have "quiet s t" by (rule io_keepsD)
    then show "sends (event_message event) s (Inl e) t" by (simp add: quiet_def sends_def answered_def)
  next
    fix u t
    assume "?m s = (Inr u, t)" and send: "Send cl u (ob_ID event) (ob_GroupID event) (ob_Payload event) t = (r, s')"
    with q have "quiet s t" by (metis io_keepsD)
    with Send_sends [OF send] show "sends (event_message event) s r s'"
      by (simp add: quiet_def sends_def event_message_def)
  qed
qed

end
