(* ===== verification/Outbox.thy ===== *)
theory Outbox
  imports Broker Backoff "HOL-Library.List_Lexorder" "HOL-Library.Char_ord" "HOL-Library.Product_Lexorder"
begin

text \<open>
  The publication of outbox events: \<^verbatim>\<open>internal/application/outbox\<close> and
  \<^verbatim>\<open>internal/adapters/postgres/outbox_store.go\<close>. A worker leases an unpublished row in a
  transaction of its own, sends it to the queue, and confirms or reschedules it. \<open>delivery_step\<close>
  is the protocol of such workers in terms of the rows and messages; that the code follows it, also when
  the calls of several rounds interleave, is shown here for whole rounds and in \<open>Concurrency\<close> for calls.
\<close>

section \<open>The table\<close>

definition outbox_snapshot ::
  "outbox_row \<Rightarrow> string \<times> string \<times> event_type \<times> nat \<times> string \<times> string option \<times> json \<times> time" where
  "outbox_snapshot r =
     (xr_event_id r, xr_aggregate_id r, xr_event_type r, xr_event_version r, xr_correlation_id r,
      xr_causation_id r, xr_payload r, xr_occurred_at r)"

definition protect_outbox_snapshot :: "outbox_row \<Rightarrow> outbox_row \<Rightarrow> err option" where
  "protect_outbox_snapshot old new =
     (if outbox_snapshot new \<noteq> outbox_snapshot old then Some (PgError ''55000'' []) else None)"

fun update_outbox :: "(outbox_row \<Rightarrow> bool) \<Rightarrow> (outbox_row \<Rightarrow> outbox_row) \<Rightarrow> outbox_row list
    \<Rightarrow> (nat \<times> outbox_row list) result" where
  "update_outbox P f [] = Inr (0, [])"
| "update_outbox P f (r # rest) =
     (if P r then
        unless_err (protect_outbox_snapshot r (f r))
         (unless_err (first_violation [(0 \<le> xr_attempts (f r), check_violation, ''outbox_events_attempts_check'')])
          (and_then (update_outbox P f rest) (\<lambda>(n, rows). Inr (Suc n, f r # rows))))
      else and_then (update_outbox P f rest) (\<lambda>(n, rows). Inr (n, r # rows)))"

section \<open>The store\<close>

definition outbox_due :: "time \<Rightarrow> outbox_row \<Rightarrow> bool" where
  "outbox_due now r \<longleftrightarrow>
     xr_published_at r = None \<and> xr_next_attempt_at r \<le> now \<and>
     (case xr_locked_until r of None \<Rightarrow> True | Some l \<Rightarrow> l \<le> now)"

text \<open>\<^verbatim>\<open>ORDER BY next_attempt_at, occurred_at, event_id LIMIT 1\<close>\<close>

definition outbox_candidate :: "time \<Rightarrow> database \<Rightarrow> outbox_row option" where
  "outbox_candidate now d =
     (case filter (outbox_due now) (outbox d) of
        [] \<Rightarrow> None
      | r # rs \<Rightarrow>
          Some (arg_min_list (\<lambda>r. (xr_next_attempt_at r, xr_occurred_at r, xr_event_id r)) (r # rs)))"

definition lease_event :: "string \<Rightarrow> time \<Rightarrow> outbox_row \<Rightarrow> outbox_row" where
  "lease_event token until r =
     r\<lparr>xr_lease_token := Some token, xr_locked_until := Some until, xr_next_attempt_at := until,
       xr_attempts := xr_attempts r + 1\<rparr>"

text \<open>The \<^verbatim>\<open>CASE\<close> over the \<^verbatim>\<open>LEFT JOIN\<close>: the wallet of the event, or NULL.\<close>

definition event_group :: "database \<Rightarrow> outbox_row \<Rightarrow> string option" where
  "event_group d r =
     (if xr_event_type r = TypeWalletBalanceChanged then Some (xr_aggregate_id r)
      else map_option gr_wallet_id (find (\<lambda>g. gr_id g = xr_aggregate_id r) (wagers d)))"

text \<open>
  The text of a stored JSON value as PostgreSQL prints it is the parameter \<open>jsonb\<close>. An
  \<^verbatim>\<open>INTEGER\<close> that outgrows its range is an error of the statement, and so is scanning NULL
  into a \<^verbatim>\<open>string\<close>.
\<close>

definition claim_event :: "env \<Rightarrow> (json \<Rightarrow> string) \<Rightarrow> duration \<Rightarrow> nat \<Rightarrow> database
    \<Rightarrow> (outbox_event option \<times> database) result" where
  "claim_event env jsonb lease n d =
     (case outbox_candidate (env_db_now env n) d of
        None \<Rightarrow> Inr (None, d)
      | Some r \<Rightarrow>
          if 2147483647 \<le> xr_attempts r then Inl (PgError ''22003'' [])
          else and_then (update_outbox (\<lambda>q. xr_event_id q = xr_event_id r)
            (lease_event (env_gen_random_uuid env n) (env_db_now env n + lease_interval lease)) (outbox d))
           (\<lambda>(_, rows).
             (case event_group d r of
                None \<Rightarrow> Inl (Opaque ''cannot scan null'')
              | Some g \<Rightarrow>
                  Inr (Some \<lparr>ob_ID = xr_event_id r, ob_GroupID = g, ob_CorrelationID = xr_correlation_id r,
                    ob_Payload = jsonb (xr_payload r), ob_Token = env_gen_random_uuid env n,
                    ob_Attempts = xr_attempts r + 1\<rparr>, d\<lparr>outbox := rows\<rparr>))))"

definition OutboxStore_Claim ::
  "env \<Rightarrow> (json \<Rightarrow> string) \<Rightarrow> duration \<Rightarrow> (world, outbox_event option) io" where
  "OutboxStore_Claim env jsonb lease =
     (if lease \<le> 0 then io_throw (Sentinel outbox_ErrInvalidClaim)
      else ReadCommitted env (sql env (claim_event env jsonb lease)))"

text \<open>
  A statement on the pool is a transaction of its own: when the connection breaks, it may or may
  not have taken effect.
\<close>

definition autocommit :: "env \<Rightarrow> (nat \<Rightarrow> database \<Rightarrow> ('a \<times> database) result) \<Rightarrow> (world, 'a) io" where
  "autocommit env f = (\<lambda>w.
     case env_fault env (tick w) of
       Some e \<Rightarrow> (Inl (fault_err e), step w)
     | None \<Rightarrow>
         (case f (tick w) (db w) of
            Inl e \<Rightarrow> (Inl e, step w)
          | Inr (x, d) \<Rightarrow>
              (case env_commit env (tick w) of
                 None \<Rightarrow> (Inr x, (step w)\<lparr>db := d\<rparr>)
               | Some (e, applied) \<Rightarrow>
                   (Inl (fault_err e), (step w)\<lparr>db := (if applied then d else db w)\<rparr>))))"

definition one_row :: "nat \<Rightarrow> (world, unit) io" where
  "one_row n = (if n \<noteq> 1 then io_throw (Sentinel postgres_ErrConcurrentWrite) else io_return ())"

definition leased_to :: "outbox_event \<Rightarrow> outbox_row \<Rightarrow> bool" where
  "leased_to event r \<longleftrightarrow>
     xr_event_id r = ob_ID event \<and> xr_lease_token r = Some (ob_Token event) \<and> xr_published_at r = None"

definition update_leased :: "outbox_event \<Rightarrow> (outbox_row \<Rightarrow> outbox_row) \<Rightarrow> database \<Rightarrow> (nat \<times> database) result" where
  "update_leased event f d =
     uuid_param (ob_ID event) (uuid_param (ob_Token event)
      (and_then (update_outbox (leased_to event) f (outbox d)) (\<lambda>(n, rows). Inr (n, d\<lparr>outbox := rows\<rparr>))))"

definition publish_row :: "time \<Rightarrow> outbox_row \<Rightarrow> outbox_row" where
  "publish_row now r =
     r\<lparr>xr_published_at := Some now, xr_lease_token := None, xr_locked_until := None, xr_last_error := None\<rparr>"

definition retry_row :: "time \<Rightarrow> string \<Rightarrow> outbox_row \<Rightarrow> outbox_row" where
  "retry_row next reason r =
     r\<lparr>xr_next_attempt_at := next, xr_lease_token := None, xr_locked_until := None,
       xr_last_error := Some reason\<rparr>"

definition OutboxStore_Confirm :: "env \<Rightarrow> outbox_event \<Rightarrow> (world, unit) io" where
  "OutboxStore_Confirm env event =
     io_try (autocommit env (\<lambda>n d. update_leased event (publish_row (env_db_now env n)) d)) one_row"

definition OutboxStore_Retry :: "env \<Rightarrow> outbox_event \<Rightarrow> time \<Rightarrow> string \<Rightarrow> (world, unit) io" where
  "OutboxStore_Retry env event next reason =
     (if is_zero_time next then io_throw (Sentinel outbox_ErrInvalidClaim)
      else io_try (autocommit env (\<lambda>_ d. update_leased event (retry_row (env_timestamptz env next) reason) d)) one_row)"

section \<open>The service\<close>

record 's outbox_store =
  st_Claim :: "duration \<Rightarrow> ('s, outbox_event option) io"
  st_Confirm :: "outbox_event \<Rightarrow> ('s, unit) io"
  st_Retry :: "outbox_event \<Rightarrow> time \<Rightarrow> string \<Rightarrow> ('s, unit) io"

record 's publisher =
  pb_Check :: "('s, unit) io"
  pb_Publish :: "outbox_event \<Rightarrow> ('s, unit) io"

text \<open>\<^verbatim>\<open>os_backoff\<close> is the function \<^verbatim>\<open>backoff\<close> with the service's source of jitter.\<close>

record 's outbox_service =
  os_store :: "'s outbox_store"
  os_publisher :: "'s publisher"
  os_lease :: duration
  os_now :: "('s, time) io"
  os_backoff :: "int \<Rightarrow> ('s, duration) io"

text \<open>The outcome, empty when there is none, comes with an error or without.\<close>

datatype outbox_outcome = ObNone | ObIdle | ObPublished | ObRepublished | ObRetry

definition CheckDestination :: "'s outbox_service \<Rightarrow> ('s, unit) io" where
  "CheckDestination sv = pb_Check (os_publisher sv)"

definition retry_event :: "'s outbox_service \<Rightarrow> outbox_event \<Rightarrow> err \<Rightarrow> ('s, outbox_outcome \<times> err option) io" where
  "retry_event sv event e =
     io_try (os_now sv) (\<lambda>now.
     io_try (os_backoff sv (ob_Attempts event)) (\<lambda>delay.
     io_catch (st_Retry (os_store sv) event (now + delay) (''publish_'' @ Reason (Some e))) (\<lambda>r. case r of
       Inl retryErr \<Rightarrow> io_return (ObRetry, Some (Join e retryErr))
     | Inr _ \<Rightarrow> io_return (ObRetry, Some e))))"

definition publish_event :: "'s outbox_service \<Rightarrow> outbox_event \<Rightarrow> ('s, outbox_outcome \<times> err option) io" where
  "publish_event sv event =
     (if ob_ID event = [] \<or> ob_GroupID event = [] \<or> ob_Token event = [] \<or> ob_Payload event = [] \<or>
        ob_Attempts event < 1
      then io_return (ObNone, Some (Sentinel outbox_ErrInvalidClaim))
      else io_catch (pb_Publish (os_publisher sv) event) (\<lambda>r. case r of
        Inl e \<Rightarrow> retry_event sv event e
      | Inr _ \<Rightarrow>
          io_catch (st_Confirm (os_store sv) event) (\<lambda>c. case c of
            Inl e \<Rightarrow> io_return (ObNone, Some e)
          | Inr _ \<Rightarrow> io_return (if ob_Attempts event > 1 then ObRepublished else ObPublished, None))))"

definition outbox_ProcessOne :: "'s outbox_service \<Rightarrow> ('s, outbox_outcome \<times> err option) io" where
  "outbox_ProcessOne sv =
     io_catch (st_Claim (os_store sv) (os_lease sv)) (\<lambda>r. case r of
       Inl e \<Rightarrow> io_return (ObNone, Some e)
     | Inr None \<Rightarrow> io_return (ObIdle, None)
     | Inr (Some event) \<Rightarrow> publish_event sv event)"

text \<open>The service on PostgreSQL and SQS.\<close>

definition outbox_service_of ::
  "env \<Rightarrow> (json \<Rightarrow> string) \<Rightarrow> sqs_client \<Rightarrow> string \<Rightarrow> duration \<Rightarrow> node outbox_service" where
  "outbox_service_of env jsonb cl name lease =
     \<lparr>os_store =
        \<lparr>st_Claim = (\<lambda>l. on_world (OutboxStore_Claim env jsonb l)),
         st_Confirm = (\<lambda>e. on_world (OutboxStore_Confirm env e)),
         st_Retry = (\<lambda>e next reason. on_world (OutboxStore_Retry env e next reason))\<rparr>,
      os_publisher = \<lparr>pb_Check = sender_Check cl name, pb_Publish = sender_Publish cl name\<rparr>,
      os_lease = lease, os_now = on_world (time_Now env), os_backoff = (\<lambda>n. on_world (outbox_backoff env n))\<rparr>"

section \<open>Effects on the table\<close>

definition row_changed :: "(outbox_row \<Rightarrow> outbox_row) \<Rightarrow> outbox_row \<Rightarrow> database \<Rightarrow> database \<Rightarrow> bool" where
  "row_changed f r d d' \<longleftrightarrow>
     outbox_snapshot (f r) = outbox_snapshot r \<and>
     (\<exists>xs ys. outbox d = xs @ r # ys \<and> d' = d\<lparr>outbox := xs @ f r # ys\<rparr>)"

definition event_leased :: "(json \<Rightarrow> string) \<Rightarrow> outbox_event \<Rightarrow> database \<Rightarrow> database \<Rightarrow> bool" where
  "event_leased jsonb event d d' \<longleftrightarrow>
     (\<exists>r until. row_changed (lease_event (ob_Token event) until) r d d' \<and> xr_published_at r = None \<and>
        ob_ID event = xr_event_id r \<and> ob_Payload event = jsonb (xr_payload r) \<and>
        event_group d r = Some (ob_GroupID event) \<and> ob_Attempts event = xr_attempts r + 1)"

definition event_confirmed :: "outbox_event \<Rightarrow> database \<Rightarrow> database \<Rightarrow> bool" where
  "event_confirmed event d d' \<longleftrightarrow> (\<exists>r now. leased_to event r \<and> row_changed (publish_row now) r d d')"

definition event_retried :: "outbox_event \<Rightarrow> database \<Rightarrow> database \<Rightarrow> bool" where
  "event_retried event d d' \<longleftrightarrow>
     (\<exists>r next reason. leased_to event r \<and> row_changed (retry_row next reason) r d d')"

lemma snapshot_rows [simp]:
  "outbox_snapshot (lease_event token until r) = outbox_snapshot r"
  "outbox_snapshot (publish_row now r) = outbox_snapshot r"
  "outbox_snapshot (retry_row next reason r) = outbox_snapshot r"
  by (simp_all add: outbox_snapshot_def lease_event_def publish_row_def retry_row_def)

lemma snapshot_id: "outbox_snapshot q = outbox_snapshot r \<Longrightarrow> xr_event_id q = xr_event_id r"
  by (simp add: outbox_snapshot_def)

lemma row_changed_ids: "row_changed f r d d' \<Longrightarrow> map xr_event_id (outbox d') = map xr_event_id (outbox d)"
  by (auto simp: row_changed_def dest: snapshot_id)

text \<open>An update whose condition at most one row meets.\<close>

lemma update_outbox_none: "\<forall>q \<in> set rows. \<not> P q \<Longrightarrow> update_outbox P f rows = Inr (0, rows)"
  by (induction rows) auto

lemma update_outbox_only:
  assumes "update_outbox P f (xs @ r # ys) = Inr (n, rows)" "P r" "\<forall>q \<in> set (xs @ ys). \<not> P q"
  shows "n = 1 \<and> rows = xs @ f r # ys \<and> outbox_snapshot (f r) = outbox_snapshot r"
  using assms
proof (induction xs arbitrary: n rows)
  case Nil
  then show ?case
    by (auto simp: result_invert update_outbox_none protect_outbox_snapshot_def split: if_splits)
next
  case (Cons a xs)
  then show ?case by (fastforce simp: and_then_eq_Inr)
qed

lemma update_outbox_at_most_one:
  assumes run: "update_outbox P f (outbox d) = Inr (n, rows)" and u: "outbox_unique (outbox d)"
    and P: "\<And>q r. P q \<Longrightarrow> P r \<Longrightarrow> xr_event_id q = xr_event_id r"
  shows "(\<forall>q \<in> set (outbox d). \<not> P q) \<and> n = 0 \<and> rows = outbox d \<or>
    n = 1 \<and> (\<exists>r. P r \<and> row_changed f r d (d\<lparr>outbox := rows\<rparr>))"
proof (cases "\<exists>r \<in> set (outbox d). P r")
  case False
  with run show ?thesis by (simp add: update_outbox_none)
next
  case True
  then obtain xs r ys where split: "outbox d = xs @ r # ys" and r: "P r" by (meson split_list)
  have "\<not> P q" if "q \<in> set (xs @ ys)" for q
  proof
    assume "P q"
    with P r have "xr_event_id q = xr_event_id r" by blast
    moreover have "xr_event_id r \<notin> xr_event_id ` set (xs @ ys)"
      using u split by (auto simp: outbox_unique_def)
    ultimately show False using that by (metis image_eqI)
  qed
  with update_outbox_only [OF run [unfolded split] r] have "n = 1" "rows = xs @ f r # ys"
    "outbox_snapshot (f r) = outbox_snapshot r" by auto
  then show ?thesis using split r by (auto simp: row_changed_def)
qed

lemma update_leased_effect:
  assumes "update_leased event f d = Inr (n, d')" "outbox_unique (outbox d)"
  shows "n = 0 \<and> d' = d \<or> n = 1 \<and> (\<exists>r. leased_to event r \<and> row_changed f r d d')"
proof -
  from assms(1) obtain rows where "update_outbox (leased_to event) f (outbox d) = Inr (n, rows)"
    and d': "d' = d\<lparr>outbox := rows\<rparr>"
    by (auto simp: update_leased_def and_then_eq_Inr)
  from update_outbox_at_most_one [OF this(1) assms(2)] show ?thesis
    unfolding d' by (auto simp: leased_to_def)
qed

lemma outbox_candidate_due:
  assumes "outbox_candidate now d = Some r"
  shows "r \<in> set (outbox d)" "outbox_due now r"
    "\<And>q. q \<in> set (outbox d) \<Longrightarrow> outbox_due now q \<Longrightarrow>
      (xr_next_attempt_at r, xr_occurred_at r, xr_event_id r) \<le> (xr_next_attempt_at q, xr_occurred_at q, xr_event_id q)"
proof -
  let ?f = "\<lambda>r. (xr_next_attempt_at r, xr_occurred_at r, xr_event_id r)" and ?rs = "filter (outbox_due now) (outbox d)"
  from assms have ne: "?rs \<noteq> []" and r: "r = arg_min_list ?f ?rs"
    by (auto simp: outbox_candidate_def split: list.splits)
  from arg_min_list_in [OF ne, of ?f] r show "r \<in> set (outbox d)" "outbox_due now r" by auto
  show "?f r \<le> ?f q" if "q \<in> set (outbox d)" "outbox_due now q" for q
    using that f_arg_min_list_f [OF ne, of ?f] r by simp
qed

text \<open>What a claim reports and does.\<close>

definition claim_result :: "(json \<Rightarrow> string) \<Rightarrow> outbox_event option result \<Rightarrow> database \<Rightarrow> database \<Rightarrow> bool" where
  "claim_result jsonb r d d' \<longleftrightarrow>
     (case r of
        Inr None \<Rightarrow> d' = d
      | Inr (Some event) \<Rightarrow> event_leased jsonb event d d'
      | Inl _ \<Rightarrow> d' = d \<or> (\<exists>event. event_leased jsonb event d d'))"

lemma claim_result_lost: "claim_result jsonb (Inr c) d d' \<Longrightarrow> claim_result jsonb (Inl e) d d'"
  by (auto simp: claim_result_def split: option.splits)

lemma claim_event_result:
  assumes run: "claim_event env jsonb lease n d = Inr (c, d')" and u: "outbox_unique (outbox d)"
  shows "claim_result jsonb (Inr c) d d'"
proof (cases "outbox_candidate (env_db_now env n) d")
  case None
  with run show ?thesis by (auto simp: claim_event_def claim_result_def)
next
  case (Some r)
  let ?f = "lease_event (env_gen_random_uuid env n) (env_db_now env n + lease_interval lease)"
  note r = outbox_candidate_due [OF Some]
  from run Some obtain m rows g where up: "update_outbox (\<lambda>q. xr_event_id q = xr_event_id r) ?f (outbox d) = Inr (m, rows)"
    and g: "event_group d r = Some g"
    and c: "c = Some \<lparr>ob_ID = xr_event_id r, ob_GroupID = g, ob_CorrelationID = xr_correlation_id r,
      ob_Payload = jsonb (xr_payload r), ob_Token = env_gen_random_uuid env n, ob_Attempts = xr_attempts r + 1\<rparr>"
    and d': "d' = d\<lparr>outbox := rows\<rparr>"
    by (auto simp: claim_event_def and_then_eq_Inr split: if_splits option.splits)
  from update_outbox_at_most_one [OF up u] r(1) obtain q where
    q: "xr_event_id q = xr_event_id r" "row_changed ?f q d d'"
    unfolding d' by auto
  then have "q \<in> set (outbox d)" by (auto simp: row_changed_def)
  then have "q = r"
    using q(1) r(1) u by (metis outbox_unique_def distinct_map inj_on_def)
  with q(2) r(2) g show ?thesis
    unfolding claim_result_def event_leased_def c by (auto simp: outbox_due_def)
qed

lemma OutboxStore_Claim_result:
  assumes "OutboxStore_Claim env jsonb lease w = (r, w')" and u: "outbox_unique (outbox (db w))"
  shows "claim_result jsonb r (db w) (db w')"
proof (cases "lease \<le> 0")
  case True
  with assms(1) show ?thesis by (auto simp: OutboxStore_Claim_def claim_result_def)
next
  case False
  let ?work = "sql env (claim_event env jsonb lease)"
  have work: "claim_result jsonb (Inr c) (db w) (db wb)" if "?work wa = (Inr c, wb)" "db wa = db w" for c wa wb
    using sql_InrE [OF that(1)] claim_event_result u that(2) by metis
  from False assms(1) have "within env ?work w = (r, w')"
    by (simp add: OutboxStore_Claim_def ReadCommitted_def)
  from within_cases [OF this] show ?thesis
    by (elim disjE exE conjE) (metis work, metis work claim_result_lost, simp add: claim_result_def)
qed

lemma autocommit_effect:
  assumes "autocommit env f w = (r, w')"
  shows "case r of Inr x \<Rightarrow> f (tick w) (db w) = Inr (x, db w')
    | Inl e \<Rightarrow> db w' = db w \<or> (\<exists>x. f (tick w) (db w) = Inr (x, db w'))"
  using assms by (auto simp: autocommit_def split: option.splits sum.splits prod.splits if_splits)

text \<open>A statement on the leased row, with the check of the number of rows.\<close>

lemma leased_statement:
  assumes "io_try (autocommit env (\<lambda>n d. update_leased event (f n) d)) one_row w = (r, w')"
    and "outbox_unique (outbox (db w))"
  shows "(db w' = db w \<or> (\<exists>q. leased_to event q \<and> row_changed (f (tick w)) q (db w) (db w'))) \<and>
    (answered r \<longrightarrow> (\<exists>q. leased_to event q \<and> row_changed (f (tick w)) q (db w) (db w')))"
  using assms(1)
proof (rule io_try_post)
  fix e t
  assume "autocommit env (\<lambda>n d. update_leased event (f n) d) w = (Inl e, t)"
  from autocommit_effect [OF this] show "(db t = db w \<or> (\<exists>q. leased_to event q \<and> row_changed (f (tick w)) q (db w) (db t))) \<and>
    (answered (Inl e) \<longrightarrow> (\<exists>q. leased_to event q \<and> row_changed (f (tick w)) q (db w) (db t)))"
    using update_leased_effect [OF _ assms(2)] by (auto simp: answered_def)
next
  fix n t
  assume "autocommit env (\<lambda>n d. update_leased event (f n) d) w = (Inr n, t)" and one: "one_row n t = (r, w')"
  from autocommit_effect [OF this(1)] have "update_leased event (f (tick w)) (db w) = Inr (n, db t)" by simp
  from update_leased_effect [OF this assms(2)] one
  show "(db w' = db w \<or> (\<exists>q. leased_to event q \<and> row_changed (f (tick w)) q (db w) (db w'))) \<and>
    (answered r \<longrightarrow> (\<exists>q. leased_to event q \<and> row_changed (f (tick w)) q (db w) (db w')))"
    by (auto simp: one_row_def answered_def split: if_splits)
qed

lemma OutboxStore_Confirm_effect:
  assumes "OutboxStore_Confirm env event w = (r, w')" "outbox_unique (outbox (db w))"
  shows "(db w' = db w \<or> event_confirmed event (db w) (db w')) \<and> (answered r \<longrightarrow> event_confirmed event (db w) (db w'))"
  using leased_statement [OF assms(1) [unfolded OutboxStore_Confirm_def] assms(2)]
  unfolding event_confirmed_def by blast

lemma OutboxStore_Retry_effect:
  assumes "OutboxStore_Retry env event next reason w = (r, w')" "outbox_unique (outbox (db w))"
  shows "(db w' = db w \<or> event_retried event (db w) (db w')) \<and> (answered r \<longrightarrow> event_retried event (db w) (db w'))"
proof (cases "is_zero_time next")
  case True
  with assms(1) show ?thesis by (auto simp: OutboxStore_Retry_def answered_def)
next
  case False
  with assms(1) have "io_try (autocommit env (\<lambda>_ d. update_leased event (retry_row (env_timestamptz env next) reason) d)) one_row w
    = (r, w')" by (simp add: OutboxStore_Retry_def)
  from leased_statement [OF this assms(2)] show ?thesis unfolding event_retried_def by blast
qed

section \<open>The delivery protocol\<close>

text \<open>
  The state of delivery: the database, the messages the queue has accepted, and the claims that
  workers of any replica hold. A worker may stop at any point and keep its claim for ever, and the
  answer to a request may be lost.
\<close>

record delivery =
  dl_db :: database
  dl_sent :: "(string \<times> string \<times> string) list"
  dl_claims :: "outbox_event list"

inductive delivery_step :: "(json \<Rightarrow> string) \<Rightarrow> delivery \<Rightarrow> delivery \<Rightarrow> bool" for jsonb where
  deliver_queue: "queued xs d d' \<Longrightarrow>
    delivery_step jsonb \<lparr>dl_db = d, dl_sent = m, dl_claims = cs\<rparr> \<lparr>dl_db = d', dl_sent = m, dl_claims = cs\<rparr>"
| deliver_claim: "event_leased jsonb event d d' \<Longrightarrow>
    delivery_step jsonb \<lparr>dl_db = d, dl_sent = m, dl_claims = cs\<rparr> \<lparr>dl_db = d', dl_sent = m, dl_claims = event # cs\<rparr>"
| deliver_send: "event \<in> set cs \<Longrightarrow>
    delivery_step jsonb \<lparr>dl_db = d, dl_sent = m, dl_claims = cs\<rparr>
      \<lparr>dl_db = d, dl_sent = m @ [event_message event], dl_claims = cs\<rparr>"
| deliver_confirm: "event \<in> set cs \<Longrightarrow> event_message event \<in> set m \<Longrightarrow> event_confirmed event d d' \<Longrightarrow>
    delivery_step jsonb \<lparr>dl_db = d, dl_sent = m, dl_claims = cs\<rparr> \<lparr>dl_db = d', dl_sent = m, dl_claims = cs\<rparr>"
| deliver_retry: "event \<in> set cs \<Longrightarrow> event_retried event d d' \<Longrightarrow>
    delivery_step jsonb \<lparr>dl_db = d, dl_sent = m, dl_claims = cs\<rparr> \<lparr>dl_db = d', dl_sent = m, dl_claims = cs\<rparr>"

inductive_cases delivery_stepE: "delivery_step jsonb s s'"

text \<open>
  The invariant: identifiers are unique, a published row was accepted by the queue under its
  identifier and with its payload, and a claim carries the identifier and payload of a row.
\<close>

definition message_of :: "(json \<Rightarrow> string) \<Rightarrow> outbox_row \<Rightarrow> string \<times> string \<times> string \<Rightarrow> bool" where
  "message_of jsonb x m \<longleftrightarrow> fst m = xr_event_id x \<and> snd (snd m) = jsonb (xr_payload x)"

definition published_sent :: "(json \<Rightarrow> string) \<Rightarrow> delivery \<Rightarrow> bool" where
  "published_sent jsonb s \<longleftrightarrow>
     (\<forall>x \<in> set (outbox (dl_db s)). xr_published_at x \<noteq> None \<longrightarrow> (\<exists>m \<in> set (dl_sent s). message_of jsonb x m))"

definition delivery_ok :: "(json \<Rightarrow> string) \<Rightarrow> delivery \<Rightarrow> bool" where
  "delivery_ok jsonb s \<longleftrightarrow>
     outbox_unique (outbox (dl_db s)) \<and> published_sent jsonb s \<and>
     (\<forall>event \<in> set (dl_claims s). \<exists>x \<in> set (outbox (dl_db s)). message_of jsonb x (event_message event))"

text \<open>Rows only grow in number, keep their snapshot, and a published row never changes.\<close>

definition outbox_evolves :: "outbox_row list \<Rightarrow> outbox_row list \<Rightarrow> bool" where
  "outbox_evolves xs ys \<longleftrightarrow>
     prefix (map outbox_snapshot xs) (map outbox_snapshot ys) \<and>
     (\<forall>x \<in> set xs. xr_published_at x \<noteq> None \<longrightarrow> x \<in> set ys)"

lemma outbox_evolves_refl: "outbox_evolves xs xs"
  by (simp add: outbox_evolves_def)

lemma outbox_evolves_trans: "outbox_evolves xs ys \<Longrightarrow> outbox_evolves ys zs \<Longrightarrow> outbox_evolves xs zs"
  unfolding outbox_evolves_def by (meson prefix_order.order_trans)

lemma queued_evolves: "queued xs d d' \<Longrightarrow> outbox_evolves (outbox d) (outbox d')"
  by (auto simp: queued_def outbox_evolves_def)

lemma row_changed_evolves:
  assumes "row_changed f r d d'" "xr_published_at r = None"
  shows "outbox_evolves (outbox d) (outbox d')"
  using assms by (auto simp: row_changed_def outbox_evolves_def)

lemma event_leased_evolves: "event_leased jsonb event d d' \<Longrightarrow> outbox_evolves (outbox d) (outbox d')"
  unfolding event_leased_def using row_changed_evolves by blast

lemma event_updates_evolve:
  "event_confirmed event d d' \<Longrightarrow> outbox_evolves (outbox d) (outbox d')"
  "event_retried event d d' \<Longrightarrow> outbox_evolves (outbox d) (outbox d')"
  unfolding event_confirmed_def event_retried_def leased_to_def using row_changed_evolves by blast+

lemma delivery_step_evolves:
  "delivery_step jsonb s s' \<Longrightarrow> outbox_evolves (outbox (dl_db s)) (outbox (dl_db s')) \<and> set (dl_sent s) \<subseteq> set (dl_sent s')"
  by (induction rule: delivery_step.induct)
    (auto simp: outbox_evolves_refl dest: queued_evolves event_leased_evolves event_updates_evolve)

text \<open>The snapshots of the rows determine what claims may say.\<close>

lemma message_of_snapshot:
  "outbox_snapshot x = outbox_snapshot y \<Longrightarrow> message_of jsonb x m \<longleftrightarrow> message_of jsonb y m"
  by (simp add: message_of_def outbox_snapshot_def)

lemma evolves_snapshot:
  assumes "outbox_evolves xs ys" "x \<in> set xs"
  shows "\<exists>y \<in> set ys. outbox_snapshot y = outbox_snapshot x"
proof -
  have "outbox_snapshot x \<in> set (map outbox_snapshot xs)" using assms(2) by simp
  then have "outbox_snapshot x \<in> set (map outbox_snapshot ys)"
    using assms(1) set_mono_prefix unfolding outbox_evolves_def by blast
  then show ?thesis by fastforce
qed

lemma claims_kept:
  assumes "outbox_evolves (outbox d) (outbox d')" "\<exists>x \<in> set (outbox d). message_of jsonb x m"
  shows "\<exists>x \<in> set (outbox d'). message_of jsonb x m"
  using assms evolves_snapshot message_of_snapshot by metis

text \<open>A row that was not published before was confirmed, and its claim was sent.\<close>

lemma row_changed_published:
  assumes "row_changed f r d d'" "y \<in> set (outbox d')"
  shows "y \<in> set (outbox d) \<or> y = f r"
  using assms by (auto simp: row_changed_def)

lemma published_sent_unpublished:
  assumes "row_changed f r d d'" "xr_published_at (f r) = None"
    and "published_sent jsonb \<lparr>dl_db = d, dl_sent = m, dl_claims = cs\<rparr>"
  shows "published_sent jsonb \<lparr>dl_db = d', dl_sent = m, dl_claims = cs'\<rparr>"
  using assms row_changed_published unfolding published_sent_def by fastforce

lemma published_sent_confirmed:
  assumes c: "event_confirmed event d d'" and u: "outbox_unique (outbox d)"
    and ev: "x \<in> set (outbox d)" "message_of jsonb x (event_message event)" "event_message event \<in> set m"
    and inv: "published_sent jsonb \<lparr>dl_db = d, dl_sent = m, dl_claims = cs\<rparr>"
  shows "published_sent jsonb \<lparr>dl_db = d', dl_sent = m, dl_claims = cs\<rparr>"
proof -
  from c obtain r now where r: "leased_to event r" "row_changed (publish_row now) r d d'"
    unfolding event_confirmed_def by blast
  then have "r \<in> set (outbox d)" "xr_event_id r = xr_event_id x"
    using ev(2) by (auto simp: row_changed_def leased_to_def message_of_def event_message_def)
  then have "r = x" using u ev(1) by (metis outbox_unique_def distinct_map inj_on_def)
  then have "message_of jsonb (publish_row now r) (event_message event)"
    using ev(2) message_of_snapshot [OF snapshot_rows(2)] by blast
  then show ?thesis
    using inv ev(3) row_changed_published [OF r(2)] unfolding published_sent_def by fastforce
qed

lemma published_sent_queued:
  assumes "queued xs d d'" "published_sent jsonb \<lparr>dl_db = d, dl_sent = m, dl_claims = cs\<rparr>"
  shows "published_sent jsonb \<lparr>dl_db = d', dl_sent = m, dl_claims = cs\<rparr>"
  using assms unfolding queued_def published_sent_def by auto

lemma row_changed_unique: "row_changed f r d d' \<Longrightarrow> outbox_unique (outbox d) \<Longrightarrow> outbox_unique (outbox d')"
  using row_changed_ids by (simp add: outbox_unique_def)

lemma delivery_okI:
  assumes "delivery_ok jsonb \<lparr>dl_db = d, dl_sent = m, dl_claims = cs\<rparr>" "outbox_evolves (outbox d) (outbox d')"
    and "outbox_unique (outbox d')" "published_sent jsonb \<lparr>dl_db = d', dl_sent = m', dl_claims = cs'\<rparr>"
    and "\<And>event. event \<in> set cs' \<Longrightarrow> event \<in> set cs \<or> (\<exists>x \<in> set (outbox d'). message_of jsonb x (event_message event))"
  shows "delivery_ok jsonb \<lparr>dl_db = d', dl_sent = m', dl_claims = cs'\<rparr>"
proof -
  have "\<exists>x \<in> set (outbox d'). message_of jsonb x (event_message event)" if "event \<in> set cs'" for event
    using assms(5) [OF that] assms(1) claims_kept [OF assms(2)] unfolding delivery_ok_def by fastforce
  then show ?thesis using assms(3,4) by (simp add: delivery_ok_def)
qed

lemma delivery_ok_parts:
  assumes "delivery_ok jsonb \<lparr>dl_db = d, dl_sent = m, dl_claims = cs\<rparr>"
  shows "outbox_unique (outbox d)" "published_sent jsonb \<lparr>dl_db = d, dl_sent = m, dl_claims = cs\<rparr>"
    "event \<in> set cs \<Longrightarrow> \<exists>x \<in> set (outbox d). message_of jsonb x (event_message event)"
  using assms by (auto simp: delivery_ok_def)

lemma delivery_step_ok:
  assumes "delivery_step jsonb s s'" "delivery_ok jsonb s"
  shows "delivery_ok jsonb s'"
  using assms
proof (induction rule: delivery_step.induct)
  case (deliver_queue xs d d' m cs)
  note p = delivery_ok_parts [OF deliver_queue.prems]
  show ?case
    using delivery_okI [OF deliver_queue.prems queued_evolves queued_unique published_sent_queued] deliver_queue.hyps p(1,2)
    by blast
next
  case (deliver_claim event d d' m cs)
  note p = delivery_ok_parts [OF deliver_claim.prems]
  from deliver_claim obtain r until where r: "row_changed (lease_event (ob_Token event) until) r d d'" "xr_published_at r = None"
    "ob_ID event = xr_event_id r" "ob_Payload event = jsonb (xr_payload r)"
    unfolding event_leased_def by blast
  have "lease_event (ob_Token event) until r \<in> set (outbox d')" using r(1) by (auto simp: row_changed_def)
  moreover have "message_of jsonb (lease_event (ob_Token event) until r) (event_message event)"
    using r(3,4) by (simp add: message_of_def event_message_def lease_event_def)
  moreover have "published_sent jsonb \<lparr>dl_db = d', dl_sent = m, dl_claims = event # cs\<rparr>"
    using p(2) r(2) by (intro published_sent_unpublished [OF r(1)]) (simp_all add: lease_event_def)
  ultimately show ?case
    by (intro delivery_okI [OF deliver_claim.prems event_leased_evolves [OF deliver_claim.hyps]
          row_changed_unique [OF r(1) p(1)]]) auto
next
  case (deliver_send event cs d m)
  note p = delivery_ok_parts [OF deliver_send.prems]
  have "published_sent jsonb \<lparr>dl_db = d, dl_sent = m @ [event_message event], dl_claims = cs\<rparr>"
    using p(2) unfolding published_sent_def by auto
  then show ?case by (intro delivery_okI [OF deliver_send.prems outbox_evolves_refl p(1)]) auto
next
  case (deliver_confirm event cs m d d')
  note p = delivery_ok_parts [OF deliver_confirm.prems]
  obtain x where x: "x \<in> set (outbox d)" "message_of jsonb x (event_message event)"
    using p(3) deliver_confirm.hyps(1) by blast
  have "outbox_unique (outbox d')"
    using deliver_confirm.hyps(3) row_changed_unique [OF _ p(1)] unfolding event_confirmed_def by blast
  then show ?case
    using published_sent_confirmed [OF deliver_confirm.hyps(3) p(1) x deliver_confirm.hyps(2) p(2)]
    by (intro delivery_okI [OF deliver_confirm.prems event_updates_evolve(1) [OF deliver_confirm.hyps(3)]]) auto
next
  case (deliver_retry event cs d d' m)
  note p = delivery_ok_parts [OF deliver_retry.prems]
  from deliver_retry obtain r next_at reason where r: "leased_to event r" "row_changed (retry_row next_at reason) r d d'"
    unfolding event_retried_def by blast
  have "published_sent jsonb \<lparr>dl_db = d', dl_sent = m, dl_claims = cs\<rparr>"
    using p(2) r(1) by (intro published_sent_unpublished [OF r(2)]) (simp_all add: retry_row_def leased_to_def)
  then show ?case
    by (intro delivery_okI [OF deliver_retry.prems event_updates_evolve(2) [OF deliver_retry.hyps(2)]
          row_changed_unique [OF r(2) p(1)]]) auto
qed

section \<open>One round of a worker\<close>

text \<open>What the outcome of a round says about the database and the messages sent.\<close>

definition delivery_round ::
  "(json \<Rightarrow> string) \<Rightarrow> outbox_outcome \<times> err option \<Rightarrow> database \<Rightarrow> (string \<times> string \<times> string) list \<Rightarrow> database
    \<Rightarrow> (string \<times> string \<times> string) list \<Rightarrow> bool" where
  "delivery_round jsonb out d m d' m' \<longleftrightarrow>
     (case out of
        (ObIdle, e) \<Rightarrow> e = None \<and> d' = d \<and> m' = m
      | (ObNone, e) \<Rightarrow> e \<noteq> None \<and>
          (d' = d \<and> m' = m \<or>
           (\<exists>event d1. event_leased jsonb event d d1 \<and>
             (d' = d1 \<and> m' = m \<or>
              m' = m @ [event_message event] \<and> (d' = d1 \<or> event_confirmed event d1 d'))))
      | (ObRetry, e) \<Rightarrow> e \<noteq> None \<and>
          (\<exists>event d1. event_leased jsonb event d d1 \<and> (m' = m \<or> m' = m @ [event_message event]) \<and>
             (d' = d1 \<or> event_retried event d1 d'))
      | (published, e) \<Rightarrow> e = None \<and>
          (\<exists>event d1. event_leased jsonb event d d1 \<and> event_confirmed event d1 d' \<and>
             m' = m @ [event_message event] \<and> (published = ObRepublished \<longleftrightarrow> ob_Attempts event > 1)))"

lemma delivery_roundI:
  assumes "event_leased jsonb event d d1"
  shows "d' = d1 \<and> m' = m \<or> m' = m @ [event_message event] \<and> (d' = d1 \<or> event_confirmed event d1 d') \<Longrightarrow>
      delivery_round jsonb (ObNone, Some e) d m d' m'"
    "m' = m \<or> m' = m @ [event_message event] \<Longrightarrow> d' = d1 \<or> event_retried event d1 d' \<Longrightarrow>
      delivery_round jsonb (ObRetry, Some e) d m d' m'"
    "m' = m @ [event_message event] \<Longrightarrow> event_confirmed event d1 d' \<Longrightarrow>
      delivery_round jsonb (if ob_Attempts event > 1 then ObRepublished else ObPublished, None) d m d' m'"
  using assms unfolding delivery_round_def by auto

locale delivery_service =
  fixes sv :: "'s outbox_service" and jsonb :: "json \<Rightarrow> string" and view :: "'s \<Rightarrow> database"
    and sent :: "'s \<Rightarrow> (string \<times> string \<times> string) list"
  assumes claim_law: "st_Claim (os_store sv) l s = (c, s') \<Longrightarrow> outbox_unique (outbox (view s)) \<Longrightarrow>
      sent s' = sent s \<and> claim_result jsonb c (view s) (view s')"
    and confirm_law: "st_Confirm (os_store sv) event s = (r, s') \<Longrightarrow> outbox_unique (outbox (view s)) \<Longrightarrow>
      sent s' = sent s \<and> (view s' = view s \<or> event_confirmed event (view s) (view s')) \<and>
      (answered r \<longrightarrow> event_confirmed event (view s) (view s'))"
    and retry_law: "st_Retry (os_store sv) event next reason s = (r, s') \<Longrightarrow> outbox_unique (outbox (view s)) \<Longrightarrow>
      sent s' = sent s \<and> (view s' = view s \<or> event_retried event (view s) (view s'))"
    and publish_law: "pb_Publish (os_publisher sv) event s = (r, s') \<Longrightarrow>
      view s' = view s \<and> (sent s' = sent s \<or> sent s' = sent s @ [event_message event]) \<and>
      (answered r \<longrightarrow> sent s' = sent s @ [event_message event])"
    and now_law: "\<exists>n s'. os_now sv s = (Inr n, s') \<and> view s' = view s \<and> sent s' = sent s"
    and backoff_law: "\<exists>n s'. os_backoff sv k s = (Inr n, s') \<and> view s' = view s \<and> sent s' = sent s"
begin

lemma retry_event_effect:
  assumes "retry_event sv event e s = (r, s')" and u: "outbox_unique (outbox (view s))"
  shows "\<exists>x. r = Inr (ObRetry, Some x) \<and> sent s' = sent s \<and>
    (view s' = view s \<or> event_retried event (view s) (view s'))"
proof -
  obtain n s1 where n: "os_now sv s = (Inr n, s1)" "view s1 = view s" "sent s1 = sent s" using now_law by metis
  obtain k s2 where k: "os_backoff sv (ob_Attempts event) s1 = (Inr k, s2)" "view s2 = view s1" "sent s2 = sent s1"
    using backoff_law by metis
  obtain q s3 where q: "st_Retry (os_store sv) event (n + k) (''publish_'' @ Reason (Some e)) s2 = (q, s3)" by fastforce
  have "\<exists>x. r = Inr (ObRetry, Some x)" "s' = s3"
    using assms(1) n(1) k(1) q unfolding retry_event_def by (auto simp: io_try_def io_catch_def split: sum.splits)
  then show ?thesis using retry_law [OF q] u n k by auto
qed

lemma publish_event_round:
  assumes run: "publish_event sv event s = (r, s')" and u: "outbox_unique (outbox (view s))"
    and leased: "event_leased jsonb event d (view s)"
  shows "\<exists>out. r = Inr out \<and> delivery_round jsonb out d (sent s) (view s') (sent s')"
proof -
  consider (invalid) e where "r = Inr (ObNone, Some e)" "s' = s"
    | (published) q s1 where "pb_Publish (os_publisher sv) event s = (q, s1)"
      "(case q of Inl e \<Rightarrow> retry_event sv event e | Inr _ \<Rightarrow>
          io_catch (st_Confirm (os_store sv) event) (\<lambda>c. case c of
            Inl e \<Rightarrow> io_return (ObNone, Some e)
          | Inr _ \<Rightarrow> io_return (if ob_Attempts event > 1 then ObRepublished else ObPublished, None))) s1 = (r, s')"
    using run unfolding publish_event_def by (auto simp: io_catch_apply split: if_splits prod.splits)
  then show ?thesis
  proof cases
    case invalid
    then show ?thesis using delivery_roundI(1) [OF leased] by blast
  next
    case published
    note p = publish_law [OF published(1)]
    have u1: "outbox_unique (outbox (view s1))" using p u by simp
    show ?thesis
    proof (cases q)
      case (Inl e)
      with published(2) have "retry_event sv event e s1 = (r, s')" by simp
      from retry_event_effect [OF this u1] obtain x where "r = Inr (ObRetry, Some x)" "sent s' = sent s1"
        "view s' = view s1 \<or> event_retried event (view s1) (view s')" by blast
      then show ?thesis using delivery_roundI(2) [OF leased] p by metis
    next
      case (Inr x)
      obtain c s2 where c: "st_Confirm (os_store sv) event s1 = (c, s2)" by fastforce
      note confirmed = confirm_law [OF c u1]
      have sent1: "sent s1 = sent s @ [event_message event]" "view s1 = view s" using p Inr by (auto simp: answered_def)
      show ?thesis
      proof (cases c)
        case (Inl e)
        with published(2) Inr c have "r = Inr (ObNone, Some e)" "s' = s2" by (auto simp: io_catch_def)
        moreover have "delivery_round jsonb (ObNone, Some e) d (sent s) (view s2) (sent s2)"
          using delivery_roundI(1) [OF leased] confirmed sent1 by metis
        ultimately show ?thesis by blast
      next
        case c': (Inr y)
        with published(2) Inr c have r: "r = Inr (if ob_Attempts event > 1 then ObRepublished else ObPublished, None)"
          "s' = s2" by (auto simp: io_catch_def)
        have "event_confirmed event (view s) (view s2)" "sent s2 = sent s @ [event_message event]"
          using confirmed sent1 c' by (auto simp: answered_def)
        then show ?thesis using r delivery_roundI(3) [OF leased] by blast
      qed
    qed
  qed
qed

lemma event_leased_unique: "event_leased jsonb event d d' \<Longrightarrow> outbox_unique (outbox d) \<Longrightarrow> outbox_unique (outbox d')"
  unfolding event_leased_def using row_changed_unique by blast

lemma ProcessOne_round:
  assumes run: "outbox_ProcessOne sv s = (r, s')" and u: "outbox_unique (outbox (view s))"
  shows "\<exists>out. r = Inr out \<and> delivery_round jsonb out (view s) (sent s) (view s') (sent s')"
proof -
  obtain c s1 where c: "st_Claim (os_store sv) (os_lease sv) s = (c, s1)" by fastforce
  note claim = claim_law [OF c u]
  have rest: "(case c of Inl e \<Rightarrow> io_return (ObNone, Some e) | Inr None \<Rightarrow> io_return (ObIdle, None)
     | Inr (Some event) \<Rightarrow> publish_event sv event) s1 = (r, s')"
    using run c by (simp add: outbox_ProcessOne_def io_catch_def)
  show ?thesis
  proof (cases c)
    case (Inl e)
    with rest have "r = Inr (ObNone, Some e)" "s' = s1" by auto
    moreover have "delivery_round jsonb (ObNone, Some e) (view s) (sent s) (view s1) (sent s1)"
      using claim Inl by (auto simp: claim_result_def delivery_round_def)
    ultimately show ?thesis by blast
  next
    case (Inr k)
    show ?thesis
    proof (cases k)
      case None
      with rest Inr have "r = Inr (ObIdle, None)" "s' = s1" by auto
      with claim Inr None show ?thesis by (auto simp: claim_result_def delivery_round_def)
    next
      case (Some event)
      with claim Inr have l: "event_leased jsonb event (view s) (view s1)" and m: "sent s1 = sent s"
        by (auto simp: claim_result_def)
      have "publish_event sv event s1 = (r, s')" using rest Inr Some by simp
      from publish_event_round [OF this event_leased_unique [OF l u] l] m show ?thesis by simp
    qed
  qed
qed

end

text \<open>A round is a sequence of steps of the protocol.\<close>

lemma delivery_round_steps:
  assumes "delivery_round jsonb out d m d' m'"
  shows "\<exists>cs'. (delivery_step jsonb)\<^sup>*\<^sup>* \<lparr>dl_db = d, dl_sent = m, dl_claims = cs\<rparr> \<lparr>dl_db = d', dl_sent = m', dl_claims = cs'\<rparr>"
proof -
  let ?s = "\<lambda>d m cs. \<lparr>dl_db = d, dl_sent = m, dl_claims = cs\<rparr>" and ?R = "(delivery_step jsonb)\<^sup>*\<^sup>*"
  consider (idle) "d' = d" "m' = m" | (claimed) "\<exists>event d1. event_leased jsonb event d d1 \<and> (m' = m \<or> m' = m @ [event_message event]) \<and>
      (d' = d1 \<or> event_retried event d1 d' \<or> m' = m @ [event_message event] \<and> event_confirmed event d1 d')"
    using assms by (auto simp: delivery_round_def split: prod.splits outbox_outcome.splits)
  then show ?thesis
  proof cases
    case idle
    then show ?thesis by auto
  next
    case claimed
    then obtain event d1 where l: "event_leased jsonb event d d1" and m: "m' = m \<or> m' = m @ [event_message event]"
      and rest: "d' = d1 \<or> event_retried event d1 d' \<or> m' = m @ [event_message event] \<and> event_confirmed event d1 d'"
      by blast
    let ?cs = "event # cs"
    have "?R (?s d m cs) (?s d1 m ?cs)" using deliver_claim [OF l] by blast
    also have "?R (?s d1 m ?cs) (?s d1 m' ?cs)" using m deliver_send [of event ?cs jsonb d1 m] by auto
    also have "?R (?s d1 m' ?cs) (?s d' m' ?cs)"
      using rest deliver_retry [of event ?cs d1 d' jsonb m'] deliver_confirm [of event ?cs m' d1 d' jsonb] by auto
    finally show ?thesis by blast
  qed
qed

lemma on_world_run: "on_world m s = (r, s') \<Longrightarrow> m (nd_world s) = (r, nd_world s') \<and> accepted s' = accepted s"
  by (auto simp: on_world_def accepted_def split: prod.splits)

lemma outbox_backoff_total: "\<exists>r w'. outbox_backoff env k w = (Inr r, w') \<and> db w' = db w"
  by (simp add: outbox_backoff_def jitter_def io_try_def Let_def)

interpretation pgq: delivery_service "outbox_service_of env jsonb cl name lease" jsonb "\<lambda>s. db (nd_world s)" accepted
  for env jsonb cl name lease
proof
  let ?sv = "outbox_service_of env jsonb cl name lease"
  show "accepted s' = accepted s \<and> claim_result jsonb c (db (nd_world s)) (db (nd_world s'))"
    if "st_Claim (os_store ?sv) l s = (c, s')" "outbox_unique (outbox (db (nd_world s)))" for l s c s'
    using that OutboxStore_Claim_result by (auto simp: outbox_service_of_def dest!: on_world_run)
  show "accepted s' = accepted s \<and> (db (nd_world s') = db (nd_world s) \<or>
      event_confirmed event (db (nd_world s)) (db (nd_world s'))) \<and>
      (answered r \<longrightarrow> event_confirmed event (db (nd_world s)) (db (nd_world s')))"
    if "st_Confirm (os_store ?sv) event s = (r, s')" "outbox_unique (outbox (db (nd_world s)))" for event s r s'
    using that OutboxStore_Confirm_effect [of env event "nd_world s" r "nd_world s'"]
    by (auto simp: outbox_service_of_def dest!: on_world_run)
  show "accepted s' = accepted s \<and> (db (nd_world s') = db (nd_world s) \<or>
      event_retried event (db (nd_world s)) (db (nd_world s')))"
    if "st_Retry (os_store ?sv) event at reason s = (r, s')" "outbox_unique (outbox (db (nd_world s)))"
    for event at reason s r s'
    using that OutboxStore_Retry_effect [of env event at reason "nd_world s" r "nd_world s'"]
    by (auto simp: outbox_service_of_def dest!: on_world_run)
  show "db (nd_world s') = db (nd_world s) \<and> (accepted s' = accepted s \<or> accepted s' = accepted s @ [event_message event]) \<and>
      (answered r \<longrightarrow> accepted s' = accepted s @ [event_message event])"
    if "pb_Publish (os_publisher ?sv) event s = (r, s')" for event s r s'
    using that Publish_sends [of cl name event s r s'] by (simp add: outbox_service_of_def sends_def)
  show "\<exists>n s'. os_now ?sv s = (Inr n, s') \<and> db (nd_world s') = db (nd_world s) \<and> accepted s' = accepted s" for s
    by (simp add: outbox_service_of_def on_world_def time_Now_def accepted_def)
  show "\<exists>n s'. os_backoff ?sv k s = (Inr n, s') \<and> db (nd_world s') = db (nd_world s) \<and> accepted s' = accepted s" for k s
    using outbox_backoff_total [of env k "nd_world s"]
    by (auto simp: outbox_service_of_def on_world_def accepted_def)
qed

section \<open>Properties\<close>

text \<open>
  Property C14. A round of the outbox worker does what its outcome says: an idle round has found
  nothing and done nothing; a published one has leased a row, had its message accepted by the queue
  and then marked it published; a round that could not publish has at most rescheduled the row it
  leased. Every round always ends with an outcome and is a sequence of steps of the delivery
  protocol.
\<close>

theorem ProcessOne_refines_delivery:
  assumes "outbox_unique (outbox (db (nd_world s)))"
    and "outbox_ProcessOne (outbox_service_of env jsonb cl name lease) s = (r, s')"
  shows "\<exists>out cs'. r = Inr out \<and>
    delivery_round jsonb out (db (nd_world s)) (accepted s) (db (nd_world s')) (accepted s') \<and>
    (delivery_step jsonb)\<^sup>*\<^sup>* \<lparr>dl_db = db (nd_world s), dl_sent = accepted s, dl_claims = cs\<rparr>
      \<lparr>dl_db = db (nd_world s'), dl_sent = accepted s', dl_claims = cs'\<rparr>"
  using pgq.ProcessOne_round [OF assms(2,1)] delivery_round_steps by metis

text \<open>A node with one event in its outbox, and a queue that accepts everything.\<close>

definition ex_event :: outbox_row where
  "ex_event = \<lparr>xr_event_id = ex_uuid 210, xr_aggregate_id = ex_uuid 200, xr_event_type = TypeWalletBalanceChanged,
     xr_event_version = 1, xr_correlation_id = ''c1'', xr_causation_id = None, xr_payload = JInt 1,
     xr_occurred_at = unix_epoch, xr_attempts = 0, xr_next_attempt_at = unix_epoch, xr_lease_token = None,
     xr_locked_until = None, xr_published_at = None, xr_last_error = None\<rparr>"

definition ex_node :: node where
  "ex_node = \<lparr>nd_world = ex_world\<lparr>db := ex_db\<lparr>outbox := [ex_event]\<rparr>\<rparr>, nd_calls = [], nd_senderURL = ''url''\<rparr>"

definition ex_client :: sqs_client where
  "ex_client = \<lparr>cl_GetQueueUrl = (\<lambda>_ _. Inr (Some ''url'')), cl_GetQueueAttributes = (\<lambda>_ _ _. Inr (Some (\<lambda>_. ''0''))),
     cl_ReceiveMessage = (\<lambda>_ _ _ _ _. Inr []), cl_DeleteMessage = (\<lambda>_ _ _. Inr ()),
     cl_ChangeMessageVisibility = (\<lambda>_ _ _ _. Inr ()), cl_SendMessage = (\<lambda>_ _ _ _ _. Inr (Some (Some ''m1'')))\<rparr>"

definition ex_run :: "(outbox_outcome \<times> err option) result \<times> node" where
  "ex_run = outbox_ProcessOne (outbox_service_of ex_env (\<lambda>_. ''1'') ex_client ''output'' time_second) ex_node"

lemma ex_uuid_not_empty [simp]: "ex_uuid n \<noteq> []"
  using ex_uuid_is_uuid [of n] by (auto simp: is_uuid_def uuid_dashes_def)

lemma ex_run_outcome: "fst ex_run = Inr (ObPublished, None)"
  by (simp add: ex_run_def ex_node_def ex_client_def ex_event_def ex_env_def ex_world_def ex_db_def outbox_ProcessOne_def
      outbox_service_of_def on_world_def io_catch_def io_try_def OutboxStore_Claim_def ReadCommitted_def within_def sql_def
      step_def claim_event_def outbox_candidate_def outbox_due_def protect_outbox_snapshot_def lease_event_def
      event_group_def publish_event_def sender_Publish_def sender_url_def Send_def sqs_def answered_def
      OutboxStore_Confirm_def autocommit_def update_leased_def leased_to_def publish_row_def one_row_def
      deferred_violation_def outbox_snapshot_def lease_interval_def time_second_def time_millisecond_def Let_def uuid_param_def)

theorem ProcessOne_refines_delivery_witness:
  "\<exists>cs'. fst ex_run = Inr (ObPublished, None) \<and>
    delivery_round (\<lambda>_. ''1'') (ObPublished, None) (db (nd_world ex_node)) (accepted ex_node)
      (db (nd_world (snd ex_run))) (accepted (snd ex_run)) \<and>
    (delivery_step (\<lambda>_. ''1''))\<^sup>*\<^sup>* \<lparr>dl_db = db (nd_world ex_node), dl_sent = accepted ex_node, dl_claims = []\<rparr>
      \<lparr>dl_db = db (nd_world (snd ex_run)), dl_sent = accepted (snd ex_run), dl_claims = cs'\<rparr>"
proof -
  have u: "outbox_unique (outbox (db (nd_world ex_node)))" by (simp add: ex_node_def outbox_unique_def)
  have "outbox_ProcessOne (outbox_service_of ex_env (\<lambda>_. ''1'') ex_client ''output'' time_second) ex_node = (fst ex_run, snd ex_run)"
    by (simp add: ex_run_def)
  from ProcessOne_refines_delivery [OF u this, of "[]"] show ?thesis by (auto simp: ex_run_outcome)
qed

text \<open>
  Property C16. A worker whose lease was taken over can do no harm: when no unpublished row is leased
  to its token any more, neither confirming nor rescheduling changes anything, and both report an
  error.
\<close>

theorem stale_worker_harmless:
  assumes "outbox_unique (outbox (db w))" and "\<forall>x \<in> set (outbox (db w)).
      \<not> (xr_event_id x = ob_ID event \<and> xr_lease_token x = Some (ob_Token event) \<and> xr_published_at x = None)"
  shows "db (snd (OutboxStore_Confirm env event w)) = db w \<and> \<not> answered (fst (OutboxStore_Confirm env event w)) \<and>
    db (snd (OutboxStore_Retry env event at reason w)) = db w \<and> \<not> answered (fst (OutboxStore_Retry env event at reason w))"
proof -
  have "\<not> leased_to event r" if "row_changed f r (db w) d" for f r d
    using assms(2) that by (auto simp: row_changed_def leased_to_def)
  then have "\<not> event_confirmed event (db w) d" "\<not> event_retried event (db w) d" for d
    unfolding event_confirmed_def event_retried_def by blast+
  then show ?thesis
    using OutboxStore_Confirm_effect [OF surjective_pairing assms(1)] OutboxStore_Retry_effect [OF surjective_pairing assms(1)]
    by blast
qed

theorem stale_worker_harmless_witness:
  "db (snd (OutboxStore_Confirm ex_env \<lparr>ob_ID = ex_uuid 210, ob_GroupID = ex_uuid 200, ob_CorrelationID = ''c1'',
      ob_Payload = ''1'', ob_Token = ex_uuid 1, ob_Attempts = 1\<rparr> (nd_world ex_node))) = db (nd_world ex_node)"
  using stale_worker_harmless [of "nd_world ex_node" "\<lparr>ob_ID = ex_uuid 210, ob_GroupID = ex_uuid 200, ob_CorrelationID = ''c1'',
      ob_Payload = ''1'', ob_Token = ex_uuid 1, ob_Attempts = 1\<rparr>" ex_env]
  by (simp add: ex_node_def outbox_unique_def ex_event_def)

end
