(* ===== verification/Consumer.thy ===== *)
theory Consumer
  imports Ingestion Outbox
begin

text \<open>
  The SQS consumer, \<^verbatim>\<open>internal/adapters/sqs/consumer.go\<close>: what is done with a received message.
  Logging and metrics have no effect on the program; the label under which a message is counted is
  kept as the result of \<^verbatim>\<open>handle\<close>. Messages are handled by concurrent goroutines in the code; here
  \<open>handle_all\<close> takes them one after the other, since they share only the database and the queue.
\<close>

section \<open>Queues\<close>

text \<open>The queue URLs the consumer has cached, empty before the start.\<close>

record queue_urls =
  qu_queueURL :: string
  qu_dlqURL :: string

definition known_url :: "sqs_client \<Rightarrow> string \<Rightarrow> string \<Rightarrow> (node, string) io" where
  "known_url cl url name = (if url = [] then QueueURL cl name else io_return url)"

definition consumer_check :: "sqs_client \<Rightarrow> string \<Rightarrow> string \<Rightarrow> queue_urls \<Rightarrow> (node, unit) io" where
  "consumer_check cl inputQueue dlqQueue urls =
     io_try (known_url cl (qu_queueURL urls) inputQueue) (\<lambda>queueURL.
     io_try (Ping cl queueURL) (\<lambda>_.
     if dlqQueue = [] then io_return ()
     else io_try (known_url cl (qu_dlqURL urls) dlqQueue) (Ping cl)))"

text \<open>The part of \<^verbatim>\<open>start\<close> before the loop: both queues are resolved and answer.\<close>

definition consumer_start :: "sqs_client \<Rightarrow> string \<Rightarrow> string \<Rightarrow> (node, queue_urls) io" where
  "consumer_start cl inputQueue dlqQueue =
     io_try (QueueURL cl inputQueue) (\<lambda>queueURL.
     io_try (Ping cl queueURL) (\<lambda>_.
     if dlqQueue = [] then io_return \<lparr>qu_queueURL = queueURL, qu_dlqURL = []\<rparr>
     else io_try (QueueURL cl dlqQueue) (\<lambda>dlqURL.
       io_try (Ping cl dlqURL) (\<lambda>_. io_return \<lparr>qu_queueURL = queueURL, qu_dlqURL = dlqURL\<rparr>))))"

text \<open>
  \<^verbatim>\<open>availableBatch\<close> once a place is free: \<open>capacity\<close> is the capacity of the semaphore and \<open>used\<close>
  the number of places taken.
\<close>

definition availableBatch :: "int \<Rightarrow> int \<Rightarrow> int \<Rightarrow> int" where
  "availableBatch capacity used receiveBatch =
     (let batch = capacity - used in if batch > receiveBatch then receiveBatch else batch)"

section \<open>Handling a message\<close>

text \<open>\<^verbatim>\<open>type SQSResult string\<close>: any string is one; the code declares five.\<close>

type_synonym sqs_result = string

abbreviation SQSResultProcessed :: sqs_result where
  "SQSResultProcessed \<equiv> ''processed''"

abbreviation SQSResultReplay :: sqs_result where
  "SQSResultReplay \<equiv> ''replay''"

abbreviation SQSResultInvalid :: sqs_result where
  "SQSResultInvalid \<equiv> ''invalid''"

abbreviation SQSResultProcessingError :: sqs_result where
  "SQSResultProcessingError \<equiv> ''processing_error''"

abbreviation SQSResultDeleteError :: sqs_result where
  "SQSResultDeleteError \<equiv> ''delete_error''"

definition sqs_results :: "sqs_result list" where
  "sqs_results = [SQSResultProcessed, SQSResultReplay, SQSResultInvalid, SQSResultProcessingError, SQSResultDeleteError]"

definition retryableProcessingError :: "err \<Rightarrow> bool" where
  "retryableProcessingError e \<longleftrightarrow>
     \<not> errors_is e ingestion_ErrMessageConflict \<and> \<not> errors_is e app_ErrIdempotencyConflict \<and>
     \<not> errors_is e app_ErrExternalIDConflict \<and> \<not> errors_is e app_ErrInvalidInput \<and>
     \<not> errors_is e app_ErrWalletMismatch \<and> \<not> errors_is e app_ErrWalletNotFound"

definition deferRetry :: "sqs_client \<Rightarrow> string \<Rightarrow> sqs_message \<Rightarrow> (node, unit) io" where
  "deferRetry cl queueURL received =
     io_catch (ChangeVisibility cl queueURL (mg_ReceiptHandle received)
       (retryVisibilitySeconds (mg_ReceiveCount received))) (\<lambda>_. io_return ())"

definition release :: "sqs_client \<Rightarrow> string \<Rightarrow> sqs_message \<Rightarrow> (node, unit) io" where
  "release cl queueURL received =
     io_catch (Release cl queueURL (mg_ReceiptHandle received)) (\<lambda>_. io_return ())"

text \<open>\<^verbatim>\<open>ctx.Err()\<close>: whether the processing deadline has passed or the consumer is being stopped.\<close>

definition ctx_Err :: "env \<Rightarrow> (world, transport option) io" where
  "ctx_Err env = (\<lambda>w. (Inr (env_cancelled env (tick w)), step w))"

definition handle_failure :: "env \<Rightarrow> sqs_client \<Rightarrow> string \<Rightarrow> sqs_message \<Rightarrow> err \<Rightarrow> (node, sqs_result) io" where
  "handle_failure env cl queueURL received e =
     io_try (on_world (ctx_Err env)) (\<lambda>stopped.
     io_try (if stopped \<noteq> None then release cl queueURL received
             else if retryableProcessingError e then deferRetry cl queueURL received
             else io_return ()) (\<lambda>_.
     io_return SQSResultProcessingError))"

definition handle_success :: "sqs_client \<Rightarrow> string \<Rightarrow> sqs_message \<Rightarrow> consume_result \<Rightarrow> (node, sqs_result) io" where
  "handle_success cl queueURL received result =
     io_catch (Delete cl queueURL (mg_ReceiptHandle received)) (\<lambda>r. case r of
       Inl _ \<Rightarrow> io_return SQSResultDeleteError
     | Inr _ \<Rightarrow>
         io_return (if co_Duplicate result \<or> sr_Replay (co_WagerResult result) then SQSResultReplay
                    else SQSResultProcessed))"

definition handle :: "env \<Rightarrow> sqs_client \<Rightarrow> (string \<Rightarrow> message_dto option) \<Rightarrow> string \<Rightarrow> string \<Rightarrow> sqs_message
    \<Rightarrow> (node, sqs_result) io" where
  "handle env cl decode consumerName queueURL received =
     (case DecodeMessage env decode (mg_Body received) of
        Inl _ \<Rightarrow> io_return SQSResultInvalid
      | Inr message \<Rightarrow>
          io_catch (on_world (Consume env consumerName message)) (\<lambda>r. case r of
            Inl e \<Rightarrow> handle_failure env cl queueURL received e
          | Inr result \<Rightarrow> handle_success cl queueURL received result))"

text \<open>The messages of one batch.\<close>

fun handle_all :: "env \<Rightarrow> sqs_client \<Rightarrow> (string \<Rightarrow> message_dto option) \<Rightarrow> string \<Rightarrow> string \<Rightarrow> sqs_message list
    \<Rightarrow> (node, sqs_result list) io" where
  "handle_all env cl decode consumerName queueURL [] = io_return []"
| "handle_all env cl decode consumerName queueURL (m # ms) =
     io_try (handle env cl decode consumerName queueURL m) (\<lambda>r.
     io_try (handle_all env cl decode consumerName queueURL ms) (\<lambda>rs. io_return (r # rs)))"

section \<open>Runs of the handler\<close>

text \<open>The calls a run makes to the queue about a message.\<close>

definition calls_since :: "node \<Rightarrow> node \<Rightarrow> sqs_call list" where
  "calls_since s s' = drop (length (nd_calls s)) (nd_calls s')"

lemma calls_since_on_world: "on_world m s = (r, s') \<Longrightarrow> nd_calls s' = nd_calls s"
  by (auto simp: on_world_def split: prod.splits)

lemma handle_failure_run:
  assumes "handle_failure env cl queueURL received e s = (r, s')"
  shows "r = Inr SQSResultProcessingError \<and> db (nd_world s') = db (nd_world s) \<and>
    (\<exists>ok. calls_since s s' =
       (if env_cancelled env (tick (nd_world s)) \<noteq> None
        then [CalledChangeMessageVisibility queueURL (mg_ReceiptHandle received) 0 ok]
        else if retryableProcessingError e
        then [CalledChangeMessageVisibility queueURL (mg_ReceiptHandle received)
          (retryVisibilitySeconds (mg_ReceiveCount received)) ok]
        else []))"
proof -
  let ?t = "s\<lparr>nd_world := step (nd_world s)\<rparr>"
  let ?act = "if env_cancelled env (tick (nd_world s)) \<noteq> None then release cl queueURL received
             else if retryableProcessingError e then deferRetry cl queueURL received else io_return ()"
  have ctx: "on_world (ctx_Err env) s = (Inr (env_cancelled env (tick (nd_world s))), ?t)"
    by (simp add: on_world_def ctx_Err_def)
  have run: "io_try ?act (\<lambda>_. io_return SQSResultProcessingError) ?t = (r, s')"
    using assms unfolding handle_failure_def io_try_apply [of "on_world (ctx_Err env)"] ctx by simp
  consider (stopped) "?act = release cl queueURL received" "env_cancelled env (tick (nd_world s)) \<noteq> None"
    | (retry) "?act = deferRetry cl queueURL received" "env_cancelled env (tick (nd_world s)) = None" "retryableProcessingError e"
    | (left) "?act = io_return ()" "env_cancelled env (tick (nd_world s)) = None" "\<not> retryableProcessingError e" by presburger
  then show ?thesis
  proof cases
    case stopped
    from run [unfolded stopped(1)] stopped(2) show ?thesis
      by (auto simp: io_try_def release_def io_catch_def Release_def ChangeVisibility_def sqs_apply calls_since_def)
  next
    case retry
    from run [unfolded retry(1)] retry(2,3) show ?thesis
      by (auto simp: io_try_def deferRetry_def io_catch_def ChangeVisibility_def sqs_apply calls_since_def)
  next
    case left
    from run [unfolded left(1)] left(2,3) show ?thesis by (auto simp: calls_since_def)
  qed
qed

lemma handle_success_run:
  assumes "handle_success cl queueURL received result s = (r, s')"
  shows "nd_world s' = nd_world s \<and>
    (\<exists>ok. calls_since s s' = [CalledDeleteMessage queueURL (mg_ReceiptHandle received) ok] \<and>
      r = Inr (if ok then (if co_Duplicate result \<or> sr_Replay (co_WagerResult result) then SQSResultReplay
                 else SQSResultProcessed) else SQSResultDeleteError))"
proof -
  let ?r = "cl_DeleteMessage cl (length (nd_calls s)) queueURL (mg_ReceiptHandle received)"
  let ?t = "s\<lparr>nd_calls := nd_calls s @ [CalledDeleteMessage queueURL (mg_ReceiptHandle received) (answered ?r)]\<rparr>"
  let ?label = "if co_Duplicate result \<or> sr_Replay (co_WagerResult result) then SQSResultReplay else SQSResultProcessed"
  have "Delete cl queueURL (mg_ReceiptHandle received) s = (?r, ?t)" by (simp add: Delete_def sqs_apply)
  then have "handle_success cl queueURL received result s = (Inr (if answered ?r then ?label else SQSResultDeleteError), ?t)"
    unfolding handle_success_def io_catch_apply by (simp add: answered_def split: sum.split)
  then have "r = Inr (if answered ?r then ?label else SQSResultDeleteError)" "s' = ?t" using assms by simp_all
  then show ?thesis by (simp add: calls_since_def)
qed

lemma handle_cases:
  assumes "handle env cl decode consumer queueURL received s = (r, s')"
  obtains (invalid) e where "DecodeMessage env decode (mg_Body received) = Inl e" "r = Inr SQSResultInvalid" "s' = s"
  | (failed) m e s1 where "DecodeMessage env decode (mg_Body received) = Inr m"
      "Consume env consumer m (nd_world s) = (Inl e, nd_world s1)" "nd_calls s1 = nd_calls s"
      "handle_failure env cl queueURL received e s1 = (r, s')"
  | (consumed) m res s1 where "DecodeMessage env decode (mg_Body received) = Inr m"
      "Consume env consumer m (nd_world s) = (Inr res, nd_world s1)" "nd_calls s1 = nd_calls s"
      "handle_success cl queueURL received res s1 = (r, s')"
proof (cases "DecodeMessage env decode (mg_Body received)")
  case (Inl e)
  with assms that(1) show thesis by (simp add: handle_def)
next
  case (Inr m)
  obtain q s1 where q: "on_world (Consume env consumer m) s = (q, s1)" by fastforce
  then have c: "Consume env consumer m (nd_world s) = (q, nd_world s1)" "nd_calls s1 = nd_calls s"
    using on_world_run calls_since_on_world by blast+
  have rest: "(case q of Inl e \<Rightarrow> handle_failure env cl queueURL received e
      | Inr res \<Rightarrow> handle_success cl queueURL received res) s1 = (r, s')"
    using assms Inr q by (simp add: handle_def io_catch_apply)
  show thesis
  proof (cases q)
    case (Inl e)
    with that(2) [OF Inr] c rest show thesis by simp
  next
    case q: (Inr res)
    with that(3) [OF Inr] c rest show thesis by simp
  qed
qed

text \<open>The handler counts a message under a declared result, and under no other.\<close>

lemma handle_result:
  assumes "handle env cl decode consumer queueURL received s = (r, s')"
  obtains res where "r = Inr res" "res \<in> set sqs_results"
  using assms
proof (cases rule: handle_cases)
  case invalid
  with that [of SQSResultInvalid] show thesis by (simp add: sqs_results_def)
next
  case failed
  with handle_failure_run that [of SQSResultProcessingError] show thesis by (auto simp: sqs_results_def)
next
  case consumed
  from handle_success_run [OF consumed(4)] show thesis
    by (elim conjE exE) (rule that, assumption, simp add: sqs_results_def)
qed

text \<open>What the handler leaves in the database.\<close>

definition consumption_kept :: "database \<Rightarrow> database \<Rightarrow> bool" where
  "consumption_kept d d' \<longleftrightarrow> d' = d \<or> (\<exists>hash consumer m res. consumed hash consumer m res d d')"

lemma handle_database:
  assumes ok: "env_ok env" and b: "books_ok (db (nd_world s))" and u: "inbox_unique (db (nd_world s))"
    and run: "handle env cl decode consumer queueURL received s = (r, s')"
  shows "consumption_kept (db (nd_world s)) (db (nd_world s'))"
  using run
proof (cases rule: handle_cases)
  case invalid
  then show ?thesis by (simp add: consumption_kept_def)
next
  case (failed m e s1)
  then have "db (nd_world s') = db (nd_world s1)" using handle_failure_run by blast
  with Consume_outcome [OF ok b u failed(2)] show ?thesis by (auto simp: consumption_kept_def)
next
  case (consumed m res s1)
  then have "nd_world s' = nd_world s1" using handle_success_run by blast
  with Consume_outcome [OF ok b u consumed(2)] show ?thesis by (auto simp: consumption_kept_def)
qed

lemma consumption_kept_invariants:
  assumes "consumption_kept d d'" "books_ok d" "inbox_unique d"
  shows "books_ok d'" "inbox_unique d'"
  using assms consumed_books consumed_inbox_unique unfolding consumption_kept_def by blast+

text \<open>The receipt of a consumed message.\<close>

definition acknowledged :: "string \<Rightarrow> message \<Rightarrow> database \<Rightarrow> bool" where
  "acknowledged consumer m d \<longleftrightarrow>
     (\<exists>q \<in> set (inbox d). keyed consumer (ms_ID m) q \<and> ir_payload_hash q = ms_hash m \<and> (\<exists>x. completed_by x q))"

section \<open>Properties\<close>

text \<open>
  A message is deleted from the queue only after its effect is committed: when handling a
  message asks the queue to delete anything, it is this message, and the inbox records it as completed
  by a transaction. A body that does not decode leaves the database and the queue untouched. The
  handler keeps the books and the inbox.
\<close>

theorem handle_acknowledges_committed:
  assumes "env_ok env" and "books_ok (db (nd_world s))" and "inbox_unique (db (nd_world s))"
    and "handle env cl decode consumer queueURL received s = (r, s')"
  shows "(\<forall>url h ok. CalledDeleteMessage url h ok \<in> set (calls_since s s') \<longrightarrow>
      url = queueURL \<and> h = mg_ReceiptHandle received \<and>
      (\<exists>m. DecodeMessage env decode (mg_Body received) = Inr m \<and> acknowledged consumer m (db (nd_world s')))) \<and>
    (r = Inr SQSResultInvalid \<longrightarrow> s' = s) \<and>
    books_ok (db (nd_world s')) \<and> inbox_unique (db (nd_world s'))"
proof -
  note inv = consumption_kept_invariants [OF handle_database [OF assms] assms(2,3)]
  from assms(4) show ?thesis
  proof (cases rule: handle_cases)
    case invalid
    then show ?thesis using inv by (simp add: calls_since_def)
  next
    case (failed m e s1)
    have c: "calls_since s s' = calls_since s1 s'" using failed(3) by (simp add: calls_since_def)
    from handle_failure_run [OF failed(4)] inv show ?thesis unfolding c by (auto split: if_splits)
  next
    case (consumed m res s1)
    have c: "calls_since s s' = calls_since s1 s'" using consumed(3) by (simp add: calls_since_def)
    have "acknowledged consumer m (db (nd_world s1))"
      using Consume_outcome [OF assms(1-3) consumed(2)] consumed_completes unfolding acknowledged_def by fastforce
    with handle_success_run [OF consumed(4)] inv consumed(1) show ?thesis unfolding c by (auto split: if_splits)
  qed
qed

definition ex_received :: sqs_message where
  "ex_received = \<lparr>mg_ID = ''b1'', mg_Body = ''body'', mg_ReceiptHandle = ''h1'', mg_ReceiveCount = 3\<rparr>"

definition ex_dto :: message_dto where
  "ex_dto = \<lparr>dt_MessageID = ex_uuid 220, dt_Type = MessageTypeWagerRequested, dt_OccurredAt = unix_epoch,
     dt_ProviderID = ''provider'', dt_ExternalTransactionID = ''x1'', dt_IdempotencyKey = ''k1'',
     dt_PlayerID = ex_uuid 201, dt_WalletID = ex_uuid 200, dt_RoundID = ''r1'', dt_GameID = ''g1'',
     dt_Kind = KindBet, dt_Money = \<lparr>md_Amount = ''25.00'', md_Currency = ''BRL''\<rparr>,
     dt_ReferenceExternalTransactionID = []\<rparr>"

definition ex_handled :: "sqs_result result \<times> node" where
  "ex_handled = handle ex_env ex_client (\<lambda>_. Some ex_dto) ''wallet'' ''url'' ex_received ex_node"

lemma ex_node_ok: "books_ok (db (nd_world ex_node))" "inbox_unique (db (nd_world ex_node))"
  using ex_db_books books_ok_cong [of "db (nd_world ex_node)" ex_db]
  by (simp_all add: ex_node_def inbox_unique_def ex_db_def)

theorem handle_acknowledges_committed_witness:
  "books_ok (db (nd_world (snd ex_handled))) \<and> inbox_unique (db (nd_world (snd ex_handled)))"
  using handle_acknowledges_committed [OF ex_env_ok ex_node_ok surjective_pairing] unfolding ex_handled_def by blast

text \<open>
  Property C18. A message whose processing failed stays in the queue, and what is asked of the queue
  depends on the kind of failure. When the consumer is stopping or the deadline has passed, there is
  one request, to show the message again at once. Otherwise, when the error may go away, there is one
  request, to show it again after the delay for the number of times it was received, which is 5 to 300
  seconds. Otherwise, for an error that repeating cannot cure, there is no request at all and the
  message is left to the redrive policy. In no case is it deleted.
\<close>

theorem handle_defers_failures:
  assumes "DecodeMessage env decode (mg_Body received) = Inr m"
    and "Consume env consumer m (nd_world s) = (Inl e, w)"
    and "handle env cl decode consumer queueURL received s = (r, s')"
  shows "r = Inr SQSResultProcessingError \<and>
    (\<exists>seconds ok. 5 \<le> seconds \<and> seconds \<le> 300 \<and> seconds = retryVisibilitySeconds (mg_ReceiveCount received) \<and>
      calls_since s s' =
        (if env_cancelled env (tick w) \<noteq> None
         then [CalledChangeMessageVisibility queueURL (mg_ReceiptHandle received) 0 ok]
         else if retryableProcessingError e
         then [CalledChangeMessageVisibility queueURL (mg_ReceiptHandle received) seconds ok]
         else [])) \<and>
    (\<forall>url h ok. CalledDeleteMessage url h ok \<notin> set (calls_since s s'))"
  using assms(3)
proof (cases rule: handle_cases)
  case (failed m' e' s1)
  with assms(1,2) have e: "e' = e" "nd_world s1 = w" by simp_all
  have c: "calls_since s s' = calls_since s1 s'" using failed(3) by (simp add: calls_since_def)
  have "5 \<le> retryVisibilitySeconds k \<and> retryVisibilitySeconds k \<le> 300" for k
    using visibility.loop_bounds by (simp add: retryVisibilitySeconds_def)
  with handle_failure_run [OF failed(4)] show ?thesis unfolding c e by (auto split: if_splits)
qed (use assms(1,2) in simp_all)

lemma ex_amount: "\<exists>m. ParseNonNegative ''25.00'' ''BRL'' = Inr m"
proof -
  have "parseMinorUnits ''25.00'' = Inr (word_of_int 2500)"
    using parseMinorUnits_amount_text [of "''25''" "''00''" False]
    by (simp add: amount_parts_def amount_text_def amount_value_def is_digit_def in_int64_def dec_val_def
        digit_val_def Let_def)
  then show ?thesis
    by (simp add: ParseNonNegative_def money_Parse_def ParseCurrency_def supportedCurrencies_def currency_Valid_def money_New_def)
qed

lemma ex_trimmed: "trim_space (ex_uuid n) = ex_uuid n"
  using is_uuid_valid_id [OF ex_uuid_is_uuid] by (simp add: valid_id_def)

lemma ex_decoded: "\<exists>m. DecodeMessage ex_env (\<lambda>_. Some ex_dto) (mg_Body ex_received) = Inr m"
  using ex_amount
  by (auto simp: DecodeMessage_def ex_received_def ex_dto_def maxMessageBytes_def Let_def is_zero_time_def
      unix_epoch_def time_second_def ex_trimmed)

lemma ex_decoded_hash: "DecodeMessage ex_env decode body = Inr m \<Longrightarrow> hd (ms_hash m) = 123 \<and> length (ms_hash m) = 32"
proof -
  assume "DecodeMessage ex_env decode body = Inr m"
  then obtain k where m: "ms_hash m = env_sha256 ex_env (canonicalEnvelope k)"
    by (auto simp: DecodeMessage_def Let_def split: if_splits option.splits sum.splits)
  obtain s where "canonicalEnvelope k = CHR ''{'' # s" by (simp add: canonicalEnvelope_def Let_def)
  then show ?thesis by (simp add: m ex_env_def)
qed

text \<open>
  Three failures: without a consumer name the message is refused, which repeating may cure; so when the
  consumer stops; and a message whose identifier was used for other contents is refused for good.
\<close>

definition ex_conflict_db :: database where
  "ex_conflict_db = ex_db\<lparr>inbox := [\<lparr>ir_consumer_name = ''wallet'', ir_message_id = ex_uuid 220,
     ir_payload_hash = replicate 32 9, ir_received_at = unix_epoch, ir_completed_at = None, ir_transaction_id = None\<rparr>]\<rparr>"

definition ex_conflict_node :: node where
  "ex_conflict_node = ex_node\<lparr>nd_world := \<lparr>tick = 0, db = ex_conflict_db\<rparr>\<rparr>"

lemma ex_conflict_claim:
  assumes "h \<noteq> replicate 32 9" "length h = 32"
  shows "inbox_Claim ex_env ''wallet'' (ex_uuid 220) h t \<lparr>tick = n, db = ex_conflict_db\<rparr> =
    (Inl (Sentinel ingestion_ErrMessageConflict), \<lparr>tick = n + 2, db = ex_conflict_db\<rparr>)"
proof -
  have "inbox ex_conflict_db = [\<lparr>ir_consumer_name = ''wallet'', ir_message_id = ex_uuid 220,
     ir_payload_hash = replicate 32 9, ir_received_at = unix_epoch, ir_completed_at = None, ir_transaction_id = None\<rparr>]"
    by (simp add: ex_conflict_db_def)
  moreover have "env_fault ex_env k = None" for k by (simp add: ex_env_def)
  ultimately show ?thesis
    using assms by (simp add: inbox_Claim_def io_try_def exec_def query_def sql_def insert_inbox_or_ignore_def inbox_checks_def step_def)
qed

lemma ex_conflict:
  assumes "DecodeMessage ex_env (\<lambda>_. Some ex_dto) (mg_Body ex_received) = Inr m"
  shows "\<exists>w. Consume ex_env ''wallet'' m (nd_world ex_conflict_node) = (Inl (Sentinel ingestion_ErrMessageConflict), w)"
proof -
  have i: "ms_ID m = ex_uuid 220"
    using assms by (auto simp: DecodeMessage_def ex_dto_def Let_def split: if_splits sum.splits)
  have h: "ms_hash m \<noteq> replicate 32 9" "ms_hash m \<noteq> zero_hash" "length (ms_hash m) = 32"
    using ex_decoded_hash [OF assms] by (auto simp: zero_hash_def)
  have "valid_id ''wallet''" by (rule valid_id_graphic) (simp_all add: is_ascii_graphic_def)
  then have t: "trim_space ''wallet'' = ''wallet''" by (simp add: valid_id_def)
  have "consume_in_session (wager_service ex_env) ''wallet'' m (ingestionSession ex_env) \<lparr>tick = Suc 0, db = ex_conflict_db\<rparr> =
      (Inl (Sentinel ingestion_ErrMessageConflict), \<lparr>tick = 4, db = ex_conflict_db\<rparr>)"
    using ex_conflict_claim [OF h(1,3)]
    by (simp add: consume_in_session_def ingestionSession_def io_try_def wager_service_def time_Now_def step_def i)
  moreover have "env_fault ex_env k = None" "env_commit ex_env k = None" for k by (simp_all add: ex_env_def)
  ultimately have "\<exists>w. ReadCommitted ex_env (consume_in_session (wager_service ex_env) ''wallet'' m (ingestionSession ex_env))
      (nd_world ex_conflict_node) = (Inl (Sentinel ingestion_ErrMessageConflict), w)"
    by (simp add: ReadCommitted_def within_def ex_conflict_node_def step_def rollback_error_def)
  then show ?thesis
    using i h(2) t
    by (auto simp: Consume_def IngestionStore_WithinTransaction_def ReadCommittedWithRetry_def numeral_3_eq_3 io_catch_def identity_race_def
      retryableTransactionAbort_def)
qed

theorem handle_defers_failures_witness:
  "(\<exists>s ok. handle ex_env ex_client (\<lambda>_. Some ex_dto) [] ''url'' ex_received ex_node = (Inr SQSResultProcessingError, s) \<and>
      calls_since ex_node s = [CalledChangeMessageVisibility ''url'' ''h1'' 20 ok]) \<and>
   (\<exists>s ok. handle (ex_env\<lparr>env_cancelled := \<lambda>_. Some ContextCanceled\<rparr>) ex_client (\<lambda>_. Some ex_dto) [] ''url'' ex_received ex_node =
        (Inr SQSResultProcessingError, s) \<and>
      calls_since ex_node s = [CalledChangeMessageVisibility ''url'' ''h1'' 0 ok]) \<and>
   (\<exists>s. handle ex_env ex_client (\<lambda>_. Some ex_dto) ''wallet'' ''url'' ex_received ex_conflict_node = (Inr SQSResultProcessingError, s) \<and>
      calls_since ex_conflict_node s = [])"
proof (intro conjI)
  obtain m where m: "DecodeMessage ex_env (\<lambda>_. Some ex_dto) (mg_Body ex_received) = Inr m" using ex_decoded by blast
  have c: "Consume env [] m w = (Inl (Sentinel ingestion_ErrInvalidConsumer), w)" for env w by (simp add: Consume_def)
  have r: "retryableProcessingError (Sentinel ingestion_ErrInvalidConsumer)"
    "\<not> retryableProcessingError (Sentinel ingestion_ErrMessageConflict)" by (simp_all add: retryableProcessingError_def)
  have k: "mg_ReceiptHandle ex_received = ''h1''" "retryVisibilitySeconds (mg_ReceiveCount ex_received) = 20"
    by (simp_all add: ex_received_def retryVisibilitySeconds_def visibility.loop_value)
  have stop: "env_cancelled ex_env n = None" for n by (simp add: ex_env_def)
  have sha: "env_sha256 (ex_env\<lparr>env_cancelled := c\<rparr>) = env_sha256 ex_env" for c by simp
  show "\<exists>s ok. handle ex_env ex_client (\<lambda>_. Some ex_dto) [] ''url'' ex_received ex_node = (Inr SQSResultProcessingError, s) \<and>
      calls_since ex_node s = [CalledChangeMessageVisibility ''url'' ''h1'' 20 ok]"
    using handle_defers_failures [OF m c surjective_pairing, of ex_client "''url''" ex_node] r(1) k
    by (auto simp: stop prod_eq_iff)
  have "DecodeMessage (ex_env\<lparr>env_cancelled := \<lambda>_. Some ContextCanceled\<rparr>) (\<lambda>_. Some ex_dto) (mg_Body ex_received) = Inr m"
    using m unfolding DecodeMessage_def sha .
  from handle_defers_failures [OF this c surjective_pairing, of ex_client "''url''" ex_node] k
  show "\<exists>s ok. handle (ex_env\<lparr>env_cancelled := \<lambda>_. Some ContextCanceled\<rparr>) ex_client (\<lambda>_. Some ex_dto) [] ''url'' ex_received ex_node =
        (Inr SQSResultProcessingError, s) \<and>
      calls_since ex_node s = [CalledChangeMessageVisibility ''url'' ''h1'' 0 ok]"
    by (auto simp: prod_eq_iff)
  obtain w where "Consume ex_env ''wallet'' m (nd_world ex_conflict_node) = (Inl (Sentinel ingestion_ErrMessageConflict), w)"
    using ex_conflict [OF m] by blast
  from handle_defers_failures [OF m this surjective_pairing, of ex_client "''url''"] r(2)
  show "\<exists>s. handle ex_env ex_client (\<lambda>_. Some ex_dto) ''wallet'' ''url'' ex_received ex_conflict_node = (Inr SQSResultProcessingError, s) \<and>
      calls_since ex_conflict_node s = []"
    by (auto simp: stop prod_eq_iff)
qed

end
