(* ===== verification/System.thy ===== *)
theory System
  imports Wallet_Service Reconciliation Reference Consumer
begin

text \<open>
  The system as a whole: any number of replicas that submit wagers, open wallets, consume messages,
  resume waiting transactions and publish events, one committed operation at a time, on one database
  and one output queue. Each operation is shown to be a sequence of four kinds of change to the
  tables, \<open>books_step\<close>, and the invariants of the system and what no operation ever undoes are
  proved for those.
\<close>

section \<open>Changes of the tables\<close>

inductive books_step :: "database \<Rightarrow> database \<Rightarrow> bool" where
  books_settle: "settled g d d' \<Longrightarrow> books_step d d'"
| books_open: "opened r d d' \<Longrightarrow> books_step d d'"
| books_touch: "touched g0 g d d' \<Longrightarrow> books_step d d'"
| books_inbox: "inbox_taken consumer m t (inbox d) rows \<Longrightarrow> books_step d (d\<lparr>inbox := rows\<rparr>)"

inductive_cases books_stepE: "books_step d d'"

lemma submitted_steps: "submitted hash input res d d' \<Longrightarrow> books_step\<^sup>*\<^sup>* d d'"
  by (auto simp: submitted_def Let_def intro: books_settle split: if_splits)

lemma settled_other_inbox:
  assumes "settled g (d\<lparr>inbox := rows\<rparr>) (d'\<lparr>inbox := rows\<rparr>)"
  shows "settled g d (d'\<lparr>inbox := inbox d\<rparr>)"
  using assms unfolding settled_def recorded_def wager_written_def balance_moved_def queued_def
  by (simp cong: if_cong)

lemma consumed_steps:
  assumes "consumed hash consumer m res d d'"
  shows "books_step\<^sup>*\<^sup>* d d'"
proof (cases "co_Duplicate res")
  case True
  with assms show ?thesis by (simp add: consumed_def)
next
  case False
  let ?d = "d'\<lparr>inbox := inbox d\<rparr>"
  from False assms obtain rows where
    sub: "submitted hash (ms_Input m) (co_WagerResult res) (d\<lparr>inbox := rows\<rparr>) (d'\<lparr>inbox := rows\<rparr>)"
    and taken: "inbox_taken consumer m (t_id (sr_Transaction (co_WagerResult res))) (inbox ?d) (inbox d')"
    by (auto simp: consumed_def Let_def)
  have "books_step\<^sup>*\<^sup>* d ?d"
  proof (cases "sr_Replay (co_WagerResult res)")
    case True
    with sub have "d'\<lparr>inbox := rows\<rparr> = d\<lparr>inbox := rows\<rparr>" by (simp add: submitted_def)
    then have "d'\<lparr>inbox := rows\<rparr>\<lparr>inbox := inbox d\<rparr> = d\<lparr>inbox := rows\<rparr>\<lparr>inbox := inbox d\<rparr>" by simp
    then show ?thesis by simp
  next
    case False
    with sub obtain g where "settled g (d\<lparr>inbox := rows\<rparr>) (d'\<lparr>inbox := rows\<rparr>)"
      by (auto simp: submitted_def Let_def)
    then show ?thesis using settled_other_inbox books_settle by blast
  qed
  also have "books_step ?d d'" using books_inbox [OF taken] by simp
  finally show ?thesis .
qed

lemma leased_steps: "leased env lease k d d' \<Longrightarrow> books_step d d'"
  unfolding leased_def using books_touch by blast

lemma reference_step_steps: "reference_step env c outcome d d' \<Longrightarrow> books_step\<^sup>*\<^sup>* d d'"
  by (auto simp: reference_step_def intro: books_touch books_settle split: ref_outcome.splits)

section \<open>The invariant\<close>

text \<open>
  Every transaction is announced in the outbox, with its current status and its movement, and so is
  every ledger entry.
\<close>

definition all_announced :: "database \<Rightarrow> bool" where
  "all_announced d \<longleftrightarrow>
     (\<forall>g \<in> set (wagers d). announced g (outbox d)) \<and> (\<forall>e \<in> set (ledger d). entry_announced e (outbox d))"

definition tables_ok :: "database \<Rightarrow> bool" where
  "tables_ok d \<longleftrightarrow> books_ok d \<and> inbox_unique d \<and> all_announced d"

lemma tables_ok_empty: "tables_ok empty_database"
  using books_ok_empty by (simp add: tables_ok_def inbox_unique_def all_announced_def empty_database_def)

lemma announced_queued:
  assumes "queued xs d d'"
  shows "announced g (outbox d) \<or> announced g xs \<Longrightarrow> announced g (outbox d')"
    and "entry_announced e (outbox d) \<or> entry_announced e xs \<Longrightarrow> entry_announced e (outbox d')"
  using assms announced_append entry_announced_append by (auto simp: queued_def)

lemma settled_announced:
  assumes "settled g d d'" "all_announced d"
  shows "all_announced d'"
  unfolding all_announced_def
proof (intro conjI ballI)
  from assms(1) obtain xs where xs: "queued xs d d'" "announced g xs"
    "\<forall>e \<in> set (ledger d'). e \<in> set (ledger d) \<or> entry_announced e xs" by (auto simp: settled_def)
  show "announced q (outbox d')" if "q \<in> set (wagers d')" for q
  proof -
    from that have "q = g \<or> q \<in> set (wagers d)" using wager_written_cases [OF settled_written [OF assms(1)]] by blast
    then show ?thesis using xs assms(2) announced_queued(1) unfolding all_announced_def by blast
  qed
  show "entry_announced e (outbox d')" if "e \<in> set (ledger d')" for e
    using that xs assms(2) announced_queued(2) unfolding all_announced_def by blast
qed

lemma same_but_schedule_announced: "same_but_schedule g0 g \<Longrightarrow> announced g xs \<longleftrightarrow> announced g0 xs"
proof -
  assume g: "same_but_schedule g0 g"
  have "states_transaction v g \<longleftrightarrow> states_transaction v g0" for v
    using g by (cases v) (auto simp: same_but_schedule_def)
  then have "announces g = announces g0" "announces_movement g = announces_movement g0" "moves_money g = moves_money g0"
    using g by (auto simp: fun_eq_iff same_but_schedule_def announces_def announces_movement_def moves_money_def)
  then show ?thesis by (simp add: announced_def)
qed

lemma touched_announced:
  assumes "touched g0 g d d'" "all_announced d"
  shows "all_announced d'"
  using assms same_but_schedule_announced by (auto simp: touched_def all_announced_def)

lemma opened_announced:
  assumes "opened r d d'" "all_announced d"
  shows "all_announced d'"
proof (cases "wr_balance_minor r = 0")
  case True
  with assms show ?thesis by (simp add: opened_def all_announced_def)
next
  case False
  with assms(1) obtain g e xs where "queued xs d d'" "announced g xs" "wagers d' = wagers d @ [g]"
    "entry_announced e xs" "ledger d' = ledger d @ [e]"
    by (auto simp: opened_def)
  then show ?thesis using assms(2) announced_queued by (auto simp: all_announced_def)
qed

lemma inbox_taken_unique:
  assumes "inbox_taken consumer m t (inbox d) rows" "inbox_unique d"
  shows "inbox_unique (d\<lparr>inbox := rows\<rparr>)"
  using assms by (fastforce simp: inbox_taken_def inbox_unique_def keyed_def)

lemma inbox_unique_cong: "inbox d' = inbox d \<Longrightarrow> inbox_unique d' \<longleftrightarrow> inbox_unique d"
  by (simp add: inbox_unique_def)

lemma books_step_ok:
  assumes "books_step d d'" "tables_ok d"
  shows "tables_ok d'"
  using assms
proof (induction rule: books_step.induct)
  case (books_settle g d d')
  have "inbox d' = inbox d" using settled_recorded [OF books_settle.hyps] by (simp add: recorded_def)
  with books_settle show ?case
    using settled_books settled_announced inbox_unique_cong unfolding tables_ok_def by blast
next
  case (books_open r d d')
  have "inbox d' = inbox d" using books_open.hyps by (simp add: opened_def)
  with books_open show ?case
    using opened_books opened_announced inbox_unique_cong unfolding tables_ok_def by blast
next
  case (books_touch g0 g d d')
  then have r: "recorded g d d'" using touched_recorded(1) by (simp add: tables_ok_def books_ok_def)
  then have "inbox d' = inbox d" by (simp add: recorded_def)
  with r books_touch show ?case
    using recorded_books touched_announced inbox_unique_cong unfolding tables_ok_def by blast
next
  case (books_inbox consumer m t d rows)
  then show ?case
    using inbox_taken_unique books_ok_cong [of "d\<lparr>inbox := rows\<rparr>" d]
    by (simp add: tables_ok_def all_announced_def)
qed

text \<open>A change of the tables only queues events.\<close>

lemma queued_same: "outbox d' = outbox d \<Longrightarrow> \<exists>xs. queued xs d d'"
  by (rule exI [of _ "[]"]) (simp add: queued_def)

lemma books_step_queued:
  assumes "books_step d d'"
  shows "\<exists>xs. queued xs d d'"
  using assms
proof (induction rule: books_step.induct)
  case (books_open r d d')
  then show ?case by (cases "wr_balance_minor r = 0") (auto simp: opened_def queued_same)
next
  case (books_touch g0 g d d')
  then show ?case by (auto simp: touched_def queued_same)
next
  case (books_inbox consumer m t d rows)
  show ?case by (rule queued_same) simp
qed (auto simp: settled_def)

section \<open>What is never undone\<close>

text \<open>
  Ledger entries are only appended; a transaction keeps its identity and request, and once it has
  left the state of waiting it never changes; completed messages stay completed; wallets stay,
  with their owner, currency and a version that never decreases.
\<close>

definition wager_kept :: "wager_row \<Rightarrow> wager_row \<Rightarrow> bool" where
  "wager_kept g g' \<longleftrightarrow>
     gr_id g' = gr_id g \<and> gr_origin g' = gr_origin g \<and> wager_identity g' = wager_identity g \<and>
     (gr_status g \<noteq> StatusPendingReference \<longrightarrow> g' = g)"

definition wallet_kept :: "wallet_row \<Rightarrow> wallet_row \<Rightarrow> bool" where
  "wallet_kept r r' \<longleftrightarrow>
     wr_id r' = wr_id r \<and> wr_player_id r' = wr_player_id r \<and> wr_currency r' = wr_currency r \<and>
     sint (wr_version r) \<le> sint (wr_version r')"

definition history_kept :: "database \<Rightarrow> database \<Rightarrow> bool" where
  "history_kept d d' \<longleftrightarrow>
     prefix (ledger d) (ledger d') \<and>
     (\<forall>g \<in> set (wagers d). \<exists>g' \<in> set (wagers d'). wager_kept g g') \<and>
     (\<forall>r \<in> set (wallets d). \<exists>r' \<in> set (wallets d'). wallet_kept r r') \<and>
     (\<forall>q \<in> set (inbox d). ir_completed_at q \<noteq> None \<longrightarrow> q \<in> set (inbox d'))"

lemma wager_kept_refl: "wager_kept g g"
  by (simp add: wager_kept_def)

lemma wager_kept_trans: "wager_kept a b \<Longrightarrow> wager_kept b c \<Longrightarrow> wager_kept a c"
  unfolding wager_kept_def by metis

lemma wallet_kept_refl: "wallet_kept r r"
  by (simp add: wallet_kept_def)

lemma history_kept_refl: "history_kept d d"
  using wager_kept_refl wallet_kept_refl unfolding history_kept_def by blast

lemma history_kept_trans:
  assumes "history_kept d d1" "history_kept d1 d'"
  shows "history_kept d d'"
  unfolding history_kept_def
proof (intro conjI ballI)
  show "prefix (ledger d) (ledger d')"
    using assms prefix_order.order_trans unfolding history_kept_def by blast
  show "\<exists>g' \<in> set (wagers d'). wager_kept g g'" if "g \<in> set (wagers d)" for g
    using that assms wager_kept_trans unfolding history_kept_def by meson
  show "\<exists>r' \<in> set (wallets d'). wallet_kept r r'" if "r \<in> set (wallets d)" for r
  proof -
    from that assms obtain a b where "wallet_kept r a" "wallet_kept a b" "b \<in> set (wallets d')"
      unfolding history_kept_def by meson
    then show ?thesis by (auto simp: wallet_kept_def)
  qed
  show "ir_completed_at q \<noteq> None \<longrightarrow> q \<in> set (inbox d')" if "q \<in> set (inbox d)" for q
    using that assms unfolding history_kept_def by blast
qed

lemma wager_written_kept:
  assumes "wager_written g d d'" "q \<in> set (wagers d)"
  shows "\<exists>q' \<in> set (wagers d'). wager_kept q q'"
  using assms wager_kept_refl by (fastforce simp: wager_written_def wager_kept_def)

lemma balance_moved_kept:
  assumes "balance_moved g d d'"
  shows "prefix (ledger d) (ledger d') \<and> (\<forall>r \<in> set (wallets d). \<exists>r' \<in> set (wallets d'). wallet_kept r r')"
proof -
  from assms obtain xs r ys r' e where w: "wallets d = xs @ r # ys" "wallets d' = xs @ r' # ys"
    "ledger d' = ledger d @ [e]" and k: "wallet_kept r r'"
    unfolding balance_moved_def wallet_kept_def by fastforce
  then show ?thesis using wallet_kept_refl by fastforce
qed

lemma recorded_kept:
  assumes "recorded g d d'"
  shows "history_kept d d'"
proof -
  have "prefix (ledger d) (ledger d') \<and> (\<forall>r \<in> set (wallets d). \<exists>r' \<in> set (wallets d'). wallet_kept r r')"
  proof (cases "moves_money g")
    case True
    then have "balance_moved g d d'" using assms by (simp add: recorded_def)
    then show ?thesis by (rule balance_moved_kept)
  next
    case False
    then have "wallets d' = wallets d" "ledger d' = ledger d" using assms by (simp_all add: recorded_def)
    then show ?thesis using wallet_kept_refl by (metis prefix_order.order_refl)
  qed
  moreover have "wager_written g d d'" "inbox d' = inbox d" using assms by (simp_all add: recorded_def)
  ultimately show ?thesis using wager_written_kept unfolding history_kept_def by metis
qed

lemma opened_kept:
  assumes "opened r d d'"
  shows "history_kept d d'"
proof -
  have "set (wagers d) \<subseteq> set (wagers d')" "set (wallets d) \<subseteq> set (wallets d')" "prefix (ledger d) (ledger d')"
    "inbox d' = inbox d"
    using assms by (auto simp: opened_def split: if_splits)
  then show ?thesis using wager_kept_refl wallet_kept_refl unfolding history_kept_def by (metis subsetD)
qed

lemma inbox_taken_kept:
  assumes "inbox_taken consumer m t rows rows'" "q \<in> set rows" "ir_completed_at q \<noteq> None"
  shows "q \<in> set rows'"
  using assms unfolding inbox_taken_def by auto

lemma books_step_kept:
  assumes "books_step d d'" "tables_ok d"
  shows "history_kept d d'"
  using assms
proof (induction rule: books_step.induct)
  case (books_settle g d d')
  then show ?case using recorded_kept settled_recorded by blast
next
  case (books_open r d d')
  then show ?case using opened_kept by blast
next
  case (books_touch g0 g d d')
  then have "wagers_unique (wagers d)" by (simp add: tables_ok_def books_ok_def)
  with books_touch.hyps show ?case using touched_recorded(1) recorded_kept by blast
next
  case (books_inbox consumer m t d rows)
  have "prefix (ledger d) (ledger (d\<lparr>inbox := rows\<rparr>))" "wagers (d\<lparr>inbox := rows\<rparr>) = wagers d"
    "wallets (d\<lparr>inbox := rows\<rparr>) = wallets d" "inbox (d\<lparr>inbox := rows\<rparr>) = rows"
    by simp_all
  then show ?case
    using inbox_taken_kept [OF books_inbox.hyps] wager_kept_refl wallet_kept_refl
    unfolding history_kept_def by metis
qed

lemma books_steps:
  assumes "books_step\<^sup>*\<^sup>* d d'" "tables_ok d"
  shows "tables_ok d' \<and> history_kept d d' \<and> (\<exists>xs. queued xs d d')"
  using assms
proof (induction rule: rtranclp_induct)
  case base
  then show ?case by (simp add: history_kept_refl queued_same)
next
  case (step d1 d')
  then obtain xs ys where q: "queued xs d d1" "queued ys d1 d'" using books_step_queued by blast
  have "queued (xs @ ys) d d'" using q unfolding queued_def by auto
  then show ?case
    using step books_step_ok books_step_kept history_kept_trans by blast
qed

section \<open>The system\<close>

text \<open>
  A step of the system: some replica runs one operation that commits at most once. Every replica
  has its own environment (clocks, identifiers, failures of the database). A worker confirms a
  claim that it holds only after the queue has accepted its message, as in \<open>outbox_ProcessOne\<close>.
\<close>

definition claims_after :: "outbox_event option result \<Rightarrow> outbox_event list \<Rightarrow> outbox_event list" where
  "claims_after r cs = (case r of Inr (Some event) \<Rightarrow> event # cs | _ \<Rightarrow> cs)"

inductive system_step :: "(json \<Rightarrow> string) \<Rightarrow> delivery \<Rightarrow> delivery \<Rightarrow> bool" for jsonb where
  sys_submit: "env_ok env \<Longrightarrow> Submit env input w = (r, w') \<Longrightarrow>
    system_step jsonb \<lparr>dl_db = db w, dl_sent = m, dl_claims = cs\<rparr> \<lparr>dl_db = db w', dl_sent = m, dl_claims = cs\<rparr>"
| sys_open: "env_ok env \<Longrightarrow> Open env oi w = (ra, w') \<Longrightarrow>
    system_step jsonb \<lparr>dl_db = db w, dl_sent = m, dl_claims = cs\<rparr> \<lparr>dl_db = db w', dl_sent = m, dl_claims = cs\<rparr>"
| sys_consume: "env_ok env \<Longrightarrow> Consume env consumer msg w = (rc, w') \<Longrightarrow>
    system_step jsonb \<lparr>dl_db = db w, dl_sent = m, dl_claims = cs\<rparr> \<lparr>dl_db = db w', dl_sent = m, dl_claims = cs\<rparr>"
| sys_lease: "env_ok env \<Longrightarrow> ReferenceStore_Claim env lease w = (rl, w') \<Longrightarrow>
    system_step jsonb \<lparr>dl_db = db w, dl_sent = m, dl_claims = cs\<rparr> \<lparr>dl_db = db w', dl_sent = m, dl_claims = cs\<rparr>"
| sys_resume: "env_ok env \<Longrightarrow> ReferenceStore_WithinTransaction env (process_claim env c) w = (ro, w') \<Longrightarrow>
    system_step jsonb \<lparr>dl_db = db w, dl_sent = m, dl_claims = cs\<rparr> \<lparr>dl_db = db w', dl_sent = m, dl_claims = cs\<rparr>"
| sys_claim: "OutboxStore_Claim env jsonb lease w = (rx, w') \<Longrightarrow>
    system_step jsonb \<lparr>dl_db = db w, dl_sent = m, dl_claims = cs\<rparr>
      \<lparr>dl_db = db w', dl_sent = m, dl_claims = claims_after rx cs\<rparr>"
| sys_send: "event \<in> set cs \<Longrightarrow>
    system_step jsonb \<lparr>dl_db = d, dl_sent = m, dl_claims = cs\<rparr>
      \<lparr>dl_db = d, dl_sent = m @ [event_message event], dl_claims = cs\<rparr>"
| sys_confirm: "event \<in> set cs \<Longrightarrow> event_message event \<in> set m \<Longrightarrow> OutboxStore_Confirm env event w = (ru, w') \<Longrightarrow>
    system_step jsonb \<lparr>dl_db = db w, dl_sent = m, dl_claims = cs\<rparr> \<lparr>dl_db = db w', dl_sent = m, dl_claims = cs\<rparr>"
| sys_retry: "event \<in> set cs \<Longrightarrow> OutboxStore_Retry env event at reason w = (ru, w') \<Longrightarrow>
    system_step jsonb \<lparr>dl_db = db w, dl_sent = m, dl_claims = cs\<rparr> \<lparr>dl_db = db w', dl_sent = m, dl_claims = cs\<rparr>"

definition system_ok :: "(json \<Rightarrow> string) \<Rightarrow> delivery \<Rightarrow> bool" where
  "system_ok jsonb s \<longleftrightarrow> tables_ok (dl_db s) \<and> delivery_ok jsonb s"

definition empty_system :: delivery where
  "empty_system = \<lparr>dl_db = empty_database, dl_sent = [], dl_claims = []\<rparr>"

lemma system_ok_empty: "system_ok jsonb empty_system"
  using tables_ok_empty
  by (simp add: system_ok_def empty_system_def delivery_ok_def published_sent_def outbox_unique_def empty_database_def)

text \<open>The operations on the tables are sequences of \<open>books_step\<close>.\<close>

lemma tables_ok_parts: "tables_ok d \<Longrightarrow> books_ok d \<and> inbox_unique d \<and> wagers_unique (wagers d)"
  by (simp add: tables_ok_def books_ok_def)

lemma Submit_steps:
  assumes "env_ok env" "Submit env input w = (r, w')" "tables_ok (db w)"
  shows "books_step\<^sup>*\<^sup>* (db w) (db w')"
proof -
  have b: "books_ok (db w)" using assms(3) by (simp add: tables_ok_def)
  show ?thesis
    using Submit_outcome [OF assms(1) b assms(2)] submitted_steps
    by (cases r) (auto dest: submitted_steps)
qed

lemma Open_steps:
  assumes "env_ok env" "Open env input w = (r, w')"
  shows "books_step\<^sup>*\<^sup>* (db w) (db w')"
  using Open_outcome [OF assms] by (cases r) (auto simp: open_outcome_def intro: books_open)

lemma Consume_steps:
  assumes "env_ok env" "Consume env consumer msg w = (r, w')" "tables_ok (db w)"
  shows "books_step\<^sup>*\<^sup>* (db w) (db w')"
proof -
  have b: "books_ok (db w)" "inbox_unique (db w)" using assms(3) by (simp_all add: tables_ok_def)
  show ?thesis using Consume_outcome [OF assms(1) b assms(2)] by (cases r) (auto dest: consumed_steps)
qed

lemma Reference_Claim_steps:
  assumes "env_ok env" "ReferenceStore_Claim env lease w = (r, w')" "tables_ok (db w)"
  shows "books_step\<^sup>*\<^sup>* (db w) (db w')"
  using ReferenceStore_Claim_outcome [OF assms(1,2)] tables_ok_parts [OF assms(3)]
  by (auto split: sum.splits option.splits dest!: leased_steps)

lemma Reference_resume_steps:
  assumes "env_ok env" "ReferenceStore_WithinTransaction env (process_claim env c) w = (r, w')" "tables_ok (db w)"
  shows "books_step\<^sup>*\<^sup>* (db w) (db w')"
  using ReferenceStore_transaction_outcome [OF assms(1,2)] tables_ok_parts [OF assms(3)]
  by (auto split: sum.splits dest: reference_step_steps)

text \<open>The operations on the outbox change nothing else, and keep the announcements.\<close>

lemma stored_event_snapshot: "outbox_snapshot y = outbox_snapshot x \<Longrightarrow> stored_event v y \<longleftrightarrow> stored_event v x"
  by (simp add: stored_event_def outbox_snapshot_def)

lemma announced_evolves:
  assumes "outbox_evolves xs ys"
  shows "announced g xs \<Longrightarrow> announced g ys" and "entry_announced e xs \<Longrightarrow> entry_announced e ys"
proof -
  have k: "list_ex P ys" if "list_ex P xs" and "\<And>x y. outbox_snapshot y = outbox_snapshot x \<Longrightarrow> P x \<Longrightarrow> P y" for P
    using that evolves_snapshot [OF assms] unfolding list_ex_iff by metis
  have cols: "xr_aggregate_id y = xr_aggregate_id x" "xr_event_type y = xr_event_type x" "stored_event v y \<longleftrightarrow> stored_event v x"
    if "outbox_snapshot y = outbox_snapshot x" for x y v
    using that stored_event_snapshot [OF that] by (simp_all add: outbox_snapshot_def)
  have "announces g y \<longleftrightarrow> announces g x" "announces_movement g y \<longleftrightarrow> announces_movement g x"
    "announces_entry e y \<longleftrightarrow> announces_entry e x" if "outbox_snapshot y = outbox_snapshot x" for x y g e
    by (simp_all add: announces_def announces_movement_def announces_entry_def cols [OF that])
  then show "announced g xs \<Longrightarrow> announced g ys" "entry_announced e xs \<Longrightarrow> entry_announced e ys"
    using k [of "announces g"] k [of "announces_movement g"] k [of "announces_entry e"]
    unfolding announced_def entry_announced_def by blast+
qed

lemma row_changed_tables:
  assumes "row_changed f r d d'" "outbox_evolves (outbox d) (outbox d')" "tables_ok d"
  shows "tables_ok d' \<and> history_kept d d'"
proof -
  have same: "wallets d' = wallets d" "wagers d' = wagers d" "ledger d' = ledger d" "inbox d' = inbox d"
    using assms(1) by (auto simp: row_changed_def)
  have "all_announced d'"
    using assms(3) announced_evolves [OF assms(2)] unfolding tables_ok_def all_announced_def same by blast
  moreover have "books_ok d'" "inbox_unique d'"
    using assms(3) books_ok_cong [of d' d] inbox_unique_cong [of d' d] same by (simp_all add: tables_ok_def)
  ultimately show ?thesis
    using same wager_kept_refl wallet_kept_refl unfolding tables_ok_def history_kept_def
    by (metis prefix_order.order_refl)
qed

lemma event_changed_tables:
  "event_leased jsonb event d d' \<Longrightarrow> tables_ok d \<Longrightarrow> tables_ok d' \<and> history_kept d d'"
  "event_confirmed event d d' \<Longrightarrow> tables_ok d \<Longrightarrow> tables_ok d' \<and> history_kept d d'"
  "event_retried event d d' \<Longrightarrow> tables_ok d \<Longrightarrow> tables_ok d' \<and> history_kept d d'"
  using row_changed_tables event_leased_evolves event_updates_evolve
  by (meson event_leased_def event_confirmed_def event_retried_def)+

text \<open>What a step keeps: everything of the history, and the rows of the outbox.\<close>

definition system_kept :: "delivery \<Rightarrow> delivery \<Rightarrow> bool" where
  "system_kept s s' \<longleftrightarrow>
     history_kept (dl_db s) (dl_db s') \<and> outbox_evolves (outbox (dl_db s)) (outbox (dl_db s')) \<and>
     prefix (dl_sent s) (dl_sent s')"

lemma system_kept_refl: "system_kept s s"
  by (simp add: system_kept_def history_kept_refl outbox_evolves_refl)

lemma system_kept_trans: "system_kept s t \<Longrightarrow> system_kept t u \<Longrightarrow> system_kept s u"
  unfolding system_kept_def by (meson history_kept_trans outbox_evolves_trans prefix_order.order_trans)

lemma books_steps_system:
  assumes "books_step\<^sup>*\<^sup>* d d'" "system_ok jsonb \<lparr>dl_db = d, dl_sent = m, dl_claims = cs\<rparr>"
  shows "system_ok jsonb \<lparr>dl_db = d', dl_sent = m, dl_claims = cs\<rparr> \<and>
    system_kept \<lparr>dl_db = d, dl_sent = m, dl_claims = cs\<rparr> \<lparr>dl_db = d', dl_sent = m, dl_claims = cs\<rparr>"
proof -
  from assms(2) have t: "tables_ok d" and o: "delivery_ok jsonb \<lparr>dl_db = d, dl_sent = m, dl_claims = cs\<rparr>"
    by (simp_all add: system_ok_def)
  from books_steps [OF assms(1) t] obtain xs where
    b: "tables_ok d'" "history_kept d d'" and q: "queued xs d d'" by blast
  from delivery_step_ok [OF deliver_queue [OF q] o] queued_evolves [OF q] b show ?thesis
    by (simp add: system_ok_def system_kept_def)
qed

lemma outbox_step_system:
  assumes "delivery_step jsonb \<lparr>dl_db = d, dl_sent = m, dl_claims = cs\<rparr> \<lparr>dl_db = d', dl_sent = m', dl_claims = cs'\<rparr>"
    and "system_ok jsonb \<lparr>dl_db = d, dl_sent = m, dl_claims = cs\<rparr>" "tables_ok d' \<and> history_kept d d'" "prefix m m'"
  shows "system_ok jsonb \<lparr>dl_db = d', dl_sent = m', dl_claims = cs'\<rparr> \<and>
    system_kept \<lparr>dl_db = d, dl_sent = m, dl_claims = cs\<rparr> \<lparr>dl_db = d', dl_sent = m', dl_claims = cs'\<rparr>"
  using delivery_step_ok [OF assms(1)] delivery_step_evolves [OF assms(1)] assms(2-4)
  by (simp add: system_ok_def system_kept_def)

text \<open>Fewer claims are fine: a worker that never heard of its lease.\<close>

lemma system_ok_fewer_claims:
  assumes "system_ok jsonb \<lparr>dl_db = d, dl_sent = m, dl_claims = event # cs\<rparr>"
  shows "system_ok jsonb \<lparr>dl_db = d, dl_sent = m, dl_claims = cs\<rparr>"
  using assms by (simp add: system_ok_def delivery_ok_def published_sent_def)

lemma claim_system:
  assumes ok: "system_ok jsonb \<lparr>dl_db = d, dl_sent = m, dl_claims = cs\<rparr>" and res: "claim_result jsonb r d d'"
  shows "system_ok jsonb \<lparr>dl_db = d', dl_sent = m, dl_claims = claims_after r cs\<rparr> \<and>
    system_kept \<lparr>dl_db = d, dl_sent = m, dl_claims = cs\<rparr> \<lparr>dl_db = d', dl_sent = m, dl_claims = claims_after r cs\<rparr>"
proof -
  have t: "tables_ok d" using ok by (simp add: system_ok_def)
  have lease: "system_ok jsonb \<lparr>dl_db = d', dl_sent = m, dl_claims = event # cs\<rparr> \<and>
      system_kept \<lparr>dl_db = d, dl_sent = m, dl_claims = cs\<rparr> \<lparr>dl_db = d', dl_sent = m, dl_claims = event # cs\<rparr>"
    if "event_leased jsonb event d d'" for event
    by (rule outbox_step_system [OF deliver_claim [OF that] ok event_changed_tables(1) [OF that t]]) simp
  have same: "system_kept s \<lparr>dl_db = d', dl_sent = m, dl_claims = cs\<rparr>"
    if "system_kept s \<lparr>dl_db = d', dl_sent = m, dl_claims = event # cs\<rparr>" for s event
    using that by (simp add: system_kept_def)
  consider (idle) "r = Inr None" "d' = d" | (leased) event where "r = Inr (Some event)" "event_leased jsonb event d d'"
    | (lost) e where "r = Inl e" "d' = d \<or> (\<exists>event. event_leased jsonb event d d')"
    using res unfolding claim_result_def by (cases r) (auto split: option.splits)
  then show ?thesis
  proof cases
    case idle
    then show ?thesis using ok system_kept_refl by (simp add: claims_after_def)
  next
    case leased
    then show ?thesis using lease by (simp add: claims_after_def)
  next
    case lost
    then show ?thesis
      using ok lease same system_kept_refl system_ok_fewer_claims unfolding claims_after_def by (metis sum.simps(5))
  qed
qed

lemma system_step_ok:
  assumes "system_step jsonb s s'" "system_ok jsonb s"
  shows "system_ok jsonb s' \<and> system_kept s s'"
  using assms
proof (induction rule: system_step.induct)
  case (sys_submit env input w r w' m cs)
  then show ?case using books_steps_system Submit_steps by (metis system_ok_def delivery.select_convs(1))
next
  case (sys_open env oi w ra w' m cs)
  then show ?case using books_steps_system Open_steps by metis
next
  case (sys_consume env consumer msg w rc w' m cs)
  then show ?case using books_steps_system Consume_steps by (metis system_ok_def delivery.select_convs(1))
next
  case (sys_lease env lease w rl w' m cs)
  then show ?case using books_steps_system Reference_Claim_steps by (metis system_ok_def delivery.select_convs(1))
next
  case (sys_resume env c w ro w' m cs)
  then show ?case using books_steps_system Reference_resume_steps by (metis system_ok_def delivery.select_convs(1))
next
  case (sys_claim env lease w rx w' m cs)
  have "outbox_unique (outbox (db w))" using sys_claim.prems by (simp add: system_ok_def delivery_ok_def)
  then show ?case using claim_system [OF sys_claim.prems] OutboxStore_Claim_result [OF sys_claim.hyps] by blast
next
  case (sys_send event cs d m)
  have "tables_ok d \<and> history_kept d d" using sys_send.prems by (simp add: system_ok_def history_kept_refl)
  then show ?case by (intro outbox_step_system [OF deliver_send [OF sys_send.hyps] sys_send.prems]) auto
next
  case (sys_confirm event cs m env w ru w')
  have t: "tables_ok (db w)" and "outbox_unique (outbox (db w))"
    using sys_confirm.prems by (simp_all add: system_ok_def delivery_ok_def)
  with OutboxStore_Confirm_effect [OF sys_confirm.hyps(3)]
  consider "db w' = db w" | "event_confirmed event (db w) (db w')" by blast
  then show ?case
  proof cases
    case 1
    then show ?thesis using sys_confirm.prems system_kept_refl by simp
  next
    case 2
    show ?thesis
      by (rule outbox_step_system [OF deliver_confirm [OF sys_confirm.hyps(1,2) 2] sys_confirm.prems
            event_changed_tables(2) [OF 2 t]]) simp
  qed
next
  case (sys_retry event cs env at reason w ru w' m)
  have t: "tables_ok (db w)" and "outbox_unique (outbox (db w))"
    using sys_retry.prems by (simp_all add: system_ok_def delivery_ok_def)
  with OutboxStore_Retry_effect [OF sys_retry.hyps(2)]
  consider "db w' = db w" | "event_retried event (db w) (db w')" by blast
  then show ?case
  proof cases
    case 1
    then show ?thesis using sys_retry.prems system_kept_refl by simp
  next
    case 2
    show ?thesis
      by (rule outbox_step_system [OF deliver_retry [OF sys_retry.hyps(1) 2] sys_retry.prems
            event_changed_tables(3) [OF 2 t]]) simp
  qed
qed

lemma system_steps_ok:
  assumes "(system_step jsonb)\<^sup>*\<^sup>* s s'" "system_ok jsonb s"
  shows "system_ok jsonb s' \<and> system_kept s s'"
  using assms
proof (induction rule: rtranclp_induct)
  case base
  then show ?case by (simp add: system_kept_refl)
next
  case (step t u)
  then show ?case using system_step_ok system_kept_trans by blast
qed

text \<open>The queue has been sent nothing but events of the outbox.\<close>

definition sent_known :: "(json \<Rightarrow> string) \<Rightarrow> delivery \<Rightarrow> bool" where
  "sent_known jsonb s \<longleftrightarrow> (\<forall>m \<in> set (dl_sent s). \<exists>x \<in> set (outbox (dl_db s)). message_of jsonb x m)"

lemma system_step_sent:
  "system_step jsonb s s' \<Longrightarrow> dl_sent s' = dl_sent s \<or>
     (\<exists>event \<in> set (dl_claims s). dl_db s' = dl_db s \<and> dl_sent s' = dl_sent s @ [event_message event])"
  by (induction rule: system_step.induct) auto

lemma system_step_known:
  assumes "system_step jsonb s s'" "system_ok jsonb s" "sent_known jsonb s"
  shows "sent_known jsonb s'"
proof -
  have ev: "outbox_evolves (outbox (dl_db s)) (outbox (dl_db s'))"
    using system_step_ok [OF assms(1,2)] by (simp add: system_kept_def)
  have "\<exists>x \<in> set (outbox (dl_db s)). message_of jsonb x m" if "m \<in> set (dl_sent s')" for m
    using system_step_sent [OF assms(1)] that assms(2,3)
    by (auto simp: sent_known_def system_ok_def delivery_ok_def)
  then show ?thesis using claims_kept [OF ev] unfolding sent_known_def by blast
qed

lemma reachable_known:
  assumes "(system_step jsonb)\<^sup>*\<^sup>* empty_system s"
  shows "sent_known jsonb s"
  using assms
proof (induction rule: rtranclp_induct)
  case base
  then show ?case by (simp add: sent_known_def empty_system_def)
next
  case (step t u)
  then show ?case using system_step_known system_steps_ok [OF step.hyps(1) system_ok_empty] by blast
qed

lemma reachable_ok: "(system_step jsonb)\<^sup>*\<^sup>* empty_system s \<Longrightarrow> system_ok jsonb s"
  using system_steps_ok system_ok_empty by blast

end
