(* ===== verification/Example_Run.thy ===== *)
theory Example_Run
  imports System
begin

text \<open>
  A run of the model on the empty database, evaluated: a wallet is opened with 50.00 BRL. The wallet,
  its opening transaction, the ledger entry and two events are stored, so the reachable states of
  the system are not trivial.
\<close>

definition ex_start :: world where
  "ex_start = \<lparr>tick = 0, db = empty_database\<rparr>"

definition ex_opened :: world where
  "ex_opened = snd (Open ex_env ex_open ex_start)"

definition ex_system :: delivery where
  "ex_system = \<lparr>dl_db = db ex_opened, dl_sent = [], dl_claims = []\<rparr>"

lemma ex_system_step: "system_step jsonb empty_system ex_system"
  using sys_open [OF ex_env_ok surjective_pairing, of jsonb ex_start "[]" "[]" ex_open]
  by (simp add: ex_system_def ex_opened_def empty_system_def ex_start_def)

lemma ex_system_reachable: "(system_step jsonb)\<^sup>*\<^sup>* empty_system ex_system"
  using ex_system_step by blast

section \<open>What the run builds\<close>

abbreviation ex_time :: time where
  "ex_time \<equiv> unix_epoch + 1000"

definition ex_account :: wallet where
  "ex_account = \<lparr>w_id = ex_uuid 0, w_playerID = ex_uuid 210, w_balance = brl 5000, w_version = 1,
     w_createdAt = ex_time, w_updatedAt = ex_time\<rparr>"

definition ex_transaction :: transaction where
  "ex_transaction =
     \<lparr>t_id = ex_uuid 2, t_origin = OriginInternal, t_providerID = [], t_externalTransactionID = [],
      t_idempotencyKey = [], t_payloadHash = zero_hash, t_walletID = ex_uuid 0, t_playerID = ex_uuid 210,
      t_roundID = [], t_gameID = [], t_kind = KindOpening, t_amount = brl 5000,
      t_referenceExternalTransactionID = [], t_referenceTransactionID = [],
      t_status = StatusProcessed, t_failureCode = [], t_resultBalance = Some (brl 5000),
      t_createdAt = ex_time, t_updatedAt = ex_time\<rparr>"

definition ex_credit :: entry where
  "ex_credit = opening_entry (ex_uuid 3) (ex_uuid 0) (ex_uuid 2) (brl 0) (brl 5000) ex_time"

definition ex_metadata :: "nat \<Rightarrow> string \<Rightarrow> string \<Rightarrow> metadata" where
  "ex_metadata n aggregate cause = \<lparr>md_EventID = ex_uuid n, md_AggregateID = aggregate, md_CorrelationID = ''c'',
     md_CausationID = cause, md_OccurredAt = ex_time\<rparr>"

definition ex_processed :: "processed_data envelope" where
  "ex_processed = envelope_of (ex_metadata 4 (ex_uuid 2) []) TypeWagerTransactionProcessed
     \<lparr>pd_TransactionID = ex_uuid 2, pd_ProviderID = [], pd_Kind = KindOpening, pd_Status = StatusProcessed,
      pd_Money = brl 5000, pd_Balance = brl 5000\<rparr>"

definition ex_changed :: "balance_data envelope" where
  "ex_changed = envelope_of (ex_metadata 5 (ex_uuid 0) (ex_uuid 4)) TypeWalletBalanceChanged (balance_data_of ex_credit)"

definition ex_creation :: creation where
  "ex_creation = \<lparr>cr_Wallet = ex_account, cr_Opening = Some ex_transaction, cr_Ledger = Some ex_credit,
     cr_Events = [as_event ProcessedData ex_processed, as_event BalanceData ex_changed]\<rparr>"

lemmas ex_money = brl_def currency_Valid_def supportedCurrencies_def money_Validate_def money_IsPositive_def
  money_IsNegative_def money_Equal_def

lemma ex_valid: "valid_id (ex_uuid n)" "\<not> is_zero_time ex_time" "valid_id ''c''"
proof -
  show "valid_id ''c''" by (rule valid_id_graphic) (simp_all add: is_ascii_graphic_def)
qed (simp_all add: is_uuid_valid_id unix_epoch_not_zero)

lemma ex_metadata_wf: "valid_id a \<Longrightarrow> c = [] \<or> valid_id c \<Longrightarrow> metadata_wf (ex_metadata n a c)"
  using ex_valid by (simp add: metadata_wf_def ex_metadata_def)

lemma ex_transaction_new: "NewOpening (ex_uuid 2) (ex_uuid 0) (ex_uuid 210) (brl 5000) ex_time = Inr ex_transaction"
  by (simp add: ex_transaction_def NewOpening_def transaction_build_eq_Inr transaction_wf_def ex_valid ex_money
      validateOrigin_def validateKindAndReference_def validateResult_def origin_Valid_def payload_hash_Valid_def
      validateResultBalance_def)

lemma ex_credit_wf: "entry_wf ex_credit"
  by (simp add: ex_credit_def opening_entry_def entry_wf_def ex_valid ex_money entry_delta_def direction_Valid.simps)

lemma ex_credit_new: "ledger_New ex_credit = Inr ex_credit"
  using ex_credit_wf entry_build_of_wf by (simp add: ledger_New_def)

lemma ex_processed_new:
  "NewWagerTransactionProcessed (ex_metadata 4 (ex_uuid 2) []) (ex_uuid 2) [] KindOpening (brl 5000) (brl 5000) = Inr ex_processed"
  using ex_metadata_wf [OF ex_valid(1), of "[]"]
  by (simp add: NewWagerTransactionProcessed_def validateTransactionEvent_def newEnvelope_eq_Inr ex_valid ex_money ex_processed_def
      ex_metadata_def)

lemma ex_changed_new: "NewWalletBalanceChanged (ex_metadata 5 (ex_uuid 0) (ex_uuid 4)) (balance_data_of ex_credit) = Inr ex_changed"
  unfolding ex_changed_def
  by (rule NewWalletBalanceChanged_of_entry [OF ex_credit_wf])
    (simp_all add: ex_metadata_wf ex_valid, simp add: ex_metadata_def ex_credit_def opening_entry_def)

lemma ex_ids: "newID ex_env w = (Inr (ex_uuid (tick w)), step w)"
    "time_Now ex_env w = (Inr (unix_epoch + 1000 * int (tick w)), step w)"
  by (simp_all add: newID_def id_New_def time_Now_def ex_env_def ex_uuid_def ex_bytes_def)

lemma ex_addOpening:
  "addOpening ex_env ex_account ex_open ex_time \<lparr>tick = 2, db = d\<rparr> = (Inr ex_creation, \<lparr>tick = 6, db = d\<rparr>)"
proof -
  have z: "money_Zero (currency (brl 5000)) = Inr (brl 0)" by (simp add: money_Zero_def ex_money)
  show ?thesis
    using ex_changed_new ex_processed_new ex_credit_new
    by (simp add: addOpening_def ex_ids io_try_def io_lift_def step_def ex_open_def ex_account_def z ex_transaction_new
        ex_creation_def ex_credit_def balance_data_of_def ex_metadata_def opening_entry_def)
qed

section \<open>What it stores\<close>

definition ex_tables :: "outbox_row list \<Rightarrow> database" where
  "ex_tables xs = \<lparr>wallets = [wallet_row_of ex_env ex_account], wagers = [wager_row_of ex_env ex_transaction None],
     ledger = [ledger_row_of ex_env ex_credit], inbox = [], outbox = xs\<rparr>"

lemma ex_exec: "exec ex_env f w = (case f (db w) of Inl e \<Rightarrow> (Inl e, step w) | Inr d \<Rightarrow> (Inr (), (step w)\<lparr>db := d\<rparr>))"
  by (simp add: exec_def sql_def ex_env_def split: sum.splits)

lemmas ex_rows = wallet_row_of_def ex_account_def wager_row_of_def ex_transaction_def ledger_row_of_def ex_credit_def
  opening_entry_def nullString_def brl_def supportedCurrencies_def

lemma ex_wallet_inserted:
  "wallet_Insert ex_env ex_account \<lparr>tick = n, db = empty_database\<rparr> =
    (Inr (), \<lparr>tick = Suc n, db = empty_database\<lparr>wallets := wallets (ex_tables [])\<rparr>\<rparr>)"
  by (simp add: wallet_Insert_def ex_exec uuid_param_def step_def ex_tables_def insert_wallet_def wallet_checks_def
      empty_database_def ex_rows)

lemma ex_wager_inserted:
  "wager_Insert ex_env ex_transaction None \<lparr>tick = n, db = empty_database\<lparr>wallets := wallets (ex_tables [])\<rparr>\<rparr> =
    (Inr (), \<lparr>tick = Suc n, db = (ex_tables [])\<lparr>ledger := []\<rparr>\<rparr>)"
  by (simp add: wager_Insert_def ex_exec uuid_param_def optional_uuid_param_def step_def ex_tables_def insert_wager_def
      wager_checks_def wager_uniques_def wager_references_def origin_Valid_def wager_reference_by_kind_def
      wager_origin_fields_def is_null_def empty_database_def ex_rows)

lemma ex_credit_inserted:
  "ledger_Insert ex_env ex_credit \<lparr>tick = n, db = (ex_tables [])\<lparr>ledger := []\<rparr>\<rparr> = (Inr (), \<lparr>tick = Suc n, db = ex_tables []\<rparr>)"
  by (simp add: ledger_Insert_def ex_exec uuid_param_def step_def ex_tables_def insert_ledger_def direction_Valid.simps
      ledger_balance_equation_def ex_rows)

lemma ex_marshals:
  "\<exists>j. event_MarshalJSON (as_event ProcessedData ex_processed) = Inr j"
  "\<exists>j. event_MarshalJSON (as_event BalanceData ex_changed) = Inr j"
  by (simp_all add: event_MarshalJSON_def envelope_MarshalJSON_def as_event_def envelope_of_def ex_valid ex_metadata_def
      ex_processed_def ex_changed_def processed_json_def balance_json_def money_MarshalJSON_valid balance_data_of_def
      ex_credit_def opening_entry_def)

definition ex_events :: "json \<Rightarrow> json \<Rightarrow> outbox_row list" where
  "ex_events i j = [outbox_row_of ex_env (as_event ProcessedData ex_processed) i, outbox_row_of ex_env (as_event BalanceData ex_changed) j]"

lemma ex_events_distinct: "ex_uuid 4 \<noteq> ex_uuid 5"
  by code_simp

lemma ex_events_inserted:
  "\<exists>i j. insert_events ex_env (cr_Events ex_creation) \<lparr>tick = n, db = ex_tables []\<rparr> =
    (Inr (), \<lparr>tick = n + 2, db = ex_tables (ex_events i j)\<rparr>)"
proof -
  obtain i j where "event_MarshalJSON (as_event ProcessedData ex_processed) = Inr i"
    "event_MarshalJSON (as_event BalanceData ex_changed) = Inr j" using ex_marshals by blast
  then show ?thesis
    by (simp add: ex_creation_def outbox_Insert_def io_try_def io_lift_def ex_exec uuid_param_def insert_outbox_def step_def
        ex_tables_def outbox_row_of_def ex_processed_def ex_changed_def as_event_def envelope_of_def ex_metadata_def
        ex_events_distinct ContractVersion_def ex_events_def)
qed

lemma ex_deferred: "deferred_violation empty_database (ex_tables xs) = None"
  by (simp add: ex_tables_def deferred_violation_def empty_database_def validate_wallet_financial_change_def
      validate_ledger_financial_state_def direction_semantics_def validate_wager_financial_result_def ex_rows)

lemma ex_created:
  "\<exists>w i j. WalletStore_Create ex_env ex_creation \<lparr>tick = n, db = empty_database\<rparr> = (Inr (), w) \<and>
    db w = ex_tables (ex_events i j)"
proof -
  have c: "env_fault ex_env k = None" "env_commit ex_env k = None" for k by (simp_all add: ex_env_def)
  from ex_events_inserted [of "Suc (Suc (Suc (Suc n)))"] obtain i j
    where "insert_events ex_env (cr_Events ex_creation) \<lparr>tick = Suc (Suc (Suc (Suc n))), db = ex_tables []\<rparr> =
      (Inr (), \<lparr>tick = Suc (Suc (Suc (Suc n))) + 2, db = ex_tables (ex_events i j)\<rparr>)" by metis
  then have "create_work ex_env ex_creation \<lparr>tick = Suc n, db = empty_database\<rparr> =
      (Inr (), \<lparr>tick = n + 6, db = ex_tables (ex_events i j)\<rparr>)"
    by (simp add: create_work_def ex_creation_def io_try_def ex_wallet_inserted ex_wager_inserted ex_credit_inserted)
  then have "\<exists>w. WalletStore_Create ex_env ex_creation \<lparr>tick = n, db = empty_database\<rparr> = (Inr (), w) \<and> db w = ex_tables (ex_events i j)"
    by (simp add: WalletStore_Create_def ReadCommittedWithRetry_def numeral_3_eq_3 ReadCommitted_def within_def c step_def
        ex_deferred io_catch_def)
  then show ?thesis by blast
qed

lemma ex_opens_events: "\<exists>i j. db ex_opened = ex_tables (ex_events i j)"
proof -
  have a: "wallet_New (ex_uuid 0) (ex_uuid 210) (brl 5000) ex_time = Inr ex_account"
    by (simp add: wallet_New_def wallet_build_eq_Inr wallet_wf_def ex_account_def ex_valid ex_money)
  have m: "money_Validate (brl 5000) = None" "\<not> money_IsNegative (brl 5000)" "money_IsPositive (brl 5000)"
    by (simp_all add: ex_money)
  obtain w i j where "WalletStore_Create ex_env ex_creation \<lparr>tick = 6, db = empty_database\<rparr> = (Inr (), w)" "db w = ex_tables (ex_events i j)"
    using ex_created [of 6] by metis
  then have "db ex_opened = ex_tables (ex_events i j)"
    using ex_addOpening [of empty_database]
    by (simp add: ex_opened_def Open_def ex_open_def is_uuid_Validate m io_try_def ex_ids step_def ex_start_def a io_lift_def numeral_2_eq_2)
  then show ?thesis by blast
qed

lemma ex_opens: "\<exists>xs. map xr_event_id xs = [ex_uuid 4, ex_uuid 5] \<and> db ex_opened = ex_tables xs"
proof -
  have "map xr_event_id (ex_events i j) = [ex_uuid 4, ex_uuid 5]" for i j
    by (simp add: ex_events_def outbox_row_of_def as_event_def envelope_of_def ex_processed_def ex_changed_def ex_metadata_def)
  then show ?thesis using ex_opens_events by metis
qed

lemma ex_system_tables:
  "wallets (dl_db ex_system) = [wallet_row_of ex_env ex_account]"
  "wagers (dl_db ex_system) = [wager_row_of ex_env ex_transaction None]"
  "ledger (dl_db ex_system) = [ledger_row_of ex_env ex_credit]"
  using ex_opens by (auto simp: ex_system_def ex_tables_def)

end
