(* ===== verification/Auth.thy ===== *)
theory Auth
  imports Prelude
begin

text \<open>
  The package \<^verbatim>\<open>internal/adapters/auth\<close>: the identity of a caller, the reading of its bearer
  token and the verification of the token. Checking the signature, the issuer, the audience and the
  expiry of a token is the work of an OpenID Connect library, a parameter here.
\<close>

section \<open>Identities\<close>

record identity =
  ai_Subject :: string
  ai_ClientID :: string
  ai_ProviderID :: string
  ai_roles :: "string set"

definition NewIdentity :: "string \<Rightarrow> string \<Rightarrow> string \<Rightarrow> string list \<Rightarrow> identity" where
  "NewIdentity subject clientID providerID roles =
     \<lparr>ai_Subject = subject, ai_ClientID = clientID, ai_ProviderID = providerID,
      ai_roles = fold insert roles {}\<rparr>"

definition HasRole :: "identity \<Rightarrow> string \<Rightarrow> bool" where
  "HasRole i role \<longleftrightarrow> role \<in> ai_roles i"

section \<open>Tokens\<close>

text \<open>The claims the program decodes, and what the library returns for a token it accepts.\<close>

record claims =
  cm_AuthorizedParty :: string
  cm_ProviderID :: string
  cm_Roles :: "string list"

record id_token =
  tk_Subject :: string
  tk_Claims :: "claims result"

type_synonym oidc = "string \<Rightarrow> id_token result"

definition Verify :: "oidc \<Rightarrow> string \<Rightarrow> identity result" where
  "Verify verifier rawToken =
     (if rawToken = [] then Inl (Sentinel auth_ErrMissingToken)
      else (case verifier rawToken of
          Inl _ \<Rightarrow> Inl (Sentinel auth_ErrInvalidToken)
        | Inr token \<Rightarrow>
            (case tk_Claims token of
               Inl _ \<Rightarrow> Inl (Sentinel auth_ErrInvalidToken)
             | Inr c \<Rightarrow>
                 if tk_Subject token = [] \<or> cm_AuthorizedParty c = [] then Inl (Sentinel auth_ErrInvalidToken)
                 else Inr (NewIdentity (tk_Subject token) (cm_AuthorizedParty c) (cm_ProviderID c) (cm_Roles c)))))"

section \<open>The Authorization header\<close>

text \<open>
  \<^verbatim>\<open>strings.Fields\<close>: the maximal parts of a text without white space. The accumulator holds the
  part that is being read.
\<close>

function fields_from :: "string \<Rightarrow> string \<Rightarrow> string list" where
  "fields_from part [] = (if part = [] then [] else [part])"
| "fields_from part (c # s) =
     (case find (\<lambda>p. prefix p (c # s)) space_encodings of
        Some p \<Rightarrow> (if part = [] then [] else [part]) @ fields_from [] (drop (length p) (c # s))
      | None \<Rightarrow> fields_from (part @ [c]) s)"
  by pat_completeness auto
termination
  by (relation "measure (\<lambda>(_, s). length s)") (auto dest: find_space_prefix_shorter)

declare fields_from.simps(2) [simp del]

definition strings_Fields :: "string \<Rightarrow> string list" where
  "strings_Fields s = fields_from [] s"

text \<open>
  \<^verbatim>\<open>strings.EqualFold\<close> against an ASCII text. Outside ASCII, only the long s and the Kelvin sign
  fold to ASCII letters; every other character differs from all of them.
\<close>

definition ascii_lower :: "char \<Rightarrow> char" where
  "ascii_lower c =
     (let n = (of_char c :: nat) in if 65 \<le> n \<and> n \<le> 90 then char_of (n + 32) else c)"

function fold_runes :: "string \<Rightarrow> string" where
  "fold_runes [] = []"
| "fold_runes (c # s) =
     (if take 2 (c # s) = bytes_of [197, 191] then CHR ''s'' # fold_runes (drop 2 (c # s))
      else if take 3 (c # s) = bytes_of [226, 132, 170] then CHR ''k'' # fold_runes (drop 3 (c # s))
      else ascii_lower c # fold_runes s)"
  by pat_completeness auto
termination
  by (relation "measure length") auto

declare fold_runes.simps(2) [simp del]

definition equal_fold :: "string \<Rightarrow> string \<Rightarrow> bool" where
  "equal_fold s t \<longleftrightarrow> fold_runes s = fold_runes t"

definition bearerToken :: "string \<Rightarrow> string result" where
  "bearerToken header =
     (case strings_Fields header of
        [scheme, token] \<Rightarrow>
          if \<not> equal_fold scheme ''Bearer'' \<or> token = [] then Inl (Sentinel auth_ErrMissingToken) else Inr token
      | _ \<Rightarrow> Inl (Sentinel auth_ErrMissingToken))"

text \<open>The identity a header proves, as \<^verbatim>\<open>Authenticate\<close> finds it.\<close>

definition authenticated :: "oidc \<Rightarrow> string \<Rightarrow> identity result" where
  "authenticated verifier header = and_then (bearerToken header) (Verify verifier)"

section \<open>Lemmas\<close>

lemma NewIdentity_roles [simp]: "ai_roles (NewIdentity s c p roles) = set roles"
  by (simp add: NewIdentity_def) (metis List.finite_set Un_empty_right fold_commute sup_commute union_set_fold)

lemma NewIdentity_fields [simp]:
  "ai_Subject (NewIdentity s c p roles) = s" "ai_ClientID (NewIdentity s c p roles) = c"
  "ai_ProviderID (NewIdentity s c p roles) = p"
  by (simp_all add: NewIdentity_def)

lemma Verify_eq_Inr:
  "Verify verifier raw = Inr i \<longleftrightarrow>
     raw \<noteq> [] \<and> (\<exists>token c. verifier raw = Inr token \<and> tk_Claims token = Inr c \<and> tk_Subject token \<noteq> [] \<and>
       cm_AuthorizedParty c \<noteq> [] \<and>
       i = NewIdentity (tk_Subject token) (cm_AuthorizedParty c) (cm_ProviderID c) (cm_Roles c))"
  by (auto simp: Verify_def split: sum.splits)

lemma authenticated_eq_Inr:
  "authenticated verifier header = Inr i \<longleftrightarrow> (\<exists>raw. bearerToken header = Inr raw \<and> Verify verifier raw = Inr i)"
  by (simp add: authenticated_def result_invert)

lemma fields_from_nonempty: "x \<in> set (fields_from part s) \<Longrightarrow> x \<noteq> []"
proof (induction part s rule: fields_from.induct)
  case (2 part c s)
  then show ?case by (auto simp: fields_from.simps(2) split: option.splits if_splits)
qed (auto split: if_splits)

text \<open>A text of visible ASCII characters is one field; a space separates two.\<close>

lemma fields_from_graphic:
  "list_all is_ascii_graphic t \<Longrightarrow> fields_from part (t @ s) = fields_from (part @ t) s"
  by (induction t arbitrary: part) (simp_all add: fields_from.simps(2) no_space_prefix)

lemma strings_Fields_two:
  assumes "list_all is_ascii_graphic a" "list_all is_ascii_graphic b" "a \<noteq> []" "b \<noteq> []"
  shows "strings_Fields (a @ '' '' @ b) = [a, b]"
proof -
  have "fields_from a (CHR '' '' # b) = [a] @ fields_from [] b"
    by (simp add: fields_from.simps(2) find_space assms(3))
  then show ?thesis
    using fields_from_graphic [OF assms(1), of "[]" "'' '' @ b"] fields_from_graphic [OF assms(2), of "[]" "[]"] assms(4)
    by (simp add: strings_Fields_def)
qed

lemma fold_runes_length: "list_all (\<lambda>c. (of_char c :: nat) < 128) s \<Longrightarrow> length (fold_runes s) = length s"
proof (induction s)
  case (Cons c s)
  then have "c \<noteq> char_of (197 :: nat)" "c \<noteq> char_of (226 :: nat)" by auto
  with Cons show ?case by (simp add: fold_runes.simps(2) bytes_of_def)
qed simp

lemma bearerToken_eq_Inr:
  "bearerToken header = Inr raw \<longleftrightarrow> (\<exists>scheme. strings_Fields header = [scheme, raw] \<and> equal_fold scheme ''Bearer'')"
proof
  assume "\<exists>scheme. strings_Fields header = [scheme, raw] \<and> equal_fold scheme ''Bearer''"
  then obtain scheme where f: "strings_Fields header = [scheme, raw]" "equal_fold scheme ''Bearer''" by blast
  then have "raw \<noteq> []" using fields_from_nonempty [of raw "[]" header] by (simp add: strings_Fields_def)
  with f show "bearerToken header = Inr raw" by (simp add: bearerToken_def)
qed (auto simp: bearerToken_def split: list.splits if_splits)

lemma bearerToken_plain:
  assumes "equal_fold scheme ''Bearer''" "list_all is_ascii_graphic scheme"
    and "list_all is_ascii_graphic raw" "raw \<noteq> []"
  shows "bearerToken (scheme @ '' '' @ raw) = Inr raw"
proof -
  have "scheme \<noteq> []" using assms(1) by (auto simp: equal_fold_def fold_runes.simps(2) split: if_splits)
  then show ?thesis using assms strings_Fields_two [of scheme raw] by (simp add: bearerToken_eq_Inr)
qed

end
