(* ===== verification/Pages.thy ===== *)
theory Pages
  imports Wallet_Service Reconciliation "HOL-Library.List_Lexorder" "HOL-Library.Char_ord" "HOL-Library.Product_Lexorder"
begin

text \<open>
  Reading the ledger of a wallet page by page: \<^verbatim>\<open>Service.ListLedger\<close> of
  \<^verbatim>\<open>internal/application/wallet/service.go\<close> with its store and repository. Pages run from the
  newest entry to the oldest; a page that is not the last carries an opaque cursor for the next.
\<close>

section \<open>The query\<close>

record ledger_cursor =
  lc_WalletVersion :: int64
  lc_EntryID :: string

text \<open>
  The order of \<^verbatim>\<open>(wallet_version, id)\<close>: UUIDs compare by their bytes, which is the order of
  their canonical texts.
\<close>

definition ledger_key :: "ledger_row \<Rightarrow> int \<times> string" where
  "ledger_key e = (sint (lr_wallet_version e), lr_id e)"

definition before_cursor :: "ledger_cursor option \<Rightarrow> ledger_row \<Rightarrow> bool" where
  "before_cursor after e \<longleftrightarrow>
     (case after of None \<Rightarrow> True | Some c \<Rightarrow> ledger_key e < (sint (lc_WalletVersion c), lc_EntryID c))"

definition select_ledger :: "string \<Rightarrow> ledger_cursor option \<Rightarrow> nat \<Rightarrow> database \<Rightarrow> ledger_row list" where
  "select_ledger i after limit d =
     take limit (rev (sort_key ledger_key
       (filter (\<lambda>e. lr_wallet_id e = i \<and> before_cursor after e) (ledger d))))"

fun scan_entries :: "ledger_row list \<Rightarrow> entry list result" where
  "scan_entries [] = Inr []"
| "scan_entries (r # rows) =
     and_then (scanLedgerEntry r) (\<lambda>e. and_then (scan_entries rows) (\<lambda>es. Inr (e # es)))"

definition ListByWallet :: "env \<Rightarrow> string \<Rightarrow> ledger_cursor option \<Rightarrow> nat \<Rightarrow> (world, entry list) io" where
  "ListByWallet env walletID after limit =
     query env (\<lambda>d. uuid_param walletID (optional_uuid_param (map_option lc_EntryID after)
       (scan_entries (select_ledger walletID after limit d))))"

definition WalletStore_ListLedger :: "env \<Rightarrow> string \<Rightarrow> ledger_cursor option \<Rightarrow> nat \<Rightarrow> (world, entry list) io" where
  "WalletStore_ListLedger env walletID after limit =
     not_found_wallet (ReadCommitted env
       (io_try (wallet_FindByID env walletID) (\<lambda>_. ListByWallet env walletID after limit)))"

section \<open>The service\<close>

record page_cursor =
  pc_FormatVersion :: int
  pc_WalletID :: string
  pc_WalletVersion :: int64
  pc_EntryID :: string

definition ledgerCursorFormatVersion :: int where
  "ledgerCursorFormatVersion = 1"

record ledger_page =
  lp_Entries :: "entry list"
  lp_NextCursor :: string

text \<open>
  The text of a cursor is the unpadded URL-safe base64 encoding of its JSON form. The encoder and the
  decoder, which fails on other texts, are a parameter; what is relied on is that decoding gives back
  the cursors that are encoded, which are of the current version and hold the UUIDs of a wallet and an entry.
\<close>

record cursor_codec =
  cc_encode :: "page_cursor \<Rightarrow> string"
  cc_decode :: "string \<Rightarrow> page_cursor option"

definition codec_ok :: "cursor_codec \<Rightarrow> bool" where
  "codec_ok codec \<longleftrightarrow>
     (\<forall>c. pc_FormatVersion c = ledgerCursorFormatVersion \<and> is_uuid (pc_WalletID c) \<and> is_uuid (pc_EntryID c) \<longrightarrow>
        cc_decode codec (cc_encode codec c) = Some c \<and> cc_encode codec c \<noteq> [])"

definition decode_cursor :: "cursor_codec \<Rightarrow> string \<Rightarrow> string \<Rightarrow> ledger_cursor option result" where
  "decode_cursor codec walletID opaqueCursor =
     (if opaqueCursor = [] then Inr None
      else case cc_decode codec opaqueCursor of
        None \<Rightarrow> Inl (Sentinel appwallet_ErrInvalidInput)
      | Some v \<Rightarrow>
          if pc_FormatVersion v \<noteq> ledgerCursorFormatVersion \<or> pc_WalletID v \<noteq> walletID \<or>
             sint (pc_WalletVersion v) < 1 \<or> id_Validate (pc_EntryID v) \<noteq> None
          then Inl (Sentinel appwallet_ErrInvalidInput)
          else Inr (Some \<lparr>lc_WalletVersion = pc_WalletVersion v, lc_EntryID = pc_EntryID v\<rparr>))"

definition make_page :: "cursor_codec \<Rightarrow> string \<Rightarrow> nat \<Rightarrow> entry list \<Rightarrow> ledger_page" where
  "make_page codec walletID limit entries =
     (if length entries > limit then
        let shown = take limit entries
        in \<lparr>lp_Entries = shown,
            lp_NextCursor = cc_encode codec
              \<lparr>pc_FormatVersion = ledgerCursorFormatVersion, pc_WalletID = walletID,
               pc_WalletVersion = e_walletVersion (last shown), pc_EntryID = e_id (last shown)\<rparr>\<rparr>
      else \<lparr>lp_Entries = entries, lp_NextCursor = []\<rparr>)"

definition ListLedger :: "env \<Rightarrow> cursor_codec \<Rightarrow> string \<Rightarrow> string \<Rightarrow> int \<Rightarrow> (world, ledger_page) io" where
  "ListLedger env codec walletID opaqueCursor limit =
     (if id_Validate walletID \<noteq> None \<or> limit < 1 \<or> limit > 100
      then io_throw (Sentinel appwallet_ErrInvalidInput)
      else
       io_try (io_lift (decode_cursor codec walletID opaqueCursor)) (\<lambda>cursor.
       io_try (WalletStore_ListLedger env walletID cursor (nat (limit + 1))) (\<lambda>entries.
       io_return (make_page codec walletID (nat limit) entries))))"

section \<open>The order of a wallet's entries\<close>

text \<open>Versions grow along the ledger of a wallet, so the order of the query is the order of booking.\<close>

lemma linked_versions: "linked es \<Longrightarrow> sorted_wrt (\<lambda>a b. sint (lr_wallet_version a) < sint (lr_wallet_version b)) es"
proof (induction es rule: linked.induct)
  case (1 a b es)
  then have ab: "sint (lr_wallet_version b) = sint (lr_wallet_version a) + 1" and rest: "linked (b # es)" by simp_all
  from "1.IH" [OF rest] ab show ?case by fastforce
qed simp_all

lemma books_linked:
  assumes "books_ok d"
  shows "linked (entries_of i d)"
proof (cases "entries_of i d = []")
  case False
  then obtain e where "e \<in> set (ledger d)" "lr_wallet_id e = i" by (auto simp: entries_of_def filter_empty_conv)
  with assms obtain r where "r \<in> set (wallets d)" "wr_id r = i" by (auto simp: books_ok_def)
  with assms show ?thesis by (auto simp: books_ok_def wallet_books_def)
qed simp

lemma entries_sorted:
  assumes "books_ok d"
  shows "sorted_wrt (\<lambda>a b. ledger_key a < ledger_key b) (entries_of i d)"
  using linked_versions [OF books_linked [OF assms]]
  by (rule sorted_wrt_mono_rel [rotated]) (simp add: ledger_key_def less_prod_def')

lemma select_ledger_entries:
  assumes "books_ok d"
  shows "select_ledger i after limit d = take limit (rev (filter (before_cursor after) (entries_of i d)))"
proof -
  have f: "filter (\<lambda>e. lr_wallet_id e = i \<and> before_cursor after e) (ledger d) = filter (before_cursor after) (entries_of i d)"
    by (simp add: entries_of_def conj_commute)
  have "sorted_wrt (\<lambda>a b. ledger_key a < ledger_key b) (filter (before_cursor after) (entries_of i d))"
    using entries_sorted [OF assms] by (rule sorted_wrt_filter)
  then have "sorted (map ledger_key (filter (before_cursor after) (entries_of i d)))"
    by (simp add: sorted_map) (erule sorted_wrt_mono_rel [rotated], simp)
  then show ?thesis unfolding select_ledger_def f by (simp add: sorted_sort_id sort_key_id_if_sorted)
qed

lemma select_ledger_subset: "set (select_ledger i after n d) \<subseteq> set (entries_of i d)"
  by (auto simp: select_ledger_def entries_of_def dest!: in_set_takeD)

section \<open>One page\<close>

definition cursor_of :: "cursor_codec \<Rightarrow> string \<Rightarrow> ledger_cursor option" where
  "cursor_of codec cur =
     (if cur = [] then None
      else map_option (\<lambda>v. \<lparr>lc_WalletVersion = pc_WalletVersion v, lc_EntryID = pc_EntryID v\<rparr>) (cc_decode codec cur))"

text \<open>What is left to show from a cursor on, newest first.\<close>

definition remaining :: "cursor_codec \<Rightarrow> string \<Rightarrow> string \<Rightarrow> database \<Rightarrow> ledger_row list" where
  "remaining codec i cur d = rev (filter (before_cursor (cursor_of codec cur)) (entries_of i d))"

lemma remaining_start: "remaining codec i [] d = rev (entries_of i d)"
  by (simp add: remaining_def cursor_of_def before_cursor_def)

lemma decode_cursor_Inr: "decode_cursor codec i cur = Inr c \<Longrightarrow> c = cursor_of codec cur"
  by (auto simp: decode_cursor_def cursor_of_def split: if_splits option.splits)

lemma scan_entries_Inr: "scan_entries rows = Inr es \<Longrightarrow> es = map entry_of rows"
  by (induction rows arbitrary: es) (auto simp: and_then_eq_Inr dest: scanLedgerEntry_eq_Inr)

lemma not_found_wallet_Inr: "not_found_wallet m w = (Inr x, w') \<Longrightarrow> m w = (Inr x, w')"
  by (auto simp: not_found_wallet_def io_catch_def split: prod.splits sum.splits if_splits)

lemma WalletStore_ListLedger_Inr:
  assumes "WalletStore_ListLedger env i after n w = (Inr es, w')"
  shows "es = map entry_of (select_ledger i after n (db w)) \<and> db w' = db w"
proof -
  have "within env (io_try (wallet_FindByID env i) (\<lambda>_. ListByWallet env i after n)) w = (Inr es, w')"
    using not_found_wallet_Inr [OF assms [unfolded WalletStore_ListLedger_def]] by (simp add: ReadCommitted_def)
  then obtain wa wb where run: "io_try (wallet_FindByID env i) (\<lambda>_. ListByWallet env i after n) wa = (Inr es, wb)"
    and d: "db wa = db w" "db w' = db wb" by (rule within_InrE)
  from run obtain a v where f: "wallet_FindByID env i wa = (Inr a, v)" and l: "ListByWallet env i after n v = (Inr es, wb)"
    by (rule io_try_InrE)
  have "db v = db wa" using f by (auto simp: wallet_FindByID_def wallet_find_def)
  moreover have "scan_entries (select_ledger i after n (db v)) = Inr es" "db wb = db v"
    using l by (auto simp: ListByWallet_def uuid_param_eq_Inr optional_uuid_param_eq_Inr)
  ultimately show ?thesis using d scan_entries_Inr by simp
qed

lemma filter_below_sorted:
  assumes "sorted_wrt (\<lambda>a b. k a < (k b :: 'b :: linorder)) (xs @ x # ys)"
  shows "filter (\<lambda>a. k a < k x) (xs @ x # ys) = xs"
  using assms by (auto simp: sorted_wrt_append filter_empty_conv filter_id_conv dest: less_asym)

lemma stored_entries_load:
  assumes "books_ok d" "e \<in> set (entries_of i d)"
  shows "scanLedgerEntry e = Inr (entry_of e) \<and> is_uuid (lr_id e) \<and> 1 \<le> sint (lr_wallet_version e) \<and> is_uuid i"
proof -
  from assms obtain r where r: "r \<in> set (wallets d)" "wr_id r = i"
    unfolding books_ok_def entries_of_def by auto
  with assms have w: "wallet_row_ok r" "wallet_books r (entries_of i d)" by (auto simp: books_ok_def)
  then have e: "ledger_entry_ok e" "unix_epoch \<le> lr_created_at e" "lr_currency e = wr_currency r"
    using assms(2) by (auto simp: wallet_books_def)
  have "wr_currency r \<in> set supportedCurrencies" using w(1) by (simp add: wallet_row_ok_def wallet_checks_def)
  then show ?thesis using ledger_row_loads e r(2) w(1) by (auto simp: ledger_entry_ok_def wallet_row_ok_def)
qed

definition cursor_at :: "cursor_codec \<Rightarrow> ledger_row \<Rightarrow> string" where
  "cursor_at codec e = cc_encode codec \<lparr>pc_FormatVersion = ledgerCursorFormatVersion, pc_WalletID = lr_wallet_id e,
     pc_WalletVersion = lr_wallet_version e, pc_EntryID = lr_id e\<rparr>"

lemma cursor_at_decodes:
  assumes "codec_ok codec" "books_ok d" "e \<in> set (entries_of i d)"
  shows "cursor_at codec e \<noteq> [] \<and> cc_decode codec (cursor_at codec e) =
    Some \<lparr>pc_FormatVersion = ledgerCursorFormatVersion, pc_WalletID = i, pc_WalletVersion = lr_wallet_version e, pc_EntryID = lr_id e\<rparr>"
proof -
  have "lr_wallet_id e = i" using assms(3) by (simp add: entries_of_def)
  then show ?thesis using assms(1) stored_entries_load [OF assms(2,3)] by (simp add: codec_ok_def cursor_at_def)
qed

text \<open>The cursor of an entry leads to the entries before it, also when the ledger has grown since.\<close>

lemma remaining_below:
  assumes codec: "codec_ok codec" and ok: "books_ok d" "books_ok d'" and grown: "prefix (ledger d) (ledger d')"
    and rs: "remaining codec i cur d = xs @ x # ys"
  shows "remaining codec i (cursor_at codec x) d' = ys"
proof -
  let ?c = "before_cursor (cursor_of codec cur)" and ?below = "\<lambda>a. ledger_key a < ledger_key x"
  from grown obtain zs where "ledger d' = ledger d @ zs" by (auto simp: prefix_def)
  then obtain zs where e': "entries_of i d' = entries_of i d @ zs" by (simp add: entries_of_def)
  have F: "filter ?c (entries_of i d) = rev ys @ x # rev xs" using rs by (simp add: remaining_def rev_swap)
  have "x \<in> set (filter ?c (entries_of i d))" unfolding F by simp
  then have x: "x \<in> set (entries_of i d)" "?c x" by simp_all
  have c': "before_cursor (cursor_of codec (cursor_at codec x)) = ?below"
    using cursor_at_decodes [OF codec ok(1) x(1)] by (auto simp: cursor_of_def before_cursor_def ledger_key_def)
  have "\<forall>z \<in> set zs. ledger_key x < ledger_key z"
    using entries_sorted [OF ok(2), of i] x(1) unfolding e' by (simp add: sorted_wrt_append)
  then have "filter ?below zs = []" by (auto simp: filter_empty_conv dest: less_asym)
  moreover have "filter ?below (entries_of i d) = filter ?below (filter ?c (entries_of i d))"
    using x(2) by (auto simp: before_cursor_def intro!: filter_cong split: option.splits)
  moreover have "sorted_wrt (\<lambda>a b. ledger_key a < ledger_key b) (filter ?c (entries_of i d))"
    using entries_sorted [OF ok(1)] by (rule sorted_wrt_filter)
  then have "filter ?below (filter ?c (entries_of i d)) = rev ys" unfolding F by (rule filter_below_sorted)
  ultimately show ?thesis unfolding remaining_def c' e' by simp
qed

text \<open>A page shows the next entries, and its cursor, if any, leads to the rest.\<close>

lemma ListLedger_page:
  assumes run: "ListLedger env codec i cur limit w = (Inr p, w')" and codec: "codec_ok codec" and ok: "books_ok (db w)"
  shows "1 \<le> limit \<and> db w' = db w \<and>
    lp_Entries p = map entry_of (take (nat limit) (remaining codec i cur (db w))) \<and>
    (if length (remaining codec i cur (db w)) \<le> nat limit then lp_NextCursor p = []
     else lp_NextCursor p \<noteq> [] \<and>
       (\<forall>d'. books_ok d' \<longrightarrow> prefix (ledger (db w)) (ledger d') \<longrightarrow>
         remaining codec i (lp_NextCursor p) d' = drop (nat limit) (remaining codec i cur (db w))))"
proof -
  let ?n = "nat limit" and ?rs = "remaining codec i cur (db w)"
  from run have lim: "1 \<le> limit" by (auto simp: ListLedger_def split: if_splits)
  from run lim obtain c es where c: "decode_cursor codec i cur = Inr c"
    and es: "WalletStore_ListLedger env i c (nat (limit + 1)) w = (Inr es, w')" and p: "p = make_page codec i ?n es"
    by (auto simp: ListLedger_def elim!: io_try_InrE split: if_splits)
  note st = WalletStore_ListLedger_Inr [OF es]
  have sel: "es = map entry_of (take (Suc ?n) ?rs)"
    using st lim select_ledger_entries [OF ok, of i c "Suc ?n"] decode_cursor_Inr [OF c]
    by (simp add: remaining_def Suc_nat_eq_nat_zadd1 add.commute)
  show ?thesis
  proof (cases "length ?rs \<le> ?n")
    case True
    then show ?thesis using sel p st lim by (simp add: make_page_def)
  next
    case False
    then have shown: "take ?n es = map entry_of (take ?n ?rs)" using sel by (simp add: take_map)
    have pos: "0 < ?n" using lim by simp
    define x where "x = ?rs ! (?n - 1)"
    have rs: "?rs = take (?n - 1) ?rs @ x # drop ?n ?rs"
      using False pos id_take_nth_drop [of "?n - 1" ?rs] by (simp add: x_def)
    have "take ?n ?rs = take (?n - 1) ?rs @ [x]"
      using False pos take_Suc_conv_app_nth [of "?n - 1" ?rs] by (simp add: x_def)
    then have "last (take ?n es) = entry_of x" unfolding shown by simp
    moreover have "x \<in> set ?rs" using rs in_set_conv_decomp by fast
    then have x: "x \<in> set (entries_of i (db w))" by (simp add: remaining_def)
    moreover have "lr_wallet_id x = i" using x by (simp add: entries_of_def)
    ultimately have np: "lp_Entries p = map entry_of (take ?n ?rs)" "lp_NextCursor p = cursor_at codec x"
      using False p sel shown by (simp_all add: make_page_def Let_def entry_of_def cursor_at_def)
    then have "lp_NextCursor p \<noteq> []" using cursor_at_decodes [OF codec ok x] by simp
    moreover have "remaining codec i (lp_NextCursor p) d' = drop ?n ?rs"
      if "books_ok d'" "prefix (ledger (db w)) (ledger d')" for d'
      unfolding np(2) using remaining_below [OF codec ok that(1,2) rs] .
    ultimately show ?thesis using False np(1) st lim by simp
  qed
qed

section \<open>A whole reading\<close>

text \<open>
  A client reads page after page, following the cursors, until a page has none. Between two calls the
  ledger may grow. The pages are those of calls that succeeded; a call that fails can be repeated.
\<close>

inductive reading :: "cursor_codec \<Rightarrow> string \<Rightarrow> int \<Rightarrow> database \<Rightarrow> string \<Rightarrow> entry list list \<Rightarrow> bool"
  for codec i limit where
  reading_last: "ListLedger env codec i cur limit w = (Inr p, w') \<Longrightarrow> lp_NextCursor p = [] \<Longrightarrow>
    reading codec i limit (db w) cur [lp_Entries p]"
| reading_more: "ListLedger env codec i cur limit w = (Inr p, w') \<Longrightarrow> lp_NextCursor p \<noteq> [] \<Longrightarrow>
    books_ok d' \<Longrightarrow> prefix (ledger (db w)) (ledger d') \<Longrightarrow> reading codec i limit d' (lp_NextCursor p) pages \<Longrightarrow>
    reading codec i limit (db w) cur (lp_Entries p # pages)"

lemma reading_remaining:
  assumes "reading codec i limit d cur pages" "codec_ok codec" "books_ok d"
  shows "concat pages = map entry_of (remaining codec i cur d) \<and>
    length pages \<le> length (remaining codec i cur d) div nat limit + 1 \<and> list_all (\<lambda>q. length q \<le> nat limit) pages"
  using assms
proof (induction rule: reading.induct)
  case (reading_last env cur w p w')
  from ListLedger_page [OF reading_last.hyps(1) reading_last.prems] reading_last.hyps(2) show ?case
    by (auto split: if_splits)
next
  case (reading_more env cur w p w' d' pages)
  let ?n = "nat limit" and ?rs = "remaining codec i cur (db w)"
  note pg = ListLedger_page [OF reading_more.hyps(1) reading_more.prems]
  from pg reading_more.hyps(2-4) have long: "\<not> length ?rs \<le> ?n" and lim: "1 \<le> limit"
    and rest: "remaining codec i (lp_NextCursor p) d' = drop ?n ?rs" by (auto split: if_splits)
  note ih = reading_more.IH [OF reading_more.prems(1) reading_more.hyps(3)]
  have "concat (lp_Entries p # pages) = map entry_of ?rs"
    using ih pg unfolding rest by simp (metis append_take_drop_id map_append)
  moreover have "length ?rs div ?n = (length ?rs - ?n) div ?n + 1"
    using long lim by (subst le_div_geq) simp_all
  ultimately show ?case using ih pg unfolding rest by simp
qed

text \<open>Without failures a reading exists: every call succeeds, so it ends with the last page.\<close>

definition no_faults :: "env \<Rightarrow> bool" where
  "no_faults env \<longleftrightarrow> (\<forall>n. env_fault env n = None \<and> env_commit env n = None)"

lemma scan_entries_total: "\<forall>r \<in> set rows. \<exists>e. scanLedgerEntry r = Inr e \<Longrightarrow> \<exists>es. scan_entries rows = Inr es"
  by (induction rows) auto

lemma query_answers:
  assumes "no_faults env" "f (db w) = Inr x"
  shows "query env f w = (Inr x, step w)"
  using assms by (cases w) (simp add: query_def sql_def no_faults_def step_def)

lemma within_reads:
  assumes "no_faults env" "work (step w) = (Inr x, v)" "db v = db w"
  shows "\<exists>w'. within env work w = (Inr x, w')"
  using assms by (auto simp: within_def no_faults_def deferred_violation_def first_violation_None)

lemma wallet_FindByID_total:
  assumes "no_faults env" "books_ok (db w)" "r \<in> set (wallets (db w))"
  shows "\<exists>a. wallet_FindByID env (wr_id r) w = (Inr a, step w)"
proof -
  have ok: "is_uuid (wr_id r)" using assms(2,3) by (simp add: books_ok_def wallet_row_ok_def)
  have "find (\<lambda>q. wr_id q = wr_id r) (wallets (db w)) \<noteq> None" using assms(3) by (auto simp: find_None_iff)
  then obtain q where q: "find (\<lambda>q. wr_id q = wr_id r) (wallets (db w)) = Some q" by auto
  then have "q \<in> set (wallets (db w))" by (auto simp: find_Some_iff)
  then have "wallet_of_row q = Inr (wallet_of q)" using assms(2) wallet_row_ok_loads by (simp add: books_ok_def)
  moreover have "query env (select_wallet (wr_id r)) w = (Inr q, step w)"
    using q ok by (intro query_answers [OF assms(1)]) (simp add: select_wallet_def uuid_param_def)
  ultimately show ?thesis by (simp add: wallet_FindByID_def wallet_find_def io_try_def io_lift_def)
qed

lemma ListLedger_total:
  assumes env: "no_faults env" and codec: "codec_ok codec" and ok: "books_ok (db w)" and r: "r \<in> set (wallets (db w))"
    and lim: "1 \<le> limit" "limit \<le> 100" and cur: "cur = [] \<or> (\<exists>e \<in> set (entries_of (wr_id r) (db w)). cur = cursor_at codec e)"
  shows "\<exists>p w'. ListLedger env codec (wr_id r) cur limit w = (Inr p, w')"
proof -
  let ?i = "wr_id r"
  have u: "is_uuid ?i" using ok r by (simp add: books_ok_def wallet_row_ok_def)
  have c: "decode_cursor codec ?i cur = Inr (cursor_of codec cur) \<and>
      (case cursor_of codec cur of None \<Rightarrow> True | Some k \<Rightarrow> is_uuid (lc_EntryID k))"
    using cur
  proof
    assume "\<exists>e \<in> set (entries_of ?i (db w)). cur = cursor_at codec e"
    then obtain e where e: "e \<in> set (entries_of ?i (db w))" "cur = cursor_at codec e" by blast
    then have "lr_wallet_id e = ?i" by (simp add: entries_of_def)
    then show ?thesis
      using e(2) cursor_at_decodes [OF codec ok e(1)] stored_entries_load [OF ok e(1)] is_uuid_Validate
      by (simp add: decode_cursor_def cursor_of_def)
  qed (simp add: decode_cursor_def cursor_of_def)
  let ?rows = "select_ledger ?i (cursor_of codec cur) (nat (limit + 1)) (db w)"
  obtain es where es: "scan_entries ?rows = Inr es"
    using scan_entries_total [of ?rows] stored_entries_load [OF ok] select_ledger_subset by blast
  let ?work = "io_try (wallet_FindByID env ?i) (\<lambda>_. ListByWallet env ?i (cursor_of codec cur) (nat (limit + 1)))"
  have "query env (\<lambda>d. uuid_param ?i (optional_uuid_param (map_option lc_EntryID (cursor_of codec cur))
      (scan_entries (select_ledger ?i (cursor_of codec cur) (nat (limit + 1)) d)))) (step (step w)) = (Inr es, step (step (step w)))"
    using u c es by (intro query_answers [OF env]) (auto simp: uuid_param_def optional_uuid_param_def split: option.splits)
  moreover obtain a where "wallet_FindByID env ?i (step w) = (Inr a, step (step w))"
    using wallet_FindByID_total [OF env, of "step w" r] ok r by auto
  ultimately have run: "?work (step w) = (Inr es, step (step (step w)))"
    by (simp add: io_try_def ListByWallet_def)
  have "\<exists>w'. WalletStore_ListLedger env ?i (cursor_of codec cur) (nat (limit + 1)) w = (Inr es, w')"
    using within_reads [OF env, of ?work w, OF run]
    by (auto simp: WalletStore_ListLedger_def ReadCommitted_def not_found_wallet_def io_catch_def)
  then show ?thesis
    using c lim is_uuid_Validate [OF u] by (auto simp: ListLedger_def io_try_def io_lift_def)
qed

text \<open>The cursor that a page hands out belongs to an entry of the wallet.\<close>

lemma ListLedger_cursor:
  assumes run: "ListLedger env codec i cur limit w = (Inr p, w')" and ok: "books_ok (db w)"
  shows "lp_NextCursor p = [] \<or> (\<exists>e \<in> set (entries_of i (db w)). lp_NextCursor p = cursor_at codec e)"
proof -
  from run have lim: "1 \<le> limit" by (auto simp: ListLedger_def split: if_splits)
  from run lim obtain c es where es: "WalletStore_ListLedger env i c (nat (limit + 1)) w = (Inr es, w')"
    and p: "p = make_page codec i (nat limit) es"
    by (auto simp: ListLedger_def elim!: io_try_InrE split: if_splits)
  show ?thesis
  proof (cases "length es > nat limit")
    case True
    then have "take (nat limit) es \<noteq> []" using lim by auto
    then have "last (take (nat limit) es) \<in> set es" using last_in_set in_set_takeD by metis
    then obtain e where e: "e \<in> set (select_ledger i c (nat (limit + 1)) (db w))" "last (take (nat limit) es) = entry_of e"
      using WalletStore_ListLedger_Inr [OF es] by auto
    then have "e \<in> set (entries_of i (db w))" using select_ledger_subset by blast
    moreover from this have "lr_wallet_id e = i" by (simp add: entries_of_def)
    ultimately show ?thesis
      using True e(2) p by (intro disjI2 bexI [of _ e]) (simp_all add: make_page_def Let_def cursor_at_def entry_of_def)
  qed (simp add: p make_page_def)
qed

lemma reading_exists:
  assumes env: "no_faults env" and codec: "codec_ok codec" and ok: "books_ok d" and r: "r \<in> set (wallets d)"
    and lim: "1 \<le> limit" "limit \<le> 100" and cur: "cur = [] \<or> (\<exists>e \<in> set (entries_of (wr_id r) d). cur = cursor_at codec e)"
  shows "\<exists>pages. reading codec (wr_id r) limit d cur pages"
  using cur
proof (induction "length (remaining codec (wr_id r) cur d)" arbitrary: cur rule: less_induct)
  case less
  let ?w = "\<lparr>tick = 0, db = d\<rparr>"
  from ListLedger_total [OF env codec _ _ lim, of ?w r cur] ok r less.prems obtain p w' where
    run: "ListLedger env codec (wr_id r) cur limit ?w = (Inr p, w')" by auto
  show ?case
  proof (cases "lp_NextCursor p = []")
    case True
    from reading_last [OF run this] show ?thesis by auto
  next
    case False
    have pg: "remaining codec (wr_id r) (lp_NextCursor p) d = drop (nat limit) (remaining codec (wr_id r) cur d)"
      "\<not> length (remaining codec (wr_id r) cur d) \<le> nat limit"
      using ListLedger_page [OF run codec] ok False by (auto split: if_splits)
    then have "length (remaining codec (wr_id r) (lp_NextCursor p) d) < length (remaining codec (wr_id r) cur d)"
      using lim(1) by simp
    moreover have "\<exists>e \<in> set (entries_of (wr_id r) d). lp_NextCursor p = cursor_at codec e"
      using ListLedger_cursor [OF run] ok False by simp
    ultimately obtain pages where "reading codec (wr_id r) limit d (lp_NextCursor p) pages" using less.hyps by blast
    with reading_more [OF run False, of d pages] ok show ?thesis by auto
  qed
qed

section \<open>An instance of the codec\<close>

text \<open>A codec that writes every field with its length before it.\<close>

definition put_field :: "string \<Rightarrow> string" where
  "put_field s = replicate (length s) (CHR ''a'') @ CHR ''b'' # s"

definition get_field :: "string \<Rightarrow> string \<times> string" where
  "get_field s = (let n = length (takeWhile (\<lambda>c. c = CHR ''a'') s) in (take n (drop (Suc n) s), drop n (drop (Suc n) s)))"

lemma get_put_field: "get_field (put_field s @ rest) = (s, rest)"
proof -
  have "takeWhile (\<lambda>c. c = CHR ''a'') (replicate n (CHR ''a'') @ CHR ''b'' # r) = replicate n (CHR ''a'')" for n r
    by (induction n) simp_all
  then have "takeWhile (\<lambda>c. c = CHR ''a'') (put_field s @ rest) = replicate (length s) (CHR ''a'')"
    by (simp add: put_field_def)
  then show ?thesis by (simp add: get_field_def Let_def put_field_def)
qed

definition ex_codec :: cursor_codec where
  "ex_codec =
     \<lparr>cc_encode = (\<lambda>c. put_field (numeric_text (pc_FormatVersion c)) @ put_field (pc_WalletID c) @
        put_field (numeric_text (sint (pc_WalletVersion c))) @ put_field (pc_EntryID c)),
      cc_decode = (\<lambda>s. let (v, s1) = get_field s; (i, s2) = get_field s1; (n, s3) = get_field s2; (e, _) = get_field s3
        in case (big_SetString v, big_SetString n) of
             (Some v, Some n) \<Rightarrow> Some \<lparr>pc_FormatVersion = v, pc_WalletID = i, pc_WalletVersion = word_of_int n, pc_EntryID = e\<rparr>
           | _ \<Rightarrow> None)\<rparr>"

lemma ex_codec_ok: "codec_ok ex_codec"
proof -
  have "get_field (put_field s) = (s, [])" for s using get_put_field [of s "[]"] by simp
  then have "cc_decode ex_codec (cc_encode ex_codec c) = Some c" for c
    by (cases c) (simp add: ex_codec_def get_put_field big_SetString_numeric_text)
  moreover have "cc_encode ex_codec c \<noteq> []" for c by (simp add: ex_codec_def put_field_def)
  ultimately show ?thesis by (simp add: codec_ok_def)
qed

lemma ex_no_faults: "no_faults ex_env"
  by (simp add: no_faults_def ex_env_def)

lemma ex_reading: "\<exists>pages. reading ex_codec (ex_uuid 200) 1 ex_db [] pages"
  using reading_exists [OF ex_no_faults ex_codec_ok ex_db_books, of ex_wallet 1 "[]"]
  by (simp add: ex_db_def) (simp add: ex_wallet_def)

section \<open>Properties\<close>

text \<open>
  Property C27. Reading the ledger of a wallet page by page shows every entry exactly once, newest first,
  even when entries are booked between the calls: the pages together are the entries that were there
  at the first call, in the reverse of their order of booking; no page is longer than the limit, and
  the number of pages is at most the number of entries divided by the limit, plus one.
\<close>

theorem reading_complete:
  assumes "reading codec i limit d [] pages" and "codec_ok codec" and "books_ok d"
  shows "concat pages = map entry_of (rev (entries_of i d)) \<and>
    length pages \<le> length (entries_of i d) div nat limit + 1 \<and> list_all (\<lambda>q. length q \<le> nat limit) pages"
  using reading_remaining [OF assms] by (simp add: remaining_start)

theorem reading_complete_witness:
  "\<exists>pages. reading ex_codec (ex_uuid 200) 1 ex_db [] pages \<and> concat pages = [entry_of ex_entry] \<and> length pages \<le> 2"
proof -
  from ex_reading obtain pages where r: "reading ex_codec (ex_uuid 200) 1 ex_db [] pages" by blast
  have "entries_of (ex_uuid 200) ex_db = [ex_entry]" by (simp add: entries_of_def ex_db_def ex_entry_def)
  with reading_complete [OF r ex_codec_ok ex_db_books] r show ?thesis by auto
qed

text \<open>
  Property C28. Reading a ledger ends: when the database answers, every page of an existing wallet can
  be read for any limit between 1 and 100, stored entries always load, the cursor of a page is always
  accepted, and following the cursors reaches a last page.
\<close>

theorem reading_terminates:
  assumes "no_faults env" and "codec_ok codec" and "books_ok d" and "r \<in> set (wallets d)" and "1 \<le> limit" and "limit \<le> 100"
  shows "(\<exists>pages. reading codec (wr_id r) limit d [] pages) \<and>
    (\<forall>e \<in> set (entries_of (wr_id r) d). \<exists>p w'. ListLedger env codec (wr_id r) (cursor_at codec e) limit \<lparr>tick = n, db = d\<rparr> = (Inr p, w'))"
  using reading_exists [OF assms, of "[]"] ListLedger_total [OF assms(1,2) _ _ assms(5,6), of "\<lparr>tick = n, db = d\<rparr>" r] assms(3,4)
  by auto

theorem reading_terminates_witness:
  "ex_wallet \<in> set (wallets ex_db) \<and> (\<exists>pages. reading ex_codec (wr_id ex_wallet) 50 ex_db [] pages)"
proof -
  have "ex_wallet \<in> set (wallets ex_db)" by (simp add: ex_db_def)
  with reading_terminates [OF ex_no_faults ex_codec_ok ex_db_books this, of 50] show ?thesis by simp
qed

end
