(* ===== verification/Http.thy ===== *)
theory Http
  imports Auth Pages Failures
begin

text \<open>
  The HTTP interface: \<^verbatim>\<open>internal/adapters/http\<close> with the middleware of
  \<^verbatim>\<open>internal/adapters/auth\<close>. A request is what a handler reads of it, an answer its status, its
  JSON value and its location. Handlers act on the world of the unit of work; logging, metrics and
  the two clock readings that only serve metrics are left out.
\<close>

section \<open>Requests and answers\<close>

text \<open>
  \<open>rq_header\<close> and \<open>rq_query\<close> are \<^verbatim>\<open>Header.Get\<close> and \<^verbatim>\<open>Query().Get\<close>, the empty text for what
  is absent; the body is the bytes that arrive and the error that ends them, if one does.
\<close>

record request =
  rq_method :: string
  rq_path :: "string list"
  rq_header :: "string \<Rightarrow> string"
  rq_query :: "string \<Rightarrow> string"
  rq_body :: string
  rq_body_error :: "err option"
  rq_identity :: "identity option"

datatype body = Encoded json | Plain string | Nothing

record response =
  rs_status :: nat
  rs_body :: body
  rs_location :: "string option"

type_synonym handler = "request \<Rightarrow> world \<Rightarrow> response \<times> world"

text \<open>The encoder writes nothing when a value of the answer cannot be encoded; the status is out by then.\<close>

definition writeJSON :: "nat \<Rightarrow> json result \<Rightarrow> response" where
  "writeJSON status encoded =
     \<lparr>rs_status = status, rs_body = (case encoded of Inl _ \<Rightarrow> Nothing | Inr v \<Rightarrow> Encoded v), rs_location = None\<rparr>"

definition writeAPIError :: "nat \<Rightarrow> string \<Rightarrow> response" where
  "writeAPIError status c = writeJSON status (Inr (JObject [(''code'', JString c)]))"

definition writeAuthError :: "nat \<Rightarrow> string \<Rightarrow> response" where
  "writeAuthError status c = writeJSON status (Inr (JObject [(''code'', JString c)]))"

definition writeDependencyOrInternalError :: "err \<Rightarrow> response" where
  "writeDependencyOrInternalError e =
     (if isTransientDependencyError e then writeAPIError 503 ''TRANSIENT_FAILURE''
      else writeAPIError 500 ''INTERNAL_ERROR'')"

section \<open>Bodies\<close>

definition maxJSONBodyBytes :: nat where
  "maxJSONBodyBytes = 2 ^ 20"

text \<open>\<^verbatim>\<open>io.ReadAll(io.LimitReader(body, n))\<close>: an error behind the limit is not seen.\<close>

definition read_limited :: "nat \<Rightarrow> request \<Rightarrow> string result" where
  "read_limited n r =
     (case rq_body_error r of
        Some e \<Rightarrow> if length (rq_body r) < n then Inl e else Inr (take n (rq_body r))
      | None \<Rightarrow> Inr (take n (rq_body r)))"

definition json_space :: "char \<Rightarrow> bool" where
  "json_space c \<longleftrightarrow> (of_char c :: nat) \<in> {9, 10, 13, 32}"

text \<open>
  The parameter \<open>decode\<close> is one call of the JSON decoder with unknown fields disallowed: the value
  read and the rest of the text, or nothing. A second call finds the end of the input exactly when
  the rest is white space.
\<close>

definition decodeJSON :: "(string \<Rightarrow> ('a \<times> string) option) \<Rightarrow> request \<Rightarrow> 'a result" where
  "decodeJSON decode r =
     and_then (read_limited (maxJSONBodyBytes + 1) r) (\<lambda>text.
     if length text > maxJSONBodyBytes then Inl (Opaque ''request body exceeds size limit'')
     else (case decode text of
         None \<Rightarrow> Inl (Opaque ''json'')
       | Some (v, rest) \<Rightarrow>
           if list_all json_space rest then Inr v else Inl (Opaque ''request body must contain one JSON object'')))"

record money_request =
  mq_Amount :: string
  mq_Currency :: string

record submit_wager_request =
  sq_ProviderID :: string
  sq_ExternalTransactionID :: string
  sq_PlayerID :: string
  sq_WalletID :: string
  sq_RoundID :: string
  sq_GameID :: string
  sq_Kind :: kind
  sq_Money :: money_request
  sq_ReferenceExternalTransactionID :: string

record open_wallet_request =
  oq_PlayerID :: string
  oq_InitialBalance :: money_request

text \<open>What the server is built from: the environment and the libraries it calls.\<close>

record api =
  api_env :: env
  api_oidc :: oidc
  api_codec :: cursor_codec
  api_decode_submit :: "string \<Rightarrow> (submit_wager_request \<times> string) option"
  api_decode_open :: "string \<Rightarrow> (open_wallet_request \<times> string) option"
  api_metrics :: string
  api_ready :: bool
  api_checks :: "(string \<times> err option) list"

text \<open>\<^verbatim>\<open>x, err := f(...)\<close> followed by the answer to what \<^verbatim>\<open>f\<close> returned.\<close>

definition answer :: "(world, 'a) io \<Rightarrow> ('a result \<Rightarrow> response) \<Rightarrow> world \<Rightarrow> response \<times> world" where
  "answer m f w = (case m w of (r, w') \<Rightarrow> (f r, w'))"

text \<open>The correlation identifier of a request: the caller's, or a new one.\<close>

definition correlation_id :: "env \<Rightarrow> request \<Rightarrow> (world, string) io" where
  "correlation_id env r =
     (if rq_header r ''X-Correlation-ID'' = [] then newID env else io_return (rq_header r ''X-Correlation-ID''))"

section \<open>Wagers\<close>

definition wager_response :: "transaction \<Rightarrow> bool \<Rightarrow> json result" where
  "wager_response t replay =
     and_then (case t_resultBalance t of
         None \<Rightarrow> Inr []
       | Some b \<Rightarrow> and_then (money_MarshalJSON b) (\<lambda>v. Inr [(''balance'', v)])) (\<lambda>balance.
     Inr (JObject
       ([(''transactionId'', JString (t_id t)), (''status'', JString (status_string (t_status t)))]
        @ (if t_failureCode t = [] then [] else [(''failureCode'', JString (t_failureCode t))])
        @ balance @ [(''idempotentReplay'', JBool replay)])))"

definition writeWagerResponse :: "transaction \<Rightarrow> bool \<Rightarrow> response" where
  "writeWagerResponse t replay =
     writeJSON (if t_status t = StatusPendingReference \<or> t_status t = StatusPending then 202 else 200)
      (wager_response t replay)"

definition writeWagerError :: "err \<Rightarrow> response" where
  "writeWagerError e =
     (if errors_is e app_ErrInvalidInput then writeAPIError 400 ''INVALID_REQUEST''
      else if errors_is e app_ErrWalletNotFound then writeAPIError 404 ''WALLET_NOT_FOUND''
      else if errors_is e app_ErrWalletMismatch then writeAPIError 422 ''WALLET_MISMATCH''
      else if errors_is e app_ErrIdempotencyConflict then writeAPIError 409 ''IDEMPOTENCY_CONFLICT''
      else if errors_is e app_ErrExternalIDConflict then writeAPIError 409 ''EXTERNAL_TRANSACTION_CONFLICT''
      else if errors_is e app_ErrTransactionNotFound then writeAPIError 404 ''TRANSACTION_NOT_FOUND''
      else if errors_is e app_ErrConcurrentWrite \<or> errors_is e app_ErrIdentityRace
      then writeAPIError 503 ''TRANSIENT_FAILURE''
      else writeDependencyOrInternalError e)"

definition wagerErrorMetric :: "err \<Rightarrow> string" where
  "wagerErrorMetric e =
     (if errors_is e app_ErrIdempotencyConflict then ''idempotency_conflict''
      else if errors_is e app_ErrExternalIDConflict then ''external_id_conflict''
      else if errors_is e app_ErrConcurrentWrite \<or> errors_is e app_ErrIdentityRace then ''concurrent_write''
      else if isTransientDependencyError e then ''dependency_unavailable''
      else if errors_is e app_ErrInvalidInput then ''invalid''
      else ''error'')"

definition submit_input_of :: "submit_wager_request \<Rightarrow> string \<Rightarrow> money \<Rightarrow> string \<Rightarrow> submit_input" where
  "submit_input_of q idempotencyKey amount correlationID =
     \<lparr>si_ProviderID = sq_ProviderID q, si_ExternalTransactionID = sq_ExternalTransactionID q,
      si_IdempotencyKey = idempotencyKey, si_WalletID = sq_WalletID q, si_PlayerID = sq_PlayerID q,
      si_RoundID = sq_RoundID q, si_GameID = sq_GameID q, si_Kind = sq_Kind q, si_Amount = amount,
      si_ReferenceExternalTransactionID = sq_ReferenceExternalTransactionID q,
      si_CorrelationID = correlationID\<rparr>"

definition answer_submit :: "submit_result result \<Rightarrow> response" where
  "answer_submit res =
     (case res of
        Inl e \<Rightarrow> writeWagerError e
      | Inr x \<Rightarrow> writeWagerResponse (sr_Transaction x) (sr_Replay x))"

definition http_submit :: "api \<Rightarrow> handler" where
  "http_submit api r w =
     (case rq_identity r of
        None \<Rightarrow> (writeAPIError 403 ''FORBIDDEN'', w)
      | Some i \<Rightarrow>
          if ai_ProviderID i = [] then (writeAPIError 403 ''FORBIDDEN'', w)
          else (case decodeJSON (api_decode_submit api) r of
              Inl _ \<Rightarrow> (writeAPIError 400 ''INVALID_REQUEST'', w)
            | Inr q \<Rightarrow>
                if sq_ProviderID q \<noteq> ai_ProviderID i then (writeAPIError 403 ''PROVIDER_MISMATCH'', w)
                else if rq_header r ''Idempotency-Key'' = [] then (writeAPIError 400 ''IDEMPOTENCY_KEY_REQUIRED'', w)
                else (case ParseNonNegative (mq_Amount (sq_Money q)) (mq_Currency (sq_Money q)) of
                    Inl _ \<Rightarrow> (writeAPIError 400 ''INVALID_MONEY'', w)
                  | Inr amount \<Rightarrow>
                      (case correlation_id (api_env api) r w of
                         (Inl _, w1) \<Rightarrow> (writeAPIError 500 ''INTERNAL_ERROR'', w1)
                       | (Inr c, w1) \<Rightarrow>
                           answer (Submit (api_env api) (submit_input_of q (rq_header r ''Idempotency-Key'') amount c))
                            answer_submit w1))))"

definition answer_wager :: "transaction result \<Rightarrow> response" where
  "answer_wager res = (case res of Inl e \<Rightarrow> writeWagerError e | Inr t \<Rightarrow> writeWagerResponse t False)"

definition http_findByID :: "api \<Rightarrow> string \<Rightarrow> handler" where
  "http_findByID api transactionId r w =
     (case rq_identity r of
        None \<Rightarrow> (writeAPIError 403 ''FORBIDDEN'', w)
      | Some i \<Rightarrow>
          if ai_ProviderID i = [] then (writeAPIError 403 ''FORBIDDEN'', w)
          else answer (service_FindByID (api_env api) (ai_ProviderID i) transactionId) answer_wager w)"

definition http_findByExternalID :: "api \<Rightarrow> string \<Rightarrow> string \<Rightarrow> handler" where
  "http_findByExternalID api providerId externalTransactionId r w =
     (case rq_identity r of
        None \<Rightarrow> (writeAPIError 403 ''FORBIDDEN'', w)
      | Some i \<Rightarrow>
          if ai_ProviderID i = [] then (writeAPIError 403 ''FORBIDDEN'', w)
          else if providerId \<noteq> ai_ProviderID i then (writeAPIError 403 ''PROVIDER_MISMATCH'', w)
          else answer (service_FindByExternalID (api_env api) (ai_ProviderID i) externalTransactionId) answer_wager w)"

section \<open>Wallets\<close>

definition walletResponse :: "wallet \<Rightarrow> json result" where
  "walletResponse a =
     and_then (money_MarshalJSON (w_balance a)) (\<lambda>b.
     Inr (JObject [(''id'', JString (w_id a)), (''playerId'', JString (w_playerID a)), (''balance'', b),
       (''version'', JInt (sint (w_version a)))]))"

definition answer_open :: "wallet result \<Rightarrow> response" where
  "answer_open res =
     (case res of
        Inl e \<Rightarrow>
          if errors_is e appwallet_ErrWalletAlreadyExists then writeAPIError 409 ''WALLET_ALREADY_EXISTS''
          else if errors_is e appwallet_ErrInvalidInput then writeAPIError 400 ''INVALID_REQUEST''
          else writeDependencyOrInternalError e
      | Inr account \<Rightarrow>
          (writeJSON 201 (walletResponse account))\<lparr>rs_location := Some (''/wallets/'' @ w_id account)\<rparr>)"

definition http_open :: "api \<Rightarrow> handler" where
  "http_open api r w =
     (case decodeJSON (api_decode_open api) r of
        Inl _ \<Rightarrow> (writeAPIError 400 ''INVALID_REQUEST'', w)
      | Inr q \<Rightarrow>
          (case ParseNonNegative (mq_Amount (oq_InitialBalance q)) (mq_Currency (oq_InitialBalance q)) of
             Inl _ \<Rightarrow> (writeAPIError 400 ''INVALID_MONEY'', w)
           | Inr initial \<Rightarrow>
               (case correlation_id (api_env api) r w of
                  (Inl _, w1) \<Rightarrow> (writeAPIError 500 ''INTERNAL_ERROR'', w1)
                | (Inr c, w1) \<Rightarrow>
                    answer (Open (api_env api)
                        \<lparr>oi_PlayerID = oq_PlayerID q, oi_Initial = initial, oi_CorrelationID = c\<rparr>)
                     answer_open w1)))"

definition http_find :: "api \<Rightarrow> string \<Rightarrow> handler" where
  "http_find api walletId r =
     answer (wallet_service_FindByID (api_env api) walletId) (\<lambda>res. case res of
       Inl e \<Rightarrow>
         if errors_is e appwallet_ErrWalletNotFound then writeAPIError 404 ''WALLET_NOT_FOUND''
         else if errors_is e appwallet_ErrInvalidInput then writeAPIError 400 ''INVALID_WALLET_ID''
         else writeDependencyOrInternalError e
     | Inr account \<Rightarrow> writeJSON 200 (walletResponse account))"

text \<open>\<^verbatim>\<open>strconv.Atoi\<close> is \<^verbatim>\<open>strconv.ParseInt\<close> in base ten for the size of \<^verbatim>\<open>int\<close>.\<close>

definition strconv_Atoi :: "string \<Rightarrow> int option" where
  "strconv_Atoi s = (case parse_int64 s of Inl _ \<Rightarrow> None | Inr v \<Rightarrow> Some (sint v))"

definition entry_response :: "entry \<Rightarrow> json result" where
  "entry_response e =
     and_then (money_MarshalJSON (e_amount e)) (\<lambda>m.
     and_then (money_MarshalJSON (e_balanceBefore e)) (\<lambda>b.
     and_then (money_MarshalJSON (e_balanceAfter e)) (\<lambda>a.
     Inr (JObject
       [(''id'', JString (e_id e)), (''transactionId'', JString (e_transactionID e)),
        (''direction'', JString (direction_string (e_direction e))), (''money'', m), (''balanceBefore'', b),
        (''balanceAfter'', a), (''walletVersion'', JInt (sint (e_walletVersion e))),
        (''createdAt'', JTime (e_createdAt e))]))))"

fun entry_responses :: "entry list \<Rightarrow> json list result" where
  "entry_responses [] = Inr []"
| "entry_responses (e # es) =
     and_then (entry_response e) (\<lambda>v. and_then (entry_responses es) (\<lambda>vs. Inr (v # vs)))"

definition page_response :: "string \<Rightarrow> ledger_page \<Rightarrow> json result" where
  "page_response walletId page =
     and_then (entry_responses (lp_Entries page)) (\<lambda>entries.
     Inr (JObject ([(''walletId'', JString walletId), (''entries'', JArray entries)]
       @ (if lp_NextCursor page = [] then [] else [(''nextCursor'', JString (lp_NextCursor page))]))))"

definition ledger_limit :: "request \<Rightarrow> int option" where
  "ledger_limit r = (if rq_query r ''limit'' = [] then Some 50 else strconv_Atoi (rq_query r ''limit''))"

definition http_listLedger :: "api \<Rightarrow> string \<Rightarrow> handler" where
  "http_listLedger api walletId r w =
     (case ledger_limit r of
        None \<Rightarrow> (writeAPIError 400 ''INVALID_PAGINATION'', w)
      | Some limit \<Rightarrow>
          answer (ListLedger (api_env api) (api_codec api) walletId (rq_query r ''cursor'') limit) (\<lambda>res. case res of
            Inl e \<Rightarrow>
              if errors_is e appwallet_ErrWalletNotFound then writeAPIError 404 ''WALLET_NOT_FOUND''
              else if errors_is e appwallet_ErrInvalidInput then writeAPIError 400 ''INVALID_PAGINATION''
              else writeDependencyOrInternalError e
          | Inr page \<Rightarrow> writeJSON 200 (page_response walletId page)) w)"

definition reconciliation_json :: "reconciliation \<Rightarrow> json result" where
  "reconciliation_json c =
     and_then (money_MarshalJSON (rc_StoredBalance c)) (\<lambda>s.
     and_then (money_MarshalJSON (rc_CalculatedBalance c)) (\<lambda>m.
     and_then (money_MarshalJSON (rc_Difference c)) (\<lambda>d.
     Inr (JObject
       [(''walletId'', JString (rc_WalletID c)), (''storedBalance'', s), (''calculatedBalance'', m),
        (''difference'', d), (''consistent'', JBool (rc_Consistent c)),
        (''checkedEntries'', JInt (sint (rc_CheckedEntries c)))]))))"

definition http_reconcile :: "api \<Rightarrow> string \<Rightarrow> handler" where
  "http_reconcile api walletId r =
     answer (Reconcile (api_env api) walletId) (\<lambda>res. case res of
       Inl e \<Rightarrow>
         if errors_is e reconciliation_ErrInvalidWalletID then writeAPIError 400 ''INVALID_WALLET_ID''
         else if errors_is e reconciliation_ErrWalletNotFound then writeAPIError 404 ''WALLET_NOT_FOUND''
         else if errors_is e reconciliation_ErrOverflow then writeAPIError 500 ''RECONCILIATION_OVERFLOW''
         else writeDependencyOrInternalError e
     | Inr c \<Rightarrow> writeJSON 200 (reconciliation_json c))"


section \<open>Middleware and routes\<close>

definition Authenticate :: "oidc \<Rightarrow> handler \<Rightarrow> handler" where
  "Authenticate verifier next_handler r w =
     (case bearerToken (rq_header r ''Authorization'') of
        Inl _ \<Rightarrow> (writeAuthError 401 ''UNAUTHORIZED'', w)
      | Inr rawToken \<Rightarrow>
          (case Verify verifier rawToken of
             Inl _ \<Rightarrow> (writeAuthError 401 ''UNAUTHORIZED'', w)
           | Inr i \<Rightarrow> next_handler (r\<lparr>rq_identity := Some i\<rparr>) w))"

definition RequireRole :: "oidc \<Rightarrow> string \<Rightarrow> handler \<Rightarrow> handler" where
  "RequireRole verifier role next_handler =
     Authenticate verifier (\<lambda>r w.
       case rq_identity r of
         None \<Rightarrow> (writeAuthError 403 ''FORBIDDEN'', w)
       | Some i \<Rightarrow> if \<not> HasRole i role then (writeAuthError 403 ''FORBIDDEN'', w) else next_handler r w)"

text \<open>
  \<^verbatim>\<open>Status.Ready\<close>: the flag the server sets, then the registered checks, in the order in which the
  map is walked, with what each of them returned.
\<close>

definition Ready :: "bool \<Rightarrow> (string \<times> err option) list \<Rightarrow> (string option \<times> err) option" where
  "Ready ready checks =
     (if \<not> ready then Some (None, Opaque ''service is not accepting traffic'')
      else (case find (\<lambda>(_, outcome). outcome \<noteq> None) checks of
          Some (name, Some e) \<Rightarrow> Some (Some name, e)
        | _ \<Rightarrow> None))"

datatype endpoint =
    Metrics | Live | Readiness
  | OpenWallet | FindWallet string | WalletLedger string | WalletReconciliation string
  | SubmitWager | FindWager string | FindExternalWager string string

definition status_json :: "string \<Rightarrow> json result" where
  "status_json s = Inr (JObject [(''status'', JString s)])"

text \<open>
  The patterns registered with the multiplexer, on the segments of a cleaned path: a wildcard takes
  one segment that is not empty, and a pattern for \<^verbatim>\<open>GET\<close> also takes \<^verbatim>\<open>HEAD\<close>. No two patterns
  match the same request.
\<close>

fun base_route :: "string list \<Rightarrow> (string \<times> endpoint) option" where
  "base_route [a] = (if a = ''metrics'' then Some (''GET'', Metrics) else None)"
| "base_route [a, b] =
     (if a = ''health'' \<and> b = ''live'' then Some (''GET'', Live)
      else if a = ''health'' \<and> b = ''ready'' then Some (''GET'', Readiness)
      else None)"
| "base_route _ = None"

fun wallet_route :: "string list \<Rightarrow> (string \<times> endpoint) option" where
  "wallet_route [a] = (if a = ''wallets'' then Some (''POST'', OpenWallet) else None)"
| "wallet_route [a, b] = (if a = ''wallets'' \<and> b \<noteq> [] then Some (''GET'', FindWallet b) else None)"
| "wallet_route [a, b, c] =
     (if a = ''wallets'' \<and> b \<noteq> [] \<and> c = ''ledger'' then Some (''GET'', WalletLedger b)
      else if a = ''wallets'' \<and> b \<noteq> [] \<and> c = ''reconciliation'' then Some (''POST'', WalletReconciliation b)
      else None)"
| "wallet_route _ = None"

fun wager_route :: "string list \<Rightarrow> (string \<times> endpoint) option" where
  "wager_route [a, b] = (if a = ''wagering'' \<and> b = ''transactions'' then Some (''POST'', SubmitWager) else None)"
| "wager_route [a, b, c] =
     (if a = ''wagering'' \<and> b = ''transactions'' \<and> c \<noteq> [] then Some (''GET'', FindWager c) else None)"
| "wager_route [a, b, c, d, e] =
     (if a = ''providers'' \<and> b \<noteq> [] \<and> c = ''wagering'' \<and> d = ''transactions'' \<and> e \<noteq> []
      then Some (''GET'', FindExternalWager b e) else None)"
| "wager_route _ = None"

definition endpoint_of_path :: "string list \<Rightarrow> (string \<times> endpoint) option" where
  "endpoint_of_path path =
     (case base_route path of
        Some e \<Rightarrow> Some e
      | None \<Rightarrow> (case wallet_route path of Some e \<Rightarrow> Some e | None \<Rightarrow> wager_route path))"

text \<open>The role with which \<^verbatim>\<open>RequireRole\<close> wraps the handler of each pattern.\<close>

fun required_role :: "endpoint \<Rightarrow> string option" where
  "required_role Metrics = Some ''internal''"
| "required_role Live = None"
| "required_role Readiness = None"
| "required_role OpenWallet = Some ''internal''"
| "required_role (FindWallet _) = Some ''internal''"
| "required_role (WalletLedger _) = Some ''internal''"
| "required_role (WalletReconciliation _) = Some ''internal''"
| "required_role SubmitWager = Some ''provider''"
| "required_role (FindWager _) = Some ''provider''"
| "required_role (FindExternalWager _ _) = Some ''provider''"

fun endpoint_handler :: "api \<Rightarrow> endpoint \<Rightarrow> handler" where
  "endpoint_handler api Metrics = (\<lambda>_ w. (\<lparr>rs_status = 200, rs_body = Plain (api_metrics api), rs_location = None\<rparr>, w))"
| "endpoint_handler api Live = (\<lambda>_ w. (writeJSON 200 (status_json ''up''), w))"
| "endpoint_handler api Readiness = (\<lambda>_ w.
     (case Ready (api_ready api) (api_checks api) of
        Some _ \<Rightarrow> writeJSON 503 (status_json ''not_ready'')
      | None \<Rightarrow> writeJSON 200 (status_json ''ready''), w))"
| "endpoint_handler api OpenWallet = http_open api"
| "endpoint_handler api (FindWallet i) = http_find api i"
| "endpoint_handler api (WalletLedger i) = http_listLedger api i"
| "endpoint_handler api (WalletReconciliation i) = http_reconcile api i"
| "endpoint_handler api SubmitWager = http_submit api"
| "endpoint_handler api (FindWager i) = http_findByID api i"
| "endpoint_handler api (FindExternalWager p x) = http_findByExternalID api p x"

definition endpoint :: "request \<Rightarrow> endpoint option" where
  "endpoint r =
     (case endpoint_of_path (rq_path r) of
        Some (m, e) \<Rightarrow> if rq_method r = m \<or> m = ''GET'' \<and> rq_method r = ''HEAD'' then Some e else None
      | None \<Rightarrow> None)"

definition plain_response :: "nat \<Rightarrow> string \<Rightarrow> response" where
  "plain_response status text = \<lparr>rs_status = status, rs_body = Plain text, rs_location = None\<rparr>"

definition newMux :: "api \<Rightarrow> handler" where
  "newMux api r =
     (case endpoint r of
        Some e \<Rightarrow>
          (case required_role e of
             None \<Rightarrow> endpoint_handler api e r
           | Some role \<Rightarrow> RequireRole (api_oidc api) role (endpoint_handler api e) r)
      | None \<Rightarrow> (\<lambda>w.
          (if endpoint_of_path (rq_path r) = None then plain_response 404 ''404 page not found''
           else plain_response 405 ''Method Not Allowed'', w)))"


section \<open>Reads\<close>

lemma answer_eq: "answer m f w = (resp, w') \<longleftrightarrow> (\<exists>r. m w = (r, w') \<and> resp = f r)"
  by (auto simp: answer_def split: prod.splits)

lemma correlation_id_db: "correlation_id env r w = (x, w1) \<Longrightarrow> db w1 = db w"
  by (auto simp: correlation_id_def newID_def split: if_splits)

text \<open>A transaction whose work only reads leaves the database as it was, whatever its outcome.\<close>

lemma work_reads:
  assumes "\<And>w x w'. work w = (Inr x, w') \<Longrightarrow> db w' = db w"
  shows "work_preserves (\<lambda>d'. d' = d) work"
  using assms unfolding work_preserves_def by metis

lemma ReadCommitted_reads:
  assumes "\<And>w x w'. work w = (Inr x, w') \<Longrightarrow> db w' = db w" and "ReadCommitted env work w = (r, w')"
  shows "db w' = db w"
proof -
  have "work_preserves (\<lambda>d'. d' = db w) work" by (rule work_reads) (rule assms(1))
  from io_preservesD [OF within_preserves [OF this, of env] refl] assms(2) show ?thesis by (simp add: ReadCommitted_def)
qed

lemma wager_store_reads:
  assumes ok: "env_ok env" and run: "WagerStore_WithinTransaction env work w = (r, w')"
    and reads: "\<And>w x w'. work (wagerSession env []) w = (Inr x, w') \<Longrightarrow> db w' = db w \<and> Q x (db w)"
  shows "db w' = db w \<and> (\<forall>x. r = Inr x \<longrightarrow> Q x (db w))"
proof -
  have "atomic_outcome (work (wagerSession env [])) (db w) r (db w')"
    by (rule identity_race_atomic [OF ok run [unfolded WagerStore_WithinTransaction_def]])
  then show ?thesis by (cases r) (auto simp: atomic_outcome_def dest!: reads)
qed

lemma service_FindByID_reads:
  assumes "env_ok env" and "service_FindByID env p i w = (r, w')"
  shows "db w' = db w \<and> (\<forall>t. r = Inr t \<longrightarrow> t_providerID t = p \<and> p \<noteq> [] \<and>
    (\<exists>g \<in> set (wagers (db w)). gr_id g = i \<and> scanWager g = Inr t))"
proof (cases "p = [] \<or> id_Validate i \<noteq> None")
  case True
  then show ?thesis using assms(2) by (auto simp: service_FindByID_def)
next
  case False
  let ?work = "\<lambda>session. io_try (FindByID session i) (\<lambda>found. case found of
      None \<Rightarrow> io_throw (Sentinel app_ErrTransactionNotFound)
    | Some t \<Rightarrow> if t_providerID t \<noteq> p then io_throw (Sentinel app_ErrTransactionNotFound) else io_return t)"
  have one: "db v' = db v \<and> t_providerID t = p \<and> (\<exists>g \<in> set (wagers (db v)). gr_id g = i \<and> scanWager g = Inr t)"
    if "?work (wagerSession env []) v = (Inr t, v')" for v t v'
  proof -
    from that obtain q u where q: "FindByID (wagerSession env []) i v = (Inr q, u)"
      and k: "(case q of None \<Rightarrow> io_throw (Sentinel app_ErrTransactionNotFound)
        | Some t \<Rightarrow> if t_providerID t \<noteq> p then io_throw (Sentinel app_ErrTransactionNotFound) else io_return t) u = (Inr t, v')"
      by (rule io_try_InrE)
    from k have "q = Some t" "u = v'" "t_providerID t = p" by (auto split: option.splits if_splits)
    with pg.find_id_law [OF q] show ?thesis by auto
  qed
  have "WagerStore_WithinTransaction env ?work w = (r, w')" using assms(2) False by (simp add: service_FindByID_def)
  from wager_store_reads [OF assms(1) this, where Q = "\<lambda>t d. t_providerID t = p \<and>
      (\<exists>g \<in> set (wagers d). gr_id g = i \<and> scanWager g = Inr t)", OF one]
  show ?thesis using False by simp
qed

lemma service_FindByExternalID_reads:
  assumes "env_ok env" and "service_FindByExternalID env p x w = (r, w')"
  shows "db w' = db w \<and> (\<forall>t. r = Inr t \<longrightarrow>
    (\<exists>g \<in> set (wagers (db w)). gr_provider_id g = Some p \<and> gr_external_transaction_id g = Some x \<and> scanWager g = Inr t))"
proof (cases "p = [] \<or> \<not> valid_id x")
  case True
  then show ?thesis using assms(2) by (auto simp: service_FindByExternalID_def)
next
  case False
  let ?work = "\<lambda>session. io_try (FindByExternalID session p x) (\<lambda>found. case found of
      None \<Rightarrow> io_throw (Sentinel app_ErrTransactionNotFound) | Some t \<Rightarrow> io_return t)"
  have one: "db v' = db v \<and> (\<exists>g \<in> set (wagers (db v)). gr_provider_id g = Some p \<and>
      gr_external_transaction_id g = Some x \<and> scanWager g = Inr t)"
    if "?work (wagerSession env []) v = (Inr t, v')" for v t v'
  proof -
    from that obtain q u where q: "FindByExternalID (wagerSession env []) p x v = (Inr q, u)"
      and k: "(case q of None \<Rightarrow> io_throw (Sentinel app_ErrTransactionNotFound) | Some t \<Rightarrow> io_return t) u = (Inr t, v')"
      by (rule io_try_InrE)
    from k have "q = Some t" "u = v'" by (auto split: option.splits)
    with pg.find_external_law [OF q] show ?thesis by auto
  qed
  have "WagerStore_WithinTransaction env ?work w = (r, w')" using assms(2) False by (simp add: service_FindByExternalID_def)
  from wager_store_reads [OF assms(1) this, where Q = "\<lambda>t d. \<exists>g \<in> set (wagers d). gr_provider_id g = Some p \<and>
      gr_external_transaction_id g = Some x \<and> scanWager g = Inr t", OF one]
  show ?thesis .
qed

lemma not_found_wallet_db: "not_found_wallet m w = (r, w') \<Longrightarrow> \<exists>q. m w = (q, w')"
  by (auto simp: not_found_wallet_def io_catch_def split: prod.splits sum.splits if_splits)

lemma wallet_FindByID_db: "wallet_FindByID env i w = (Inr a, w') \<Longrightarrow> db w' = db w"
  by (auto simp: wallet_FindByID_def wallet_find_def)

lemma wallet_store_reads:
  assumes "\<And>w x w'. work w = (Inr x, w') \<Longrightarrow> db w' = db w"
    and "not_found_wallet (ReadCommitted env work) w = (r, w')"
  shows "db w' = db w"
proof -
  obtain q where "ReadCommitted env work w = (q, w')" using not_found_wallet_db [OF assms(2)] by blast
  then show ?thesis by (rule ReadCommitted_reads [rotated]) (rule assms(1))
qed

lemma wallet_service_FindByID_reads:
  assumes "wallet_service_FindByID env i w = (r, w')"
  shows "db w' = db w"
proof (cases "id_Validate i = None")
  case True
  then have "not_found_wallet (ReadCommitted env (wallet_FindByID env i)) w = (r, w')"
    using assms by (simp add: wallet_service_FindByID_def WalletStore_FindByID_def)
  from wallet_store_reads [of "wallet_FindByID env i", OF wallet_FindByID_db this] show ?thesis .
next
  case False
  then show ?thesis using assms by (simp add: wallet_service_FindByID_def)
qed

lemma ListLedger_reads:
  assumes "ListLedger env codec i cur limit w = (r, w')"
  shows "db w' = db w"
proof -
  have one: "db v' = db v"
    if "io_try (wallet_FindByID env i) (\<lambda>_. ListByWallet env i c n) v = (Inr es, v')" for c n v es v'
  proof -
    from that obtain a u where f: "wallet_FindByID env i v = (Inr a, u)" and l: "ListByWallet env i c n u = (Inr es, v')"
      by (rule io_try_InrE)
    then show ?thesis using wallet_FindByID_db [OF f] by (auto simp: ListByWallet_def)
  qed
  have store: "db v' = db v" if "WalletStore_ListLedger env i c n v = (q, v')" for c n v q v'
    by (rule wallet_store_reads [of "io_try (wallet_FindByID env i) (\<lambda>_. ListByWallet env i c n)", OF one])
      (use that in \<open>simp_all add: WalletStore_ListLedger_def\<close>)
  from assms show ?thesis
    by (auto simp: ListLedger_def io_try_def io_lift_def store split: if_splits sum.splits prod.splits)
qed

end
