(* ===== verification/Http_Effects.thy ===== *)
theory Http_Effects
  imports Http
begin

text \<open>
  What requests do: the effect of every route on the database, and what its answer means. The
  contract of a route that writes is an \<open>effect\<close>, a relation between the answer, the database before
  and the database after.
\<close>

section \<open>Effects\<close>

text \<open>
  A submission for the provider of an identity under an idempotency key. A success is the settlement
  the answer describes; an answer below 500 that is not a success means nothing was done; behind an
  answer from 500 on there may be a commit whose outcome the server does not know.
\<close>

definition submits :: "env \<Rightarrow> identity \<Rightarrow> string \<Rightarrow> submit_result \<Rightarrow> database \<Rightarrow> database \<Rightarrow> bool" where
  "submits env i key res d d' \<longleftrightarrow>
     (\<exists>input. si_ProviderID input = ai_ProviderID i \<and> si_IdempotencyKey input = key \<and>
        submitted (env_sha256 env (canonicalPayload input)) input res d d')"

definition submit_effect :: "env \<Rightarrow> identity \<Rightarrow> string \<Rightarrow> response \<Rightarrow> database \<Rightarrow> database \<Rightarrow> bool" where
  "submit_effect env i key resp d d' \<longleftrightarrow>
     (if rs_status resp \<in> {200, 202} then
        (\<exists>res. submits env i key res d d' \<and> resp = writeWagerResponse (sr_Transaction res) (sr_Replay res))
      else d' = d \<or> 500 \<le> rs_status resp \<and> (\<exists>res. submits env i key res d d'))"

definition open_effect :: "env \<Rightarrow> response \<Rightarrow> database \<Rightarrow> database \<Rightarrow> bool" where
  "open_effect env resp d d' \<longleftrightarrow>
     (if rs_status resp = 201 then
        (\<exists>account. opened (wallet_row_of env account) d d' \<and>
           resp = (writeJSON 201 (walletResponse account))\<lparr>rs_location := Some (''/wallets/'' @ w_id account)\<rparr>)
      else d' = d \<or> 500 \<le> rs_status resp \<and> (\<exists>account. opened (wallet_row_of env account) d d'))"

text \<open>The effect of a route for the identity its caller proved.\<close>

definition route_effect :: "env \<Rightarrow> endpoint \<Rightarrow> identity \<Rightarrow> request \<Rightarrow> response \<Rightarrow> database \<Rightarrow> database \<Rightarrow> bool" where
  "route_effect env e i r resp d d' \<longleftrightarrow>
     (case e of
        SubmitWager \<Rightarrow> submit_effect env i (rq_header r ''Idempotency-Key'') resp d d'
      | OpenWallet \<Rightarrow> open_effect env resp d d'
      | _ \<Rightarrow> d' = d)"

section \<open>Statuses\<close>

lemma write_status [simp]:
  "rs_status (writeJSON n v) = n" "rs_status (writeAPIError n c) = n" "rs_status (writeAuthError n c) = n"
  by (simp_all add: writeJSON_def writeAPIError_def writeAuthError_def)

lemma dependency_status: "rs_status (writeDependencyOrInternalError e) \<in> {500, 503}"
  by (simp add: writeDependencyOrInternalError_def)

lemma wager_error_status: "400 \<le> rs_status (writeWagerError e)"
  using dependency_status [of e] by (auto simp: writeWagerError_def)

lemma ambiguous_not_sentinel: "ambiguous e \<Longrightarrow> \<not> errors_is e s"
  by (simp add: ambiguous_def)

lemma ambiguous_status: "ambiguous e \<Longrightarrow> 500 \<le> rs_status (writeWagerError e)"
  using dependency_status [of e] by (auto simp: writeWagerError_def ambiguous_not_sentinel)

lemma wager_response_status: "rs_status (writeWagerResponse t b) \<in> {200, 202}"
  by (simp add: writeWagerResponse_def)

section \<open>Handlers\<close>

lemma submit_effect_same: "400 \<le> rs_status resp \<Longrightarrow> submit_effect env i key resp d d"
  by (auto simp: submit_effect_def)

lemma http_submit_effect:
  assumes env: "env_ok (api_env api)" and ok: "books_ok (db w)" and i: "rq_identity r = Some i"
    and run: "http_submit api r w = (resp, w')"
  shows "submit_effect (api_env api) i (rq_header r ''Idempotency-Key'') resp (db w) (db w')"
proof -
  from run i consider "400 \<le> rs_status resp" "db w' = db w"
    | q amount c w1 where "sq_ProviderID q = ai_ProviderID i" "correlation_id (api_env api) r w = (Inr c, w1)"
      "answer (Submit (api_env api) (submit_input_of q (rq_header r ''Idempotency-Key'') amount c)) answer_submit w1 = (resp, w')"
    unfolding http_submit_def
    by (auto dest: correlation_id_db split: if_splits sum.splits prod.splits)
  then show ?thesis
  proof cases
    case 1
    then show ?thesis by (simp add: submit_effect_same)
  next
    case (2 q amount c w1)
    let ?input = "submit_input_of q (rq_header r ''Idempotency-Key'') amount c"
    have w1: "db w1 = db w" using 2(2) by (rule correlation_id_db)
    from 2(3) obtain x where x: "Submit (api_env api) ?input w1 = (x, w')"
      and resp: "resp = answer_submit x" by (auto simp: answer_eq)
    have who: "si_ProviderID ?input = ai_ProviderID i" "si_IdempotencyKey ?input = rq_header r ''Idempotency-Key''"
      using 2(1) by (simp_all add: submit_input_of_def)
    note out = Submit_outcome [OF env ok [folded w1] x, unfolded w1]
    show ?thesis
    proof (cases x)
      case (Inl e)
      then have "db w' = db w \<or> ambiguous e \<and> (\<exists>res. submits (api_env api) i (rq_header r ''Idempotency-Key'') res (db w) (db w'))"
        using out who unfolding submits_def by auto
      moreover have "rs_status resp \<notin> {200, 202}" using resp Inl wager_error_status [of e] by (auto simp: answer_submit_def)
      ultimately show ?thesis using resp Inl ambiguous_status by (auto simp: submit_effect_def answer_submit_def)
    next
      case (Inr res)
      then have "submits (api_env api) i (rq_header r ''Idempotency-Key'') res (db w) (db w')"
        using out who unfolding submits_def by auto
      then show ?thesis using resp Inr wager_response_status unfolding submit_effect_def answer_submit_def
        by (simp del: insert_iff) blast
    qed
  qed
qed

lemma http_open_effect:
  assumes env: "env_ok (api_env api)" and run: "http_open api r w = (resp, w')"
  shows "open_effect (api_env api) resp (db w) (db w')"
proof -
  from run consider "400 \<le> rs_status resp" "db w' = db w"
    | input c w1 where "correlation_id (api_env api) r w = (Inr c, w1)"
      "answer (Open (api_env api) input) answer_open w1 = (resp, w')"
    unfolding http_open_def by (auto dest: correlation_id_db split: if_splits sum.splits prod.splits)
  then show ?thesis
  proof cases
    case 1
    then show ?thesis by (auto simp: open_effect_def)
  next
    case (2 input c w1)
    have w1: "db w1 = db w" using 2(1) by (rule correlation_id_db)
    from 2(2) obtain x where x: "Open (api_env api) input w1 = (x, w')"
      and resp: "resp = answer_open x" by (auto simp: answer_eq)
    note out = Open_outcome [OF env x, unfolded w1 open_outcome_def]
    show ?thesis
    proof (cases x)
      case (Inl e)
      moreover have "rs_status resp \<noteq> 201 \<and> (ambiguous e \<longrightarrow> 500 \<le> rs_status resp)"
        using resp Inl dependency_status [of e] by (auto simp: ambiguous_not_sentinel answer_open_def)
      ultimately show ?thesis using out by (auto simp: open_effect_def)
    next
      case (Inr account)
      then show ?thesis using resp out by (auto simp: open_effect_def answer_open_def)
    qed
  qed
qed

lemma read_handlers:
  assumes "env_ok (api_env api)"
  shows "http_findByID api t r w = (resp, w') \<Longrightarrow> db w' = db w"
    and "http_findByExternalID api p x r w = (resp, w') \<Longrightarrow> db w' = db w"
    and "http_find api i r w = (resp, w') \<Longrightarrow> db w' = db w"
    and "http_listLedger api i r w = (resp, w') \<Longrightarrow> db w' = db w"
    and "http_reconcile api i r w = (resp, w') \<Longrightarrow> db w' = db w"
proof -
  show "http_findByID api t r w = (resp, w') \<Longrightarrow> db w' = db w"
    by (auto simp: http_findByID_def answer_eq dest: service_FindByID_reads [OF assms] split: option.splits if_splits)
  show "http_findByExternalID api p x r w = (resp, w') \<Longrightarrow> db w' = db w"
    by (auto simp: http_findByExternalID_def answer_eq dest: service_FindByExternalID_reads [OF assms]
        split: option.splits if_splits)
  show "http_find api i r w = (resp, w') \<Longrightarrow> db w' = db w"
    by (auto simp: http_find_def answer_eq dest: wallet_service_FindByID_reads)
  show "http_listLedger api i r w = (resp, w') \<Longrightarrow> db w' = db w"
    by (auto simp: http_listLedger_def answer_eq dest: ListLedger_reads split: option.splits)
  show "http_reconcile api i r w = (resp, w') \<Longrightarrow> db w' = db w"
    by (auto simp: http_reconcile_def answer_eq dest: Reconcile_outcome)
qed

section \<open>Routes\<close>

lemma RequireRole_cases:
  assumes "RequireRole verifier role h r w = (resp, w')"
  obtains e where "authenticated verifier (rq_header r ''Authorization'') = Inl e" "resp = writeAuthError 401 ''UNAUTHORIZED''" "w' = w"
    | i where "authenticated verifier (rq_header r ''Authorization'') = Inr i" "\<not> HasRole i role"
      "resp = writeAuthError 403 ''FORBIDDEN''" "w' = w"
    | i where "authenticated verifier (rq_header r ''Authorization'') = Inr i" "HasRole i role"
      "h (r\<lparr>rq_identity := Some i\<rparr>) w = (resp, w')"
  using assms
  by (auto simp: RequireRole_def Authenticate_def authenticated_def split: sum.splits if_splits)

lemma endpoint_effect:
  assumes env: "env_ok (api_env api)" and ok: "books_ok (db w)" and i: "rq_identity r = Some i"
    and run: "endpoint_handler api e r w = (resp, w')"
  shows "route_effect (api_env api) e i r resp (db w) (db w')"
proof (cases e)
  case OpenWallet
  then show ?thesis using run http_open_effect [OF env] by (simp add: route_effect_def)
next
  case SubmitWager
  then show ?thesis using run http_submit_effect [OF env ok i] by (simp add: route_effect_def)
qed (use run in \<open>auto simp: route_effect_def dest: read_handlers [OF env]\<close>)

text \<open>Every request is unrouted, open to everyone, refused, or handled for an identity with the role of its route.\<close>

lemma newMux_cases:
  assumes env: "env_ok (api_env api)" and ok: "books_ok (db w)" and run: "newMux api r w = (resp, w')"
  obtains "db w' = db w" "rs_status resp \<in> {401, 403, 404, 405} \<or> endpoint r = Some Live \<or> endpoint r = Some Readiness"
    | e role i where "endpoint r = Some e" "required_role e = Some role"
      "authenticated (api_oidc api) (rq_header r ''Authorization'') = Inr i" "HasRole i role"
      "endpoint_handler api e (r\<lparr>rq_identity := Some i\<rparr>) w = (resp, w')"
      "route_effect (api_env api) e i r resp (db w) (db w')"
proof (cases "endpoint r")
  case None
  then show thesis using run that(1) by (auto simp: newMux_def plain_response_def split: if_splits)
next
  case (Some e)
  show thesis
  proof (cases "required_role e")
    case None
    then have "e = Live \<or> e = Readiness" by (cases e) simp_all
    then show thesis using run Some that(1) by (auto simp: newMux_def)
  next
    case (Some role)
    with \<open>endpoint r = Some e\<close> run have "RequireRole (api_oidc api) role (endpoint_handler api e) r w = (resp, w')"
      by (simp add: newMux_def)
    then show thesis
    proof (cases rule: RequireRole_cases)
      case (3 i)
      have "route_effect (api_env api) e i r resp (db w) (db w')"
        using endpoint_effect [OF env ok _ 3(3)] by (simp add: route_effect_def split: endpoint.splits)
      then show thesis using that(2) \<open>endpoint r = Some e\<close> Some 3 by blast
    qed (auto intro: that(1))
  qed
qed


text \<open>The wager routes answer with transactions of the caller's provider.\<close>

lemma answer_wager_status:
  assumes "rs_status (answer_wager res) \<in> {200, 202}"
  obtains t where "res = Inr t" "answer_wager res = writeWagerResponse t False"
proof (cases res)
  case (Inl e)
  then show thesis using assms wager_error_status [of e] by (auto simp: answer_wager_def)
qed (auto simp: answer_wager_def intro: that)

lemma loaded_row:
  assumes "scanWager g = Inr t"
  shows "gr_id g = t_id t" "textValue (gr_provider_id g) = t_providerID t"
  using scanWager_Inr(2) [OF assms] by (simp_all add: row_matches_def)

lemma findByID_own:
  assumes env: "env_ok (api_env api)" and run: "http_findByID api j (r\<lparr>rq_identity := Some i\<rparr>) w = (resp, w')"
    and success: "rs_status resp \<in> {200, 202}"
  shows "\<exists>t. ai_ProviderID i \<noteq> [] \<and> resp = writeWagerResponse t False \<and>
    (\<exists>g \<in> set (wagers (db w')). gr_id g = t_id t \<and> gr_provider_id g = Some (ai_ProviderID i))"
proof -
  from run success have p: "ai_ProviderID i \<noteq> []"
    and "answer (service_FindByID (api_env api) (ai_ProviderID i) j) answer_wager w = (resp, w')"
    by (auto simp: http_findByID_def split: if_splits)
  then obtain res where f: "service_FindByID (api_env api) (ai_ProviderID i) j w = (res, w')" and resp: "resp = answer_wager res"
    by (auto simp: answer_eq)
  from success obtain t where t: "res = Inr t" "resp = writeWagerResponse t False"
    unfolding resp by (rule answer_wager_status)
  from service_FindByID_reads [OF env f] t(1) obtain g where g: "g \<in> set (wagers (db w'))" "scanWager g = Inr t"
    and own: "t_providerID t = ai_ProviderID i" by auto
  have "gr_provider_id g = Some (ai_ProviderID i)" using loaded_row(2) [OF g(2)] own p by (simp add: textValue_Some)
  then show ?thesis using t(2) p g loaded_row(1) by blast
qed

lemma findByExternalID_own:
  assumes env: "env_ok (api_env api)" and run: "http_findByExternalID api p x (r\<lparr>rq_identity := Some i\<rparr>) w = (resp, w')"
    and success: "rs_status resp \<in> {200, 202}"
  shows "\<exists>t. ai_ProviderID i \<noteq> [] \<and> resp = writeWagerResponse t False \<and>
    (\<exists>g \<in> set (wagers (db w')). gr_id g = t_id t \<and> gr_provider_id g = Some (ai_ProviderID i))"
proof -
  from run success have p: "ai_ProviderID i \<noteq> []"
    and "answer (service_FindByExternalID (api_env api) (ai_ProviderID i) x) answer_wager w = (resp, w')"
    by (auto simp: http_findByExternalID_def split: if_splits)
  then obtain res where f: "service_FindByExternalID (api_env api) (ai_ProviderID i) x w = (res, w')"
    and resp: "resp = answer_wager res"
    by (auto simp: answer_eq)
  from success obtain t where t: "res = Inr t" "resp = writeWagerResponse t False"
    unfolding resp by (rule answer_wager_status)
  from service_FindByExternalID_reads [OF env f] t(1) obtain g where "g \<in> set (wagers (db w'))" "scanWager g = Inr t"
    "gr_provider_id g = Some (ai_ProviderID i)" by auto
  then show ?thesis using t(2) p loaded_row(1) by blast
qed

lemma submit_provider:
  assumes "http_submit api (r\<lparr>rq_identity := Some i\<rparr>) w = (resp, w')" "rs_status resp \<in> {200, 202}"
  shows "ai_ProviderID i \<noteq> []"
  using assms by (auto simp: http_submit_def)

lemma wager_routes_own:
  assumes env: "env_ok (api_env api)" and role: "required_role e = Some ''provider''" and success: "rs_status resp \<in> {200, 202}"
    and run: "endpoint_handler api e (r\<lparr>rq_identity := Some i\<rparr>) w = (resp, w')"
    and eff: "route_effect (api_env api) e i r resp (db w) (db w')"
  shows "\<exists>t replay. ai_ProviderID i \<noteq> [] \<and> resp = writeWagerResponse t replay \<and>
    (\<exists>g \<in> set (wagers (db w')). gr_id g = t_id t \<and> gr_provider_id g = Some (ai_ProviderID i))"
proof (cases e)
  case SubmitWager
  with eff success obtain res where res: "submits (api_env api) i (rq_header r ''Idempotency-Key'') res (db w) (db w')"
    "resp = writeWagerResponse (sr_Transaction res) (sr_Replay res)"
    by (auto simp: route_effect_def submit_effect_def)
  from res(1) obtain g where "g \<in> set (wagers (db w'))" "gr_id g = t_id (sr_Transaction res)"
    "gr_provider_id g = Some (ai_ProviderID i)"
    by (auto simp: submits_def request_row_def dest!: submitted_row)
  then show ?thesis using res(2) run SubmitWager submit_provider [OF _ success] by fastforce
next
  case (FindWager j)
  with run have "http_findByID api j (r\<lparr>rq_identity := Some i\<rparr>) w = (resp, w')" by simp
  from findByID_own [OF env this success] show ?thesis by blast
next
  case (FindExternalWager p x)
  with run have "http_findByExternalID api p x (r\<lparr>rq_identity := Some i\<rparr>) w = (resp, w')" by simp
  from findByExternalID_own [OF env this success] show ?thesis by blast
qed (use role in simp_all)

section \<open>An example server\<close>

definition ex_oidc :: oidc where
  "ex_oidc raw =
     (if raw = ''token'' then
        Inr \<lparr>tk_Subject = ''game'', tk_Claims =
          Inr \<lparr>cm_AuthorizedParty = ''game-client'', cm_ProviderID = ''provider'', cm_Roles = [''provider'']\<rparr>\<rparr>
      else Inl (Opaque ''signature''))"

definition ex_api :: api where
  "ex_api = \<lparr>api_env = ex_env, api_oidc = ex_oidc, api_codec = ex_codec, api_decode_submit = (\<lambda>_. None),
     api_decode_open = (\<lambda>_. None), api_metrics = [], api_ready = True, api_checks = []\<rparr>"

definition ex_request :: "string \<Rightarrow> string list \<Rightarrow> string \<Rightarrow> request" where
  "ex_request method path authorization =
     \<lparr>rq_method = method, rq_path = path, rq_header = (\<lambda>h. if h = ''Authorization'' then authorization else []),
      rq_query = (\<lambda>_. []), rq_body = [], rq_body_error = None, rq_identity = None\<rparr>"

definition ex_lookup :: request where
  "ex_lookup = ex_request ''GET'' [''providers'', ''provider'', ''wagering'', ''transactions'', ''x1''] ''bearer token''"

definition ex_identity :: identity where
  "ex_identity = NewIdentity ''game'' ''game-client'' ''provider'' [''provider'']"

lemma ex_scheme: "equal_fold ''bearer'' ''Bearer''"
  by code_simp

lemma ex_authenticated: "authenticated ex_oidc ''bearer token'' = Inr ex_identity"
proof -
  have "bearerToken (''bearer'' @ '' '' @ ''token'') = Inr ''token''"
    by (rule bearerToken_plain [OF ex_scheme]) (simp_all add: is_ascii_graphic_def)
  then show ?thesis by (simp add: authenticated_def Verify_def ex_oidc_def ex_identity_def)
qed

lemma ex_texts:
  "valid_id ''provider''" "valid_id ''x1''" "valid_id ''k1''" "valid_id ''r1''" "valid_id ''g1''"
  by (auto intro!: valid_id_graphic simp: is_ascii_graphic_def)

lemma ex_hash: "env_sha256 ex_env (canonicalPayload ex_input) \<noteq> zero_hash"
    "length (env_sha256 ex_env (canonicalPayload ex_input)) = 32"
proof -
  obtain s where s: "canonicalPayload ex_input = CHR ''{'' # s" by (simp add: canonicalPayload_def)
  have "hd (env_sha256 ex_env (CHR ''{'' # s)) = 123" by (simp add: ex_env_def)
  moreover have "hd zero_hash = (0 :: byte)" by (simp add: zero_hash_def)
  ultimately show "env_sha256 ex_env (canonicalPayload ex_input) \<noteq> zero_hash" unfolding s by auto
  show "length (env_sha256 ex_env (canonicalPayload ex_input)) = 32" by (simp add: ex_env_def)
qed

lemma ex_bet_loads: "\<exists>t. scanWager ex_bet = Inr t \<and> t_status t = StatusRejected"
proof -
  have "env_sha256 ex_env (canonicalPayload ex_input) \<noteq> []" using ex_hash(2) by auto
  then show ?thesis using ex_hash
  by (simp add: scanWager_def scan_hash_def ex_bet_def ex_opening_def ParseCurrency_def supportedCurrencies_def textValue_def
      money_New_def currency_Valid_def transaction_Rehydrate_def transaction_build_eq_Inr transaction_wf_def ex_texts
      validateOrigin_def validateKindAndReference_def validateResult_def origin_Valid_def payload_hash_Valid_def
      validateResultBalance_def unix_epoch_not_zero money_IsNegative_def money_IsPositive_def zero_hash_def)
qed


lemma ex_lookup_answer:
  "\<exists>t. newMux ex_api ex_lookup ex_replay_world = (writeWagerResponse t False, step (step (step ex_replay_world))) \<and>
     scanWager ex_bet = Inr t \<and> t_status t = StatusRejected"
proof -
  from ex_bet_loads obtain t where t: "scanWager ex_bet = Inr t" "t_status t = StatusRejected" by blast
  let ?r = "ex_lookup\<lparr>rq_identity := Some ex_identity\<rparr>"
  have e: "endpoint ex_lookup = Some (FindExternalWager ''provider'' ''x1'')"
    by (simp add: endpoint_def endpoint_of_path_def ex_lookup_def ex_request_def)
  have a: "authenticated (api_oidc ex_api) (rq_header ex_lookup ''Authorization'') = Inr ex_identity"
    by (simp add: ex_api_def ex_lookup_def ex_request_def ex_authenticated)
  have "find (\<lambda>r. gr_provider_id r = Some ''provider'' \<and> gr_external_transaction_id r = Some ''x1'') (wagers (db ex_replay_world)) = Some ex_bet"
    by (simp add: ex_replay_world_def ex_bet_def ex_opening_def)
  then have "service_FindByExternalID ex_env ''provider'' ''x1'' ex_replay_world = (Inr t, step (step (step ex_replay_world)))"
    using ex_texts t(1)
    by (simp add: service_FindByExternalID_def WagerStore_WithinTransaction_def ReadCommittedWithRetry_def io_catch_def io_try_def
        numeral_2_eq_2 numeral_3_eq_3 ReadCommitted_def within_def wagerSession_def FindByProviderExternalID_def none_if_not_found_def
        query_def sql_def select_wager_def ex_env_def deferred_violation_def)
  then have "http_findByExternalID ex_api ''provider'' ''x1'' ?r ex_replay_world =
      (writeWagerResponse t False, step (step (step ex_replay_world)))"
    by (simp add: http_findByExternalID_def ex_identity_def answer_def answer_wager_def ex_api_def)
  then show ?thesis
    using t e a by (auto simp: newMux_def RequireRole_def Authenticate_def authenticated_eq_Inr ex_identity_def HasRole_def)
qed


section \<open>Properties\<close>

text \<open>
  Property C20. Nobody acts through the interface without the role of the route. A request that
  changed the database, or was answered with success on any route but the two health probes, carried
  a bearer token the verifier accepted, for a named subject and client, whose roles include the role
  of the route; only two routes can change the database at all. Every other request to a protected
  route is answered 401 or 403 with nothing but a code.
\<close>

theorem http_requires_role:
  assumes "env_ok (api_env api)" and "books_ok (db w)" and "newMux api r w = (resp, w')"
    and "db w' \<noteq> db w \<or> rs_status resp \<in> {200, 201, 202} \<and> endpoint r \<notin> {Some Live, Some Readiness}"
  shows "\<exists>e role raw i. endpoint r = Some e \<and> required_role e = Some role \<and>
    bearerToken (rq_header r ''Authorization'') = Inr raw \<and> Verify (api_oidc api) raw = Inr i \<and>
    ai_Subject i \<noteq> [] \<and> ai_ClientID i \<noteq> [] \<and> HasRole i role \<and>
    (db w' \<noteq> db w \<longrightarrow> e = SubmitWager \<and> role = ''provider'' \<or> e = OpenWallet \<and> role = ''internal'')"
  using assms(1-3)
proof (cases rule: newMux_cases)
  case 1
  then show ?thesis using assms(4) by auto
next
  case (2 e role i)
  from 2(3) obtain raw where raw: "bearerToken (rq_header r ''Authorization'') = Inr raw" "Verify (api_oidc api) raw = Inr i"
    by (auto simp: authenticated_eq_Inr)
  moreover have "db w' \<noteq> db w \<longrightarrow> e = SubmitWager \<and> role = ''provider'' \<or> e = OpenWallet \<and> role = ''internal''"
    using 2(2,6) by (cases e) (auto simp: route_effect_def)
  moreover have "ai_Subject i \<noteq> []" "ai_ClientID i \<noteq> []" using raw(2) by (auto simp: Verify_eq_Inr)
  ultimately show ?thesis using 2 by blast
qed

theorem http_requires_role_witness:
  "\<exists>e role raw i. endpoint ex_lookup = Some e \<and> required_role e = Some role \<and>
    bearerToken (rq_header ex_lookup ''Authorization'') = Inr raw \<and> Verify ex_oidc raw = Inr i \<and> HasRole i role"
proof -
  from ex_lookup_answer obtain t where t: "newMux ex_api ex_lookup ex_replay_world =
      (writeWagerResponse t False, step (step (step ex_replay_world)))" by blast
  have ok: "env_ok (api_env ex_api)" by (simp add: ex_api_def ex_env_ok)
  have "rs_status (writeWagerResponse t False) \<in> {200, 201, 202} \<and> endpoint ex_lookup \<notin> {Some Live, Some Readiness}"
    using wager_response_status [of t False] by (auto simp: endpoint_def endpoint_of_path_def ex_lookup_def ex_request_def)
  from http_requires_role [OF ok ex_replay_world_books t disjI2 [OF this]] show ?thesis
    by (auto simp: ex_api_def)
qed

text \<open>
  Property C19. The answer to a request tells the truth about its effect, and the books hold
  afterwards. An answer 200 or 202 to a submission is the transaction that was settled in one atomic
  step, or was found settled before, for the provider of the caller and under the idempotency key of
  the request; an answer 201 is the wallet that was opened. An answer below 500 that is not a success
  means that nothing has changed, so the caller may act on it; only behind an answer from 500 on
  there may be a commit whose outcome is unknown, and then it is that same step. No other route ever
  changes anything.
\<close>

theorem http_status_truthful:
  assumes "env_ok (api_env api)" and "books_ok (db w)" and "newMux api r w = (resp, w')"
  shows "books_ok (db w') \<and>
    (db w' = db w \<and> (rs_status resp \<in> {200, 201, 202} \<longrightarrow> endpoint r \<in> {Some Live, Some Readiness}) \<or>
     (\<exists>e i. endpoint r = Some e \<and> authenticated (api_oidc api) (rq_header r ''Authorization'') = Inr i \<and>
        route_effect (api_env api) e i r resp (db w) (db w')))"
  using assms
proof (cases rule: newMux_cases)
  case 1
  then show ?thesis using assms(2) by auto
next
  case (2 e role i)
  have "books_ok (db w')"
    using 2(6) assms(2) submitted_books opened_books
    by (auto simp: route_effect_def submit_effect_def open_effect_def submits_def split: endpoint.splits if_splits)
  with 2 show ?thesis by blast
qed

theorem http_status_truthful_witness:
  "books_ok (db (snd (newMux ex_api ex_lookup ex_replay_world)))"
proof -
  have "env_ok (api_env ex_api)" by (simp add: ex_api_def ex_env_ok)
  from http_status_truthful [OF this ex_replay_world_books surjective_pairing] show ?thesis by blast
qed

text \<open>
  Property C21. A provider sees and moves only its own transactions: a successful answer of the three
  wager routes is the transaction of a row that is stored for the provider named in the caller's
  token.
\<close>

theorem http_provider_isolation:
  assumes "env_ok (api_env api)" and "books_ok (db w)" and "newMux api r w = (resp, w')"
    and "endpoint r = Some e" and "required_role e = Some ''provider''" and "rs_status resp \<in> {200, 202}"
  shows "\<exists>i t replay. authenticated (api_oidc api) (rq_header r ''Authorization'') = Inr i \<and> ai_ProviderID i \<noteq> [] \<and>
    resp = writeWagerResponse t replay \<and>
    (\<exists>g \<in> set (wagers (db w')). gr_id g = t_id t \<and> gr_provider_id g = Some (ai_ProviderID i))"
  using assms(1-3)
proof (cases rule: newMux_cases)
  case 1
  then show ?thesis using assms(4-6) by auto
next
  case (2 e' role i)
  then have run: "endpoint_handler api e (r\<lparr>rq_identity := Some i\<rparr>) w = (resp, w')" and a: "authenticated (api_oidc api) (rq_header r ''Authorization'') = Inr i"
    and eff: "route_effect (api_env api) e i r resp (db w) (db w')" using assms(4) by simp_all
  note own = wager_routes_own [OF assms(1,5,6) run eff]
  then show ?thesis using a by blast
qed


theorem http_provider_isolation_witness:
  "\<exists>i t replay. authenticated ex_oidc ''bearer token'' = Inr i \<and> ai_ProviderID i \<noteq> [] \<and>
    fst (newMux ex_api ex_lookup ex_replay_world) = writeWagerResponse t replay \<and>
    (\<exists>g. g \<in> set (wagers (db ex_replay_world)) \<and> gr_id g = t_id t \<and> gr_provider_id g = Some (ai_ProviderID i))"
proof -
  from ex_lookup_answer obtain t where t: "newMux ex_api ex_lookup ex_replay_world =
      (writeWagerResponse t False, step (step (step ex_replay_world)))" by blast
  have ok: "env_ok (api_env ex_api)" by (simp add: ex_api_def ex_env_ok)
  have "endpoint ex_lookup = Some (FindExternalWager ''provider'' ''x1'')"
    "required_role (FindExternalWager ''provider'' ''x1'') = Some ''provider''"
    by (simp_all add: endpoint_def endpoint_of_path_def ex_lookup_def ex_request_def)
  note own = http_provider_isolation [OF ok ex_replay_world_books t this wager_response_status]
  have h: "api_oidc ex_api = ex_oidc" "rq_header ex_lookup ''Authorization'' = ''bearer token''"
    by (simp_all add: ex_api_def ex_lookup_def ex_request_def)
  show ?thesis using own unfolding h t fst_conv by auto
qed

end
