(* ===== verification/Program.thy ===== *)
theory Program
  imports System Http_Effects
begin

text \<open>
  The program at its entry points. A replica does four things to the database and to the output
  queue: it answers an HTTP request (\<^verbatim>\<open>newMux\<close>), it handles a message (\<^verbatim>\<open>Consumer.handle\<close>), and its
  workers run rounds (\<^verbatim>\<open>ProcessOneWithClaim\<close>, \<^verbatim>\<open>ProcessOne\<close> of the outbox). Every run of any number
  of replicas is shown to be a run of the system of operations, so what holds of the system holds of
  the program, and what the program answered stays true.
\<close>

section \<open>Steps of the program\<close>

record program =
  pg_db :: database
  pg_sent :: "(string \<times> string \<times> string) list"

definition empty_program :: program where
  "empty_program = \<lparr>pg_db = empty_database, pg_sent = []\<rparr>"

text \<open>
  A replica starts from the database as it is, with an environment, a count of earlier calls and
  cached queue addresses of its own; the messages its queue accepts are appended.
\<close>

inductive program_step :: "(json \<Rightarrow> string) \<Rightarrow> program \<Rightarrow> program \<Rightarrow> bool" for jsonb where
  prog_request: "env_ok (api_env api) \<Longrightarrow> newMux api r w = (resp, w') \<Longrightarrow>
    program_step jsonb \<lparr>pg_db = db w, pg_sent = m\<rparr> \<lparr>pg_db = db w', pg_sent = m\<rparr>"
| prog_message: "env_ok env \<Longrightarrow> handle env cl decode consumer queueURL received s = (res, s') \<Longrightarrow>
    program_step jsonb \<lparr>pg_db = db (nd_world s), pg_sent = m\<rparr> \<lparr>pg_db = db (nd_world s'), pg_sent = m\<rparr>"
| prog_reference: "env_ok env \<Longrightarrow> ProcessOneWithClaim env lease w = (ro, w') \<Longrightarrow>
    program_step jsonb \<lparr>pg_db = db w, pg_sent = m\<rparr> \<lparr>pg_db = db w', pg_sent = m\<rparr>"
| prog_outbox: "outbox_ProcessOne (outbox_service_of env jsonb cl name lease) s = (ru, s') \<Longrightarrow>
    accepted s' = accepted s @ new \<Longrightarrow>
    program_step jsonb \<lparr>pg_db = db (nd_world s), pg_sent = m\<rparr> \<lparr>pg_db = db (nd_world s'), pg_sent = m @ new\<rparr>"

inductive_cases program_stepE: "program_step jsonb p p'"

section \<open>The program refines the system\<close>

text \<open>A state of the program as a state of the system in which workers hold the given claims.\<close>

definition with_claims :: "program \<Rightarrow> outbox_event list \<Rightarrow> delivery" where
  "with_claims p cs = \<lparr>dl_db = pg_db p, dl_sent = pg_sent p, dl_claims = cs\<rparr>"

lemmas system_star = converse_rtranclp_into_rtranclp

lemma request_system:
  assumes env: "env_ok (api_env api)" and ok: "books_ok (db w)" and run: "newMux api r w = (resp, w')"
  shows "(system_step jsonb)\<^sup>*\<^sup>* \<lparr>dl_db = db w, dl_sent = m, dl_claims = cs\<rparr> \<lparr>dl_db = db w', dl_sent = m, dl_claims = cs\<rparr>"
  using env ok run
proof (cases rule: newMux_cases)
  case (2 e role i)
  let ?r = "r\<lparr>rq_identity := Some i\<rparr>"
  consider (opened) "http_open api ?r w = (resp, w')" | (submission) "http_submit api ?r w = (resp, w')" | (read) "db w' = db w"
    using 2(5) by (cases e) (auto dest: read_handlers [OF env])
  then show ?thesis
  proof cases
    case opened
    then consider "db w' = db w"
      | input c w1 where "correlation_id (api_env api) ?r w = (Inr c, w1)"
        "answer (Open (api_env api) input) answer_open w1 = (resp, w')"
      unfolding http_open_def by (auto dest: correlation_id_db split: if_splits sum.splits prod.splits)
    then show ?thesis
    proof cases
      case (2 input c w1)
      then obtain x where "Open (api_env api) input w1 = (x, w')" by (auto simp: answer_eq)
      from sys_open [OF env this, of jsonb m cs] correlation_id_db [OF 2(1)] show ?thesis by auto
    qed simp
  next
    case submission
    then consider "db w' = db w"
      | input c w1 where "correlation_id (api_env api) ?r w = (Inr c, w1)"
        "answer (Submit (api_env api) input) answer_submit w1 = (resp, w')"
      unfolding http_submit_def by (auto dest: correlation_id_db split: if_splits sum.splits prod.splits)
    then show ?thesis
    proof cases
      case (2 input c w1)
      then obtain x where "Submit (api_env api) input w1 = (x, w')" by (auto simp: answer_eq)
      from sys_submit [OF env this, of jsonb m cs] correlation_id_db [OF 2(1)] show ?thesis by auto
    qed simp
  qed simp
qed simp

lemma message_system:
  assumes env: "env_ok env" and run: "handle env cl decode consumer queueURL received s = (res, s')"
  shows "(system_step jsonb)\<^sup>*\<^sup>* \<lparr>dl_db = db (nd_world s), dl_sent = m, dl_claims = cs\<rparr>
    \<lparr>dl_db = db (nd_world s'), dl_sent = m, dl_claims = cs\<rparr>"
  using run
proof (cases rule: handle_cases)
  case (failed msg e s1)
  then have "db (nd_world s') = db (nd_world s1)" using handle_failure_run by blast
  with sys_consume [OF env failed(2), of jsonb m cs] show ?thesis by auto
next
  case (consumed msg x s1)
  then have "nd_world s' = nd_world s1" using handle_success_run by blast
  with sys_consume [OF env consumed(2), of jsonb m cs] show ?thesis by auto
qed simp

lemma reference_system:
  assumes env: "env_ok env" and run: "ProcessOneWithClaim env lease w = (r, w')"
  shows "(system_step jsonb)\<^sup>*\<^sup>* \<lparr>dl_db = db w, dl_sent = m, dl_claims = cs\<rparr> \<lparr>dl_db = db w', dl_sent = m, dl_claims = cs\<rparr>"
  using run [unfolded ProcessOneWithClaim_def]
proof (rule io_try_post)
  fix e t
  assume "ReferenceStore_Claim env lease w = (Inl e, t)"
  from sys_lease [OF env this] show "(system_step jsonb)\<^sup>*\<^sup>* \<lparr>dl_db = db w, dl_sent = m, dl_claims = cs\<rparr>
      \<lparr>dl_db = db t, dl_sent = m, dl_claims = cs\<rparr>" by blast
next
  fix k t
  assume k: "ReferenceStore_Claim env lease w = (Inr k, t)"
    and rest: "(case k of None \<Rightarrow> io_return (RefIdle, None)
       | Some c \<Rightarrow> if rf_TransactionID c = [] \<or> rf_WalletID c = [] \<or> rf_Token c = []
         then io_throw (Sentinel reference_ErrInvalidClaim)
         else io_try (ReferenceStore_WithinTransaction env (process_claim env c)) (\<lambda>outcome.
           io_return (outcome, Some c))) t = (r, w')"
  then consider "w' = t" | c ro where "ReferenceStore_WithinTransaction env (process_claim env c) t = (ro, w')"
    by (auto simp: io_try_def split: option.splits if_splits sum.splits prod.splits)
  then show "(system_step jsonb)\<^sup>*\<^sup>* \<lparr>dl_db = db w, dl_sent = m, dl_claims = cs\<rparr> \<lparr>dl_db = db w', dl_sent = m, dl_claims = cs\<rparr>"
  proof cases
    case (2 c ro)
    from sys_lease [OF env k, of jsonb m cs] sys_resume [OF env 2, of jsonb m cs] show ?thesis
      by (rule system_star [OF _ r_into_rtranclp])
  qed (use sys_lease [OF env k, of jsonb m cs] in blast)
qed

text \<open>A round of the publication worker: claim, publish, and confirm or reschedule.\<close>

lemma retry_system:
  assumes run: "retry_event (outbox_service_of env jsonb cl name lease) event e s = (r, s')" and ev: "event \<in> set cs"
  shows "accepted s' = accepted s \<and> (system_step jsonb)\<^sup>*\<^sup>* \<lparr>dl_db = db (nd_world s), dl_sent = m, dl_claims = cs\<rparr>
    \<lparr>dl_db = db (nd_world s'), dl_sent = m, dl_claims = cs\<rparr>"
proof -
  let ?sv = "outbox_service_of env jsonb cl name lease"
  obtain n s1 where n: "os_now ?sv s = (Inr n, s1)" and n': "db (nd_world s1) = db (nd_world s)" "accepted s1 = accepted s"
    using pgq.now_law by metis
  obtain k s2 where k: "os_backoff ?sv (ob_Attempts event) s1 = (Inr k, s2)"
    and k': "db (nd_world s2) = db (nd_world s1)" "accepted s2 = accepted s1"
    using pgq.backoff_law by metis
  obtain q s3 where q: "st_Retry (os_store ?sv) event (n + k) (''publish_'' @ Reason (Some e)) s2 = (q, s3)" by fastforce
  have "s' = s3"
    using run n k q unfolding retry_event_def by (auto simp: io_try_def io_catch_def split: sum.splits)
  moreover have "on_world (OutboxStore_Retry env event (n + k) (''publish_'' @ Reason (Some e))) s2 = (q, s3)"
    using q by (simp add: outbox_service_of_def)
  from on_world_run [OF this] have "OutboxStore_Retry env event (n + k) (''publish_'' @ Reason (Some e)) (nd_world s2) = (q, nd_world s3)"
    "accepted s3 = accepted s2" by simp_all
  ultimately show ?thesis using sys_retry [OF ev, of env "n + k" _ "nd_world s2" q "nd_world s3" jsonb m] n' k' by auto
qed

lemma publish_event_run:
  assumes "publish_event sv event s = (r, s')"
  shows "s' = s \<or> (\<exists>q s1. pb_Publish (os_publisher sv) event s = (q, s1) \<and>
    (case q of Inl e \<Rightarrow> retry_event sv event e s1 = (r, s')
      | Inr _ \<Rightarrow> \<exists>c. st_Confirm (os_store sv) event s1 = (c, s')))"
proof (cases "ob_ID event = [] \<or> ob_GroupID event = [] \<or> ob_Token event = [] \<or> ob_Payload event = [] \<or>
    ob_Attempts event < 1")
  case True
  then show ?thesis using assms unfolding publish_event_def by (simp only: if_True) simp
next
  case False
  obtain q s1 where "pb_Publish (os_publisher sv) event s = (q, s1)" by fastforce
  moreover obtain c s2 where "st_Confirm (os_store sv) event s1 = (c, s2)" by fastforce
  ultimately show ?thesis
    using assms False by (auto simp: publish_event_def io_catch_apply split: sum.splits)
qed

lemma publish_system:
  assumes run: "publish_event (outbox_service_of env jsonb cl name lease) event s = (r, s')" and ev: "event \<in> set cs"
  shows "\<exists>new. accepted s' = accepted s @ new \<and>
    (system_step jsonb)\<^sup>*\<^sup>* \<lparr>dl_db = db (nd_world s), dl_sent = m, dl_claims = cs\<rparr>
      \<lparr>dl_db = db (nd_world s'), dl_sent = m @ new, dl_claims = cs\<rparr>"
proof -
  let ?sv = "outbox_service_of env jsonb cl name lease" and ?s = "\<lambda>d m. \<lparr>dl_db = d, dl_sent = m, dl_claims = cs\<rparr>"
  consider (invalid) "s' = s" | (published) q s1 where "sender_Publish cl name event s = (q, s1)"
      "case q of Inl e \<Rightarrow> retry_event ?sv event e s1 = (r, s') | Inr _ \<Rightarrow> \<exists>c. st_Confirm (os_store ?sv) event s1 = (c, s')"
    using publish_event_run [OF run] by (auto simp: outbox_service_of_def)
  then show ?thesis
  proof cases
    case invalid
    then show ?thesis by (intro exI [of _ "[]"]) simp
  next
    case published
    from Publish_sends [OF published(1)] obtain sent where sent: "accepted s1 = accepted s @ sent" "sent = [] \<or> sent = [event_message event]"
      "answered q \<Longrightarrow> sent = [event_message event]" and w1: "nd_world s1 = nd_world s"
      unfolding sends_def by (cases "accepted s1 = accepted s") auto
    have start: "(system_step jsonb)\<^sup>*\<^sup>* (?s (db (nd_world s)) m) (?s (db (nd_world s1)) (m @ sent))"
      using sent(2) sys_send [OF ev, of jsonb "db (nd_world s)" m] w1 by auto
    show ?thesis
    proof (cases q)
      case (Inl e)
      with published(2) have "retry_event ?sv event e s1 = (r, s')" by simp
      from retry_system [OF this ev, of "m @ sent"] sent(1) show ?thesis using rtranclp_trans [OF start] by auto
    next
      case (Inr u)
      then obtain c where "st_Confirm (os_store ?sv) event s1 = (c, s')" using published(2) by auto
      then have "on_world (OutboxStore_Confirm env event) s1 = (c, s')" by (simp add: outbox_service_of_def)
      note confirm = on_world_run [OF this]
      have "event_message event \<in> set (m @ sent)" using sent(3) Inr by (simp add: answered_def)
      then have "system_step jsonb (?s (db (nd_world s1)) (m @ sent)) (?s (db (nd_world s')) (m @ sent))"
        using sys_confirm [OF ev, of "m @ sent" env "nd_world s1" c "nd_world s'" jsonb] confirm by simp
      from rtranclp.rtrancl_into_rtrancl [OF start this] show ?thesis using sent(1) confirm by auto
    qed
  qed
qed

lemma claims_after_more: "set cs \<subseteq> set (claims_after c cs)"
  by (auto simp: claims_after_def split: sum.splits option.splits)

lemma outbox_system:
  assumes run: "outbox_ProcessOne (outbox_service_of env jsonb cl name lease) s = (r, s')"
    and new: "accepted s' = accepted s @ new"
  shows "\<exists>cs'. set cs \<subseteq> set cs' \<and> (system_step jsonb)\<^sup>*\<^sup>* \<lparr>dl_db = db (nd_world s), dl_sent = m, dl_claims = cs\<rparr>
    \<lparr>dl_db = db (nd_world s'), dl_sent = m @ new, dl_claims = cs'\<rparr>"
proof -
  let ?sv = "outbox_service_of env jsonb cl name lease"
  obtain c s1 where c: "on_world (OutboxStore_Claim env jsonb lease) s = (c, s1)" by fastforce
  note claim = on_world_run [OF c]
  have lease: "(system_step jsonb)\<^sup>*\<^sup>* \<lparr>dl_db = db (nd_world s), dl_sent = m, dl_claims = cs\<rparr>
      \<lparr>dl_db = db (nd_world s1), dl_sent = m, dl_claims = claims_after c cs\<rparr>"
    using sys_claim [of env jsonb lease "nd_world s" c "nd_world s1" m cs] claim by blast
  have more: "set cs \<subseteq> set (claims_after c cs)" by (rule claims_after_more)
  consider "s' = s1" | event where "c = Inr (Some event)" "publish_event ?sv event s1 = (r, s')"
    using run c unfolding outbox_ProcessOne_def
    by (auto simp: io_catch_apply outbox_service_of_def split: sum.splits option.splits)
  then show ?thesis
  proof cases
    case 1
    then show ?thesis using lease claim new more by auto
  next
    case (2 event)
    then have "event \<in> set (claims_after c cs)" by (simp add: claims_after_def)
    from publish_system [OF 2(2) this, of m] lease claim new more show ?thesis by (metis rtranclp_trans same_append_eq)
  qed
qed

lemma program_step_system:
  assumes "program_step jsonb p p'" and ok: "system_ok jsonb (with_claims p cs)"
  shows "\<exists>cs'. set cs \<subseteq> set cs' \<and> (system_step jsonb)\<^sup>*\<^sup>* (with_claims p cs) (with_claims p' cs')"
  using assms(1)
proof cases
  case (prog_request api r w resp w' m)
  have "books_ok (db w)" using ok prog_request by (simp add: with_claims_def system_ok_def tables_ok_def)
  from request_system [OF prog_request(3) this prog_request(4)] prog_request(1,2) show ?thesis
    unfolding with_claims_def by auto
next
  case (prog_message env cl decode consumer queueURL received s res s' m)
  then show ?thesis using message_system [OF prog_message(3,4)] unfolding with_claims_def by auto
next
  case (prog_reference env lease w ro w' m)
  then show ?thesis using reference_system [OF prog_reference(3,4)] unfolding with_claims_def by auto
next
  case (prog_outbox env cl name lease s ru s' new m)
  then show ?thesis using outbox_system [OF prog_outbox(3,4)] unfolding with_claims_def by auto
qed

lemma program_run_system:
  assumes "(program_step jsonb)\<^sup>*\<^sup>* p q" and "system_ok jsonb (with_claims p cs)"
  shows "\<exists>cs'. (system_step jsonb)\<^sup>*\<^sup>* (with_claims p cs) (with_claims q cs')"
  using assms(1)
proof (induction rule: rtranclp_induct)
  case (step q q')
  then obtain cs1 where q: "(system_step jsonb)\<^sup>*\<^sup>* (with_claims p cs) (with_claims q cs1)" by blast
  then have "system_ok jsonb (with_claims q cs1)" using system_steps_ok assms(2) by blast
  from program_step_system [OF step.hyps(2) this] q show ?case by (meson rtranclp_trans)
qed blast

lemma with_claims_empty: "with_claims empty_program [] = empty_system"
  by (simp add: with_claims_def empty_program_def empty_system_def)

lemma program_reachable:
  assumes "(program_step jsonb)\<^sup>*\<^sup>* empty_program p"
  shows "\<exists>cs. (system_step jsonb)\<^sup>*\<^sup>* empty_system (with_claims p cs)"
  using program_run_system [OF assms, of "[]"] system_ok_empty unfolding with_claims_empty by blast

lemma program_ok:
  assumes "(program_step jsonb)\<^sup>*\<^sup>* empty_program p"
  shows "\<exists>cs. system_ok jsonb (with_claims p cs)"
  using program_reachable [OF assms] reachable_ok by blast

lemma program_kept:
  assumes "(program_step jsonb)\<^sup>*\<^sup>* empty_program p" and "(program_step jsonb)\<^sup>*\<^sup>* p q"
  shows "history_kept (pg_db p) (pg_db q) \<and> outbox_evolves (outbox (pg_db p)) (outbox (pg_db q)) \<and>
    prefix (pg_sent p) (pg_sent q)"
proof -
  obtain cs where ok: "system_ok jsonb (with_claims p cs)" using program_ok [OF assms(1)] by blast
  from program_run_system [OF assms(2) ok] obtain cs' where "(system_step jsonb)\<^sup>*\<^sup>* (with_claims p cs) (with_claims q cs')"
    by blast
  from system_steps_ok [OF this ok] show ?thesis by (simp add: system_kept_def with_claims_def)
qed

section \<open>What the program answered\<close>

text \<open>A stored transaction as the caller was told: its status and the balance after it.\<close>

definition told :: "transaction \<Rightarrow> wager_row \<Rightarrow> bool" where
  "told t g \<longleftrightarrow> gr_id g = t_id t \<and> gr_status g = t_status t \<and>
     gr_result_balance_minor g = map_option minor (t_resultBalance t)"

lemma scanWager_told: "scanWager g = Inr t \<Longrightarrow> told t g"
  by (auto simp: told_def scanWager_def and_then_eq_Inr transaction_Rehydrate_def transaction_build_eq_Inr money_New_def
      split: option.splits if_splits)

lemma submitted_told:
  assumes "submitted hash input res d d'"
  shows "\<exists>g \<in> set (wagers d'). request_row input hash g \<and> told (sr_Transaction res) g"
proof (cases "sr_Replay res")
  case True
  then show ?thesis using assms scanWager_told by (auto simp: submitted_def)
next
  case False
  with assms obtain g where "settled g d d'" "request_row input hash g" "row_matches g (sr_Transaction res)"
    "gr_status g = t_status (sr_Transaction res)"
    "gr_result_balance_minor g = map_option minor (t_resultBalance (sr_Transaction res))"
    by (auto simp: submitted_def Let_def)
  then show ?thesis using wager_written_mem [OF settled_written] by (auto simp: row_matches_def told_def)
qed

lemma program_tables_ok: "(program_step jsonb)\<^sup>*\<^sup>* empty_program p \<Longrightarrow> tables_ok (pg_db p)"
  using program_ok by (auto simp: with_claims_def system_ok_def)

text \<open>A stored row in a later state of the program.\<close>

lemma told_later:
  assumes p: "(program_step jsonb)\<^sup>*\<^sup>* empty_program p" and q: "(program_step jsonb)\<^sup>*\<^sup>* p q"
    and g: "g \<in> set (wagers (pg_db p))" and t: "told t g"
  shows "\<exists>g'. g' \<in> set (wagers (pg_db q)) \<and> wager_kept g g' \<and> announced g' (outbox (pg_db q)) \<and>
    (t_status t \<noteq> StatusPendingReference \<longrightarrow> told t g') \<and>
    (moves_money g' \<longrightarrow> (\<exists>!e. e \<in> set (ledger (pg_db q)) \<and> lr_transaction_id e = t_id t))"
proof -
  from program_kept [OF p q] g obtain g' where g': "g' \<in> set (wagers (pg_db q))" "wager_kept g g'"
    unfolding history_kept_def by blast
  from p q have "tables_ok (pg_db q)" using program_tables_ok rtranclp_trans by metis
  then have a: "announced g' (outbox (pg_db q))" and b: "books_ok (pg_db q)"
    using g'(1) by (simp_all add: tables_ok_def all_announced_def)
  have "\<exists>!e. e \<in> set (ledger (pg_db q)) \<and> lr_transaction_id e = t_id t" if "moves_money g'"
  proof -
    have "gr_id g' = t_id t" using g'(2) t by (simp add: wager_kept_def told_def)
    moreover have "\<exists>e \<in> set (ledger (pg_db q)). lr_transaction_id e = gr_id g'" "inj_on lr_transaction_id (set (ledger (pg_db q)))"
      using that b g'(1) by (simp_all add: books_ok_def distinct_map)
    ultimately show ?thesis by (metis inj_onD)
  qed
  moreover have "told t g'" if "t_status t \<noteq> StatusPendingReference"
    using that t g'(2) by (auto simp: told_def wager_kept_def)
  ultimately show ?thesis using g' a by blast
qed

text \<open>A message that is recorded as completed stays so, and is never applied again.\<close>

lemma acknowledged_kept: "acknowledged consumer m d \<Longrightarrow> history_kept d d' \<Longrightarrow> acknowledged consumer m d'"
  unfolding acknowledged_def history_kept_def completed_by_def by blast

lemma acknowledged_again:
  assumes "env_ok env" and "Consume env consumer m w = (res, w')"
    and "acknowledged consumer m (db w)" and "books_ok (db w)" and "inbox_unique (db w)"
  shows "db w' = db w"
proof -
  from assms(3) obtain r x where "r \<in> set (inbox (db w))" "keyed consumer (ms_ID m) r" "completed_by x r"
    by (auto simp: acknowledged_def)
  then show ?thesis
    using Consume_outcome [OF assms(1,4,5,2)] consumed_again [OF _ assms(5)] by (cases res) auto
qed

end
