(* ===== verification/Example_Bet.thy ===== *)
theory Example_Bet
  imports Example_Run Program
begin

text \<open>
  The run of \<open>Example_Run\<close> goes on at the interface: a game client submits a bet of 10.00 BRL on the
  wallet with 50.00 BRL. The request is authenticated, decoded, settled and answered; the model is
  evaluated to the stored rows. The properties of the program are instantiated on this run.
\<close>

section \<open>The request\<close>

definition ex_stake :: submit_wager_request where
  "ex_stake = \<lparr>sq_ProviderID = ''provider'', sq_ExternalTransactionID = ''x1'', sq_PlayerID = ex_uuid 210,
     sq_WalletID = ex_uuid 0, sq_RoundID = ''r1'', sq_GameID = ''g1'', sq_Kind = KindBet,
     sq_Money = \<lparr>mq_Amount = ''10.00'', mq_Currency = ''BRL''\<rparr>, sq_ReferenceExternalTransactionID = []\<rparr>"

definition ex_server :: api where
  "ex_server = ex_api\<lparr>api_oidc := (\<lambda>raw. if raw = ''operator'' then
        Inr \<lparr>tk_Subject = ''service'', tk_Claims =
          Inr \<lparr>cm_AuthorizedParty = ''back-office'', cm_ProviderID = [], cm_Roles = [''internal'']\<rparr>\<rparr>
      else ex_oidc raw),
     api_decode_submit := (\<lambda>_. Some (ex_stake, [])),
     api_decode_open := (\<lambda>_. Some (\<lparr>oq_PlayerID = ex_uuid 210,
       oq_InitialBalance = \<lparr>mq_Amount = ''50.00'', mq_Currency = ''BRL''\<rparr>\<rparr>, []))\<rparr>"

definition ex_opening_request :: request where
  "ex_opening_request = (ex_request ''POST'' [''wallets''] ''bearer operator'')
     \<lparr>rq_header := (\<lambda>h. if h = ''Authorization'' then ''bearer operator''
        else if h = ''X-Correlation-ID'' then ''c'' else [])\<rparr>"

definition ex_submission :: request where
  "ex_submission = (ex_request ''POST'' [''wagering'', ''transactions''] ''bearer token'')
     \<lparr>rq_header := (\<lambda>h. if h = ''Authorization'' then ''bearer token''
        else if h = ''Idempotency-Key'' then ''k1'' else if h = ''X-Correlation-ID'' then ''c1'' else [])\<rparr>"

definition ex_stake_input :: submit_input where
  "ex_stake_input = submit_input_of ex_stake ''k1'' (brl 1000) ''c1''"

definition ex_stake_hash :: payload_hash where
  "ex_stake_hash = env_sha256 ex_env (canonicalPayload ex_stake_input)"

lemma ex_stake_amount: "ParseNonNegative ''10.00'' ''BRL'' = Inr (brl 1000)" "ParseNonNegative ''50.00'' ''BRL'' = Inr (brl 5000)"
proof -
  have "parseMinorUnits ''10.00'' = Inr (word_of_int 1000)" "parseMinorUnits ''50.00'' = Inr (word_of_int 5000)"
    using parseMinorUnits_amount_text [of "''10''" "''00''" False] parseMinorUnits_amount_text [of "''50''" "''00''" False]
    by (simp_all add: amount_parts_def amount_text_def amount_value_def is_digit_def in_int64_def dec_val_def
        digit_val_def Let_def)
  then show "ParseNonNegative ''10.00'' ''BRL'' = Inr (brl 1000)" "ParseNonNegative ''50.00'' ''BRL'' = Inr (brl 5000)"
    by (simp_all add: ParseNonNegative_def money_Parse_def ParseCurrency_def supportedCurrencies_def currency_Valid_def
        money_New_def brl_def)
qed

lemma ex_stake_hash: "ex_stake_hash \<noteq> zero_hash"
proof -
  obtain s where s: "canonicalPayload ex_stake_input = CHR ''{'' # s" by (simp add: canonicalPayload_def)
  have "hd (env_sha256 ex_env (CHR ''{'' # s)) = 123" by (simp add: ex_env_def)
  moreover have "hd zero_hash = (0 :: byte)" by (simp add: zero_hash_def)
  ultimately show ?thesis unfolding ex_stake_hash_def s by auto
qed

lemma ex_stake_hash_length: "length ex_stake_hash = 32" "ex_stake_hash \<noteq> []"
proof -
  show "length ex_stake_hash = 32" by (simp add: ex_stake_hash_def ex_env_def)
  then show "ex_stake_hash \<noteq> []" by auto
qed

section \<open>What the settlement computes\<close>

abbreviation ex_received_at :: time where
  "ex_received_at \<equiv> unix_epoch + 22000"

abbreviation ex_settled_at :: time where
  "ex_settled_at \<equiv> unix_epoch + 28000"

definition ex_pending :: transaction where
  "ex_pending =
     \<lparr>t_id = ex_uuid 21, t_origin = OriginExternal, t_providerID = ''provider'', t_externalTransactionID = ''x1'',
      t_idempotencyKey = ''k1'', t_payloadHash = ex_stake_hash, t_walletID = ex_uuid 0, t_playerID = ex_uuid 210,
      t_roundID = ''r1'', t_gameID = ''g1'', t_kind = KindBet, t_amount = brl 1000,
      t_referenceExternalTransactionID = [], t_referenceTransactionID = [],
      t_status = StatusPending, t_failureCode = [], t_resultBalance = None,
      t_createdAt = ex_received_at, t_updatedAt = ex_received_at\<rparr>"

definition ex_settlement :: transaction where
  "ex_settlement = ex_pending\<lparr>t_status := StatusProcessed, t_resultBalance := Some (brl 4000), t_updatedAt := ex_settled_at\<rparr>"

definition ex_debited :: wallet where
  "ex_debited = ex_account\<lparr>w_balance := brl 4000, w_version := 2, w_updatedAt := ex_settled_at\<rparr>"

definition ex_debit :: entry where
  "ex_debit = \<lparr>e_id = ex_uuid 29, e_walletID = ex_uuid 0, e_transactionID = ex_uuid 21, e_direction = DirectionDebit,
     e_amount = brl 1000, e_balanceBefore = brl 5000, e_balanceAfter = brl 4000, e_walletVersion = 2,
     e_createdAt = ex_settled_at\<rparr>"

lemma ex_not_zero: "0 \<le> n \<Longrightarrow> \<not> is_zero_time (unix_epoch + n)"
  by (simp add: is_zero_time_def unix_epoch_def time_second_def)

lemma ex_stake_valid: "validateInput ex_stake_input = None"
  using ex_texts ex_valid
  by (simp add: validateInput_def ex_stake_input_def submit_input_of_def ex_stake_def ex_money is_uuid_Validate)
 
lemma ex_pending_new: "submit_transaction ex_stake_input ex_stake_hash (ex_uuid 21) ex_received_at = Inr ex_pending"
proof -
  have "transaction_build ex_pending = Inr ex_pending"
    using ex_texts ex_valid ex_stake_hash
    by (simp add: transaction_build_eq_Inr transaction_wf_def ex_pending_def ex_money validateOrigin_def
        validateKindAndReference_def validateResult_def origin_Valid_def payload_hash_Valid_def ex_not_zero)
  then show ?thesis
    by (simp add: submit_transaction_def NewExternal_def ex_stake_input_def submit_input_of_def ex_stake_def ex_pending_def)
qed

lemma ex_account_debited:
  "wallet_Debit ex_account (brl 1000) ex_settled_at = Inr ((brl 5000, brl 4000), ex_debited)"
  by (simp add: wallet_Debit_def validateMovement_def ex_account_def ex_money money_Compare_def money_Subtract_def compatible_def
      ex_not_zero wallet_apply_def ex_debited_def money_New_def)

lemma ex_settled: "MarkProcessed ex_pending (brl 4000) ex_settled_at = Inr ex_settlement"
  by (simp add: MarkProcessed_def prepareTerminal_def validateTransitionTime_def status_Terminal_def ex_pending_def
      ex_settlement_def ex_money ex_not_zero)

lemma ex_debit_wf: "entry_wf ex_debit"
  by (simp add: ex_debit_def entry_wf_def ex_valid ex_not_zero ex_money entry_delta_def direction_Valid.simps)

lemma ex_debit_new: "ledger_New ex_debit = Inr ex_debit"
  using ex_debit_wf entry_build_of_wf by (simp add: ledger_New_def)

definition ex_stake_processed :: "processed_data envelope" where
  "ex_stake_processed = envelope_of \<lparr>md_EventID = ex_uuid 33, md_AggregateID = ex_uuid 21, md_CorrelationID = ''c1'',
       md_CausationID = [], md_OccurredAt = ex_settled_at\<rparr> TypeWagerTransactionProcessed
     \<lparr>pd_TransactionID = ex_uuid 21, pd_ProviderID = ''provider'', pd_Kind = KindBet, pd_Status = StatusProcessed,
      pd_Money = brl 1000, pd_Balance = brl 4000\<rparr>"

definition ex_stake_changed :: "balance_data envelope" where
  "ex_stake_changed = envelope_of \<lparr>md_EventID = ex_uuid 35, md_AggregateID = ex_uuid 0, md_CorrelationID = ''c1'',
       md_CausationID = ex_uuid 33, md_OccurredAt = ex_settled_at\<rparr> TypeWalletBalanceChanged (balance_data_of ex_debit)"

lemma ex_correlation: "valid_id ''c1''"
  by (rule valid_id_graphic) (simp_all add: is_ascii_graphic_def)

lemma ex_stake_processed_new:
  "NewWagerTransactionProcessed \<lparr>md_EventID = ex_uuid 33, md_AggregateID = ex_uuid 21, md_CorrelationID = ''c1'',
      md_CausationID = [], md_OccurredAt = ex_settled_at\<rparr> (ex_uuid 21) ''provider'' KindBet (brl 1000) (brl 4000) =
    Inr ex_stake_processed"
  using ex_texts ex_correlation
  by (simp add: NewWagerTransactionProcessed_def validateTransactionEvent_def newEnvelope_eq_Inr metadata_wf_def ex_money
      ex_stake_processed_def ex_not_zero)

lemma ex_stake_changed_new:
  "NewWalletBalanceChanged \<lparr>md_EventID = ex_uuid 35, md_AggregateID = ex_uuid 0, md_CorrelationID = ''c1'',
      md_CausationID = ex_uuid 33, md_OccurredAt = ex_settled_at\<rparr> (balance_data_of ex_debit) = Inr ex_stake_changed"
  unfolding ex_stake_changed_def
  by (rule NewWalletBalanceChanged_of_entry [OF ex_debit_wf])
    (simp_all add: metadata_wf_def ex_correlation ex_not_zero ex_debit_def)

section \<open>What it stores\<close>

lemma ex_query: "query ex_env f w = (f (db w), step w)"
  by (cases "f (db w)") (simp_all add: query_def sql_def ex_env_def step_def)

lemma ex_stamps: "env_timestamptz ex_env ex_time = ex_time" "env_timestamptz ex_env ex_received_at = ex_received_at"
  "env_timestamptz ex_env ex_settled_at = ex_settled_at"
  by (simp_all add: ex_env_def unix_epoch_def time_second_def)

lemma hex_digit_inj: "m < 16 \<Longrightarrow> n < 16 \<Longrightarrow> hex_digit m = hex_digit n \<longleftrightarrow> m = n"
  by (auto simp: hex_digit_def split: if_splits dest: arg_cong [of _ _ "of_char :: char \<Rightarrow> nat"])

lemma id_format_Cons: "\<exists>rest. id_format (b # bs) = hex_digit (unat b div 16) # hex_digit (unat b mod 16) # rest"
proof -
  have "(b # xs)[6 := x] = b # xs[5 := x]" "(b # xs)[8 := x] = b # xs[7 := x]" "take 4 (b # xs) = b # take 3 xs" for x and xs :: "byte list"
    by (simp_all add: numeral_eq_Suc)
  then show ?thesis by (simp add: id_format_def Let_def hex_text_def hex_byte_def)
qed

lemma ex_uuid_inj:
  assumes "m < 256" "n < 256"
  shows "ex_uuid m = ex_uuid n \<longleftrightarrow> m = n"
proof
  have start: "take 2 (ex_uuid k) = [hex_digit (k div 16), hex_digit (k mod 16)]" if "k < 256" for k
  proof -
    have "ex_bytes k = word_of_nat k # replicate 15 (word_of_nat k)" by (simp add: ex_bytes_def numeral_eq_Suc)
    moreover have "unat (word_of_nat k :: byte) = k" using that by (simp add: unat_of_nat)
    moreover obtain rest where "id_format (word_of_nat k # replicate 15 (word_of_nat k)) =
        hex_digit (unat (word_of_nat k :: byte) div 16) # hex_digit (unat (word_of_nat k :: byte) mod 16) # rest"
      using id_format_Cons by metis
    ultimately show ?thesis unfolding ex_uuid_def by (simp only:) (simp add: numeral_2_eq_2)
  qed
  assume "ex_uuid m = ex_uuid n"
  then have "hex_digit (m div 16) = hex_digit (n div 16)" "hex_digit (m mod 16) = hex_digit (n mod 16)"
    using start [OF assms(1)] start [OF assms(2)] by simp_all
  then have "m div 16 = n div 16" "m mod 16 = n mod 16"
    using assms by (simp_all add: hex_digit_inj less_mult_imp_div_less)
  then show "m = n" by (metis div_mult_mod_eq)
qed simp

lemma ex_distinct: "ex_uuid 2 \<noteq> ex_uuid 21" "ex_uuid 3 \<noteq> ex_uuid 29" "ex_uuid 4 \<noteq> ex_uuid 33" "ex_uuid 5 \<noteq> ex_uuid 33"
  "ex_uuid 4 \<noteq> ex_uuid 35" "ex_uuid 5 \<noteq> ex_uuid 35" "ex_uuid 33 \<noteq> ex_uuid 35"
  by (simp_all add: ex_uuid_inj)

text \<open>Nothing is stored under the keys of the request.\<close>

lemma ex_no_earlier:
  assumes "wagers d = [wager_row_of ex_env ex_transaction None]"
  shows "evaluateIdentities (wagerSession ex_env tok) ex_stake_input h \<lparr>tick = n, db = d\<rparr> =
    (Inr None, \<lparr>tick = Suc (Suc n), db = d\<rparr>)"
  using assms
  by (simp add: evaluateIdentities_def wagerSession_def none_if_not_found_def FindByProviderIdempotencyKey_def
      FindByProviderExternalID_def ex_query select_wager_def wager_row_of_def ex_transaction_def nullString_def io_try_def
      io_catch_def io_lift_def step_def ex_stake_input_def submit_input_of_def)

lemma ex_no_fault: "env_fault ex_env n = None" "env_commit ex_env n = None"
  by (simp_all add: ex_env_def)

lemma ex_account_loaded: "wallet_of_row (wallet_row_of ex_env ex_account) = Inr ex_account" "wr_id (wallet_row_of ex_env ex_account) = ex_uuid 0"
  by (simp_all add: wallet_row_of_def ex_account_def wallet_of_row_def ParseCurrency_def ex_money money_New_def wallet_Rehydrate_def
      ex_stamps wallet_build_eq_Inr wallet_wf_def ex_valid)

lemma ex_wallet_locked:
  assumes "wallets d = [wallet_row_of ex_env ex_account]"
  shows "session_LockWallet ex_env (ex_uuid 0) \<lparr>tick = n, db = d\<rparr> = (Inr ex_account, \<lparr>tick = Suc n, db = d\<rparr>)"
  using assms ex_account_loaded
  by (simp add: session_LockWallet_def wallet_FindByIDForUpdate_def wallet_find_def ex_query select_wallet_def uuid_param_def
      io_try_def io_catch_def io_lift_def step_def)

definition ex_after :: "outbox_row list \<Rightarrow> database" where
  "ex_after xs = \<lparr>wallets = [wallet_row_of ex_env ex_debited],
     wagers = [wager_row_of ex_env ex_transaction None, wager_row_of ex_env ex_settlement None],
     ledger = [ledger_row_of ex_env ex_credit, ledger_row_of ex_env ex_debit], inbox = [], outbox = xs\<rparr>"

lemmas ex_stake_parts = ex_settlement_def ex_pending_def ex_debited_def ex_debit_def

lemma ex_wallet_updated:
  "session_UpdateWallet ex_env ex_debited \<lparr>tick = n, db = ex_tables xs\<rparr> =
    (Inr (), \<lparr>tick = Suc n, db = (ex_tables xs)\<lparr>wallets := wallets (ex_after xs)\<rparr>\<rparr>)"
  by (simp add: session_UpdateWallet_def wallet_Update_def sql_def ex_no_fault uuid_param_def ex_tables_def ex_after_def
      wallet_checks_def ex_stamps wallet_row_of_def ex_debited_def ex_account_def brl_def supportedCurrencies_def io_try_def io_catch_def step_def)

lemma ex_stake_inserted:
  "wager_Insert ex_env ex_settlement None \<lparr>tick = n, db = (ex_tables xs)\<lparr>wallets := wallets (ex_after xs)\<rparr>\<rparr> =
    (Inr (), \<lparr>tick = Suc n, db = (ex_after xs)\<lparr>ledger := ledger (ex_tables xs)\<rparr>\<rparr>)"
  using ex_distinct(1) ex_distinct(1) [symmetric]
  by (simp add: wager_Insert_def ex_exec uuid_param_def optional_uuid_param_def step_def ex_tables_def ex_after_def
      insert_wager_def wager_checks_def wager_uniques_def wager_references_def origin_Valid_def wager_reference_by_kind_def
      wager_origin_fields_def is_null_def is_reversal_def non_blank_def ex_stake_hash_length ex_stamps ex_rows ex_stake_parts)

lemma ex_debit_inserted:
  "ledger_Insert ex_env ex_debit \<lparr>tick = n, db = (ex_after xs)\<lparr>ledger := ledger (ex_tables xs)\<rparr>\<rparr> =
    (Inr (), \<lparr>tick = Suc n, db = ex_after xs\<rparr>)"
  using ex_distinct(1,2) ex_distinct(1,2) [symmetric]
  by (simp add: ledger_Insert_def ex_exec uuid_param_def step_def ex_tables_def ex_after_def insert_ledger_def
      direction_Valid.simps ledger_balance_equation_def ex_rows ex_stake_parts)

text \<open>The two events that announce the bet.\<close>

lemma ex_stake_marshals:
  "\<exists>j. event_MarshalJSON (as_event ProcessedData ex_stake_processed) = Inr j"
  "\<exists>j. event_MarshalJSON (as_event BalanceData ex_stake_changed) = Inr j"
  using ex_correlation
  by (simp_all add: event_MarshalJSON_def envelope_MarshalJSON_def as_event_def envelope_of_def ex_valid ex_not_zero
      ex_stake_processed_def ex_stake_changed_def processed_json_def balance_json_def money_MarshalJSON_valid balance_data_of_def
      ex_debit_def)

lemma ex_stake_announced:
  assumes "map xr_event_id xs = [ex_uuid 4, ex_uuid 5]"
  shows "\<exists>x. xr_event_id x = ex_uuid 33 \<and> outbox_Insert ex_env (as_event ProcessedData ex_stake_processed)
      \<lparr>tick = n, db = ex_after xs\<rparr> = (Inr (), \<lparr>tick = Suc n, db = ex_after (xs @ [x])\<rparr>)"
proof -
  have new: "\<not> list_ex (\<lambda>q. xr_event_id q = ex_uuid 33) xs"
    using assms ex_distinct(3,4) by (auto simp: list_ex_iff)
  obtain j where "event_MarshalJSON (as_event ProcessedData ex_stake_processed) = Inr j" using ex_stake_marshals by blast
  then show ?thesis
    using new
    by (simp add: outbox_Insert_def io_try_def io_lift_def ex_exec uuid_param_def insert_outbox_def step_def
        ex_after_def outbox_row_of_def ex_stake_processed_def as_event_def envelope_of_def ContractVersion_def)
qed

lemma ex_stake_balance_announced:
  assumes "map xr_event_id xs = [ex_uuid 4, ex_uuid 5]" "xr_event_id x = ex_uuid 33"
  shows "\<exists>y. outbox_Insert ex_env (as_event BalanceData ex_stake_changed)
      \<lparr>tick = n, db = ex_after (xs @ [x])\<rparr> = (Inr (), \<lparr>tick = Suc n, db = ex_after (xs @ [x, y])\<rparr>)"
proof -
  have new: "\<not> list_ex (\<lambda>q. xr_event_id q = ex_uuid 35) (xs @ [x])"
    using assms ex_distinct(5-7) by (auto simp: list_ex_iff)
  obtain j where "event_MarshalJSON (as_event BalanceData ex_stake_changed) = Inr j" using ex_stake_marshals by blast
  then show ?thesis
    using new
    by (simp add: outbox_Insert_def io_try_def io_lift_def ex_exec uuid_param_def insert_outbox_def step_def
        ex_after_def outbox_row_of_def ex_stake_changed_def as_event_def envelope_of_def ContractVersion_def)
qed

lemma ex_stake_deferred: "deferred_violation (ex_tables xs) (ex_after ys) = None"
  using ex_distinct(1,2) ex_distinct(1,2) [symmetric]
  by (simp add: ex_tables_def ex_after_def deferred_violation_def validate_wallet_financial_change_def
      validate_ledger_financial_state_def direction_semantics_def validate_wager_financial_result_def find_wager_def
      ex_stamps ex_rows ex_stake_parts)

section \<open>The answer\<close>

lemma ex_stake_fields:
  "si_Kind ex_stake_input = KindBet" "si_Amount ex_stake_input = brl 1000" "si_ProviderID ex_stake_input = ''provider''"
  "si_WalletID ex_stake_input = ex_uuid 0" "si_PlayerID ex_stake_input = ex_uuid 210" "si_CorrelationID ex_stake_input = ''c1''"
  "si_ReferenceExternalTransactionID ex_stake_input = []"
  "t_id ex_settlement = ex_uuid 21" "t_id ex_pending = ex_uuid 21" "w_id ex_debited = ex_uuid 0" "w_version ex_debited = 2"
  "w_playerID ex_account = ex_uuid 210" "w_balance ex_account = brl 5000" "w_updatedAt ex_account = ex_time"
  by (simp_all add: ex_stake_input_def submit_input_of_def ex_stake_def ex_stake_parts ex_account_def)

lemma ex_debit_booked:
  "ledger_New \<lparr>e_id = ex_uuid 29, e_walletID = ex_uuid 0, e_transactionID = ex_uuid 21, e_direction = DirectionDebit,
     e_amount = brl 1000, e_balanceBefore = brl 5000, e_balanceAfter = brl 4000, e_walletVersion = 2,
     e_createdAt = ex_settled_at\<rparr> = Inr ex_debit"
  using ex_debit_new by (simp add: ex_debit_def)

lemma ex_stake_balance_new:
  "NewWalletBalanceChanged \<lparr>md_EventID = ex_uuid 35, md_AggregateID = ex_uuid 0, md_CorrelationID = ''c1'',
      md_CausationID = ex_uuid 33, md_OccurredAt = ex_settled_at\<rparr>
     \<lparr>bd_WalletID = ex_uuid 0, bd_TransactionID = ex_uuid 21, bd_Direction = DirectionDebit, bd_Money = brl 1000,
      bd_BalanceBefore = brl 5000, bd_BalanceAfter = brl 4000, bd_WalletVersion = 2\<rparr> = Inr ex_stake_changed"
  using ex_stake_changed_new by (simp add: balance_data_of_def ex_debit_def)

lemma ex_stake_finish:
  assumes "map xr_event_id xs = [ex_uuid 4, ex_uuid 5]"
  shows "\<exists>ys. finish (wager_service ex_env) (wagerSession ex_env []) ex_account ex_pending ex_stake_input None [] False ex_settled_at
    \<lparr>tick = 29, db = ex_tables xs\<rparr> = (Inr ex_settlement, \<lparr>tick = 37, db = ex_after ys\<rparr>)"
proof -
  obtain x where x: "xr_event_id x = ex_uuid 33" "outbox_Insert ex_env (as_event ProcessedData ex_stake_processed)
      \<lparr>tick = 34, db = ex_after xs\<rparr> = (Inr (), \<lparr>tick = 35, db = ex_after (xs @ [x])\<rparr>)"
    using ex_stake_announced [OF assms, of 34] by auto
  obtain y where y: "outbox_Insert ex_env (as_event BalanceData ex_stake_changed)
      \<lparr>tick = 36, db = ex_after (xs @ [x])\<rparr> = (Inr (), \<lparr>tick = 37, db = ex_after (xs @ [x, y])\<rparr>)"
    using ex_stake_balance_announced [OF assms x(1), of 36] by auto
  have "finish_movement (wager_service ex_env) (wagerSession ex_env []) ex_debited ex_pending ex_stake_input DirectionDebit
      (brl 5000) (brl 4000) False ex_settled_at \<lparr>tick = 29, db = ex_tables xs\<rparr> =
    (Inr ex_settlement, \<lparr>tick = 37, db = ex_after (xs @ [x, y])\<rparr>)"
    using x(2) y
    by (simp add: finish_movement_def io_try_def io_lift_def ex_settled ex_stake_fields wager_service_def wagerSession_def ex_ids step_def
        ex_debit_booked ex_wallet_updated persistTransaction_def ex_stake_inserted ex_debit_inserted insertProcessedEvent_def
        ex_stake_processed_new insertBalanceEvent_def ex_stake_balance_new)
  then show ?thesis
    by (auto simp: finish_def io_try_def ex_stake_fields finish_moving_def movement_direction_def move_wallet_def
        ex_account_debited)
qed

definition ex_begin :: "outbox_row list \<Rightarrow> world" where
  "ex_begin xs = \<lparr>tick = 20, db = ex_tables xs\<rparr>"

lemma ex_stake_submitted:
  assumes "map xr_event_id xs = [ex_uuid 4, ex_uuid 5]"
  shows "\<exists>w ys. Submit ex_env ex_stake_input (ex_begin xs) = (Inr \<lparr>sr_Transaction = ex_settlement, sr_Replay = False\<rparr>, w) \<and>
    db w = ex_after ys"
proof -
  obtain ys where f: "finish (wager_service ex_env) (wagerSession ex_env []) ex_account ex_pending ex_stake_input None [] False
      ex_settled_at \<lparr>tick = 29, db = ex_tables xs\<rparr> = (Inr ex_settlement, \<lparr>tick = 37, db = ex_after ys\<rparr>)"
    using ex_stake_finish [OF assms] by blast
  have none: "wagers (ex_tables xs) = [wager_row_of ex_env ex_transaction None]" "wallets (ex_tables xs) = [wallet_row_of ex_env ex_account]"
    by (simp_all add: ex_tables_def)
  have late: "max (max ex_settled_at ex_received_at) ex_time = ex_settled_at" by simp
  have "submit_locked (wager_service ex_env) (wagerSession ex_env []) ex_stake_input ex_stake_hash ex_pending ex_received_at ex_account
      \<lparr>tick = 26, db = ex_tables xs\<rparr> = (Inr \<lparr>sr_Transaction = ex_settlement, sr_Replay = False\<rparr>, \<lparr>tick = 37, db = ex_after ys\<rparr>)"
    using f late
    by (simp add: submit_locked_def ex_stake_fields brl_def io_try_def ex_no_earlier [OF none(1)] wager_service_def ex_ids step_def
        process_def resolveReference_def)
  then have "SubmitInSession (wager_service ex_env) (wagerSession ex_env []) ex_stake_input \<lparr>tick = 21, db = ex_tables xs\<rparr> =
      (Inr \<lparr>sr_Transaction = ex_settlement, sr_Replay = False\<rparr>, \<lparr>tick = 37, db = ex_after ys\<rparr>)"
    using ex_no_earlier [OF none(1), of _ _ 23] ex_wallet_locked [OF none(2), of 25] ex_pending_new ex_stake_valid
    by (simp add: SubmitInSession_def wager_service_def ex_ids step_def io_try_def io_lift_def ex_stake_hash_def [symmetric]
        ex_stake_fields) (simp add: wagerSession_def)
  then have "WagerStore_WithinTransaction ex_env (\<lambda>session. SubmitInSession (wager_service ex_env) session ex_stake_input) (ex_begin xs) =
      (Inr \<lparr>sr_Transaction = ex_settlement, sr_Replay = False\<rparr>, \<lparr>tick = 38, db = ex_after ys\<rparr>)"
    by (simp add: WagerStore_WithinTransaction_def ReadCommittedWithRetry_def numeral_3_eq_3 ReadCommitted_def within_def ex_begin_def
        ex_no_fault step_def ex_stake_deferred io_catch_def)
  then show ?thesis by (simp add: Submit_def io_catch_def) blast
qed

lemma ex_callers:
  "authenticated (api_oidc ex_server) ''bearer token'' = Inr ex_identity"
  "authenticated (api_oidc ex_server) ''bearer operator'' = Inr (NewIdentity ''service'' ''back-office'' [] [''internal''])"
proof -
  have "bearerToken (''bearer'' @ '' '' @ ''token'') = Inr ''token''" "bearerToken (''bearer'' @ '' '' @ ''operator'') = Inr ''operator''"
    by (rule bearerToken_plain [OF ex_scheme]; simp add: is_ascii_graphic_def)+
  then show "authenticated (api_oidc ex_server) ''bearer token'' = Inr ex_identity"
    "authenticated (api_oidc ex_server) ''bearer operator'' = Inr (NewIdentity ''service'' ''back-office'' [] [''internal''])"
    by (simp_all add: authenticated_def Verify_def ex_server_def ex_oidc_def ex_identity_def)
qed

lemma ex_opening_answered:
  "newMux ex_server ex_opening_request ex_start = (answer_open (fst (Open ex_env ex_open ex_start)), ex_opened)"
proof -
  let ?i = "NewIdentity ''service'' ''back-office'' [] [''internal'']"
  let ?r = "ex_opening_request\<lparr>rq_identity := Some ?i\<rparr>"
  have e: "endpoint ex_opening_request = Some OpenWallet" "api_env ex_server = ex_env"
    by (simp_all add: endpoint_def endpoint_of_path_def ex_opening_request_def ex_request_def ex_server_def ex_api_def)
  have a: "authenticated (api_oidc ex_server) (rq_header ex_opening_request ''Authorization'') = Inr ?i"
    using ex_callers(2) by (simp add: ex_opening_request_def)
  have "decodeJSON (api_decode_open ex_server) ?r = Inr \<lparr>oq_PlayerID = ex_uuid 210,
       oq_InitialBalance = \<lparr>mq_Amount = ''50.00'', mq_Currency = ''BRL''\<rparr>\<rparr>"
    by (simp add: decodeJSON_def read_limited_def ex_server_def ex_opening_request_def ex_request_def)
  moreover have "correlation_id (api_env ex_server) ?r ex_start = (Inr ''c'', ex_start)"
    by (simp add: correlation_id_def ex_opening_request_def)
  ultimately have "http_open ex_server ?r ex_start = (answer_open (fst (Open ex_env ex_open ex_start)), ex_opened)"
    using e(2) by (simp add: http_open_def ex_stake_amount answer_def ex_open_def [symmetric] ex_opened_def split: prod.splits)
  then show ?thesis
    using e a by (auto simp: newMux_def RequireRole_def Authenticate_def authenticated_eq_Inr HasRole_def NewIdentity_def)
qed

lemma ex_stake_answered:
  assumes "map xr_event_id xs = [ex_uuid 4, ex_uuid 5]"
  shows "\<exists>w ys. newMux ex_server ex_submission (ex_begin xs) = (writeWagerResponse ex_settlement False, w) \<and> db w = ex_after ys"
proof -
  let ?r = "ex_submission\<lparr>rq_identity := Some ex_identity\<rparr>"
  obtain w ys where s: "Submit ex_env ex_stake_input (ex_begin xs) = (Inr \<lparr>sr_Transaction = ex_settlement, sr_Replay = False\<rparr>, w)"
    and w: "db w = ex_after ys" using ex_stake_submitted [OF assms] by blast
  have e: "endpoint ex_submission = Some SubmitWager"
    by (simp add: endpoint_def endpoint_of_path_def ex_submission_def ex_request_def)
  have a: "authenticated (api_oidc ex_server) (rq_header ex_submission ''Authorization'') = Inr ex_identity" "api_env ex_server = ex_env"
    using ex_callers(1) by (simp_all add: ex_submission_def ex_server_def ex_api_def)
  have "decodeJSON (api_decode_submit ex_server) ?r = Inr ex_stake"
    by (simp add: decodeJSON_def read_limited_def ex_server_def ex_submission_def ex_request_def)
  moreover have "submit_input_of ex_stake (rq_header ?r ''Idempotency-Key'') (brl 1000) ''c1'' = ex_stake_input"
    by (simp add: ex_stake_input_def ex_submission_def)
  moreover have "correlation_id (api_env ex_server) ?r (ex_begin xs) = (Inr ''c1'', ex_begin xs)"
    by (simp add: correlation_id_def ex_submission_def)
  moreover have "rq_header ?r ''Idempotency-Key'' \<noteq> []" by (simp add: ex_submission_def)
  ultimately have "http_submit ex_server ?r (ex_begin xs) = (writeWagerResponse ex_settlement False, w)"
    using s a(2) by (simp add: http_submit_def ex_identity_def ex_stake_def ex_stake_amount answer_eq answer_submit_def)
  then show ?thesis
    using w e a by (auto simp: newMux_def RequireRole_def Authenticate_def authenticated_eq_Inr ex_identity_def HasRole_def)
qed

section \<open>The run of the program\<close>

definition ex_program :: program where
  "ex_program = \<lparr>pg_db = db ex_opened, pg_sent = []\<rparr>"

lemma ex_program_reachable: "(program_step jsonb)\<^sup>*\<^sup>* empty_program ex_program"
proof -
  have "env_ok (api_env ex_server)" by (simp add: ex_server_def ex_api_def ex_env_ok)
  from prog_request [OF this ex_opening_answered, of jsonb "[]"] show ?thesis
    by (simp add: ex_program_def empty_program_def ex_start_def)
qed

section \<open>The same bet as a message\<close>

text \<open>
  The provider sends the bet to the input queue as well. The consumer finds the transaction by its
  keys, completes the message by it and deletes the message.
\<close>

definition ex_order :: message_dto where
  "ex_order = \<lparr>dt_MessageID = ''m1'', dt_Type = MessageTypeWagerRequested, dt_OccurredAt = unix_epoch,
     dt_ProviderID = ''provider'', dt_ExternalTransactionID = ''x1'', dt_IdempotencyKey = ''k1'',
     dt_PlayerID = ex_uuid 210, dt_WalletID = ex_uuid 0, dt_RoundID = ''r1'', dt_GameID = ''g1'', dt_Kind = KindBet,
     dt_Money = \<lparr>md_Amount = ''10.00'', md_Currency = ''BRL''\<rparr>, dt_ReferenceExternalTransactionID = []\<rparr>"

definition ex_order_message :: message where
  "ex_order_message =
     (let m = \<lparr>ms_ID = ''m1'', ms_Type = MessageTypeWagerRequested, ms_OccurredAt = unix_epoch,
        ms_Input = dto_input ex_order (brl 1000), ms_hash = zero_hash\<rparr>
      in m\<lparr>ms_hash := env_sha256 ex_env (canonicalEnvelope m)\<rparr>)"

definition ex_delivery :: sqs_message where
  "ex_delivery = \<lparr>mg_ID = ''b1'', mg_Body = ''body'', mg_ReceiptHandle = ''h1'', mg_ReceiveCount = 1\<rparr>"

lemma ex_order_decoded: "DecodeMessage ex_env (\<lambda>_. Some ex_order) (mg_Body ex_delivery) = Inr ex_order_message"
proof -
  have "valid_id ''m1''" by (rule valid_id_graphic) (simp_all add: is_ascii_graphic_def)
  then have "trim_space ''m1'' = ''m1''" by (simp add: valid_id_def)
  moreover have "\<not> is_zero_time unix_epoch" using ex_not_zero [of 0] by simp
  ultimately show ?thesis
    by (simp add: DecodeMessage_def ex_delivery_def maxMessageBytes_def ex_order_message_def Let_def ex_stake_amount ex_order_def)
qed

lemma ex_order_fields:
  "ms_ID ex_order_message = ''m1''" "ms_Input ex_order_message = ex_stake_input\<lparr>si_CorrelationID := ''m1''\<rparr>"
  "length (ms_hash ex_order_message) = 32" "ms_hash ex_order_message \<noteq> zero_hash"
proof -
  show "ms_ID ex_order_message = ''m1''" "ms_Input ex_order_message = ex_stake_input\<lparr>si_CorrelationID := ''m1''\<rparr>"
    by (simp_all add: ex_order_message_def Let_def dto_input_def ex_order_def ex_stake_input_def submit_input_of_def ex_stake_def)
  obtain m where m: "ms_hash ex_order_message = env_sha256 ex_env (canonicalEnvelope m)"
    by (simp add: ex_order_message_def Let_def)
  obtain s where s: "canonicalEnvelope m = CHR ''{'' # s" by (simp add: canonicalEnvelope_def Let_def)
  have "hd (env_sha256 ex_env (CHR ''{'' # s)) = 123" by (simp add: ex_env_def)
  moreover have "hd zero_hash = (0 :: byte)" by (simp add: zero_hash_def)
  ultimately show "ms_hash ex_order_message \<noteq> zero_hash" unfolding m s by auto
  show "length (ms_hash ex_order_message) = 32" unfolding m by (simp add: ex_env_def)
qed

lemma ex_settlement_loaded: "scanWager (wager_row_of ex_env ex_settlement None) = Inr ex_settlement"
  using ex_stake_hash [unfolded zero_hash_def] ex_stake_hash_length ex_texts ex_valid
  by (simp add: scanWager_def wager_row_of_def ex_stake_parts scan_hash_def ParseCurrency_def supportedCurrencies_def
      money_New_def currency_Valid_def transaction_Rehydrate_def transaction_build_eq_Inr transaction_wf_def
      validateOrigin_def validateKindAndReference_def validateResult_def origin_Valid_def payload_hash_Valid_def
      validateResultBalance_def ex_stamps ex_not_zero money_IsNegative_def money_IsPositive_def nullString_def textValue_def
      brl_def money_Validate_def zero_hash_def)

definition ex_stored :: "outbox_row list \<Rightarrow> inbox_row list \<Rightarrow> world" where
  "ex_stored ys rows = \<lparr>tick = 40, db = (ex_after ys)\<lparr>inbox := rows\<rparr>\<rparr>"

lemma ex_order_input:
  "validateInput (ms_Input ex_order_message) = None" "canonicalPayload (ms_Input ex_order_message) = canonicalPayload ex_stake_input"
  "si_ProviderID (ms_Input ex_order_message) = ''provider''" "si_IdempotencyKey (ms_Input ex_order_message) = ''k1''"
  "si_ExternalTransactionID (ms_Input ex_order_message) = ''x1''"
  using ex_stake_valid
  by (simp_all add: ex_order_fields validateInput_def ex_stake_input_def submit_input_of_def ex_stake_def canonicalPayload_def
      split: if_splits)

lemma ex_order_new:
  assumes "0 \<le> k"
  shows "\<exists>t. submit_transaction (ms_Input ex_order_message) ex_stake_hash (ex_uuid n) (unix_epoch + k) = Inr t"
proof -
  have "transaction_build (ex_pending\<lparr>t_id := ex_uuid n, t_createdAt := unix_epoch + k, t_updatedAt := unix_epoch + k\<rparr>) =
      Inr (ex_pending\<lparr>t_id := ex_uuid n, t_createdAt := unix_epoch + k, t_updatedAt := unix_epoch + k\<rparr>)"
    using ex_texts ex_valid ex_stake_hash ex_not_zero [OF assms]
    by (simp add: transaction_build_eq_Inr transaction_wf_def ex_pending_def ex_money validateOrigin_def
        validateKindAndReference_def validateResult_def origin_Valid_def payload_hash_Valid_def)
  then show ?thesis
    by (simp add: submit_transaction_def NewExternal_def ex_order_fields ex_stake_input_def submit_input_of_def ex_stake_def ex_pending_def)
qed

lemma ex_order_replayed:
  "SubmitInSession (wager_service ex_env) (wagerSession ex_env []) (ms_Input ex_order_message)
     \<lparr>tick = 44, db = (ex_after ys)\<lparr>inbox := rows\<rparr>\<rparr> =
   (Inr \<lparr>sr_Transaction = ex_settlement, sr_Replay = True\<rparr>, \<lparr>tick = 48, db = (ex_after ys)\<lparr>inbox := rows\<rparr>\<rparr>)"
proof -
  obtain t where t: "submit_transaction (ms_Input ex_order_message) ex_stake_hash (ex_uuid 44) (unix_epoch + 45000) = Inr t"
    using ex_order_new [of 45000 44] by auto
  let ?d = "(ex_after ys)\<lparr>inbox := rows\<rparr>"
  have row: "gr_provider_id (wager_row_of ex_env ex_settlement None) = Some ''provider''"
    "gr_external_transaction_id (wager_row_of ex_env ex_settlement None) = Some ''x1''"
    "gr_idempotency_key (wager_row_of ex_env ex_settlement None) = Some ''k1''"
    "gr_provider_id (wager_row_of ex_env ex_transaction None) = None"
    by (simp_all add: wager_row_of_def ex_stake_parts ex_transaction_def nullString_def)
  have dec: "identity_decision (ms_Input ex_order_message) ex_stake_hash (Some ex_settlement) (Some ex_settlement) = Inr (Some ex_settlement)"
    by (simp add: ex_order_input ex_stake_parts)
  have "evaluateIdentities (wagerSession ex_env []) (ms_Input ex_order_message) ex_stake_hash \<lparr>tick = 46, db = ?d\<rparr> =
      (Inr (Some ex_settlement), \<lparr>tick = 48, db = ?d\<rparr>)"
    using row dec ex_settlement_loaded
    by (simp add: evaluateIdentities_def wagerSession_def none_if_not_found_def FindByProviderIdempotencyKey_def
      FindByProviderExternalID_def ex_query select_wager_def ex_after_def io_try_def io_catch_def io_lift_def step_def ex_order_input)
  then show ?thesis
    using t ex_order_input
    by (simp add: SubmitInSession_def wager_service_def ex_ids step_def io_try_def io_lift_def ex_stake_hash_def [symmetric])
qed

definition ex_receipt :: inbox_row where
  "ex_receipt = \<lparr>ir_consumer_name = ''wallet'', ir_message_id = ''m1'', ir_payload_hash = ms_hash ex_order_message,
     ir_received_at = unix_epoch + 41000, ir_completed_at = Some (unix_epoch + 48000), ir_transaction_id = Some (ex_uuid 21)\<rparr>"

lemma ex_order_claimed:
  "inbox_Claim ex_env ''wallet'' ''m1'' (ms_hash ex_order_message) (unix_epoch + 41000) \<lparr>tick = 42, db = ex_after ys\<rparr> =
   (Inr \<lparr>cl_Completed = False, cl_TransactionID = []\<rparr>,
    \<lparr>tick = 44, db = (ex_after ys)\<lparr>inbox := [ex_receipt\<lparr>ir_completed_at := None, ir_transaction_id := None\<rparr>]\<rparr>\<rparr>)"
proof -
  have "env_timestamptz ex_env (unix_epoch + 41000) = unix_epoch + 41000" by (simp add: ex_env_def unix_epoch_def time_second_def)
  then show ?thesis
    by (simp add: inbox_Claim_def io_try_def ex_exec ex_query insert_inbox_or_ignore_def inbox_checks_def ex_order_fields ex_after_def
        ex_receipt_def step_def textValue_def)
qed

lemma ex_order_completed:
  "inbox_Complete ex_env ''wallet'' ''m1'' (ex_uuid 21) (unix_epoch + 48000)
     \<lparr>tick = 49, db = (ex_after ys)\<lparr>inbox := [ex_receipt\<lparr>ir_completed_at := None, ir_transaction_id := None\<rparr>]\<rparr>\<rparr> =
   (Inr (), \<lparr>tick = 50, db = (ex_after ys)\<lparr>inbox := [ex_receipt]\<rparr>\<rparr>)"
proof -
  have "env_timestamptz ex_env (unix_epoch + 48000) = unix_epoch + 48000" by (simp add: ex_env_def unix_epoch_def time_second_def)
  then show ?thesis
    by (simp add: inbox_Complete_def io_try_def sql_def ex_no_fault inbox_checks_def ex_order_fields ex_after_def uuid_param_def
        ex_receipt_def step_def wager_row_of_def ex_stake_parts)
qed

lemma ex_order_consumed:
  "Consume ex_env ''wallet'' ex_order_message \<lparr>tick = 40, db = ex_after ys\<rparr> =
   (Inr \<lparr>co_WagerResult = \<lparr>sr_Transaction = ex_settlement, sr_Replay = True\<rparr>, co_Duplicate = False\<rparr>,
    \<lparr>tick = 51, db = (ex_after ys)\<lparr>inbox := [ex_receipt]\<rparr>\<rparr>)"
proof -
  have "valid_id ''wallet''" by (rule valid_id_graphic) (simp_all add: is_ascii_graphic_def)
  then have name: "trim_space ''wallet'' = ''wallet''" by (simp add: valid_id_def)
  have "consume_in_session (wager_service ex_env) ''wallet'' ex_order_message (ingestionSession ex_env) \<lparr>tick = 41, db = ex_after ys\<rparr> =
      (Inr \<lparr>co_WagerResult = \<lparr>sr_Transaction = ex_settlement, sr_Replay = True\<rparr>, co_Duplicate = False\<rparr>,
       \<lparr>tick = 50, db = (ex_after ys)\<lparr>inbox := [ex_receipt]\<rparr>\<rparr>)"
    using ex_order_claimed ex_order_replayed ex_order_completed
    by (simp add: consume_in_session_def ingestionSession_def io_try_def wager_service_def ex_ids step_def ex_order_fields(1) ex_stake_fields)
  moreover have "deferred_violation (ex_after ys) ((ex_after ys)\<lparr>inbox := [ex_receipt]\<rparr>) = None"
    by (simp add: deferred_violation_def)
  ultimately have "IngestionStore_WithinTransaction ex_env (consume_in_session (wager_service ex_env) ''wallet'' ex_order_message)
        \<lparr>tick = 40, db = ex_after ys\<rparr> =
      (Inr \<lparr>co_WagerResult = \<lparr>sr_Transaction = ex_settlement, sr_Replay = True\<rparr>, co_Duplicate = False\<rparr>,
       \<lparr>tick = 51, db = (ex_after ys)\<lparr>inbox := [ex_receipt]\<rparr>\<rparr>)"
    by (simp add: IngestionStore_WithinTransaction_def ReadCommittedWithRetry_def numeral_3_eq_3 ReadCommitted_def within_def
        ex_no_fault step_def io_catch_def)
  then show ?thesis using name ex_order_fields by (simp add: Consume_def io_catch_def)
qed

definition ex_consumer_node :: "outbox_row list \<Rightarrow> node" where
  "ex_consumer_node ys = \<lparr>nd_world = \<lparr>tick = 40, db = ex_after ys\<rparr>, nd_calls = [], nd_senderURL = ''url''\<rparr>"

lemma ex_order_handled:
  "\<exists>s. handle ex_env ex_client (\<lambda>_. Some ex_order) ''wallet'' ''url'' ex_delivery (ex_consumer_node ys) = (Inr SQSResultReplay, s) \<and>
    db (nd_world s) = (ex_after ys)\<lparr>inbox := [ex_receipt]\<rparr> \<and>
    calls_since (ex_consumer_node ys) s = [CalledDeleteMessage ''url'' ''h1'' True]"
  using ex_order_decoded ex_order_consumed
  by (simp add: handle_def on_world_def ex_consumer_node_def io_catch_def handle_success_def Delete_def sqs_apply ex_client_def
      ex_delivery_def answered_def calls_since_def)

text \<open>The bet and the message as steps of the program.\<close>

definition ex_final :: "outbox_row list \<Rightarrow> program" where
  "ex_final ys = \<lparr>pg_db = (ex_after ys)\<lparr>inbox := [ex_receipt]\<rparr>, pg_sent = []\<rparr>"

lemma ex_server_env: "env_ok (api_env ex_server)"
  by (simp add: ex_server_def ex_api_def ex_env_ok)

lemma ex_program_answers:
  "\<exists>xs ys w. newMux ex_server ex_submission (ex_begin xs) = (writeWagerResponse ex_settlement False, w) \<and>
    db (ex_begin xs) = pg_db ex_program \<and> db w = ex_after ys \<and>
    program_step jsonb ex_program (ex_program\<lparr>pg_db := ex_after ys\<rparr>)"
proof -
  obtain xs where xs: "map xr_event_id xs = [ex_uuid 4, ex_uuid 5]" "db ex_opened = ex_tables xs" using ex_opens by metis
  obtain w ys where a: "newMux ex_server ex_submission (ex_begin xs) = (writeWagerResponse ex_settlement False, w)" "db w = ex_after ys"
    using ex_stake_answered [OF xs(1)] by blast
  have start: "db (ex_begin xs) = pg_db ex_program" using xs(2) by (simp add: ex_begin_def ex_program_def)
  from prog_request [OF ex_server_env a(1), of jsonb "[]"] start a(2)
  have "program_step jsonb ex_program (ex_program\<lparr>pg_db := ex_after ys\<rparr>)" by (simp add: ex_program_def)
  with a start show ?thesis by blast
qed

lemma ex_program_consumes: "program_step jsonb (ex_program\<lparr>pg_db := ex_after ys\<rparr>) (ex_final ys)"
proof -
  obtain s where "handle ex_env ex_client (\<lambda>_. Some ex_order) ''wallet'' ''url'' ex_delivery (ex_consumer_node ys) = (Inr SQSResultReplay, s)"
    and "db (nd_world s) = (ex_after ys)\<lparr>inbox := [ex_receipt]\<rparr>"
    using ex_order_handled by blast
  with prog_message [OF ex_env_ok this(1), of jsonb "[]"] show ?thesis
    by (simp add: ex_final_def ex_program_def ex_consumer_node_def)
qed

end
