(* ===== verification/Delivery_Progress.thy ===== *)
theory Delivery_Progress
  imports Outbox Pages "HOL-Library.Multiset"
begin

text \<open>
  Progress of the publication: while the database and the queue answer, every round publishes the
  row that is first in the order of due time, time of occurrence and identifier, so a worker empties
  the outbox in as many rounds as there are rows to publish, in that order.
\<close>

section \<open>When rounds succeed\<close>

text \<open>The order of \<^verbatim>\<open>outbox_candidate\<close>, and the rows it chooses from.\<close>

definition due_key :: "outbox_row \<Rightarrow> time \<times> time \<times> string" where
  "due_key r = (xr_next_attempt_at r, xr_occurred_at r, xr_event_id r)"

definition unpublished :: "database \<Rightarrow> outbox_row list" where
  "unpublished d = filter (\<lambda>r. xr_published_at r = None) (outbox d)"

text \<open>The message of a row: its identifier, the wallet as its group, and its payload.\<close>

definition row_message :: "(json \<Rightarrow> string) \<Rightarrow> database \<Rightarrow> outbox_row \<Rightarrow> string \<times> string \<times> string" where
  "row_message jsonb d r = (xr_event_id r, the (event_group d r), jsonb (xr_payload r))"

text \<open>A row that a round can claim and send: due since \<open>t\<close>, addressed, and claimed fewer times than an INTEGER counts.\<close>

definition publishable :: "time \<Rightarrow> database \<Rightarrow> outbox_row \<Rightarrow> bool" where
  "publishable t d r \<longleftrightarrow>
     outbox_due t r \<and> is_uuid (xr_event_id r) \<and> 0 \<le> xr_attempts r \<and> xr_attempts r < 2147483647 \<and>
     (\<exists>g. g \<noteq> [] \<and> event_group d r = Some g)"

text \<open>A queue that accepts every message, with a message identifier.\<close>

definition accepting :: "sqs_client \<Rightarrow> bool" where
  "accepting cl \<longleftrightarrow> (\<forall>n url p g i. \<exists>m. m \<noteq> [] \<and> cl_SendMessage cl n url p g i = Inr (Some (Some m)))"

section \<open>One round\<close>

lemma attempts_rows [simp]:
  "xr_attempts (lease_event token until r) = xr_attempts r + 1" "xr_attempts (publish_row now r) = xr_attempts r"
  by (simp_all add: lease_event_def publish_row_def)

lemma uuid_not_empty: "is_uuid s \<Longrightarrow> s \<noteq> []"
  by (auto simp: is_uuid_def uuid_dashes_def)

lemma update_outbox_found:
  assumes "P r" "\<forall>q \<in> set (xs @ ys). \<not> P q" "outbox_snapshot (f r) = outbox_snapshot r" "0 \<le> xr_attempts (f r)"
  shows "update_outbox P f (xs @ r # ys) = Inr (1, xs @ f r # ys)"
  using assms
  by (induction xs) (simp_all add: update_outbox_none protect_outbox_snapshot_def first_violation_None and_then_def)

lemma unique_others: "outbox_unique (xs @ r # ys) \<Longrightarrow> \<forall>q \<in> set (xs @ ys). xr_event_id q \<noteq> xr_event_id r"
  by (auto simp: outbox_unique_def image_iff)

lemma deferred_outbox: "deferred_violation d (d\<lparr>outbox := rows\<rparr>) = None"
  by (simp add: deferred_violation_def first_violation_None)

lemma outbox_due_later: "outbox_due t r \<Longrightarrow> t \<le> now \<Longrightarrow> outbox_due now r"
  by (auto simp: outbox_due_def split: option.splits)

lemma Claim_first:
  assumes env: "no_faults env" and clock: "\<And>n. t \<le> env_db_now env n" and lease: "0 < lease"
    and u: "outbox_unique (outbox (db w))" and rows: "\<forall>r \<in> set (unpublished (db w)). publishable t (db w) r"
    and ne: "unpublished (db w) \<noteq> []"
  shows "\<exists>xs r ys g tok until w'. outbox (db w) = xs @ r # ys \<and> r \<in> set (unpublished (db w)) \<and>
    (\<forall>q \<in> set (unpublished (db w)). due_key r \<le> due_key q) \<and> event_group (db w) r = Some g \<and>
    OutboxStore_Claim env jsonb lease w = (Inr (Some \<lparr>ob_ID = xr_event_id r, ob_GroupID = g,
       ob_CorrelationID = xr_correlation_id r, ob_Payload = jsonb (xr_payload r), ob_Token = tok,
       ob_Attempts = xr_attempts r + 1\<rparr>), w') \<and> tok \<in> range (env_gen_random_uuid env) \<and>
    db w' = (db w)\<lparr>outbox := xs @ lease_event tok until r # ys\<rparr>"
proof -
  let ?n = "Suc (tick w)" and ?d = "db w"
  obtain q where q: "q \<in> set (unpublished ?d)" using ne by (meson list.set_sel(1))
  then have "q \<in> set (filter (outbox_due (env_db_now env ?n)) (outbox ?d))"
    using rows clock [of ?n] outbox_due_later by (auto simp: unpublished_def publishable_def)
  then obtain r where cand: "outbox_candidate (env_db_now env ?n) ?d = Some r"
    by (cases "filter (outbox_due (env_db_now env ?n)) (outbox ?d)") (auto simp: outbox_candidate_def)
  note r = outbox_candidate_due [OF cand]
  have r_in: "r \<in> set (unpublished ?d)" using r(1,2) by (simp add: unpublished_def outbox_due_def)
  then have pub: "publishable t ?d r" using rows by blast
  then obtain g where g: "event_group ?d r = Some g" by (auto simp: publishable_def)
  have least: "due_key r \<le> due_key q" if "q \<in> set (unpublished ?d)" for q
    using r(3) [of q] that rows clock [of ?n] outbox_due_later unfolding due_key_def by (auto simp: unpublished_def publishable_def)
  obtain xs ys where split: "outbox ?d = xs @ r # ys" using r(1) by (meson split_list)
  let ?f = "lease_event (env_gen_random_uuid env ?n) (env_db_now env ?n + lease_interval lease)"
  have "\<forall>q \<in> set (xs @ ys). xr_event_id q \<noteq> xr_event_id r"
    using u unique_others unfolding split by blast
  then have "update_outbox (\<lambda>q. xr_event_id q = xr_event_id r) ?f (outbox ?d) = Inr (1, xs @ ?f r # ys)"
    unfolding split using pub by (intro update_outbox_found) (simp_all add: publishable_def)
  with cand g pub have "claim_event env jsonb lease ?n ?d = Inr (Some \<lparr>ob_ID = xr_event_id r, ob_GroupID = g,
       ob_CorrelationID = xr_correlation_id r, ob_Payload = jsonb (xr_payload r), ob_Token = env_gen_random_uuid env ?n,
       ob_Attempts = xr_attempts r + 1\<rparr>, ?d\<lparr>outbox := xs @ ?f r # ys\<rparr>)"
    by (simp add: claim_event_def publishable_def)
  then have "OutboxStore_Claim env jsonb lease w = (Inr (Some \<lparr>ob_ID = xr_event_id r, ob_GroupID = g,
       ob_CorrelationID = xr_correlation_id r, ob_Payload = jsonb (xr_payload r), ob_Token = env_gen_random_uuid env ?n,
       ob_Attempts = xr_attempts r + 1\<rparr>), step ((step (step w))\<lparr>db := ?d\<lparr>outbox := xs @ ?f r # ys\<rparr>\<rparr>))"
    using env lease by (simp add: OutboxStore_Claim_def ReadCommitted_def within_def sql_def no_faults_def deferred_outbox)
  moreover have "db (step ((step (step w))\<lparr>db := ?d\<lparr>outbox := xs @ ?f r # ys\<rparr>\<rparr>)) = ?d\<lparr>outbox := xs @ ?f r # ys\<rparr>" by simp
  ultimately show ?thesis using split r_in least g by blast
qed

lemma Confirm_leased:
  assumes env: "no_faults env" and ok: "env_ok env" and u: "outbox_unique (xs @ r # ys)" and d: "outbox (db w) = xs @ r # ys"
    and leased: "leased_to event r" and r: "is_uuid (xr_event_id r)" "0 \<le> xr_attempts r"
    and tok: "ob_Token event \<in> range (env_gen_random_uuid env)"
  shows "\<exists>now. OutboxStore_Confirm env event w = (Inr (), (step w)\<lparr>db := (db w)\<lparr>outbox := xs @ publish_row now r # ys\<rparr>\<rparr>)"
proof -
  let ?f = "publish_row (env_db_now env (tick w))"
  have "\<forall>q \<in> set (xs @ ys). \<not> leased_to event q"
    using unique_others [OF u] leased by (auto simp: leased_to_def)
  then have "update_outbox (leased_to event) ?f (outbox (db w)) = Inr (1, xs @ ?f r # ys)"
    unfolding d using leased r(2) by (intro update_outbox_found) simp_all
  moreover have "is_uuid (ob_ID event)" "is_uuid (ob_Token event)"
    using leased r(1) tok ok by (auto simp: leased_to_def env_ok_def)
  ultimately have "update_leased event ?f (db w) = Inr (1, (db w)\<lparr>outbox := xs @ ?f r # ys\<rparr>)"
    by (simp add: update_leased_def uuid_param_def)
  then show ?thesis
    using env by (auto simp: OutboxStore_Confirm_def io_try_def autocommit_def no_faults_def one_row_def)
qed

lemma Publish_accepted:
  assumes cl: "accepting cl" and url: "nd_senderURL s \<noteq> []"
    and event: "ob_ID event \<noteq> []" "ob_GroupID event \<noteq> []" "ob_Payload event \<noteq> []"
  shows "\<exists>s'. sender_Publish cl name event s = (Inr (), s') \<and> nd_world s' = nd_world s \<and> nd_senderURL s' = nd_senderURL s \<and>
    accepted s' = accepted s @ [event_message event]"
proof -
  obtain m where "m \<noteq> []" "cl_SendMessage cl (length (nd_calls s)) (nd_senderURL s) (ob_Payload event) (ob_GroupID event) (ob_ID event) =
      Inr (Some (Some m))"
    using cl unfolding accepting_def by blast
  then show ?thesis
    using url event
    by (simp add: sender_Publish_def sender_url_def Send_def io_try_def sqs_apply accepted_def answered_def event_message_def)
qed

text \<open>What a round leaves: the first row published and its message accepted, everything else as it was.\<close>

definition publishes_first :: "(json \<Rightarrow> string) \<Rightarrow> node \<Rightarrow> node \<Rightarrow> bool" where
  "publishes_first jsonb s s' \<longleftrightarrow>
     (\<exists>xs r ys now tok until. outbox (db (nd_world s)) = xs @ r # ys \<and> r \<in> set (unpublished (db (nd_world s))) \<and>
        (\<forall>q \<in> set (unpublished (db (nd_world s))). due_key r \<le> due_key q) \<and>
        db (nd_world s') = (db (nd_world s))\<lparr>outbox := xs @ publish_row now (lease_event tok until r) # ys\<rparr> \<and>
        accepted s' = accepted s @ [row_message jsonb (db (nd_world s)) r])"

lemma round_publishes:
  assumes env: "no_faults env" "env_ok env" and clock: "\<And>n. t \<le> env_db_now env n" and lease: "0 < lease"
    and cl: "accepting cl" and url: "nd_senderURL s \<noteq> []" and body: "\<And>j. jsonb j \<noteq> []"
    and u: "outbox_unique (outbox (db (nd_world s)))"
    and rows: "\<forall>r \<in> set (unpublished (db (nd_world s))). publishable t (db (nd_world s)) r"
    and ne: "unpublished (db (nd_world s)) \<noteq> []"
  shows "\<exists>out s'. outbox_ProcessOne (outbox_service_of env jsonb cl name lease) s = (Inr (out, None), s') \<and>
    out \<in> {ObPublished, ObRepublished} \<and> publishes_first jsonb s s' \<and> nd_senderURL s' \<noteq> []"
proof -
  let ?sv = "outbox_service_of env jsonb cl name lease" and ?d = "db (nd_world s)"
  obtain xs r ys g tok until w where c: "outbox ?d = xs @ r # ys" "r \<in> set (unpublished ?d)"
    "\<forall>q \<in> set (unpublished ?d). due_key r \<le> due_key q" "event_group ?d r = Some g" "tok \<in> range (env_gen_random_uuid env)"
    and claim: "OutboxStore_Claim env jsonb lease (nd_world s) = (Inr (Some \<lparr>ob_ID = xr_event_id r, ob_GroupID = g,
       ob_CorrelationID = xr_correlation_id r, ob_Payload = jsonb (xr_payload r), ob_Token = tok,
       ob_Attempts = xr_attempts r + 1\<rparr>), w)"
    and w: "db w = ?d\<lparr>outbox := xs @ lease_event tok until r # ys\<rparr>"
    using Claim_first [OF env(1) clock lease u rows ne, of jsonb] by blast
  let ?event = "\<lparr>ob_ID = xr_event_id r, ob_GroupID = g, ob_CorrelationID = xr_correlation_id r,
    ob_Payload = jsonb (xr_payload r), ob_Token = tok, ob_Attempts = xr_attempts r + 1\<rparr>"
  from rows c(2) have pub: "publishable t ?d r" by blast
  have filled: "ob_ID ?event \<noteq> []" "ob_GroupID ?event \<noteq> []" "ob_Token ?event \<noteq> []" "ob_Payload ?event \<noteq> []" "\<not> ob_Attempts ?event < 1"
    using pub c(4,5) env(2) body uuid_not_empty by (auto simp: publishable_def env_ok_def)
  let ?s1 = "s\<lparr>nd_world := w\<rparr>"
  obtain s2 where send: "sender_Publish cl name ?event ?s1 = (Inr (), s2)" and s2: "nd_world s2 = w" "nd_senderURL s2 = nd_senderURL s"
    "accepted s2 = accepted s @ [event_message ?event]"
    using Publish_accepted [OF cl, of ?s1 ?event name] url filled by (auto simp: accepted_def)
  have u': "outbox_unique (xs @ lease_event tok until r # ys)"
    using u unfolding c(1) by (simp add: outbox_unique_def lease_event_def)
  have "leased_to ?event (lease_event tok until r)" "is_uuid (xr_event_id (lease_event tok until r))" "0 \<le> xr_attempts (lease_event tok until r)"
    using pub c(2) by (simp_all add: leased_to_def lease_event_def unpublished_def publishable_def)
  with Confirm_leased [OF env u', of w ?event] w c(5) s2(1) obtain now where
    confirm: "OutboxStore_Confirm env ?event w = (Inr (), (step w)\<lparr>db := (db w)\<lparr>outbox := xs @ publish_row now (lease_event tok until r) # ys\<rparr>\<rparr>)"
    by auto
  let ?s' = "s2\<lparr>nd_world := (step w)\<lparr>db := (db w)\<lparr>outbox := xs @ publish_row now (lease_event tok until r) # ys\<rparr>\<rparr>\<rparr>"
  let ?out = "if ob_Attempts ?event > 1 then ObRepublished else ObPublished"
  have "publish_event ?sv ?event ?s1 = (Inr (?out, None), ?s')"
    unfolding publish_event_def using filled send confirm s2(1)
    by (simp only: if_False simp_thms) (simp add: outbox_service_of_def io_catch_def on_world_def)
  then have "outbox_ProcessOne ?sv s = (Inr (?out, None), ?s')"
    using claim by (simp add: outbox_ProcessOne_def outbox_service_of_def io_catch_def on_world_def)
  moreover have "publishes_first jsonb s ?s'"
    unfolding publishes_first_def using c w s2(3)
    by (intro exI [of _ xs] exI [of _ r] exI [of _ ys] exI [of _ now] exI [of _ tok] exI [of _ until])
      (simp add: accepted_def event_message_def row_message_def)
  moreover have "nd_senderURL ?s' \<noteq> []" using s2(2) url by simp
  ultimately show ?thesis by auto
qed

lemma idle_round:
  assumes "no_faults env" "0 < lease" "unpublished (db (nd_world s)) = []"
  shows "fst (outbox_ProcessOne (outbox_service_of env jsonb cl name lease) s) = Inr (ObIdle, None)"
proof -
  have "outbox_candidate now (db (nd_world s)) = None" for now
  proof (cases "outbox_candidate now (db (nd_world s))")
    case (Some r)
    then show ?thesis using outbox_candidate_due(1,2) [OF Some] assms(3) by (auto simp: unpublished_def outbox_due_def filter_empty_conv)
  qed simp
  then show ?thesis
    using assms(1,2)
    by (simp add: outbox_ProcessOne_def outbox_service_of_def io_catch_def on_world_def OutboxStore_Claim_def ReadCommitted_def
        within_def sql_def no_faults_def claim_event_def deferred_violation_def first_violation_None)
qed

section \<open>All rounds\<close>

text \<open>The state after so many rounds of one worker, as \<^verbatim>\<open>OutboxWorker.run\<close> runs them while rounds publish.\<close>

primrec after_rounds :: "node outbox_service \<Rightarrow> nat \<Rightarrow> node \<Rightarrow> node" where
  "after_rounds sv 0 s = s"
| "after_rounds sv (Suc k) s = after_rounds sv k (snd (outbox_ProcessOne sv s))"

text \<open>Publishing one row leaves the others, their groups and their order.\<close>

lemma publishes_first_rest:
  assumes "publishes_first jsonb s s'" and "outbox_unique (outbox (db (nd_world s)))"
  shows "\<exists>r. r \<in> set (unpublished (db (nd_world s))) \<and> (\<forall>q \<in> set (unpublished (db (nd_world s))). due_key r \<le> due_key q) \<and>
    mset (unpublished (db (nd_world s))) = add_mset r (mset (unpublished (db (nd_world s')))) \<and>
    accepted s' = accepted s @ [row_message jsonb (db (nd_world s)) r] \<and>
    event_group (db (nd_world s')) = event_group (db (nd_world s)) \<and> outbox_unique (outbox (db (nd_world s')))"
proof -
  from assms(1) obtain xs r ys now tok until where r: "outbox (db (nd_world s)) = xs @ r # ys" "r \<in> set (unpublished (db (nd_world s)))"
    "\<forall>q \<in> set (unpublished (db (nd_world s))). due_key r \<le> due_key q"
    "db (nd_world s') = (db (nd_world s))\<lparr>outbox := xs @ publish_row now (lease_event tok until r) # ys\<rparr>"
    "accepted s' = accepted s @ [row_message jsonb (db (nd_world s)) r]"
    unfolding publishes_first_def by blast
  have "xr_published_at r = None" using r(2) by (simp add: unpublished_def)
  then have "mset (unpublished (db (nd_world s))) = add_mset r (mset (unpublished (db (nd_world s'))))"
    using r(1,4) by (simp add: unpublished_def publish_row_def)
  moreover have "event_group (db (nd_world s')) = event_group (db (nd_world s))"
    using r(4) by (simp add: event_group_def fun_eq_iff)
  moreover have "outbox_unique (outbox (db (nd_world s')))"
    using assms(2) r(1,4) by (simp add: outbox_unique_def publish_row_def lease_event_def)
  ultimately show ?thesis using r by blast
qed

lemma rounds_publish_all:
  assumes env: "no_faults env" "env_ok env" and clock: "\<And>n. t \<le> env_db_now env n" and lease: "0 < lease"
    and cl: "accepting cl" and body: "\<And>j. jsonb j \<noteq> []"
    and url: "nd_senderURL s \<noteq> []" and u: "outbox_unique (outbox (db (nd_world s)))"
    and rows: "\<forall>r \<in> set (unpublished (db (nd_world s))). publishable t (db (nd_world s)) r"
  shows "\<exists>ps. mset ps = mset (unpublished (db (nd_world s))) \<and> sorted (map due_key ps) \<and>
    unpublished (db (nd_world (after_rounds (outbox_service_of env jsonb cl name lease) (length (unpublished (db (nd_world s)))) s))) = [] \<and>
    accepted (after_rounds (outbox_service_of env jsonb cl name lease) (length (unpublished (db (nd_world s)))) s) =
      accepted s @ map (row_message jsonb (db (nd_world s))) ps"
  using url u rows
proof (induction "length (unpublished (db (nd_world s)))" arbitrary: s)
  case 0
  then show ?case by (intro exI [of _ "[]"]) simp
next
  case (Suc k)
  let ?sv = "outbox_service_of env jsonb cl name lease"
  have ne: "unpublished (db (nd_world s)) \<noteq> []" using Suc.hyps(2) by auto
  obtain out s1 where run: "outbox_ProcessOne ?sv s = (Inr (out, None), s1)" and pub: "publishes_first jsonb s s1"
    and url: "nd_senderURL s1 \<noteq> []"
    using round_publishes [where jsonb = jsonb, OF env clock lease cl Suc.prems(1) body Suc.prems(2,3) ne] by blast
  obtain r where r: "r \<in> set (unpublished (db (nd_world s)))" "\<forall>q \<in> set (unpublished (db (nd_world s))). due_key r \<le> due_key q"
    "mset (unpublished (db (nd_world s))) = add_mset r (mset (unpublished (db (nd_world s1))))"
    "accepted s1 = accepted s @ [row_message jsonb (db (nd_world s)) r]"
    "event_group (db (nd_world s1)) = event_group (db (nd_world s))" "outbox_unique (outbox (db (nd_world s1)))"
    using publishes_first_rest [OF pub Suc.prems(2)] by blast
  have sub: "set (unpublished (db (nd_world s1))) \<subseteq> set (unpublished (db (nd_world s)))"
    using r(3) by (metis insert_subset order_refl set_mset_add_mset_insert set_mset_mset)
  have len: "k = length (unpublished (db (nd_world s1)))"
    using Suc.hyps(2) arg_cong [OF r(3), of size] by simp
  have rows1: "\<forall>q \<in> set (unpublished (db (nd_world s1))). publishable t (db (nd_world s1)) q"
    using Suc.prems(3) sub r(5) by (auto simp: publishable_def)
  obtain ps where ps: "mset ps = mset (unpublished (db (nd_world s1)))" "sorted (map due_key ps)"
    "unpublished (db (nd_world (after_rounds ?sv k s1))) = []"
    "accepted (after_rounds ?sv k s1) = accepted s1 @ map (row_message jsonb (db (nd_world s1))) ps"
    using Suc.hyps(1) [OF len url r(6) rows1] len by auto
  have msg: "row_message jsonb (db (nd_world s1)) = row_message jsonb (db (nd_world s))"
    using r(5) by (simp add: row_message_def fun_eq_iff)
  have "set ps = set (unpublished (db (nd_world s1)))" using ps(1) by (metis set_mset_mset)
  then have "sorted (map due_key (r # ps))" using ps(2) r(2) sub by auto
  moreover have "mset (r # ps) = mset (unpublished (db (nd_world s)))" using ps(1) r(3) by simp
  ultimately show ?case
    unfolding Suc.hyps(2) [symmetric] using ps(3,4) r(4) msg run
    by (intro exI [of _ "r # ps"]) simp
qed

section \<open>Property\<close>

text \<open>
  Property C17. Events are published. While the database does not fail and the queue accepts messages,
  a worker that finds rows waiting, due and addressed, publishes all of them: after as many rounds as
  there are rows, none is left, the queue has accepted exactly their messages, one each and nothing
  else, in the order of due time, time of occurrence and identifier, and the next round is idle.
\<close>

theorem outbox_drains:
  assumes "no_faults env" and "env_ok env" and "\<And>n. t \<le> env_db_now env n" and "0 < lease"
    and "accepting cl" and "\<And>j. jsonb j \<noteq> []" and "nd_senderURL s \<noteq> []"
    and "outbox_unique (outbox (db (nd_world s)))"
    and "\<forall>r \<in> set (unpublished (db (nd_world s))). publishable t (db (nd_world s)) r"
  shows "\<exists>ps s'. s' = after_rounds (outbox_service_of env jsonb cl name lease) (length (unpublished (db (nd_world s)))) s \<and>
    unpublished (db (nd_world s')) = [] \<and>
    mset ps = mset (unpublished (db (nd_world s))) \<and> sorted (map due_key ps) \<and>
    accepted s' = accepted s @ map (row_message jsonb (db (nd_world s))) ps \<and>
    fst (outbox_ProcessOne (outbox_service_of env jsonb cl name lease) s') = Inr (ObIdle, None)"
proof -
  let ?sv = "outbox_service_of env jsonb cl name lease"
  let ?s' = "after_rounds ?sv (length (unpublished (db (nd_world s)))) s"
  have "\<exists>ps. mset ps = mset (unpublished (db (nd_world s))) \<and> sorted (map due_key ps) \<and> unpublished (db (nd_world ?s')) = [] \<and>
      accepted ?s' = accepted s @ map (row_message jsonb (db (nd_world s))) ps"
    using rounds_publish_all [where jsonb = jsonb, OF assms] .
  moreover have "fst (outbox_ProcessOne ?sv s') = Inr (ObIdle, None)" if "unpublished (db (nd_world s')) = []" for s'
    using idle_round [OF assms(1,4) that] .
  ultimately show ?thesis by blast
qed

theorem outbox_drains_witness:
  "\<exists>s'. s' = after_rounds (outbox_service_of ex_env (\<lambda>_. ''1'') ex_client ''output'' time_second) 1 ex_node \<and>
    unpublished (db (nd_world s')) = [] \<and>
    accepted s' = [(ex_uuid 210, ex_uuid 200, ''1'')]"
proof -
  have ok: "no_faults ex_env" "accepting ex_client" "unix_epoch \<le> env_db_now ex_env n" for n
    by (simp_all add: no_faults_def accepting_def ex_env_def ex_client_def)
  have node: "nd_senderURL ex_node \<noteq> []" "outbox_unique (outbox (db (nd_world ex_node)))" "accepted ex_node = []"
    "unpublished (db (nd_world ex_node)) = [ex_event]"
    by (simp_all add: ex_node_def outbox_unique_def accepted_def unpublished_def ex_event_def)
  have row: "publishable unix_epoch (db (nd_world ex_node)) ex_event"
    "row_message (\<lambda>_. ''1'') (db (nd_world ex_node)) ex_event = (ex_uuid 210, ex_uuid 200, ''1'')"
    by (simp_all add: publishable_def outbox_due_def event_group_def row_message_def ex_event_def)
  have "0 < time_second" by (simp add: time_second_def time_millisecond_def)
  from outbox_drains [where jsonb = "\<lambda>_. ''1''" and name = "''output''", OF ok(1) ex_env_ok ok(3) this ok(2) _ node(1,2)] node(3,4) row
  show ?thesis by auto
qed

end
