(* ===== verification/Concurrency.thy ===== *)
theory Concurrency
  imports Example_Bet Delivery_Progress
begin

text \<open>
  Rounds of publication workers that run at the same time. A round of \<^verbatim>\<open>ProcessOne\<close> is a sequence of
  calls: it claims a row, sends its message, and confirms or reschedules the row. Between two calls of a
  round anything may happen: calls of other rounds, requests, messages, rounds of other workers. Here the
  definition \<open>outbox_ProcessOne\<close> itself is run on a service that is handed a new state at every call, so
  the order of the calls and what each depends on is the code's. Such runs are shown to be runs of the
  system, and what the queue was sent and what the outbox records as published is compared for them.
\<close>

section \<open>One call at a time\<close>

text \<open>
  The states in which a round makes its calls, and the calls it has made, each with the states before
  and after. When no state is left, the round stops where it is.
\<close>

record 's script =
  sc_given :: "'s list"
  sc_made :: "('s \<times> 's) list"

definition scripted :: "('s, 'a) io \<Rightarrow> ('s script, 'a) io" where
  "scripted m = (\<lambda>p.
     case sc_given p of
       [] \<Rightarrow> (Inl (Opaque ''stopped''), p)
     | s # rest \<Rightarrow> (fst (m s), \<lparr>sc_given = rest, sc_made = sc_made p @ [(s, snd (m s))]\<rparr>))"

definition scripted_service :: "'s outbox_service \<Rightarrow> 's script outbox_service" where
  "scripted_service sv =
     \<lparr>os_store =
        \<lparr>st_Claim = (\<lambda>l. scripted (st_Claim (os_store sv) l)),
         st_Confirm = (\<lambda>e. scripted (st_Confirm (os_store sv) e)),
         st_Retry = (\<lambda>e next reason. scripted (st_Retry (os_store sv) e next reason))\<rparr>,
      os_publisher =
        \<lparr>pb_Check = scripted (pb_Check (os_publisher sv)),
         pb_Publish = (\<lambda>e. scripted (pb_Publish (os_publisher sv) e))\<rparr>,
      os_lease = os_lease sv, os_now = scripted (os_now sv), os_backoff = (\<lambda>n. scripted (os_backoff sv n))\<rparr>"

definition calls_of :: "'s outbox_service \<Rightarrow> 's list \<Rightarrow> ('s \<times> 's) list" where
  "calls_of sv given = sc_made (snd (outbox_ProcessOne (scripted_service sv) \<lparr>sc_given = given, sc_made = []\<rparr>))"

lemma scripted_simps [simp]:
  "scripted m \<lparr>sc_given = [], sc_made = ms\<rparr> = (Inl (Opaque ''stopped''), \<lparr>sc_given = [], sc_made = ms\<rparr>)"
  "scripted m \<lparr>sc_given = s # g, sc_made = ms\<rparr> = (fst (m s), \<lparr>sc_given = g, sc_made = ms @ [(s, snd (m s))]\<rparr>)"
  by (simp_all add: scripted_def)

text \<open>The calls of the two parts of a round.\<close>

fun retry_calls :: "'s outbox_service \<Rightarrow> outbox_event \<Rightarrow> err \<Rightarrow> 's list \<Rightarrow> ('s \<times> 's) list" where
  "retry_calls sv event e [] = []"
| "retry_calls sv event e [s] = [(s, snd (os_now sv s))]"
| "retry_calls sv event e (s # t # g) =
     (s, snd (os_now sv s)) #
     (case fst (os_now sv s) of
        Inl _ \<Rightarrow> []
      | Inr now \<Rightarrow>
          (t, snd (os_backoff sv (ob_Attempts event) t)) #
          (case (fst (os_backoff sv (ob_Attempts event) t), g) of
             (Inr delay, u # _) \<Rightarrow> [(u, snd (st_Retry (os_store sv) event (now + delay) (''publish_'' @ Reason (Some e)) u))]
           | _ \<Rightarrow> []))"

fun publish_calls :: "'s outbox_service \<Rightarrow> outbox_event \<Rightarrow> 's list \<Rightarrow> ('s \<times> 's) list" where
  "publish_calls sv event [] = []"
| "publish_calls sv event (s # g) =
     (s, snd (pb_Publish (os_publisher sv) event s)) #
     (case fst (pb_Publish (os_publisher sv) event s) of
        Inl e \<Rightarrow> retry_calls sv event e g
      | Inr _ \<Rightarrow> (case g of [] \<Rightarrow> [] | t # _ \<Rightarrow> [(t, snd (st_Confirm (os_store sv) event t))]))"

definition claimed :: "'s outbox_service \<Rightarrow> 's \<Rightarrow> outbox_event option" where
  "claimed sv s = (case fst (st_Claim (os_store sv) (os_lease sv) s) of Inr (Some event) \<Rightarrow> Some event | _ \<Rightarrow> None)"

lemma retry_event_calls:
  "sc_made (snd (retry_event (scripted_service sv) event e \<lparr>sc_given = g, sc_made = ms\<rparr>)) = ms @ retry_calls sv event e g"
proof (cases "(sv, event, e, g)" rule: retry_calls.cases)
  case (3 sv event e s t g)
  then show ?thesis
    by (cases g) (auto simp: retry_event_def scripted_service_def io_try_apply io_catch_apply split: sum.splits)
qed (auto simp: retry_event_def scripted_service_def io_try_apply io_catch_apply split: sum.splits)

lemma publish_event_calls:
  "sc_made (snd (publish_event (scripted_service sv) event \<lparr>sc_given = g, sc_made = ms\<rparr>)) = ms \<or>
   sc_made (snd (publish_event (scripted_service sv) event \<lparr>sc_given = g, sc_made = ms\<rparr>)) = ms @ publish_calls sv event g"
proof (cases "ob_ID event = [] \<or> ob_GroupID event = [] \<or> ob_Token event = [] \<or> ob_Payload event = [] \<or>
    ob_Attempts event < 1")
  case True
  then show ?thesis unfolding publish_event_def by (simp only: if_True) simp
next
  case False
  have p: "pb_Publish (os_publisher (scripted_service sv)) event = scripted (pb_Publish (os_publisher sv) event)"
    "st_Confirm (os_store (scripted_service sv)) event = scripted (st_Confirm (os_store sv) event)"
    by (simp_all add: scripted_service_def)
  show ?thesis
  proof (cases g)
    case Nil
    then show ?thesis
      using False retry_event_calls [of sv event "Opaque ''stopped''" "[]" ms]
      by (auto simp: publish_event_def io_catch_apply p)
  next
    case (Cons s g')
    then show ?thesis
      using False retry_event_calls [of sv event _ g' "ms @ [(s, snd (pb_Publish (os_publisher sv) event s))]"]
      by (cases g') (auto simp: publish_event_def io_catch_apply p split: sum.splits)
  qed
qed

lemma calls_of_Cons:
  "calls_of sv (s # g) = [(s, snd (st_Claim (os_store sv) (os_lease sv) s))] \<or>
   (\<exists>event. claimed sv s = Some event \<and>
      calls_of sv (s # g) = (s, snd (st_Claim (os_store sv) (os_lease sv) s)) # publish_calls sv event g)"
proof -
  let ?c = "st_Claim (os_store sv) (os_lease sv) s"
  have c: "st_Claim (os_store (scripted_service sv)) (os_lease (scripted_service sv)) = scripted (st_Claim (os_store sv) (os_lease sv))"
    by (simp add: scripted_service_def)
  have run: "outbox_ProcessOne (scripted_service sv) \<lparr>sc_given = s # g, sc_made = []\<rparr> =
      (case fst ?c of Inl e \<Rightarrow> io_return (ObNone, Some e) | Inr None \<Rightarrow> io_return (ObIdle, None)
       | Inr (Some event) \<Rightarrow> publish_event (scripted_service sv) event) \<lparr>sc_given = g, sc_made = [(s, snd ?c)]\<rparr>"
    by (simp add: outbox_ProcessOne_def io_catch_apply c)
  show ?thesis
  proof (cases "claimed sv s")
    case None
    then have "snd (outbox_ProcessOne (scripted_service sv) \<lparr>sc_given = s # g, sc_made = []\<rparr>) =
        \<lparr>sc_given = g, sc_made = [(s, snd ?c)]\<rparr>"
      unfolding run by (auto simp: claimed_def split: sum.splits option.splits)
    then show ?thesis by (simp add: calls_of_def)
  next
    case (Some event)
    then have "fst ?c = Inr (Some event)" by (auto simp: claimed_def split: sum.splits option.splits)
    then have "calls_of sv (s # g) = sc_made (snd (publish_event (scripted_service sv) event \<lparr>sc_given = g, sc_made = [(s, snd ?c)]\<rparr>))"
      by (simp add: calls_of_def run)
    with publish_event_calls [of sv event g "[(s, snd ?c)]"] Some show ?thesis by auto
  qed
qed

text \<open>The call a round makes next, after those in the given states.\<close>

lemma retry_calls_last:
  assumes "retry_calls sv event e (g @ [s]) = made @ [(s, s')]" "length made = length g"
  shows "s' = snd (os_now sv s) \<or> (\<exists>k. s' = snd (os_backoff sv k s)) \<or>
    (\<exists>next reason. s' = snd (st_Retry (os_store sv) event next reason s))"
proof -
  consider "g = []" | a where "g = [a]" | a b where "g = [a, b]" | a b c h where "g = a # b # c # h"
    by (metis neq_Nil_conv)
  then show ?thesis
  proof cases
    case 4
    have "length (retry_calls sv event e (a # b # c # h @ [s])) \<le> 3" by (auto split: sum.splits)
    moreover have "length (retry_calls sv event e (g @ [s])) = Suc (length g)" using assms by simp
    ultimately show ?thesis using 4 by simp
  qed (use assms in \<open>auto split: sum.splits\<close>)
qed

lemma calls_of_last:
  assumes run: "calls_of sv (given @ [s]) = made @ [(s, s')]" and len: "length made = length given"
  obtains (claim) "given = []" "s' = snd (st_Claim (os_store sv) (os_lease sv) s)"
  | (publish) s0 event where "given = [s0]" "claimed sv s0 = Some event" "s' = snd (pb_Publish (os_publisher sv) event s)"
  | (confirm) s0 s1 event u where "given = [s0, s1]" "claimed sv s0 = Some event"
      "fst (pb_Publish (os_publisher sv) event s1) = Inr u" "s' = snd (st_Confirm (os_store sv) event s)"
  | (retry) s0 s1 g event where "given = s0 # s1 # g" "claimed sv s0 = Some event"
      "s' = snd (os_now sv s) \<or> (\<exists>k. s' = snd (os_backoff sv k s)) \<or>
       (\<exists>next reason. s' = snd (st_Retry (os_store sv) event next reason s))"
proof (cases given)
  case Nil
  with run len calls_of_Cons [of sv s "[]"] that(1) show thesis by auto
next
  case (Cons s0 g)
  then have n: "length (calls_of sv (s0 # g @ [s])) = Suc (Suc (length g))" using run len by simp
  with calls_of_Cons [of sv s0 "g @ [s]"] obtain event where ev: "claimed sv s0 = Some event"
    and calls: "calls_of sv (s0 # g @ [s]) = (s0, snd (st_Claim (os_store sv) (os_lease sv) s0)) # publish_calls sv event (g @ [s])"
    by auto
  then obtain made' where pub: "publish_calls sv event (g @ [s]) = made' @ [(s, s')]" "length made' = length g"
    using run len Cons n by (cases made) auto
  show thesis
  proof (cases g)
    case Nil
    with pub that(2) [of s0 event] Cons ev show thesis by (auto split: sum.splits)
  next
    case g: (Cons s1 h)
    let ?q = "fst (pb_Publish (os_publisher sv) event s1)"
    show thesis
    proof (cases ?q)
      case (Inl e)
      with pub g obtain made'' where "retry_calls sv event e (h @ [s]) = made'' @ [(s, s')]" "length made'' = length h"
        by (cases made') auto
      from retry_calls_last [OF this] that(4) [of s0 s1 h event] Cons g ev show thesis by blast
    next
      case (Inr u)
      with pub g have "h = []" by (cases h) auto
      with pub g Inr that(3) [of s0 s1 event u] Cons ev show thesis by auto
    qed
  qed
qed

section \<open>Any number of rounds\<close>

text \<open>
  A round that has begun: the service it runs on, and the states in which it has made its calls so far.
  Rounds of the same or of different replicas are not told apart; a round may stop for ever after any
  call, as when its process dies.
\<close>

record outbox_round =
  rd_env :: env
  rd_client :: sqs_client
  rd_name :: string
  rd_lease :: duration
  rd_given :: "node list"

definition round_service :: "(json \<Rightarrow> string) \<Rightarrow> outbox_round \<Rightarrow> node outbox_service" where
  "round_service jsonb k = outbox_service_of (rd_env k) jsonb (rd_client k) (rd_name k) (rd_lease k)"

record concurrent =
  cc_program :: program
  cc_rounds :: "outbox_round list"

definition started :: concurrent where
  "started = \<lparr>cc_program = empty_program, cc_rounds = []\<rparr>"

text \<open>
  The program does one of its steps; a round begins; or a round makes its next call, on the database as
  it is now, with a clock, a count of calls and a queue address of its own.
\<close>

inductive concurrent_step :: "(json \<Rightarrow> string) \<Rightarrow> concurrent \<Rightarrow> concurrent \<Rightarrow> bool" for jsonb where
  cc_other: "program_step jsonb p p' \<Longrightarrow>
    concurrent_step jsonb \<lparr>cc_program = p, cc_rounds = ks\<rparr> \<lparr>cc_program = p', cc_rounds = ks\<rparr>"
| cc_begin: "rd_given k = [] \<Longrightarrow>
    concurrent_step jsonb \<lparr>cc_program = p, cc_rounds = ks\<rparr> \<lparr>cc_program = p, cc_rounds = ks @ [k]\<rparr>"
| cc_call: "calls_of (round_service jsonb k) (rd_given k @ [s]) = made @ [(s, s')] \<Longrightarrow>
    length made = length (rd_given k) \<Longrightarrow> accepted s' = accepted s @ new \<Longrightarrow>
    concurrent_step jsonb
      \<lparr>cc_program = \<lparr>pg_db = db (nd_world s), pg_sent = m\<rparr>, cc_rounds = ks @ k # ks'\<rparr>
      \<lparr>cc_program = \<lparr>pg_db = db (nd_world s'), pg_sent = m @ new\<rparr>,
       cc_rounds = ks @ k\<lparr>rd_given := rd_given k @ [s]\<rparr> # ks'\<rparr>"

text \<open>
  What a round knows: the row it claimed is a claim of the system, and a message its queue answered for
  has been accepted.
\<close>

definition round_ok :: "(json \<Rightarrow> string) \<Rightarrow> outbox_event list \<Rightarrow> (string \<times> string \<times> string) list \<Rightarrow> outbox_round \<Rightarrow> bool" where
  "round_ok jsonb cs m k \<longleftrightarrow>
     (\<forall>s0 g event. rd_given k = s0 # g \<longrightarrow> claimed (round_service jsonb k) s0 = Some event \<longrightarrow>
        event \<in> set cs \<and>
        (\<forall>s1 h u. g = s1 # h \<longrightarrow> fst (pb_Publish (os_publisher (round_service jsonb k)) event s1) = Inr u \<longrightarrow>
           event_message event \<in> set m))"

lemma round_ok_mono: "round_ok jsonb cs m k \<Longrightarrow> set cs \<subseteq> set cs' \<Longrightarrow> set m \<subseteq> set m' \<Longrightarrow> round_ok jsonb cs' m' k"
  unfolding round_ok_def by blast

lemma round_ok_Nil: "rd_given k = [] \<Longrightarrow> round_ok jsonb cs m k"
  by (simp add: round_ok_def)

lemma round_service_given [simp]: "round_service jsonb (k\<lparr>rd_given := g\<rparr>) = round_service jsonb k"
  by (simp add: round_service_def)

lemma round_ok_more:
  "rd_given k = s0 # s1 # g \<Longrightarrow> round_ok jsonb cs m k \<Longrightarrow> round_ok jsonb cs m (k\<lparr>rd_given := rd_given k @ [s]\<rparr>)"
  by (auto simp: round_ok_def)

section \<open>Interleaved rounds are runs of the system\<close>

text \<open>The calls, as operations of the store, the publisher and the clock.\<close>

lemma round_calls:
  "st_Claim (os_store (round_service jsonb k)) (os_lease (round_service jsonb k)) =
     on_world (OutboxStore_Claim (rd_env k) jsonb (rd_lease k))"
  "pb_Publish (os_publisher (round_service jsonb k)) = sender_Publish (rd_client k) (rd_name k)"
  "st_Confirm (os_store (round_service jsonb k)) e = on_world (OutboxStore_Confirm (rd_env k) e)"
  "st_Retry (os_store (round_service jsonb k)) e at reason = on_world (OutboxStore_Retry (rd_env k) e at reason)"
  by (simp_all add: round_service_def outbox_service_of_def)

lemma clock_calls:
  "s' = snd (os_now (round_service jsonb k) s) \<or> s' = snd (os_backoff (round_service jsonb k) n s) \<Longrightarrow>
     db (nd_world s') = db (nd_world s) \<and> accepted s' = accepted s"
  using pgq.now_law [of "rd_env k" jsonb "rd_client k" "rd_name k" "rd_lease k" s]
    pgq.backoff_law [of "rd_env k" jsonb "rd_client k" "rd_name k" "rd_lease k" n s]
  unfolding round_service_def by auto

lemma on_world_effect:
  assumes "s' = snd (on_world f s)"
  shows "\<exists>r. f (nd_world s) = (r, nd_world s')" and "accepted s' = accepted s"
  using on_world_run [of f s "fst (on_world f s)" s'] assms by auto

lemma call_system:
  assumes call: "calls_of (round_service jsonb k) (rd_given k @ [s]) = made @ [(s, s')]" "length made = length (rd_given k)"
    and new: "accepted s' = accepted s @ new" and ok: "round_ok jsonb cs m k"
  shows "\<exists>cs'. set cs \<subseteq> set cs' \<and> round_ok jsonb cs' (m @ new) (k\<lparr>rd_given := rd_given k @ [s]\<rparr>) \<and>
    (system_step jsonb)\<^sup>*\<^sup>* \<lparr>dl_db = db (nd_world s), dl_sent = m, dl_claims = cs\<rparr>
      \<lparr>dl_db = db (nd_world s'), dl_sent = m @ new, dl_claims = cs'\<rparr>"
  using call
proof (cases rule: calls_of_last)
  case claim
  let ?c = "st_Claim (os_store (round_service jsonb k)) (os_lease (round_service jsonb k)) s"
  have c: "on_world (OutboxStore_Claim (rd_env k) jsonb (rd_lease k)) s = (fst ?c, s')"
    using claim(2) by (simp add: round_calls)
  from on_world_run [OF c] have r: "OutboxStore_Claim (rd_env k) jsonb (rd_lease k) (nd_world s) = (fst ?c, nd_world s')"
    and "new = []" using new by simp_all
  moreover have "round_ok jsonb (claims_after (fst ?c) cs) m (k\<lparr>rd_given := rd_given k @ [s]\<rparr>)"
    using claim(1) by (auto simp: round_ok_def claimed_def claims_after_def split: sum.splits option.splits)
  ultimately show ?thesis
    using sys_claim [OF r, of m cs] claims_after_more by (intro exI [of _ "claims_after (fst ?c) cs"]) auto
next
  case (publish s0 event)
  let ?q = "fst (pb_Publish (os_publisher (round_service jsonb k)) event s)"
  have ev: "event \<in> set cs" using ok publish(1,2) by (simp add: round_ok_def)
  have p: "sender_Publish (rd_client k) (rd_name k) event s = (?q, s')" using publish(3) by (simp add: round_calls)
  from Publish_sends [OF p] new have sent: "new = [] \<or> new = [event_message event]" "answered ?q \<Longrightarrow> new = [event_message event]"
    and w: "nd_world s' = nd_world s"
    unfolding sends_def by auto
  have "(system_step jsonb)\<^sup>*\<^sup>* \<lparr>dl_db = db (nd_world s), dl_sent = m, dl_claims = cs\<rparr>
      \<lparr>dl_db = db (nd_world s'), dl_sent = m @ new, dl_claims = cs\<rparr>"
    using sent(1) sys_send [OF ev, of jsonb "db (nd_world s)" m] w by auto
  moreover have "round_ok jsonb cs (m @ new) (k\<lparr>rd_given := rd_given k @ [s]\<rparr>)"
    using publish(1,2) ev sent(2) by (auto simp: round_ok_def answered_def)
  ultimately show ?thesis by blast
next
  case (confirm s0 s1 event u)
  have ev: "event \<in> set cs" "event_message event \<in> set m" using ok confirm(1-3) by (auto simp: round_ok_def)
  from confirm(4) have "s' = snd (on_world (OutboxStore_Confirm (rd_env k) event) s)" by (simp add: round_calls)
  from on_world_effect [OF this] new obtain r where "OutboxStore_Confirm (rd_env k) event (nd_world s) = (r, nd_world s')"
    and "new = []" by auto
  with sys_confirm [OF ev this(1), of jsonb] round_ok_more [OF confirm(1) ok] show ?thesis by auto
next
  case (retry s0 s1 g event)
  have ev: "event \<in> set cs" using ok retry(1,2) by (simp add: round_ok_def)
  from retry(3) consider (clock) n where "s' = snd (os_now (round_service jsonb k) s) \<or> s' = snd (os_backoff (round_service jsonb k) n s)"
    | (deferred) at reason where "s' = snd (on_world (OutboxStore_Retry (rd_env k) event at reason) s)"
    by (auto simp: round_calls)
  then have "new = [] \<and> (system_step jsonb)\<^sup>*\<^sup>* \<lparr>dl_db = db (nd_world s), dl_sent = m, dl_claims = cs\<rparr>
      \<lparr>dl_db = db (nd_world s'), dl_sent = m, dl_claims = cs\<rparr>"
  proof cases
    case clock
    from clock_calls [OF this] new show ?thesis by simp
  next
    case deferred
    from on_world_effect [OF this] new obtain r where "OutboxStore_Retry (rd_env k) event at reason (nd_world s) = (r, nd_world s')"
      and "new = []" by auto
    with sys_retry [OF ev this(1), of jsonb m] show ?thesis by auto
  qed
  with round_ok_more [OF retry(1) ok] show ?thesis by auto
qed

definition rounds_ok :: "(json \<Rightarrow> string) \<Rightarrow> outbox_event list \<Rightarrow> concurrent \<Rightarrow> bool" where
  "rounds_ok jsonb cs c \<longleftrightarrow> (\<forall>k \<in> set (cc_rounds c). round_ok jsonb cs (pg_sent (cc_program c)) k)"

lemma concurrent_step_system:
  assumes "concurrent_step jsonb c c'" and ok: "system_ok jsonb (with_claims (cc_program c) cs)" "rounds_ok jsonb cs c"
  shows "\<exists>cs'. rounds_ok jsonb cs' c' \<and>
    (system_step jsonb)\<^sup>*\<^sup>* (with_claims (cc_program c) cs) (with_claims (cc_program c') cs')"
  using assms(1)
proof cases
  case (cc_other p p' ks)
  then have "system_ok jsonb (with_claims p cs)" using ok(1) by simp
  from program_step_system [OF cc_other(3) this] obtain cs' where cs': "set cs \<subseteq> set cs'"
    "(system_step jsonb)\<^sup>*\<^sup>* (with_claims p cs) (with_claims p' cs')" by blast
  have "prefix (pg_sent p) (pg_sent p')"
    using system_steps_ok [OF cs'(2)] ok(1) cc_other by (simp add: system_kept_def with_claims_def)
  then have "rounds_ok jsonb cs' c'"
    using ok(2) cs'(1) cc_other round_ok_mono set_mono_prefix unfolding rounds_ok_def by fastforce
  with cs'(2) show ?thesis using cc_other by auto
next
  case (cc_begin k p ks)
  then have "rounds_ok jsonb cs c'" using ok(2) round_ok_Nil by (auto simp: rounds_ok_def)
  then show ?thesis using cc_begin by auto
next
  case (cc_call k s made s' new m ks ks')
  have "round_ok jsonb cs m k" using ok(2) cc_call by (simp add: rounds_ok_def)
  from call_system [OF cc_call(3-5) this] obtain cs' where cs': "set cs \<subseteq> set cs'"
    "round_ok jsonb cs' (m @ new) (k\<lparr>rd_given := rd_given k @ [s]\<rparr>)"
    "(system_step jsonb)\<^sup>*\<^sup>* \<lparr>dl_db = db (nd_world s), dl_sent = m, dl_claims = cs\<rparr>
      \<lparr>dl_db = db (nd_world s'), dl_sent = m @ new, dl_claims = cs'\<rparr>" by blast
  have "round_ok jsonb cs' (m @ new) q" if "q \<in> set (ks @ ks')" for q
    using that ok(2) cc_call cs'(1) round_ok_mono [of jsonb cs m q cs' "m @ new"] by (auto simp: rounds_ok_def)
  with cs' show ?thesis using cc_call by (auto simp: rounds_ok_def with_claims_def)
qed

lemma concurrent_run_system:
  assumes "(concurrent_step jsonb)\<^sup>*\<^sup>* c c'" and "system_ok jsonb (with_claims (cc_program c) cs)" "rounds_ok jsonb cs c"
  shows "\<exists>cs'. rounds_ok jsonb cs' c' \<and>
    (system_step jsonb)\<^sup>*\<^sup>* (with_claims (cc_program c) cs) (with_claims (cc_program c') cs')"
  using assms(1)
proof (induction rule: rtranclp_induct)
  case base
  then show ?case using assms(3) by blast
next
  case (step d d')
  then obtain cs1 where d: "rounds_ok jsonb cs1 d"
    "(system_step jsonb)\<^sup>*\<^sup>* (with_claims (cc_program c) cs) (with_claims (cc_program d) cs1)" by blast
  then have "system_ok jsonb (with_claims (cc_program d) cs1)" using system_steps_ok assms(2) by blast
  from concurrent_step_system [OF step.hyps(2) this d(1)] d(2) show ?case by (meson rtranclp_trans)
qed

lemma concurrent_reachable:
  assumes "(concurrent_step jsonb)\<^sup>*\<^sup>* started c"
  shows "\<exists>cs. rounds_ok jsonb cs c \<and> (system_step jsonb)\<^sup>*\<^sup>* empty_system (with_claims (cc_program c) cs)"
proof -
  have "rounds_ok jsonb [] started" by (simp add: rounds_ok_def started_def)
  moreover have "system_ok jsonb (with_claims (cc_program started) [])"
    using system_ok_empty by (simp add: started_def with_claims_empty)
  ultimately show ?thesis using concurrent_run_system [OF assms, of "[]"] by (simp add: started_def with_claims_empty)
qed

lemma concurrent_kept:
  assumes "(concurrent_step jsonb)\<^sup>*\<^sup>* started c" and "(concurrent_step jsonb)\<^sup>*\<^sup>* c c'"
  shows "outbox_evolves (outbox (pg_db (cc_program c))) (outbox (pg_db (cc_program c'))) \<and>
    prefix (pg_sent (cc_program c)) (pg_sent (cc_program c'))"
proof -
  obtain cs where cs: "rounds_ok jsonb cs c" "(system_step jsonb)\<^sup>*\<^sup>* empty_system (with_claims (cc_program c) cs)"
    using concurrent_reachable [OF assms(1)] by blast
  from concurrent_run_system [OF assms(2) reachable_ok [OF cs(2)] cs(1)] obtain cs' where
    "(system_step jsonb)\<^sup>*\<^sup>* (with_claims (cc_program c) cs) (with_claims (cc_program c') cs')" by blast
  from system_steps_ok [OF this reachable_ok [OF cs(2)]] show ?thesis by (simp add: system_kept_def with_claims_def)
qed

text \<open>A run of the program is a run in which no other rounds have begun.\<close>

lemma program_run_concurrent:
  "(program_step jsonb)\<^sup>*\<^sup>* p q \<Longrightarrow>
     (concurrent_step jsonb)\<^sup>*\<^sup>* \<lparr>cc_program = p, cc_rounds = ks\<rparr> \<lparr>cc_program = q, cc_rounds = ks\<rparr>"
  by (induction rule: rtranclp_induct) (auto intro: cc_other rtranclp.rtrancl_into_rtrancl)

section \<open>Two rounds at a time\<close>

text \<open>
  The two events of the opened wallet, published by two rounds at the same time: the first claims one
  row, the second the other; the second sends its message, the first sends its own and confirms its
  row. The second goes no further.
\<close>

definition ex_round :: outbox_round where
  "ex_round = \<lparr>rd_env = ex_env, rd_client = ex_client, rd_name = ''output'', rd_lease = time_second, rd_given = []\<rparr>"

definition ex_call :: "nat \<Rightarrow> outbox_row list \<Rightarrow> node" where
  "ex_call n xs = \<lparr>nd_world = \<lparr>tick = n, db = ex_tables xs\<rparr>, nd_calls = [], nd_senderURL = ''url''\<rparr>"

definition ex_first :: "json \<Rightarrow> outbox_row" where
  "ex_first i = outbox_row_of ex_env (as_event ProcessedData ex_processed) i"

definition ex_second :: "json \<Rightarrow> outbox_row" where
  "ex_second j = outbox_row_of ex_env (as_event BalanceData ex_changed) j"

definition ex_first_leased :: "json \<Rightarrow> outbox_row" where
  "ex_first_leased i = lease_event (ex_uuid 101) (unix_epoch + 101000 + 1000000000) (ex_first i)"

definition ex_second_leased :: "json \<Rightarrow> outbox_row" where
  "ex_second_leased j = lease_event (ex_uuid 111) (unix_epoch + 111000 + 1000000000) (ex_second j)"

definition ex_claim :: "nat \<Rightarrow> nat \<Rightarrow> outbox_event" where
  "ex_claim n t = \<lparr>ob_ID = ex_uuid n, ob_GroupID = ex_uuid 0, ob_CorrelationID = ''c'', ob_Payload = ''1'',
     ob_Token = ex_uuid t, ob_Attempts = 1\<rparr>"

lemma ex_stamp: "env_timestamptz ex_env (unix_epoch + 1000) = unix_epoch + 1000"
  by (simp add: ex_env_def unix_epoch_def time_second_def)

lemma ex_event_rows:
  "xr_event_id (ex_first i) = ex_uuid 4" "xr_event_id (ex_second j) = ex_uuid 5"
  "xr_aggregate_id (ex_first i) = ex_uuid 2" "xr_aggregate_id (ex_second j) = ex_uuid 0"
  "xr_event_type (ex_first i) = TypeWagerTransactionProcessed" "xr_event_type (ex_second j) = TypeWalletBalanceChanged"
  "xr_correlation_id (ex_first i) = ''c''" "xr_correlation_id (ex_second j) = ''c''"
  "xr_occurred_at (ex_first i) = ex_time" "xr_occurred_at (ex_second j) = ex_time"
  "xr_next_attempt_at (ex_first i) = ex_time" "xr_next_attempt_at (ex_second j) = ex_time"
  "xr_attempts (ex_first i) = 0" "xr_attempts (ex_second j) = 0"
  "xr_published_at (ex_first i) = None" "xr_published_at (ex_second j) = None"
  "xr_locked_until (ex_first i) = None" "xr_locked_until (ex_second j) = None"
  by (simp_all add: ex_first_def ex_second_def outbox_row_of_def as_event_def envelope_of_def ex_processed_def ex_changed_def
      ex_metadata_def ex_stamp)

lemma ex_event_order: "ex_uuid 4 \<le> ex_uuid 5"
  by code_simp

lemma ex_row_groups: "event_group (ex_tables xs) (ex_first i) = Some (ex_uuid 0)" "event_group (ex_tables xs) (ex_second j) = Some (ex_uuid 0)"
  by (simp_all add: event_group_def ex_event_rows ex_tables_def wager_row_of_def ex_transaction_def)

lemma ex_interval: "lease_interval time_second = 1000000000"
  by (simp add: lease_interval_def time_second_def time_millisecond_def)

lemma ex_round_claims:
  "OutboxStore_Claim ex_env (\<lambda>_. ''1'') time_second \<lparr>tick = 100, db = ex_tables [ex_first i, ex_second j]\<rparr> =
     (Inr (Some (ex_claim 4 101)), \<lparr>tick = 103, db = ex_tables [ex_first_leased i, ex_second j]\<rparr>)"
  "OutboxStore_Claim ex_env (\<lambda>_. ''1'') time_second \<lparr>tick = 110, db = ex_tables [ex_first_leased i, ex_second j]\<rparr> =
     (Inr (Some (ex_claim 5 111)), \<lparr>tick = 113, db = ex_tables [ex_first_leased i, ex_second_leased j]\<rparr>)"
proof -
  have t: "\<not> time_second \<le> 0" by (simp add: time_second_def time_millisecond_def)
  have l: "xr_event_id (ex_first_leased i) = ex_uuid 4" "xr_locked_until (ex_first_leased i) = Some (unix_epoch + 101000 + 1000000000)"
    by (simp_all add: ex_first_leased_def lease_event_def ex_event_rows)
  have out: "outbox (ex_tables xs) = xs" "(ex_tables xs)\<lparr>outbox := ys\<rparr> = ex_tables ys" for xs ys by (simp_all add: ex_tables_def)
  have env: "env_fault ex_env k = None" "env_commit ex_env k = None" "env_db_now ex_env k = unix_epoch + 1000 * int k"
    "env_gen_random_uuid ex_env k = ex_uuid k" for k by (simp_all add: ex_env_def)
  have c: "outbox_candidate (unix_epoch + 101000) (ex_tables [ex_first i, ex_second j]) = Some (ex_first i)"
    "outbox_candidate (unix_epoch + 111000) (ex_tables [ex_first_leased i, ex_second j]) = Some (ex_second j)"
    using l by (simp_all add: outbox_candidate_def out outbox_due_def ex_event_rows ex_event_order)
  have d: "deferred_violation (ex_tables xs) (ex_tables ys) = None" for xs ys
    using deferred_outbox [of "ex_tables xs" ys] by (simp add: out)
  show "OutboxStore_Claim ex_env (\<lambda>_. ''1'') time_second \<lparr>tick = 100, db = ex_tables [ex_first i, ex_second j]\<rparr> =
     (Inr (Some (ex_claim 4 101)), \<lparr>tick = 103, db = ex_tables [ex_first_leased i, ex_second j]\<rparr>)"
    using c(1) t
    by (simp add: OutboxStore_Claim_def ReadCommitted_def within_def sql_def env step_def claim_event_def out protect_outbox_snapshot_def
        ex_event_rows ex_events_distinct ex_events_distinct [symmetric] ex_row_groups d ex_claim_def ex_first_leased_def ex_interval)
  show "OutboxStore_Claim ex_env (\<lambda>_. ''1'') time_second \<lparr>tick = 110, db = ex_tables [ex_first_leased i, ex_second j]\<rparr> =
     (Inr (Some (ex_claim 5 111)), \<lparr>tick = 113, db = ex_tables [ex_first_leased i, ex_second_leased j]\<rparr>)"
    using c(2) t l
    by (simp add: OutboxStore_Claim_def ReadCommitted_def within_def sql_def env step_def claim_event_def out protect_outbox_snapshot_def
        ex_event_rows ex_events_distinct ex_events_distinct [symmetric] ex_row_groups d ex_claim_def ex_second_leased_def ex_interval)
qed

lemma ex_round_sends:
  "\<exists>s. sender_Publish ex_client ''output'' (ex_claim n t) (ex_call k xs) = (Inr (), s) \<and> nd_world s = \<lparr>tick = k, db = ex_tables xs\<rparr> \<and>
    accepted s = [(ex_uuid n, ex_uuid 0, ''1'')]"
proof -
  have "accepting ex_client" by (simp add: accepting_def ex_client_def)
  from Publish_accepted [OF this, of "ex_call k xs" "ex_claim n t" "''output''"] show ?thesis
    by (auto simp: ex_call_def ex_claim_def event_message_def accepted_def)
qed

lemma ex_round_confirms:
  "OutboxStore_Confirm ex_env (ex_claim 4 101) \<lparr>tick = 120, db = ex_tables [ex_first_leased i, ex_second_leased j]\<rparr> =
     (Inr (), \<lparr>tick = 121, db = ex_tables [publish_row (unix_epoch + 120000) (ex_first_leased i), ex_second_leased j]\<rparr>)"
proof -
  have l: "leased_to (ex_claim 4 101) (ex_first_leased i)" "\<not> leased_to (ex_claim 4 101) (ex_second_leased j)"
    "xr_attempts (ex_first_leased i) = 1"
    using ex_events_distinct
    by (simp_all add: leased_to_def ex_first_leased_def ex_second_leased_def lease_event_def ex_event_rows ex_claim_def)
  have out: "outbox (ex_tables xs) = xs" "(ex_tables xs)\<lparr>outbox := ys\<rparr> = ex_tables ys" for xs ys by (simp_all add: ex_tables_def)
  have env: "env_fault ex_env k = None" "env_commit ex_env k = None" "env_db_now ex_env k = unix_epoch + 1000 * int k"
    for k by (simp_all add: ex_env_def)
  have "update_leased (ex_claim 4 101) (publish_row (unix_epoch + 120000)) (ex_tables [ex_first_leased i, ex_second_leased j]) =
      Inr (1, ex_tables [publish_row (unix_epoch + 120000) (ex_first_leased i), ex_second_leased j])"
    using l by (simp add: update_leased_def uuid_param_def out protect_outbox_snapshot_def) (simp add: ex_claim_def publish_row_def)
  then show ?thesis
    by (simp add: OutboxStore_Confirm_def io_try_def autocommit_def env one_row_def step_def)
qed

text \<open>The calls of a round whose claim finds a row and whose message is accepted.\<close>

lemma scripted_round:
  assumes claim: "st_Claim (os_store sv) (os_lease sv) s0 = (Inr (Some event), t0)" and body: "ob_ID event \<noteq> []" "ob_GroupID event \<noteq> []"
      "ob_Token event \<noteq> []" "ob_Payload event \<noteq> []" "\<not> ob_Attempts event < 1"
  shows "calls_of sv [s0] = [(s0, t0)]"
    and "pb_Publish (os_publisher sv) event s1 = (Inr (), t1) \<Longrightarrow> calls_of sv [s0, s1] = [(s0, t0), (s1, t1)]"
    and "pb_Publish (os_publisher sv) event s1 = (Inr (), t1) \<Longrightarrow> st_Confirm (os_store sv) event s2 = (Inr (), t2) \<Longrightarrow>
      calls_of sv [s0, s1, s2] = [(s0, t0), (s1, t1), (s2, t2)]"
proof -
  have sv: "st_Claim (os_store (scripted_service sv)) (os_lease (scripted_service sv)) = scripted (st_Claim (os_store sv) (os_lease sv))"
    "pb_Publish (os_publisher (scripted_service sv)) event = scripted (pb_Publish (os_publisher sv) event)"
    "st_Confirm (os_store (scripted_service sv)) event = scripted (st_Confirm (os_store sv) event)"
    by (simp_all add: scripted_service_def)
  have pub: "publish_event (scripted_service sv) event = io_catch (scripted (pb_Publish (os_publisher sv) event))
      (\<lambda>r. case r of Inl e \<Rightarrow> retry_event (scripted_service sv) event e
       | Inr _ \<Rightarrow> io_catch (scripted (st_Confirm (os_store sv) event)) (\<lambda>c. case c of
            Inl e \<Rightarrow> io_return (ObNone, Some e)
          | Inr _ \<Rightarrow> io_return (if ob_Attempts event > 1 then ObRepublished else ObPublished, None)))"
    unfolding publish_event_def sv using body by simp
  have run: "calls_of sv (s0 # g) = sc_made (snd (publish_event (scripted_service sv) event \<lparr>sc_given = g, sc_made = [(s0, t0)]\<rparr>))" for g
    by (simp add: calls_of_def outbox_ProcessOne_def io_catch_apply sv claim)
  show "calls_of sv [s0] = [(s0, t0)]"
    using retry_event_calls [of sv event "Opaque ''stopped''" "[]" "[(s0, t0)]"] by (simp add: run pub io_catch_apply)
  show "calls_of sv [s0, s1] = [(s0, t0), (s1, t1)]" if "pb_Publish (os_publisher sv) event s1 = (Inr (), t1)"
    using that by (simp add: run pub io_catch_apply)
  show "calls_of sv [s0, s1, s2] = [(s0, t0), (s1, t1), (s2, t2)]"
    if "pb_Publish (os_publisher sv) event s1 = (Inr (), t1)" "st_Confirm (os_store sv) event s2 = (Inr (), t2)"
    using that by (simp add: run pub io_catch_apply)
qed

abbreviation ex_service :: "node outbox_service" where
  "ex_service \<equiv> round_service (\<lambda>_. ''1'') ex_round"

definition ex_concurrent :: "outbox_row list \<Rightarrow> (string \<times> string \<times> string) list \<Rightarrow> node list \<Rightarrow> node list \<Rightarrow> concurrent" where
  "ex_concurrent xs m g h = \<lparr>cc_program = \<lparr>pg_db = ex_tables xs, pg_sent = m\<rparr>,
     cc_rounds = [ex_round\<lparr>rd_given := g\<rparr>, ex_round\<lparr>rd_given := h\<rparr>]\<rparr>"

lemma ex_call_first:
  assumes "calls_of ex_service (g @ [s]) = made @ [(s, s')]" "length made = length g" "accepted s' = accepted s @ new"
    "db (nd_world s) = ex_tables xs" "db (nd_world s') = ex_tables ys"
  shows "concurrent_step (\<lambda>_. ''1'') (ex_concurrent xs m g h) (ex_concurrent ys (m @ new) (g @ [s]) h)"
  using cc_call [of "\<lambda>_. ''1''" "ex_round\<lparr>rd_given := g\<rparr>" s made s' new m "[]" "[ex_round\<lparr>rd_given := h\<rparr>]"] assms
  by (simp add: ex_concurrent_def)

lemma ex_call_second:
  assumes "calls_of ex_service (h @ [s]) = made @ [(s, s')]" "length made = length h" "accepted s' = accepted s @ new"
    "db (nd_world s) = ex_tables xs" "db (nd_world s') = ex_tables ys"
  shows "concurrent_step (\<lambda>_. ''1'') (ex_concurrent xs m g h) (ex_concurrent ys (m @ new) g (h @ [s]))"
  using cc_call [of "\<lambda>_. ''1''" "ex_round\<lparr>rd_given := h\<rparr>" s made s' new m "[ex_round\<lparr>rd_given := g\<rparr>]" "[]"] assms
  by (simp add: ex_concurrent_def)

lemma ex_service_calls:
  "st_Claim (os_store ex_service) (os_lease ex_service) = on_world (OutboxStore_Claim ex_env (\<lambda>_. ''1'') time_second)"
  "pb_Publish (os_publisher ex_service) = sender_Publish ex_client ''output''"
  "st_Confirm (os_store ex_service) e = on_world (OutboxStore_Confirm ex_env e)"
  using round_calls [of "\<lambda>_. ''1''" ex_round] by (simp_all add: ex_round_def)

lemma ex_rounds_interleave:
  "\<exists>g h. (concurrent_step (\<lambda>_. ''1''))\<^sup>*\<^sup>* (ex_concurrent [ex_first i, ex_second j] [] [] [])
     (ex_concurrent [publish_row (unix_epoch + 120000) (ex_first_leased i), ex_second_leased j]
       [(ex_uuid 5, ex_uuid 0, ''1''), (ex_uuid 4, ex_uuid 0, ''1'')] g h)"
proof -
  let ?R = "(concurrent_step (\<lambda>_. ''1''))\<^sup>*\<^sup>*" and ?x = "ex_first i" and ?y = "ex_second j" and ?x1 = "ex_first_leased i"
    and ?y1 = "ex_second_leased j" and ?x2 = "publish_row (unix_epoch + 120000) (ex_first_leased i)"
    and ?m = "(ex_uuid 5, ex_uuid 0, ''1'')" and ?n = "(ex_uuid 4, ex_uuid 0, ''1'')"
  let ?a0 = "ex_call 100 [?x, ?y]" and ?b0 = "ex_call 110 [?x1, ?y]" and ?b1 = "ex_call 114 [?x1, ?y1]"
    and ?a1 = "ex_call 116 [?x1, ?y1]" and ?a2 = "ex_call 120 [?x1, ?y1]"
  have none: "accepted (ex_call n xs) = []" "db (nd_world (ex_call n xs)) = ex_tables xs" for n xs by (simp_all add: ex_call_def accepted_def)
  have filled: "ob_ID (ex_claim n t) \<noteq> []" "ob_GroupID (ex_claim n t) \<noteq> []" "ob_Token (ex_claim n t) \<noteq> []"
    "ob_Payload (ex_claim n t) \<noteq> []" "\<not> ob_Attempts (ex_claim n t) < 1" for n t by (simp_all add: ex_claim_def)
  obtain c0 where c0: "st_Claim (os_store ex_service) (os_lease ex_service) ?a0 = (Inr (Some (ex_claim 4 101)), c0)"
    "accepted c0 = []" "db (nd_world c0) = ex_tables [?x1, ?y]"
    using ex_round_claims(1) [of i j] by (simp add: ex_service_calls on_world_def ex_call_def accepted_def)
  obtain d0 where d0: "st_Claim (os_store ex_service) (os_lease ex_service) ?b0 = (Inr (Some (ex_claim 5 111)), d0)"
    "accepted d0 = []" "db (nd_world d0) = ex_tables [?x1, ?y1]"
    using ex_round_claims(2) [of i j] by (simp add: ex_service_calls on_world_def ex_call_def accepted_def)
  obtain d1 where d1: "pb_Publish (os_publisher ex_service) (ex_claim 5 111) ?b1 = (Inr (), d1)"
    "accepted d1 = [?m]" "db (nd_world d1) = ex_tables [?x1, ?y1]"
    using ex_round_sends [of 5 111 114 "[?x1, ?y1]"] by (auto simp: ex_service_calls)
  obtain c1 where c1: "pb_Publish (os_publisher ex_service) (ex_claim 4 101) ?a1 = (Inr (), c1)"
    "accepted c1 = [?n]" "db (nd_world c1) = ex_tables [?x1, ?y1]"
    using ex_round_sends [of 4 101 116 "[?x1, ?y1]"] by (auto simp: ex_service_calls)
  obtain c2 where c2: "st_Confirm (os_store ex_service) (ex_claim 4 101) ?a2 = (Inr (), c2)"
    "accepted c2 = []" "db (nd_world c2) = ex_tables [?x2, ?y1]"
    using ex_round_confirms [of i j] by (simp add: ex_service_calls on_world_def ex_call_def accepted_def)
  note a = scripted_round [OF c0(1) filled] and b = scripted_round [OF d0(1) filled]
  have s1: "?R (ex_concurrent [?x, ?y] [] [] []) (ex_concurrent [?x1, ?y] [] [?a0] [])"
    using ex_call_first [of "[]" ?a0 "[]" c0 "[]" "[?x, ?y]" "[?x1, ?y]" "[]" "[]"] a(1) c0 none by simp
  have s2: "?R (ex_concurrent [?x1, ?y] [] [?a0] []) (ex_concurrent [?x1, ?y1] [] [?a0] [?b0])"
    using ex_call_second [of "[]" ?b0 "[]" d0 "[]" "[?x1, ?y]" "[?x1, ?y1]" "[]" "[?a0]"] b(1) d0 none by simp
  have s3: "?R (ex_concurrent [?x1, ?y1] [] [?a0] [?b0]) (ex_concurrent [?x1, ?y1] [?m] [?a0] [?b0, ?b1])"
    using ex_call_second [of "[?b0]" ?b1 "[(?b0, d0)]" d1 "[?m]" "[?x1, ?y1]" "[?x1, ?y1]" "[]" "[?a0]"] b(2) [OF d1(1)] d1 none by simp
  have s4: "?R (ex_concurrent [?x1, ?y1] [?m] [?a0] [?b0, ?b1]) (ex_concurrent [?x1, ?y1] [?m, ?n] [?a0, ?a1] [?b0, ?b1])"
    using ex_call_first [of "[?a0]" ?a1 "[(?a0, c0)]" c1 "[?n]" "[?x1, ?y1]" "[?x1, ?y1]" "[?m]" "[?b0, ?b1]"] a(2) [OF c1(1)] c1 none by simp
  have s5: "?R (ex_concurrent [?x1, ?y1] [?m, ?n] [?a0, ?a1] [?b0, ?b1]) (ex_concurrent [?x2, ?y1] [?m, ?n] [?a0, ?a1, ?a2] [?b0, ?b1])"
    using ex_call_first [of "[?a0, ?a1]" ?a2 "[(?a0, c0), (?a1, c1)]" c2 "[]" "[?x1, ?y1]" "[?x2, ?y1]" "[?m, ?n]" "[?b0, ?b1]"]
      a(3) [OF c1(1) c2(1)] c2 none by simp
  show ?thesis
    using rtranclp_trans [OF rtranclp_trans [OF rtranclp_trans [OF rtranclp_trans [OF s1 s2] s3] s4] s5] by blast
qed

lemma ex_concurrent_run:
  "\<exists>c0 c x. (concurrent_step (\<lambda>_. ''1''))\<^sup>*\<^sup>* started c0 \<and> (concurrent_step (\<lambda>_. ''1''))\<^sup>*\<^sup>* c0 c \<and> length (cc_rounds c) = 2 \<and>
   wagers (pg_db (cc_program c)) = [wager_row_of ex_env ex_transaction None] \<and>
   ledger (pg_db (cc_program c)) = [ledger_row_of ex_env ex_credit] \<and>
   x \<in> set (outbox (pg_db (cc_program c))) \<and> xr_published_at x \<noteq> None \<and> xr_event_id x = ex_uuid 4"
proof -
  let ?R = "(concurrent_step (\<lambda>_. ''1''))\<^sup>*\<^sup>*"
  obtain i j where "db ex_opened = ex_tables [ex_first i, ex_second j]"
    using ex_opens_events by (auto simp: ex_events_def ex_first_def ex_second_def)
  then have "?R started \<lparr>cc_program = \<lparr>pg_db = ex_tables [ex_first i, ex_second j], pg_sent = []\<rparr>, cc_rounds = []\<rparr>"
    using program_run_concurrent [OF ex_program_reachable, of "\<lambda>_. ''1''" "[]"] by (simp add: started_def ex_program_def)
  moreover have "concurrent_step (\<lambda>_. ''1'') \<lparr>cc_program = p, cc_rounds = ks\<rparr> \<lparr>cc_program = p, cc_rounds = ks @ [ex_round]\<rparr>" for p ks
    by (rule cc_begin) (simp add: ex_round_def)
  ultimately have "?R started \<lparr>cc_program = \<lparr>pg_db = ex_tables [ex_first i, ex_second j], pg_sent = []\<rparr>, cc_rounds = ([] @ [ex_round]) @ [ex_round]\<rparr>"
    by (meson rtranclp.rtrancl_into_rtrancl)
  moreover have "ex_round\<lparr>rd_given := []\<rparr> = ex_round" by (simp add: ex_round_def)
  ultimately have "?R started (ex_concurrent [ex_first i, ex_second j] [] [] [])" by (simp add: ex_concurrent_def)
  moreover obtain g h where "?R (ex_concurrent [ex_first i, ex_second j] [] [] [])
     (ex_concurrent [publish_row (unix_epoch + 120000) (ex_first_leased i), ex_second_leased j]
       [(ex_uuid 5, ex_uuid 0, ''1''), (ex_uuid 4, ex_uuid 0, ''1'')] g h)"
    using ex_rounds_interleave by blast
  moreover
  let ?c = "ex_concurrent [publish_row (unix_epoch + 120000) (ex_first_leased i), ex_second_leased j]
       [(ex_uuid 5, ex_uuid 0, ''1''), (ex_uuid 4, ex_uuid 0, ''1'')] g h"
  have "wagers (pg_db (cc_program ?c)) = [wager_row_of ex_env ex_transaction None]"
    "ledger (pg_db (cc_program ?c)) = [ledger_row_of ex_env ex_credit]" "length (cc_rounds ?c) = 2"
    "outbox (pg_db (cc_program ?c)) = [publish_row (unix_epoch + 120000) (ex_first_leased i), ex_second_leased j]"
    by (simp_all add: ex_concurrent_def ex_tables_def)
  moreover have "xr_published_at (publish_row t (ex_first_leased i)) \<noteq> None" "xr_event_id (publish_row t (ex_first_leased i)) = ex_uuid 4" for t
    by (simp_all add: publish_row_def ex_first_leased_def lease_event_def ex_event_rows)
  ultimately show ?thesis
    by (intro exI [of _ "ex_concurrent [ex_first i, ex_second j] [] [] []"] exI [of _ ?c]
      exI [of _ "publish_row (unix_epoch + 120000) (ex_first_leased i)"]) (simp del: One_nat_def)
qed

section \<open>Property\<close>

text \<open>
  Property C15. Delivery at least once. However the calls of any number of publication rounds interleave
  with each other and with everything else the program does, whatever fails and wherever rounds stop:
  an event is marked as published only if the queue has accepted a message with its identifier and
  payload, the queue has accepted nothing but events of the outbox, no message it accepted is forgotten,
  and no event is lost or altered: every row is still there later with the same contents and in the
  same place, and published rows stay as they are.
\<close>

theorem delivery_at_least_once:
  assumes "(concurrent_step jsonb)\<^sup>*\<^sup>* started c" and "(concurrent_step jsonb)\<^sup>*\<^sup>* c c'"
  shows "(\<forall>x \<in> set (outbox (pg_db (cc_program c'))). xr_published_at x \<noteq> None \<longrightarrow>
      (\<exists>m \<in> set (pg_sent (cc_program c')). message_of jsonb x m)) \<and>
    (\<forall>m \<in> set (pg_sent (cc_program c')). \<exists>x \<in> set (outbox (pg_db (cc_program c'))). message_of jsonb x m) \<and>
    prefix (pg_sent (cc_program c)) (pg_sent (cc_program c')) \<and>
    outbox_evolves (outbox (pg_db (cc_program c))) (outbox (pg_db (cc_program c')))"
proof -
  obtain cs where cs: "(system_step jsonb)\<^sup>*\<^sup>* empty_system (with_claims (cc_program c') cs)"
    using concurrent_reachable rtranclp_trans [OF assms] by blast
  from reachable_ok [OF cs] reachable_known [OF cs] concurrent_kept [OF assms] show ?thesis
    by (simp add: system_ok_def delivery_ok_def published_sent_def sent_known_def with_claims_def)
qed

theorem delivery_at_least_once_witness:
  "\<exists>c x. (concurrent_step (\<lambda>_. ''1''))\<^sup>*\<^sup>* started c \<and> length (cc_rounds c) = 2 \<and>
     x \<in> set (outbox (pg_db (cc_program c))) \<and> xr_published_at x \<noteq> None \<and>
     (\<exists>m \<in> set (pg_sent (cc_program c)). message_of (\<lambda>_. ''1'') x m)"
proof -
  obtain c0 c x where run: "(concurrent_step (\<lambda>_. ''1''))\<^sup>*\<^sup>* started c0" "(concurrent_step (\<lambda>_. ''1''))\<^sup>*\<^sup>* c0 c"
    and x: "length (cc_rounds c) = 2" "x \<in> set (outbox (pg_db (cc_program c)))" "xr_published_at x \<noteq> None"
    using ex_concurrent_run by blast
  from delivery_at_least_once [OF run] x have "\<exists>m \<in> set (pg_sent (cc_program c)). message_of (\<lambda>_. ''1'') x m" by blast
  with x rtranclp_trans [OF run] show ?thesis by blast
qed

end
