(* ===== verification/Gateway.thy ===== *)
theory Gateway
  imports Auth Uuid Canonical
begin

text \<open>
  The command \<^verbatim>\<open>cmd/sqs-gateway\<close>: a proxy in front of the local queue engine that authenticates
  signed requests and authorises each of them by the action and the queue it names. The signature
  algorithm, SHA-256, the JSON decoder and the URL parser are parameters.
\<close>

section \<open>Principals and policies\<close>

record statement =
  st_Effect :: string
  st_Action :: "string list"
  st_Resource :: string

record principal =
  pr_secret :: string
  pr_statements :: "statement list"
  pr_testQueues :: bool

fun permits_action :: "string \<Rightarrow> string list \<Rightarrow> bool" where
  "permits_action action [] = False"
| "permits_action action (allowed # rest) = (if allowed = action then True else permits_action action rest)"

fun permitsPolicy :: "statement list \<Rightarrow> string \<Rightarrow> string \<Rightarrow> bool" where
  "permitsPolicy [] action resource = False"
| "permitsPolicy (s # rest) action resource =
     (if st_Effect s \<noteq> ''Allow'' \<or> st_Resource s \<noteq> resource then permitsPolicy rest action resource
      else if permits_action action (st_Action s) then True
      else permitsPolicy rest action resource)"

definition application_queues :: "string list" where
  "application_queues = [''wager-transactions.fifo'', ''wager-transactions-dlq.fifo'', ''wager-events.fifo'']"

definition permits :: "principal \<Rightarrow> string \<Rightarrow> string \<Rightarrow> bool" where
  "permits p action resource =
     (if pr_testQueues p then
        (case find (\<lambda>queue. suffix ('':'' @ queue) resource) application_queues of
           Some queue \<Rightarrow>
             if queue = ''wager-transactions.fifo'' then False else permitsPolicy (pr_statements p) action resource
         | None \<Rightarrow> prefix ''sqs:'' action \<and> resource \<noteq> ''*'')
      else permitsPolicy (pr_statements p) action resource)"

section \<open>Requests\<close>

text \<open>
  Header values are looked up by the lower-case name of the header. A URL is what the code reads of
  \<^verbatim>\<open>url.URL\<close>.
\<close>

record queue_request =
  qr_method :: string
  qr_path :: string
  qr_escaped_path :: string
  qr_raw_query :: string
  qr_force_query :: bool
  qr_host :: string
  qr_headers :: "string \<Rightarrow> string list"
  qr_content_length :: int
  qr_body :: string
  qr_body_error :: "err option"

record parsed_url =
  pu_scheme :: string
  pu_host :: string
  pu_has_user :: bool
  pu_path :: string
  pu_escaped_path :: string
  pu_raw_query :: string
  pu_force_query :: bool
  pu_fragment :: string
  pu_opaque :: string

text \<open>What is signed: the request with the signed headers only.\<close>

record signed_request =
  sg_method :: string
  sg_path :: string
  sg_escaped_path :: string
  sg_host :: string
  sg_raw_query :: string
  sg_content_length :: int
  sg_headers :: "(string \<times> string list) list"

record gateway =
  gw_principals :: "string \<rightharpoonup> principal"
  gw_region :: string
  gw_account :: string
  gw_now :: "nat \<Rightarrow> time"
  gw_sign :: "string \<Rightarrow> string \<Rightarrow> signed_request \<Rightarrow> string \<Rightarrow> string \<Rightarrow> time \<Rightarrow> string result"
  gw_sha256 :: "string \<Rightarrow> byte list"
  gw_json_fields :: "string \<Rightarrow> (string \<times> string option) list option"
  gw_url_parse :: "string \<Rightarrow> parsed_url option"

definition header_Get :: "queue_request \<Rightarrow> string \<Rightarrow> string" where
  "header_Get r name = (case qr_headers r name of v # _ \<Rightarrow> v | [] \<Rightarrow> [])"

section \<open>Authentication\<close>

text \<open>
  \<^verbatim>\<open>authorizationPattern\<close>: each group of the pattern is followed by a character it does not
  contain, so the longest match of every group is the only one.
\<close>

record authorization =
  au_key :: string
  au_date :: string
  au_region :: string
  au_headers :: string
  au_signature :: string

definition strip :: "string \<Rightarrow> string \<Rightarrow> string option" where
  "strip p s = (if prefix p s then Some (drop (length p) s) else None)"

definition credential_char :: "char \<Rightarrow> bool" where
  "credential_char c \<longleftrightarrow> c \<notin> {CHR ''/'', CHR '','', CHR '' ''}"

definition signed_header_char :: "char \<Rightarrow> bool" where
  "signed_header_char c \<longleftrightarrow>
     (let n = (of_char c :: nat) in 97 \<le> n \<and> n \<le> 122) \<or> is_digit c \<or> c = CHR '';'' \<or> c = CHR ''-''"

definition parse_authorization :: "string \<Rightarrow> authorization option" where
  "parse_authorization s =
     Option.bind (strip ''AWS4-HMAC-SHA256 Credential='' s) (\<lambda>s1.
     let key = takeWhile credential_char s1 in
     Option.bind (strip ''/'' (dropWhile credential_char s1)) (\<lambda>s2.
     let date = take 8 s2 in
     Option.bind (strip ''/'' (drop 8 s2)) (\<lambda>s3.
     let region = takeWhile credential_char s3 in
     Option.bind (strip ''/sqs/aws4_request, SignedHeaders='' (dropWhile credential_char s3)) (\<lambda>s4.
     let headers = takeWhile signed_header_char s4 in
     Option.bind (strip '', Signature='' (dropWhile signed_header_char s4)) (\<lambda>signature.
     if key = [] \<or> length date \<noteq> 8 \<or> \<not> list_all is_digit date \<or> region = [] \<or> headers = [] \<or>
        length signature \<noteq> 64 \<or> \<not> list_all is_lower_hex signature
     then None
     else Some \<lparr>au_key = key, au_date = date, au_region = region, au_headers = headers, au_signature = signature\<rparr>)))))"

text \<open>\<^verbatim>\<open>strings.Split\<close> by one character.\<close>

fun strings_Split :: "char \<Rightarrow> string \<Rightarrow> string list" where
  "strings_Split sep [] = [[]]"
| "strings_Split sep (c # s) =
     (if c = sep then [] # strings_Split sep s
      else (case strings_Split sep s of p # ps \<Rightarrow> (c # p) # ps | [] \<Rightarrow> [[c]]))"

text \<open>
  \<^verbatim>\<open>time.Parse("20060102T150405Z", text)\<close>. The parser also takes a fraction behind the seconds,
  of which nine digits count, although the layout has none. The result is the date as it is printed
  by the layout \<^verbatim>\<open>20060102\<close>, and the instant.
\<close>

definition days_in :: "int \<Rightarrow> int \<Rightarrow> int" where
  "days_in year month =
     (if month = 2 then (if year mod 4 = 0 \<and> (year mod 100 \<noteq> 0 \<or> year mod 400 = 0) then 29 else 28)
      else if month \<in> {4, 6, 9, 11} then 30 else 31)"

definition days_of_date :: "int \<Rightarrow> int \<Rightarrow> int \<Rightarrow> int" where
  "days_of_date year month day =
     (let y = (if month \<le> 2 then year - 1 else year);
          yoe = y mod 400;
          doy = (153 * ((month + 9) mod 12) + 2) div 5 + day - 1
      in y div 400 * 146097 + yoe * 365 + yoe div 4 - yoe div 100 + doy - 306)"

definition fraction_nanos :: "string \<Rightarrow> int" where
  "fraction_nanos digits = (let d = take 9 digits in int (dec_val d) * 10 ^ (9 - length d))"

definition parse_amz_date :: "string \<Rightarrow> (string \<times> time) option" where
  "parse_amz_date s =
     (let date = take 8 s; clock = take 6 (drop 9 s); rest = drop 15 s;
          number = (\<lambda>i n t. int (dec_val (take n (drop i t))));
          year = number 0 4 date; month = number 4 2 date; day = number 6 2 date;
          hour = number 0 2 clock; minute = number 2 2 clock; second = number 4 2 clock;
          digits = takeWhile is_digit (tl rest);
          fraction = (rest \<noteq> [] \<and> hd rest \<in> {CHR ''.'', CHR '',''} \<and> digits \<noteq> []);
          nanos = (if fraction then fraction_nanos digits else 0);
          tail = (if fraction then dropWhile is_digit (tl rest) else rest)
      in if length s < 16 \<or> \<not> list_all is_digit date \<or> s ! 8 \<noteq> CHR ''T'' \<or> \<not> list_all is_digit clock \<or> tail \<noteq> ''Z'' \<or>
            month < 1 \<or> month > 12 \<or> day < 1 \<or> day > days_in year month \<or> hour > 23 \<or> minute > 59 \<or> second > 59
         then None
         else Some (date,
           (days_of_date year month day * 86400 + hour * 3600 + minute * 60 + second) * time_second + nanos))"

definition signs :: "string \<Rightarrow> string \<Rightarrow> bool" where
  "signs headers name \<longleftrightarrow> sublist ('';'' @ name @ '';'') ('';'' @ headers @ '';'')"

text \<open>The headers copied for the signature, in the order of their names in the list; none may be absent.\<close>

fun signed_values :: "queue_request \<Rightarrow> string list \<Rightarrow> (string \<times> string list) list option" where
  "signed_values r [] = Some []"
| "signed_values r (name # names) =
     (if name = ''host'' \<or> name = ''content-length'' then signed_values r names
      else if qr_headers r name = [] then None
      else map_option ((#) (name, qr_headers r name)) (signed_values r names))"

definition signed_clone :: "queue_request \<Rightarrow> authorization \<Rightarrow> (string \<times> string list) list \<Rightarrow> signed_request" where
  "signed_clone r parts headers =
     \<lparr>sg_method = qr_method r, sg_path = qr_path r, sg_escaped_path = qr_escaped_path r, sg_host = qr_host r,
      sg_raw_query = qr_raw_query r,
      sg_content_length = (if signs (au_headers parts) ''content-length'' then qr_content_length r else 0),
      sg_headers = headers\<rparr>"

text \<open>The last part of \<^verbatim>\<open>authenticate\<close>: the signature is computed again and compared.\<close>

definition verify_signature :: "gateway \<Rightarrow> queue_request \<Rightarrow> string \<Rightarrow> authorization \<Rightarrow> principal \<Rightarrow> time \<Rightarrow> bool" where
  "verify_signature g r body parts p signedAt =
     (case signed_values r (strings_Split CHR '';'' (au_headers parts)) of
        None \<Rightarrow> False
      | Some headers \<Rightarrow>
          let payloadHash = hex_text (gw_sha256 g body);
              supplied = header_Get r ''x-amz-content-sha256''
          in if supplied \<noteq> [] \<and> supplied \<noteq> payloadHash then False
             else gw_sign g (au_key parts) (pr_secret p) (signed_clone r parts headers) payloadHash (gw_region g) signedAt =
               Inr (header_Get r ''authorization''))"

text \<open>The middle part: the date and the names of the signed headers.\<close>

definition verify_request :: "gateway \<Rightarrow> queue_request \<Rightarrow> string \<Rightarrow> authorization \<Rightarrow> principal \<Rightarrow> bool" where
  "verify_request g r body parts p =
     (case parse_amz_date (header_Get r ''x-amz-date'') of
        None \<Rightarrow> False
      | Some (date, signedAt) \<Rightarrow>
          if au_date parts \<noteq> date \<or> gw_now g 0 - signedAt > 5 * time_minute \<or> signedAt - gw_now g 1 > 5 * time_minute
          then False
          else if \<not> signs (au_headers parts) ''host'' \<or> \<not> signs (au_headers parts) ''x-amz-date'' then False
          else if header_Get r ''x-amz-target'' \<noteq> [] \<and> \<not> signs (au_headers parts) ''x-amz-target'' then False
          else verify_signature g r body parts p signedAt)"

definition gateway_authenticate :: "gateway \<Rightarrow> queue_request \<Rightarrow> string \<Rightarrow> principal option" where
  "gateway_authenticate g r body =
     (case parse_authorization (header_Get r ''authorization'') of
        None \<Rightarrow> None
      | Some parts \<Rightarrow>
          if au_region parts \<noteq> gw_region g \<or> header_Get r ''x-amz-security-token'' \<noteq> [] then None
          else (case gw_principals g (au_key parts) of
              None \<Rightarrow> None
            | Some p \<Rightarrow>
                if pr_secret p = [] then None
                else if \<not> verify_request g r body parts p then None
                else Some p))"

section \<open>The operation of a request\<close>

definition identifier_names :: "string list" where
  "identifier_names = [''QueueUrl'', ''QueueName'', ''QueueOwnerAWSAccountId'']"

text \<open>
  \<^verbatim>\<open>jsonIdentifiers\<close> on the fields of the body in their order, each with its value where it is a
  text. That the body is one object with nothing behind it, and that its values are well formed, is
  the decoder's part.
\<close>

fun scan_identifiers :: "string list \<Rightarrow> (string \<times> string option) list \<Rightarrow> (string \<times> string) list result" where
  "scan_identifiers seen [] = Inr []"
| "scan_identifiers seen ((key, v) # rest) =
     (if list_ex (\<lambda>name. equal_fold key name \<and> key \<noteq> name) identifier_names
      then Inl (Opaque ''noncanonical SQS resource field'')
      else if key \<in> set seen then Inl (Opaque ''duplicate SQS field'')
      else if key \<in> set identifier_names then
        (case v of
           None \<Rightarrow> Inl (Opaque ''json'')
         | Some s \<Rightarrow> and_then (scan_identifiers (key # seen) rest) (\<lambda>ids. Inr ((key, s) # ids)))
      else scan_identifiers (key # seen) rest)"

definition jsonIdentifiers :: "gateway \<Rightarrow> string \<Rightarrow> (string \<times> string) list result" where
  "jsonIdentifiers g body =
     (case gw_json_fields g body of
        None \<Rightarrow> Inl (Opaque ''invalid SQS JSON body'')
      | Some found \<Rightarrow> scan_identifiers [] found)"

text \<open>\<^verbatim>\<open>url.ParseQuery\<close>: parameters separated by ampersands, with percent escapes and plus signs.\<close>

definition hex_value :: "char \<Rightarrow> nat" where
  "hex_value c =
     (let n = (of_char c :: nat) in if is_digit c then n - 48 else if 97 \<le> n then n - 87 else n - 55)"

fun unescape :: "string \<Rightarrow> string option" where
  "unescape [] = Some []"
| "unescape (c # s) =
     (if c = CHR ''%'' then
        (case s of
           a # b # rest \<Rightarrow>
             if is_hex_char a \<and> is_hex_char b
             then map_option ((#) (char_of (16 * hex_value a + hex_value b))) (unescape rest) else None
         | _ \<Rightarrow> None)
      else if c = CHR ''+'' then map_option ((#) CHR '' '') (unescape s)
      else map_option ((#) c) (unescape s))"

definition parse_parameter :: "string \<Rightarrow> (string \<times> string) option" where
  "parse_parameter s =
     (let key = takeWhile (\<lambda>c. c \<noteq> CHR ''='') s; value = drop 1 (dropWhile (\<lambda>c. c \<noteq> CHR ''='') s)
      in if CHR '';'' \<in> set s then None
         else Option.bind (unescape key) (\<lambda>k. map_option (Pair k) (unescape value)))"

fun parse_parameters :: "string list \<Rightarrow> (string \<times> string) list option" where
  "parse_parameters [] = Some []"
| "parse_parameters (p # ps) =
     (if p = [] then parse_parameters ps
      else Option.bind (parse_parameter p) (\<lambda>q. map_option ((#) q) (parse_parameters ps)))"

definition parse_query :: "string \<Rightarrow> (string \<times> string) list option" where
  "parse_query s = parse_parameters (strings_Split CHR ''&'' s)"

definition get_value :: "(string \<times> string) list \<Rightarrow> string \<Rightarrow> string" where
  "get_value kvs k = (case map_of kvs k of Some v \<Rightarrow> v | None \<Rightarrow> [])"

definition queueNameFromURL :: "gateway \<Rightarrow> string \<Rightarrow> string result" where
  "queueNameFromURL g queueURL =
     (case gw_url_parse g queueURL of
        None \<Rightarrow> Inl (Opaque ''invalid QueueUrl'')
      | Some u \<Rightarrow>
          if pu_scheme u \<noteq> ''http'' \<and> pu_scheme u \<noteq> ''https'' \<or> pu_host u = [] \<or> pu_has_user u \<or> pu_raw_query u \<noteq> [] \<or>
             pu_force_query u \<or> pu_fragment u \<noteq> [] \<or> pu_opaque u \<noteq> [] \<or> pu_escaped_path u \<noteq> pu_path u
          then Inl (Opaque ''invalid QueueUrl'')
          else
            let path = pu_path u;
                segments = strings_Split CHR ''/'' (if prefix ''/'' path then drop 1 path else path)
            in if \<not> prefix ''/'' path \<or> length segments \<noteq> 2 \<or> segments ! 0 \<noteq> gw_account g
               then Inl (Opaque ''invalid QueueUrl path'') else Inr (segments ! 1))"

definition queue_name_char :: "char \<Rightarrow> bool" where
  "queue_name_char c \<longleftrightarrow>
     (let n = (of_char c :: nat) in 65 \<le> n \<and> n \<le> 90 \<or> 97 \<le> n \<and> n \<le> 122) \<or> is_digit c \<or> c = CHR ''_'' \<or> c = CHR ''-''"

definition matches_queue_name :: "string \<Rightarrow> bool" where
  "matches_queue_name s \<longleftrightarrow>
     (let rest = dropWhile queue_name_char s
      in takeWhile queue_name_char s \<noteq> [] \<and> (rest = [] \<or> rest = ''.fifo''))"

text \<open>The action and the identifiers a request names, in the JSON protocol and in the query protocol.\<close>

definition request_identifiers :: "gateway \<Rightarrow> queue_request \<Rightarrow> string \<Rightarrow> (string \<times> (string \<times> string) list) result" where
  "request_identifiers g r body =
     (if header_Get r ''x-amz-target'' \<noteq> [] then
        (if \<not> prefix ''AmazonSQS.'' (header_Get r ''x-amz-target'') then Inl (Opaque ''invalid SQS target'')
         else and_then (jsonIdentifiers g body) (\<lambda>input.
           Inr (drop (length ''AmazonSQS.'') (header_Get r ''x-amz-target''), input)))
      else
        (case parse_query body of
           None \<Rightarrow> Inl (Opaque ''query'')
         | Some values \<Rightarrow>
             if \<not> distinct (map fst values) then Inl (Opaque ''duplicate SQS parameter'')
             else Inr (get_value values ''Action'', values)))"

definition queue_name :: "gateway \<Rightarrow> string \<Rightarrow> (string \<times> string) list \<Rightarrow> string result" where
  "queue_name g action ids =
     (if action = ''GetQueueUrl'' \<or> action = ''CreateQueue'' then
        (if map_of ids ''QueueUrl'' \<noteq> None then Inl (Opaque ''unexpected QueueUrl'')
         else Inr (get_value ids ''QueueName''))
      else if action \<in> {''SendMessage'', ''ReceiveMessage'', ''DeleteMessage'', ''ChangeMessageVisibility'',
          ''GetQueueAttributes'', ''DeleteQueue''} then
        (if map_of ids ''QueueName'' \<noteq> None \<or> map_of ids ''QueueUrl'' = None then Inl (Opaque ''unexpected QueueName'')
         else queueNameFromURL g (get_value ids ''QueueUrl''))
      else Inl (Opaque ''unsupported SQS action''))"

definition queue_arn :: "gateway \<Rightarrow> string \<Rightarrow> string" where
  "queue_arn g name = ''arn:aws:sqs:'' @ gw_region g @ '':'' @ gw_account g @ '':'' @ name"

definition gateway_operation :: "gateway \<Rightarrow> queue_request \<Rightarrow> string \<Rightarrow> (string \<times> string) result" where
  "gateway_operation g r body =
     (if qr_escaped_path r \<noteq> ''/'' \<or> qr_raw_query r \<noteq> [] \<or> qr_force_query r
      then Inl (Opaque ''unsupported SQS request path'')
      else if length (qr_headers r ''x-amz-target'') > 1 then Inl (Opaque ''duplicate SQS target'')
      else
       and_then (request_identifiers g r body) (\<lambda>(action, ids).
       if get_value ids ''QueueOwnerAWSAccountId'' \<noteq> [] \<and> get_value ids ''QueueOwnerAWSAccountId'' \<noteq> gw_account g
       then Inl (Opaque ''unsupported queue owner'')
       else
        and_then (queue_name g action ids) (\<lambda>name.
        if name = [] \<or> length name > 80 \<or> \<not> matches_queue_name name then Inl (Opaque ''invalid queue name'')
        else Inr (''sqs:'' @ action, queue_arn g name))))"

section \<open>Serving\<close>

definition maxRequestBody :: nat where
  "maxRequestBody = 2 ^ 20"

text \<open>The answer of the gateway, or the body with which the request is passed on.\<close>

datatype outcome = Healthy | Denied | Forwarded string

definition gateway_ServeHTTP :: "gateway \<Rightarrow> queue_request \<Rightarrow> outcome" where
  "gateway_ServeHTTP g r =
     (if qr_method r = ''GET'' \<and> qr_path r = ''/healthz'' then Healthy
      else if qr_method r \<noteq> ''POST'' then Denied
      else
        let body = take (maxRequestBody + 1) (qr_body r) in
        if qr_body_error r \<noteq> None \<and> length (qr_body r) < maxRequestBody + 1 \<or> length body > maxRequestBody then Denied
        else (case gateway_authenticate g r body of
            None \<Rightarrow> Denied
          | Some p \<Rightarrow>
              (case gateway_operation g r body of
                 Inl _ \<Rightarrow> Denied
               | Inr (action, resource) \<Rightarrow> if \<not> permits p action resource then Denied else Forwarded body)))"

section \<open>The process\<close>

text \<open>
  \<^verbatim>\<open>bytes.ReplaceAll\<close> for a text that is not empty, and the policies read from their templates. The
  parameter \<open>decode\<close> is the JSON decoder for a policy document.
\<close>

function replace_all :: "string \<Rightarrow> string \<Rightarrow> string \<Rightarrow> string" where
  "replace_all old new [] = []"
| "replace_all old new (c # s) =
     (if old \<noteq> [] \<and> prefix old (c # s) then new @ replace_all old new (drop (length old) (c # s))
      else c # replace_all old new s)"
  by pat_completeness auto
termination
  by (relation "measure (\<lambda>(_, _, s). length s)") auto

definition readPolicy :: "(string \<Rightarrow> statement list option) \<Rightarrow> string result \<Rightarrow> string \<Rightarrow> string \<Rightarrow> statement list result" where
  "readPolicy decode contents region account =
     and_then contents (\<lambda>text.
     case decode (replace_all ''ACCOUNT_ID'' account (replace_all ''REGION'' region text)) of
       None \<Rightarrow> Inl (Opaque ''parse SQS policy'')
     | Some statements \<Rightarrow> if statements = [] then Inl (Opaque ''SQS policy has no statements'') else Inr statements)"

definition getenv :: "(string \<Rightarrow> string) \<Rightarrow> string \<Rightarrow> string \<Rightarrow> string" where
  "getenv environ name fallback = (if environ name \<noteq> [] then environ name else fallback)"

text \<open>The principals of the process, written in the order of the map literal.\<close>

definition main_principals :: "(string \<Rightarrow> string) \<Rightarrow> statement list \<Rightarrow> statement list \<Rightarrow> string \<rightharpoonup> principal" where
  "main_principals environ appPolicy producerPolicy =
     Map.empty
      (getenv environ ''SQS_GATEWAY_ADMIN_ACCESS_KEY_ID'' ''test'' \<mapsto>
         \<lparr>pr_secret = getenv environ ''SQS_GATEWAY_ADMIN_SECRET_ACCESS_KEY'' ''test'', pr_statements = [],
          pr_testQueues = True\<rparr>,
       getenv environ ''SQS_GATEWAY_TEST_APP_ACCESS_KEY_ID'' ''wager-test-app-local'' \<mapsto>
         \<lparr>pr_secret = getenv environ ''SQS_GATEWAY_TEST_APP_SECRET_ACCESS_KEY'' ''wager-test-app-local-secret'',
          pr_statements = appPolicy, pr_testQueues = True\<rparr>,
       getenv environ ''SQS_GATEWAY_APP_ACCESS_KEY_ID'' ''wager-app-local'' \<mapsto>
         \<lparr>pr_secret = getenv environ ''SQS_GATEWAY_APP_SECRET_ACCESS_KEY'' ''wager-app-local-secret'',
          pr_statements = appPolicy, pr_testQueues = False\<rparr>,
       getenv environ ''SQS_GATEWAY_PRODUCER_ACCESS_KEY_ID'' ''wager-producer-local'' \<mapsto>
         \<lparr>pr_secret = getenv environ ''SQS_GATEWAY_PRODUCER_SECRET_ACCESS_KEY'' ''wager-producer-local-secret'',
          pr_statements = producerPolicy, pr_testQueues = False\<rparr>)"


section \<open>Policies of the deployment\<close>

text \<open>The templates of \<^verbatim>\<open>deploy/aws\<close> with the region and the account filled in.\<close>

definition allow :: "string list \<Rightarrow> string \<Rightarrow> string \<Rightarrow> string \<Rightarrow> statement" where
  "allow actions region account name =
     \<lparr>st_Effect = ''Allow'', st_Action = actions,
      st_Resource = ''arn:aws:sqs:'' @ region @ '':'' @ account @ '':'' @ name\<rparr>"

definition iam_policy_app :: "string \<Rightarrow> string \<Rightarrow> statement list" where
  "iam_policy_app region account =
     [allow [''sqs:GetQueueUrl'', ''sqs:GetQueueAttributes'', ''sqs:ReceiveMessage'', ''sqs:DeleteMessage'',
        ''sqs:ChangeMessageVisibility''] region account ''wager-transactions.fifo'',
      allow [''sqs:GetQueueUrl'', ''sqs:GetQueueAttributes''] region account ''wager-transactions-dlq.fifo'',
      allow [''sqs:GetQueueUrl'', ''sqs:GetQueueAttributes'', ''sqs:SendMessage''] region account ''wager-events.fifo'']"

definition iam_policy_ingest_producer :: "string \<Rightarrow> string \<Rightarrow> statement list" where
  "iam_policy_ingest_producer region account =
     [allow [''sqs:GetQueueUrl'', ''sqs:SendMessage''] region account ''wager-transactions.fifo'']"

section \<open>Lemmas\<close>

lemma permits_action_iff [simp]: "permits_action action actions \<longleftrightarrow> action \<in> set actions"
  by (induction actions) auto

lemma permitsPolicy_iff:
  "permitsPolicy statements action resource \<longleftrightarrow>
     (\<exists>s \<in> set statements. st_Effect s = ''Allow'' \<and> st_Resource s = resource \<and> action \<in> set (st_Action s))"
  by (induction statements) auto

lemma queue_name_plain: "matches_queue_name name \<Longrightarrow> CHR '':'' \<notin> set name"
proof
  assume m: "matches_queue_name name" and c: "CHR '':'' \<in> set name"
  have "name = takeWhile queue_name_char name @ dropWhile queue_name_char name" by simp
  then have "CHR '':'' \<in> set (takeWhile queue_name_char name) \<or> CHR '':'' \<in> set (dropWhile queue_name_char name)"
    using c by (metis Un_iff set_append)
  moreover have "CHR '':'' \<notin> set (takeWhile queue_name_char name)"
    by (auto simp: queue_name_char_def is_digit_def dest!: set_takeWhileD)
  moreover have "dropWhile queue_name_char name \<in> {[], ''.fifo''}"
    using m unfolding matches_queue_name_def Let_def by blast
  then have "CHR '':'' \<notin> set (dropWhile queue_name_char name)" by (elim insertE) (simp_all del: dropWhile_eq_Nil_conv)
  ultimately show False by blast
qed

lemma suffix_field:
  assumes "c \<notin> set q" "c \<notin> set n"
  shows "suffix (c # q) (a @ c # n) \<longleftrightarrow> q = n"
proof
  assume "suffix (c # q) (a @ c # n)"
  then obtain p where "a @ c # n = p @ c # q" by (auto simp: suffix_def)
  then have "rev n @ c # rev a = rev q @ c # rev p" by (metis append.assoc append_Cons append_Nil rev.simps(2) rev_append)
  then have "takeWhile (\<lambda>x. x \<noteq> c) (rev n @ c # rev a) = takeWhile (\<lambda>x. x \<noteq> c) (rev q @ c # rev p)" by simp
  moreover have "takeWhile (\<lambda>x. x \<noteq> c) (rev z @ c # y) = rev z" if "c \<notin> set z" for z y
    using that by (subst takeWhile_append2) auto
  ultimately show "q = n" using assms by simp
qed (simp add: suffix_def)

lemma application_queues_plain: "q \<in> set application_queues \<Longrightarrow> CHR '':'' \<notin> set q"
  by (auto simp: application_queues_def)

lemma find_application_queue:
  assumes "CHR '':'' \<notin> set name"
  shows "find (\<lambda>queue. suffix ('':'' @ queue) (queue_arn g name)) application_queues =
    (if name \<in> set application_queues then Some name else None)"
proof -
  have "suffix ('':'' @ queue) (queue_arn g name) \<longleftrightarrow> queue = name" if "queue \<in> set application_queues" for queue
    using suffix_field [OF application_queues_plain [OF that] assms, of "''arn:aws:sqs:'' @ gw_region g @ '':'' @ gw_account g"]
    by (simp add: queue_arn_def)
  then have "find (\<lambda>queue. suffix ('':'' @ queue) (queue_arn g name)) application_queues = find (\<lambda>queue. queue = name) application_queues"
    by (simp cong: find_cong)
  also have "\<dots> = (if name \<in> set application_queues then Some name else None)"
    by (auto simp: find_None_iff find_Some_iff application_queues_def)
  finally show ?thesis .
qed

text \<open>What a principal of the process may do, by the queue.\<close>

lemma permits_queue:
  assumes "CHR '':'' \<notin> set name"
  shows "permits p action (queue_arn g name) \<longleftrightarrow>
    (if pr_testQueues p \<and> name \<notin> set application_queues then prefix ''sqs:'' action \<and> queue_arn g name \<noteq> ''*''
     else if pr_testQueues p \<and> name = ''wager-transactions.fifo'' then False
     else permitsPolicy (pr_statements p) action (queue_arn g name))"
  using find_application_queue [OF assms, of g] by (auto simp: permits_def)

lemma gateway_operation_queue:
  assumes "gateway_operation g r body = Inr (action, resource)"
  obtains name where "resource = queue_arn g name" "matches_queue_name name" "length name \<le> 80" "prefix ''sqs:'' action"
  using assms by (auto simp: gateway_operation_def and_then_eq_Inr split: if_splits prod.splits)

lemma Forwarded_cases:
  assumes "gateway_ServeHTTP g r = Forwarded body"
  obtains p action resource where "qr_method r = ''POST''" "body = qr_body r" "length body \<le> maxRequestBody"
    "gateway_authenticate g r body = Some p" "gateway_operation g r body = Inr (action, resource)" "permits p action resource"
  using assms
  by (auto simp: gateway_ServeHTTP_def Let_def split: if_splits option.splits sum.splits prod.splits)


text \<open>The signature of a request by a principal: what the signer computes for it is the header it came with.\<close>

definition signed_by :: "gateway \<Rightarrow> queue_request \<Rightarrow> string \<Rightarrow> string \<Rightarrow> principal \<Rightarrow> bool" where
  "signed_by g r body key p \<longleftrightarrow>
     (\<exists>parts date signedAt clone.
        parse_authorization (header_Get r ''authorization'') = Some parts \<and> au_key parts = key \<and> au_region parts = gw_region g \<and>
        parse_amz_date (header_Get r ''x-amz-date'') = Some (date, signedAt) \<and> au_date parts = date \<and>
        gw_now g 0 - 5 * time_minute \<le> signedAt \<and> signedAt \<le> gw_now g 1 + 5 * time_minute \<and>
        sg_method clone = qr_method r \<and> sg_host clone = qr_host r \<and> sg_path clone = qr_path r \<and>
        signs (au_headers parts) ''host'' \<and> signs (au_headers parts) ''x-amz-date'' \<and>
        (header_Get r ''x-amz-target'' \<noteq> [] \<longrightarrow> signs (au_headers parts) ''x-amz-target'') \<and>
        signed_values r (strings_Split CHR '';'' (au_headers parts)) = Some (sg_headers clone) \<and>
        gw_sign g key (pr_secret p) clone (hex_text (gw_sha256 g body)) (gw_region g) signedAt =
          Inr (header_Get r ''authorization''))"

lemma verify_signature_True:
  assumes "verify_signature g r body parts p signedAt"
  obtains headers where "signed_values r (strings_Split CHR '';'' (au_headers parts)) = Some headers"
    "gw_sign g (au_key parts) (pr_secret p) (signed_clone r parts headers) (hex_text (gw_sha256 g body)) (gw_region g) signedAt =
      Inr (header_Get r ''authorization'')"
  using assms by (auto simp: verify_signature_def Let_def split: option.splits if_splits)

lemma verify_request_True:
  assumes "verify_request g r body parts p"
  obtains date signedAt where "parse_amz_date (header_Get r ''x-amz-date'') = Some (date, signedAt)" "au_date parts = date"
    "gw_now g 0 - 5 * time_minute \<le> signedAt" "signedAt \<le> gw_now g 1 + 5 * time_minute"
    "signs (au_headers parts) ''host''" "signs (au_headers parts) ''x-amz-date''"
    "header_Get r ''x-amz-target'' \<noteq> [] \<longrightarrow> signs (au_headers parts) ''x-amz-target''"
    "verify_signature g r body parts p signedAt"
  using assms by (auto simp: verify_request_def split: option.splits prod.splits if_splits)

lemma gateway_authenticate_Some:
  assumes "gateway_authenticate g r body = Some p"
  obtains key where "gw_principals g key = Some p" "pr_secret p \<noteq> []" "signed_by g r body key p"
proof -
  from assms obtain parts where
    parts: "parse_authorization (header_Get r ''authorization'') = Some parts" "au_region parts = gw_region g"
      "gw_principals g (au_key parts) = Some p" "pr_secret p \<noteq> []" and v: "verify_request g r body parts p"
    by (auto simp: gateway_authenticate_def split: option.splits if_splits)
  from v show thesis
  proof (rule verify_request_True)
    fix date signedAt
    assume d: "parse_amz_date (header_Get r ''x-amz-date'') = Some (date, signedAt)" "au_date parts = date"
      "gw_now g 0 - 5 * time_minute \<le> signedAt" "signedAt \<le> gw_now g 1 + 5 * time_minute"
      and hs: "signs (au_headers parts) ''host''" "signs (au_headers parts) ''x-amz-date''"
        "header_Get r ''x-amz-target'' \<noteq> [] \<longrightarrow> signs (au_headers parts) ''x-amz-target''"
      and "verify_signature g r body parts p signedAt"
    from this(8) obtain headers where "signed_values r (strings_Split CHR '';'' (au_headers parts)) = Some headers"
      "gw_sign g (au_key parts) (pr_secret p) (signed_clone r parts headers) (hex_text (gw_sha256 g body)) (gw_region g) signedAt =
        Inr (header_Get r ''authorization'')"
      by (rule verify_signature_True)
    moreover have "sg_method (signed_clone r parts headers) = qr_method r" "sg_host (signed_clone r parts headers) = qr_host r"
      "sg_path (signed_clone r parts headers) = qr_path r" "sg_headers (signed_clone r parts headers) = headers"
      by (simp_all add: signed_clone_def)
    ultimately have "signed_by g r body (au_key parts) p" unfolding signed_by_def using parts d hs by metis
    with parts show thesis using that by blast
  qed
qed

text \<open>The policies of the deployment, queue by queue.\<close>

lemma allow_applies:
  "st_Effect (allow actions (gw_region g) (gw_account g) q) = ''Allow''"
  "st_Action (allow actions (gw_region g) (gw_account g) q) = actions"
  "st_Resource (allow actions (gw_region g) (gw_account g) q) = queue_arn g name \<longleftrightarrow> name = q"
  by (auto simp: allow_def queue_arn_def)

lemma permitsPolicy_app:
  "permitsPolicy (iam_policy_app (gw_region g) (gw_account g)) action (queue_arn g name) \<longleftrightarrow>
     name = ''wager-transactions.fifo'' \<and> action \<in> {''sqs:GetQueueUrl'', ''sqs:GetQueueAttributes'', ''sqs:ReceiveMessage'',
       ''sqs:DeleteMessage'', ''sqs:ChangeMessageVisibility''} \<or>
     name = ''wager-transactions-dlq.fifo'' \<and> action \<in> {''sqs:GetQueueUrl'', ''sqs:GetQueueAttributes''} \<or>
     name = ''wager-events.fifo'' \<and> action \<in> {''sqs:GetQueueUrl'', ''sqs:GetQueueAttributes'', ''sqs:SendMessage''}"
  unfolding permitsPolicy_iff iam_policy_app_def by (simp add: allow_applies)

lemma permitsPolicy_producer:
  "permitsPolicy (iam_policy_ingest_producer (gw_region g) (gw_account g)) action (queue_arn g name) \<longleftrightarrow>
     name = ''wager-transactions.fifo'' \<and> action \<in> {''sqs:GetQueueUrl'', ''sqs:SendMessage''}"
  unfolding permitsPolicy_iff iam_policy_ingest_producer_def by (simp add: allow_applies)

text \<open>The principals of the process, by their keys.\<close>

lemma main_principals_cases:
  assumes "main_principals environ appPolicy producerPolicy key = Some p"
  obtains (producer) "key = getenv environ ''SQS_GATEWAY_PRODUCER_ACCESS_KEY_ID'' ''wager-producer-local''"
      "\<not> pr_testQueues p" "pr_statements p = producerPolicy"
    | (app) "key = getenv environ ''SQS_GATEWAY_APP_ACCESS_KEY_ID'' ''wager-app-local''"
      "\<not> pr_testQueues p" "pr_statements p = appPolicy"
    | (test_app) "key = getenv environ ''SQS_GATEWAY_TEST_APP_ACCESS_KEY_ID'' ''wager-test-app-local''"
      "pr_testQueues p" "pr_statements p = appPolicy"
    | (admin) "pr_testQueues p" "pr_statements p = []"
  using assms by (auto simp: main_principals_def split: if_splits)

section \<open>An example\<close>

definition ex_authorization :: string where
  "ex_authorization = ''AWS4-HMAC-SHA256 Credential=wager-producer-local/20240229/us-east-1/sqs/aws4_request, '' @
     ''SignedHeaders=host;x-amz-date;x-amz-target, Signature='' @ replicate 64 CHR ''0''"

definition ex_gateway :: gateway where
  "ex_gateway =
     \<lparr>gw_principals = main_principals (\<lambda>_. []) (iam_policy_app ''us-east-1'' ''000000000000'')
        (iam_policy_ingest_producer ''us-east-1'' ''000000000000''),
      gw_region = ''us-east-1'', gw_account = ''000000000000'', gw_now = (\<lambda>n. 63844761600 * time_second + int n),
      gw_sign = (\<lambda>key secret clone hash region t.
        if secret = ''wager-producer-local-secret'' then Inr ex_authorization else Inl (Opaque ''signature'')),
      gw_sha256 = (\<lambda>_. []), gw_json_fields = (\<lambda>_. Some [(''QueueUrl'', Some ''u'')]),
      gw_url_parse = (\<lambda>_. Some \<lparr>pu_scheme = ''http'', pu_host = ''sqs-gateway:4566'', pu_has_user = False,
        pu_path = ''/000000000000/wager-transactions.fifo'', pu_escaped_path = ''/000000000000/wager-transactions.fifo'',
        pu_raw_query = [], pu_force_query = False, pu_fragment = [], pu_opaque = []\<rparr>)\<rparr>"

definition ex_send :: queue_request where
  "ex_send =
     \<lparr>qr_method = ''POST'', qr_path = ''/'', qr_escaped_path = ''/'', qr_raw_query = [], qr_force_query = False,
      qr_host = ''sqs-gateway:4566'',
      qr_headers = (\<lambda>name. if name = ''authorization'' then [ex_authorization]
        else if name = ''x-amz-date'' then [''20240229T000100Z'']
        else if name = ''x-amz-target'' then [''AmazonSQS.SendMessage''] else []),
      qr_content_length = 2, qr_body = ''{}'', qr_body_error = None\<rparr>"

definition ex_parts :: authorization where
  "ex_parts = \<lparr>au_key = ''wager-producer-local'', au_date = ''20240229'', au_region = ''us-east-1'',
     au_headers = ''host;x-amz-date;x-amz-target'', au_signature = replicate 64 CHR ''0''\<rparr>"

lemma ex_parse_authorization: "parse_authorization ex_authorization = Some ex_parts"
  by (simp add: parse_authorization_def ex_authorization_def strip_def credential_char_def signed_header_char_def is_digit_def
      is_lower_hex_def is_hex_char_def is_upper_ascii_def ex_parts_def Let_def list_all_iff)

lemma ex_parse_date: "parse_amz_date ''20240229T000100Z'' = Some (''20240229'', 63844761660 * time_second)"
  by (simp add: parse_amz_date_def is_digit_def dec_val_def digit_val_def days_in_def days_of_date_def Let_def numeral_eq_Suc)


lemma ex_fold: "\<not> equal_fold ''QueueUrl'' ''QueueName''" "\<not> equal_fold ''QueueUrl'' ''QueueOwnerAWSAccountId''"
proof -
  have l: "length (fold_runes ''QueueUrl'') = 8" "length (fold_runes ''QueueName'') = 9"
    "length (fold_runes ''QueueOwnerAWSAccountId'') = 22"
    by (simp_all add: fold_runes_length)
  show "\<not> equal_fold ''QueueUrl'' ''QueueName''" "\<not> equal_fold ''QueueUrl'' ''QueueOwnerAWSAccountId''"
    unfolding equal_fold_def using l by (metis numeral_eq_iff semiring_norm)+
qed

lemma ex_send_operation:
  "gateway_operation ex_gateway ex_send ''{}'' = Inr (''sqs:SendMessage'', queue_arn ex_gateway ''wager-transactions.fifo'')"
proof -
  have t: "header_Get ex_send ''x-amz-target'' = ''AmazonSQS.SendMessage''" "qr_headers ex_send ''x-amz-target'' = [''AmazonSQS.SendMessage'']"
    by (simp_all add: ex_send_def header_Get_def)
  have f: "gw_json_fields ex_gateway ''{}'' = Some [(''QueueUrl'', Some ''u'')]" by (simp add: ex_gateway_def)
  have "jsonIdentifiers ex_gateway ''{}'' = Inr [(''QueueUrl'', ''u'')]"
    by (simp add: jsonIdentifiers_def f identifier_names_def ex_fold)
  then have i: "request_identifiers ex_gateway ex_send ''{}'' = Inr (''SendMessage'', [(''QueueUrl'', ''u'')])"
    by (simp add: request_identifiers_def t)
  have "queueNameFromURL ex_gateway ''u'' = Inr ''wager-transactions.fifo''"
    by (simp add: queueNameFromURL_def ex_gateway_def Let_def)
  then have n: "queue_name ex_gateway ''SendMessage'' [(''QueueUrl'', ''u'')] = Inr ''wager-transactions.fifo''"
    by (simp add: queue_name_def get_value_def)
  have m: "matches_queue_name ''wager-transactions.fifo''"
    by (simp add: matches_queue_name_def queue_name_char_def is_digit_def Let_def)
  have "qr_escaped_path ex_send = ''/''" "qr_raw_query ex_send = []" "\<not> qr_force_query ex_send" by (simp_all add: ex_send_def)
  then show ?thesis by (simp add: gateway_operation_def t i n m get_value_def)
qed

lemma ex_send_authenticated:
  "gateway_authenticate ex_gateway ex_send ''{}'' =
    Some \<lparr>pr_secret = ''wager-producer-local-secret'', pr_statements = iam_policy_ingest_producer ''us-east-1'' ''000000000000'',
      pr_testQueues = False\<rparr>"
proof -
  have h: "header_Get ex_send ''authorization'' = ex_authorization" "header_Get ex_send ''x-amz-date'' = ''20240229T000100Z''"
    "header_Get ex_send ''x-amz-target'' = ''AmazonSQS.SendMessage''" "header_Get ex_send ''x-amz-security-token'' = []"
    "header_Get ex_send ''x-amz-content-sha256'' = []" by (simp_all add: ex_send_def header_Get_def)
  have s: "signs (au_headers ex_parts) ''host''" "signs (au_headers ex_parts) ''x-amz-date''" "signs (au_headers ex_parts) ''x-amz-target''"
    by (simp_all add: signs_def ex_parts_def sublist_Cons_right)
  have "signed_values ex_send (strings_Split CHR '';'' (au_headers ex_parts)) =
      Some [(''x-amz-date'', [''20240229T000100Z'']), (''x-amz-target'', [''AmazonSQS.SendMessage''])]"
    by (simp add: ex_parts_def ex_send_def)
  then have "verify_signature ex_gateway ex_send ''{}'' ex_parts p (63844761660 * time_second)"
    if "pr_secret p = ''wager-producer-local-secret''" for p
    using that by (simp add: verify_signature_def h Let_def) (simp add: ex_gateway_def)
  then have "verify_request ex_gateway ex_send ''{}'' ex_parts p" if "pr_secret p = ''wager-producer-local-secret''" for p
    using that s by (simp add: verify_request_def h ex_parse_date) (simp add: ex_parts_def ex_gateway_def time_minute_def time_second_def)
  then show ?thesis
    by (simp add: gateway_authenticate_def h ex_parse_authorization) (simp add: ex_parts_def ex_gateway_def main_principals_def getenv_def)
qed

lemma ex_send_forwarded: "gateway_ServeHTTP ex_gateway ex_send = Forwarded ''{}''"
proof -
  have "permitsPolicy (iam_policy_ingest_producer ''us-east-1'' ''000000000000'') ''sqs:SendMessage''
      (queue_arn ex_gateway ''wager-transactions.fifo'')"
    by (simp add: permitsPolicy_iff iam_policy_ingest_producer_def allow_def queue_arn_def ex_gateway_def)
  moreover have "qr_method ex_send = ''POST''" "qr_body ex_send = ''{}''" "qr_body_error ex_send = None"
    by (simp_all add: ex_send_def)
  ultimately show ?thesis
    using ex_send_authenticated ex_send_operation
    by (simp add: gateway_ServeHTTP_def maxRequestBody_def permits_def)
qed

section \<open>Properties\<close>

text \<open>
  Property C22. The gateway passes a request on only for a known principal with a secret who signed it:
  the signer, given that principal's secret, the method, host, path and signed headers of the request,
  the hash of exactly the body that is passed on and the time in its date header, at most five
  minutes away from the gateway's clock, computes the authorization header the request came with;
  host, date and target, when there is one, are among the signed headers. The principal is permitted
  the action on the one queue of the gateway's account the request names: by a statement of its policy
  or, if it may use the test queues and the queue is none of the application's, by its being an action of
  SQS. Everything else is denied.
\<close>

theorem gateway_forwards_authorised:
  assumes "gateway_ServeHTTP g r = Forwarded body"
  shows "body = qr_body r \<and> length body \<le> maxRequestBody \<and>
    (\<exists>key p action name. gw_principals g key = Some p \<and> pr_secret p \<noteq> [] \<and> signed_by g r body key p \<and>
       gateway_operation g r body = Inr (action, queue_arn g name) \<and> matches_queue_name name \<and>
       permits p action (queue_arn g name))"
proof -
  from assms obtain p action resource where f: "body = qr_body r" "length body \<le> maxRequestBody"
    "gateway_authenticate g r body = Some p" "gateway_operation g r body = Inr (action, resource)" "permits p action resource"
    by (rule Forwarded_cases)
  from f(3) obtain key where "gw_principals g key = Some p" "pr_secret p \<noteq> []" "signed_by g r body key p"
    by (rule gateway_authenticate_Some)
  moreover from f(4) obtain name where "resource = queue_arn g name" "matches_queue_name name"
    by (rule gateway_operation_queue)
  ultimately show ?thesis using f by blast
qed

theorem gateway_forwards_authorised_witness:
  "\<exists>key p action name. gw_principals ex_gateway key = Some p \<and> pr_secret p \<noteq> [] \<and>
    signed_by ex_gateway ex_send ''{}'' key p \<and>
    gateway_operation ex_gateway ex_send ''{}'' = Inr (action, queue_arn ex_gateway name) \<and>
    permits p action (queue_arn ex_gateway name)"
  using gateway_forwards_authorised [OF ex_send_forwarded] by blast

text \<open>
  Property C23. With the policies of the deployment and the principals of the process, the queues of
  the application are reachable only as documented: the input queue by the application, to receive
  and acknowledge, and by the producer, to send; the dead-letter and the event queue by the
  application, and by its test identity under the same policy. The administrator of the test queues
  reaches none of the three, and nobody can create or delete them, whatever keys are configured.
\<close>

theorem application_queues_protected:
  assumes "gw_principals g = main_principals environ (iam_policy_app (gw_region g) (gw_account g))
      (iam_policy_ingest_producer (gw_region g) (gw_account g))"
    and "gateway_ServeHTTP g r = Forwarded body" and "gateway_operation g r body = Inr (action, queue_arn g name)"
    and "name \<in> set application_queues"
  shows "\<exists>key p. signed_by g r body key p \<and> gw_principals g key = Some p \<and>
    (key = getenv environ ''SQS_GATEWAY_PRODUCER_ACCESS_KEY_ID'' ''wager-producer-local'' \<and>
       name = ''wager-transactions.fifo'' \<and> action \<in> {''sqs:GetQueueUrl'', ''sqs:SendMessage''} \<or>
     key = getenv environ ''SQS_GATEWAY_APP_ACCESS_KEY_ID'' ''wager-app-local'' \<and>
       name = ''wager-transactions.fifo'' \<and> action \<in> {''sqs:GetQueueUrl'', ''sqs:GetQueueAttributes'', ''sqs:ReceiveMessage'',
         ''sqs:DeleteMessage'', ''sqs:ChangeMessageVisibility''} \<or>
     key \<in> {getenv environ ''SQS_GATEWAY_APP_ACCESS_KEY_ID'' ''wager-app-local'',
         getenv environ ''SQS_GATEWAY_TEST_APP_ACCESS_KEY_ID'' ''wager-test-app-local''} \<and>
       (name = ''wager-transactions-dlq.fifo'' \<and> action \<in> {''sqs:GetQueueUrl'', ''sqs:GetQueueAttributes''} \<or>
        name = ''wager-events.fifo'' \<and> action \<in> {''sqs:GetQueueUrl'', ''sqs:GetQueueAttributes'', ''sqs:SendMessage''}))"
proof -
  from assms(2) obtain p where p: "gateway_authenticate g r body = Some p" "permits p action (queue_arn g name)"
    by (rule Forwarded_cases) (use assms(3) in simp)
  from p(1) obtain key where key: "gw_principals g key = Some p" "signed_by g r body key p"
    by (rule gateway_authenticate_Some)
  have plain: "CHR '':'' \<notin> set name" using assms(4) by (rule application_queues_plain)
  have perm: "permitsPolicy (pr_statements p) action (queue_arn g name)" "\<not> (pr_testQueues p \<and> name = ''wager-transactions.fifo'')"
    using p(2) assms(4) unfolding permits_queue [OF plain] by (simp_all split: if_splits)
  from key(1) [unfolded assms(1)] show ?thesis
  proof (cases rule: main_principals_cases)
    case producer
    then show ?thesis using perm(1) key unfolding producer(3) permitsPolicy_producer by blast
  next
    case app
    then show ?thesis using perm(1) key unfolding app(3) permitsPolicy_app
      by (elim disjE) (rule exI [of _ key], rule exI [of _ p], simp)+
  next
    case test_app
    then show ?thesis using perm key unfolding test_app(3) permitsPolicy_app
      by (elim disjE) (simp, (rule exI [of _ key], rule exI [of _ p], simp)+)
  next
    case admin
    then show ?thesis using perm(1) by simp
  qed
qed

theorem application_queues_protected_witness:
  "\<exists>key p. signed_by ex_gateway ex_send ''{}'' key p \<and> gw_principals ex_gateway key = Some p \<and> key = ''wager-producer-local''"
proof -
  have "gw_principals ex_gateway = main_principals (\<lambda>_. []) (iam_policy_app (gw_region ex_gateway) (gw_account ex_gateway))
      (iam_policy_ingest_producer (gw_region ex_gateway) (gw_account ex_gateway))" by (simp add: ex_gateway_def)
  from application_queues_protected [OF this ex_send_forwarded ex_send_operation] show ?thesis
    by (auto simp: application_queues_def getenv_def)
qed

end
