(* ===== verification/Instrumentation.thy ===== *)
theory Instrumentation
  imports Http Consumer
begin

text \<open>
  What the program counts and whether it is ready: \<^verbatim>\<open>internal/platform/metrics/metrics.go\<close>, the
  readiness flag of \<^verbatim>\<open>internal/platform/health/status.go\<close> and the server that sets it,
  \<^verbatim>\<open>internal/adapters/http/server.go\<close>. A vector of the Prometheus library is a map from its label
  values to a count or to the values observed; the collectors of the Go runtime, help texts and
  buckets are left out. The type of the floating point numbers and the conversions into it are
  parameters.
\<close>

section \<open>Vectors\<close>

type_synonym counter_vec = "string list \<Rightarrow> nat option"
type_synonym 'f histogram_vec = "string list \<Rightarrow> 'f list option"

text \<open>\<^verbatim>\<open>WithLabelValues\<close> creates a series; \<^verbatim>\<open>Inc\<close> and \<^verbatim>\<open>Observe\<close> are applied to it.\<close>

definition with_labels :: "'a \<Rightarrow> string list \<Rightarrow> (string list \<Rightarrow> 'a option) \<Rightarrow> string list \<Rightarrow> 'a option" where
  "with_labels zero ls v = (if v ls = None then v(ls \<mapsto> zero) else v)"

definition value_at :: "'a \<Rightarrow> string list \<Rightarrow> (string list \<Rightarrow> 'a option) \<Rightarrow> 'a" where
  "value_at zero ls v = (case v ls of None \<Rightarrow> zero | Some x \<Rightarrow> x)"

definition inc :: "string list \<Rightarrow> counter_vec \<Rightarrow> counter_vec" where
  "inc ls v = v(ls \<mapsto> Suc (value_at 0 ls v))"

definition observe :: "string list \<Rightarrow> 'f \<Rightarrow> 'f histogram_vec \<Rightarrow> 'f histogram_vec" where
  "observe ls x v = v(ls \<mapsto> value_at [] ls v @ [x])"

definition bounded :: "string \<Rightarrow> string list \<Rightarrow> string" where
  "bounded v allowed = (if v \<in> set allowed then v else ''other'')"

section \<open>The metrics\<close>

record 'f metrics =
  m_sqsReceived :: counter_vec
  m_sqsProcessed :: counter_vec
  m_sqsProcessing :: "'f histogram_vec"
  m_reconciliation :: counter_vec
  m_wagers :: counter_vec
  m_wagerDuration :: "'f histogram_vec"
  m_wagerReplays :: counter_vec
  m_wagerFailures :: counter_vec
  m_references :: counter_vec
  m_outboxAttempts :: counter_vec
  m_outboxPending :: 'f
  m_outboxAge :: 'f
  m_dependencies :: counter_vec
  m_shutdown :: "'f histogram_vec"
  m_dlqDepth :: 'f

text \<open>\<^verbatim>\<open>float64(n)\<close> and \<^verbatim>\<open>Duration.Seconds\<close>.\<close>

record 'f floats =
  fl_of_int64 :: "int \<Rightarrow> 'f"
  fl_Seconds :: "duration \<Rightarrow> 'f"

text \<open>The label values the code accepts.\<close>

definition reconciliation_results :: "string list" where
  "reconciliation_results = [''consistent'', ''mismatch'', ''overflow'', ''error'']"

definition wager_sources :: "string list" where
  "wager_sources = [''http'', ''sqs'', ''internal'']"

definition wager_kinds :: "string list" where
  "wager_kinds = [''OPENING'', ''BET'', ''WIN'', ''LOSS'', ''REFUND'', ''ROLLBACK'']"

definition wager_statuses :: "string list" where
  "wager_statuses = [''PROCESSED'', ''REJECTED'', ''PENDING_REFERENCE'', ''FAILED'']"

definition rejection_codes :: "string list" where
  "rejection_codes =
     [''BET_INSUFFICIENT_FUNDS'', ''REVERSAL_INSUFFICIENT_FUNDS'', ''MONEY_OVERFLOW'',
      ''REFERENCE_NOT_FOUND'', ''REFERENCE_NOT_PROCESSED'', ''REFERENCE_MISMATCH'',
      ''REFERENCE_TYPE_NOT_ALLOWED'', ''INVALID_OPERATION_AMOUNT'', ''ALREADY_REVERSED'',
      ''CURRENCY_MISMATCH'', ''WALLET_PLAYER_MISMATCH'', ''INVALID_REFERENCE'',
      ''INFRASTRUCTURE_PERMANENT_FAILURE'']"

definition error_codes :: "string list" where
  "error_codes =
     [''idempotency_conflict'', ''external_id_conflict'', ''message_conflict'',
      ''concurrent_write'', ''invalid'', ''error'']"

definition reference_results :: "string list" where
  "reference_results = [''completed'', ''rescheduled'', ''stale'', ''error'']"

definition outbox_results :: "string list" where
  "outbox_results = [''published'', ''republished'', ''retry'', ''error'']"

definition dependency_names :: "string list" where
  "dependency_names = [''postgres'', ''oidc'', ''sqs'', ''outbox_queue'']"

definition shutdown_components :: "string list" where
  "shutdown_components = [''http'', ''sqs'', ''outbox'', ''reference'']"

text \<open>A vector with a series for each of the given label values.\<close>

definition preset :: "'a \<Rightarrow> string list list \<Rightarrow> string list \<Rightarrow> 'a option" where
  "preset zero lss = fold (with_labels zero) lss (\<lambda>_. None)"

definition metrics_New :: "'f floats \<Rightarrow> 'f metrics" where
  "metrics_New fl =
     \<lparr>m_sqsReceived = preset 0 (map (\<lambda>l. [l]) [''first'', ''redelivery'']),
      m_sqsProcessed = preset 0 (map (\<lambda>l. [l]) sqs_results),
      m_sqsProcessing = preset [] (map (\<lambda>l. [l]) sqs_results),
      m_reconciliation = preset 0 (map (\<lambda>l. [l]) reconciliation_results),
      m_wagers = (\<lambda>_. None),
      m_wagerDuration = preset [] (concat (map (\<lambda>s. map (\<lambda>t. [s, t]) wager_statuses) wager_sources)),
      m_wagerReplays = preset 0 (map (\<lambda>l. [l]) wager_sources),
      m_wagerFailures = (\<lambda>_. None),
      m_references = preset 0 (map (\<lambda>l. [l]) reference_results),
      m_outboxAttempts = preset 0 (map (\<lambda>l. [l]) outbox_results),
      m_outboxPending = fl_of_int64 fl 0,
      m_outboxAge = fl_of_int64 fl 0,
      m_dependencies = preset 0 (map (\<lambda>l. [l]) dependency_names),
      m_shutdown = (\<lambda>_. None),
      m_dlqDepth = fl_of_int64 fl 0\<rparr>"

definition SetDLQDepth :: "'f floats \<Rightarrow> int \<Rightarrow> 'f metrics \<Rightarrow> 'f metrics" where
  "SetDLQDepth fl count m = m\<lparr>m_dlqDepth := fl_of_int64 fl count\<rparr>"

definition RecordWager ::
  "'f floats \<Rightarrow> string \<Rightarrow> string \<Rightarrow> string \<Rightarrow> string \<Rightarrow> bool \<Rightarrow> duration \<Rightarrow> 'f metrics \<Rightarrow> 'f metrics" where
  "RecordWager fl source kind status failure replay elapsed m =
     (let source = bounded source wager_sources;
          kind = bounded kind wager_kinds;
          status = bounded status wager_statuses;
          m = m\<lparr>m_wagerDuration := observe [source, status] (fl_Seconds fl elapsed) (m_wagerDuration m)\<rparr>
      in if replay then m\<lparr>m_wagerReplays := inc [source] (m_wagerReplays m)\<rparr>
         else let m = m\<lparr>m_wagers := inc [source, kind, status] (m_wagers m)\<rparr>
              in if status = ''REJECTED'' \<and> failure \<noteq> []
                 then m\<lparr>m_wagerFailures := inc [source, bounded failure rejection_codes] (m_wagerFailures m)\<rparr>
                 else m)"

definition RecordWagerError :: "string \<Rightarrow> string \<Rightarrow> 'f metrics \<Rightarrow> 'f metrics" where
  "RecordWagerError source c m =
     m\<lparr>m_wagerFailures := inc [bounded source [''http'', ''sqs''], bounded c error_codes] (m_wagerFailures m)\<rparr>"

definition RecordReferenceAttempt :: "string \<Rightarrow> 'f metrics \<Rightarrow> 'f metrics" where
  "RecordReferenceAttempt r m = m\<lparr>m_references := inc [bounded r reference_results] (m_references m)\<rparr>"

definition RecordOutboxAttempt :: "string \<Rightarrow> 'f metrics \<Rightarrow> 'f metrics" where
  "RecordOutboxAttempt r m = m\<lparr>m_outboxAttempts := inc [bounded r outbox_results] (m_outboxAttempts m)\<rparr>"

definition SetOutboxBacklog :: "'f floats \<Rightarrow> int \<Rightarrow> 'f \<Rightarrow> 'f metrics \<Rightarrow> 'f metrics" where
  "SetOutboxBacklog fl pending age m = m\<lparr>m_outboxPending := fl_of_int64 fl pending, m_outboxAge := age\<rparr>"

definition RecordDependencyFailure :: "string \<Rightarrow> 'f metrics \<Rightarrow> 'f metrics" where
  "RecordDependencyFailure d m = m\<lparr>m_dependencies := inc [bounded d dependency_names] (m_dependencies m)\<rparr>"

definition ObserveShutdown :: "'f floats \<Rightarrow> string \<Rightarrow> duration \<Rightarrow> 'f metrics \<Rightarrow> 'f metrics" where
  "ObserveShutdown fl c elapsed m =
     m\<lparr>m_shutdown := observe [bounded c shutdown_components] (fl_Seconds fl elapsed) (m_shutdown m)\<rparr>"

definition RecordReconciliation :: "string \<Rightarrow> 'f metrics \<Rightarrow> 'f metrics" where
  "RecordReconciliation r m =
     (if r \<in> set reconciliation_results then m\<lparr>m_reconciliation := inc [r] (m_reconciliation m)\<rparr> else m)"

definition RecordSQSReceived :: "int \<Rightarrow> 'f metrics \<Rightarrow> 'f metrics" where
  "RecordSQSReceived receiveCount m =
     m\<lparr>m_sqsReceived := inc [if receiveCount > 1 then ''redelivery'' else ''first''] (m_sqsReceived m)\<rparr>"

definition ObserveSQSProcessing :: "'f floats \<Rightarrow> sqs_result \<Rightarrow> duration \<Rightarrow> 'f metrics \<Rightarrow> 'f metrics" where
  "ObserveSQSProcessing fl r elapsed m =
     m\<lparr>m_sqsProcessed := inc [r] (m_sqsProcessed m),
       m_sqsProcessing := observe [r] (fl_Seconds fl elapsed) (m_sqsProcessing m)\<rparr>"

text \<open>
  What calls in any order can make of the metrics. All methods but one are called with any arguments.
  \<^verbatim>\<open>ObserveSQSProcessing\<close> takes its label unchecked; it is called with the result of handling some
  message, as the deferred call in \<^verbatim>\<open>Consumer.handle\<close>, its only caller, does.
\<close>

inductive counted :: "'f floats \<Rightarrow> 'f metrics \<Rightarrow> bool" for fl where
  "counted fl (metrics_New fl)"
| "counted fl m \<Longrightarrow> counted fl (SetDLQDepth fl n m)"
| "counted fl m \<Longrightarrow> counted fl (RecordWager fl source kind status failure replay elapsed m)"
| "counted fl m \<Longrightarrow> counted fl (RecordWagerError source c m)"
| "counted fl m \<Longrightarrow> counted fl (RecordReferenceAttempt r m)"
| "counted fl m \<Longrightarrow> counted fl (RecordOutboxAttempt r m)"
| "counted fl m \<Longrightarrow> counted fl (SetOutboxBacklog fl n age m)"
| "counted fl m \<Longrightarrow> counted fl (RecordDependencyFailure d m)"
| "counted fl m \<Longrightarrow> counted fl (ObserveShutdown fl c elapsed m)"
| "counted fl m \<Longrightarrow> counted fl (RecordReconciliation r m)"
| "counted fl m \<Longrightarrow> counted fl (RecordSQSReceived n m)"
| "counted fl m \<Longrightarrow> fst (handle env cl decode consumer queueURL received s) = Inr res \<Longrightarrow>
     counted fl (ObserveSQSProcessing fl res elapsed m)"

section \<open>Series\<close>

text \<open>Every series of a vector has label values from the given lists.\<close>

definition label_ok :: "string list list \<Rightarrow> string list \<Rightarrow> bool" where
  "label_ok lss ls \<longleftrightarrow> list_all2 (\<lambda>l allowed. l \<in> set allowed) ls lss"

lemma label_ok_simps [simp]:
  "label_ok [] []" "label_ok (xs # lss) (l # ls) \<longleftrightarrow> l \<in> set xs \<and> label_ok lss ls"
  by (simp_all add: label_ok_def)

definition labelled :: "string list list \<Rightarrow> (string list \<Rightarrow> 'a option) \<Rightarrow> bool" where
  "labelled lss v \<longleftrightarrow> (\<forall>ls \<in> dom v. label_ok lss ls)"

lemma labelled_none [simp]: "labelled lss (\<lambda>_. None)"
  by (simp add: labelled_def)

lemma labelled_inc [simp]: "labelled lss v \<Longrightarrow> labelled lss (inc ls v) \<longleftrightarrow> label_ok lss ls"
  by (auto simp: labelled_def inc_def)

lemma labelled_observe [simp]: "labelled lss v \<Longrightarrow> labelled lss (observe ls x v) \<longleftrightarrow> label_ok lss ls"
  by (auto simp: labelled_def observe_def)

lemma dom_preset: "dom (preset zero lss) = set lss"
proof -
  have "dom (fold (with_labels zero) lss v) = set lss \<union> dom v" for v
    by (induction lss arbitrary: v) (auto simp: with_labels_def dom_def split: if_splits)
  then show ?thesis by (simp add: preset_def)
qed

lemma labelled_product: "labelled lss v \<Longrightarrow> dom v \<subseteq> set (product_lists lss)"
  by (auto simp: labelled_def label_ok_def product_lists_set)

definition or_other :: "string list \<Rightarrow> string list" where
  "or_other allowed = allowed @ [''other'']"

lemma bounded_in [simp]:
  "bounded v allowed \<in> set (or_other allowed)"
  "bounded v allowed \<in> set (or_other (allowed @ extra))"
  "bounded v allowed \<in> set (or_other (extra @ allowed))"
  by (simp_all add: bounded_def or_other_def)

text \<open>How many values a histogram has seen, and the sum of a counter's series.\<close>

definition sum_series :: "('a \<Rightarrow> nat) \<Rightarrow> (string list \<Rightarrow> 'a option) \<Rightarrow> nat" where
  "sum_series f v = (\<Sum>ls \<in> dom v. f (the (v ls)))"

lemma finite_dom_labelled: "labelled lss v \<Longrightarrow> finite (dom v)"
  using labelled_product finite_set finite_subset by metis

lemma sum_series_update:
  assumes "finite (dom v)" and "f zero = 0"
  shows "sum_series f (v(ls \<mapsto> x)) + f (value_at zero ls v) = sum_series f v + f x"
proof -
  have s: "(\<Sum>k \<in> dom v - {ls}. f (the ((v(ls \<mapsto> x)) k))) = (\<Sum>k \<in> dom v - {ls}. f (the (v k)))"
    by (rule sum.cong) auto
  have "sum_series f (v(ls \<mapsto> x)) = f x + (\<Sum>k \<in> dom v - {ls}. f (the (v k)))"
    unfolding sum_series_def using assms(1) s by (simp add: sum.insert_remove)
  moreover have "sum_series f v = f (value_at zero ls v) + (\<Sum>k \<in> dom v - {ls}. f (the (v k)))"
  proof (cases "ls \<in> dom v")
    case True
    then show ?thesis unfolding sum_series_def using sum.remove [OF assms(1) True, of "\<lambda>k. f (the (v k))"]
      by (auto simp: value_at_def)
  next
    case False
    then show ?thesis unfolding sum_series_def using assms(2) by (auto simp: value_at_def domIff)
  qed
  ultimately show ?thesis by simp
qed

lemma sum_series_inc [simp]: "finite (dom v) \<Longrightarrow> sum_series id (inc ls v) = Suc (sum_series id v)"
  using sum_series_update [of v id 0 ls "Suc (value_at 0 ls v)"] by (simp add: inc_def)

lemma sum_series_observe [simp]: "finite (dom v) \<Longrightarrow> sum_series length (observe ls x v) = Suc (sum_series length v)"
  using sum_series_update [of v length "[]" ls "value_at [] ls v @ [x]"] by (simp add: observe_def)

lemma sum_series_preset: "f zero = 0 \<Longrightarrow> sum_series f (preset zero lss) = 0"
proof -
  assume f: "f zero = 0"
  have "\<forall>k x. v k = Some x \<longrightarrow> x = zero \<Longrightarrow> \<forall>k x. fold (with_labels zero) lss v k = Some x \<longrightarrow> x = zero" for v
  proof (induction lss arbitrary: v)
    case (Cons ls lss)
    have "\<forall>k x. with_labels zero ls v k = Some x \<longrightarrow> x = zero" using Cons.prems by (simp add: with_labels_def)
    from Cons.IH [OF this] show ?case by simp
  qed simp
  from this [of "\<lambda>_. None"] have "\<And>k x. preset zero lss k = Some x \<Longrightarrow> x = zero" by (simp add: preset_def)
  then have "f (the (preset zero lss ls)) = 0" if "ls \<in> dom (preset zero lss)" for ls
    using that f by fastforce
  then show ?thesis by (simp add: sum_series_def)
qed

definition metrics_ok :: "'f metrics \<Rightarrow> bool" where
  "metrics_ok m \<longleftrightarrow>
     labelled [[''first'', ''redelivery'']] (m_sqsReceived m) \<and>
     labelled [sqs_results] (m_sqsProcessed m) \<and> labelled [sqs_results] (m_sqsProcessing m) \<and>
     labelled [reconciliation_results] (m_reconciliation m) \<and>
     labelled [or_other wager_sources, or_other wager_kinds, or_other wager_statuses] (m_wagers m) \<and>
     labelled [or_other wager_sources, or_other wager_statuses] (m_wagerDuration m) \<and>
     labelled [or_other wager_sources] (m_wagerReplays m) \<and>
     labelled [or_other wager_sources, or_other (rejection_codes @ error_codes)] (m_wagerFailures m) \<and>
     labelled [or_other reference_results] (m_references m) \<and>
     labelled [or_other outbox_results] (m_outboxAttempts m) \<and>
     labelled [or_other dependency_names] (m_dependencies m) \<and>
     labelled [or_other shutdown_components] (m_shutdown m) \<and>
     sum_series length (m_wagerDuration m) = sum_series id (m_wagers m) + sum_series id (m_wagerReplays m) \<and>
     sum_series length (m_sqsProcessing m) = sum_series id (m_sqsProcessed m)"

lemma metrics_finite:
  "metrics_ok m \<Longrightarrow> finite (dom (m_wagers m)) \<and> finite (dom (m_wagerReplays m)) \<and> finite (dom (m_wagerDuration m)) \<and>
    finite (dom (m_sqsProcessed m)) \<and> finite (dom (m_sqsProcessing m))"
  by (auto simp: metrics_ok_def dest: finite_dom_labelled)

lemmas metrics_update = metrics_ok_def Let_def

lemma error_source_in [simp]: "bounded v [''http'', ''sqs''] \<in> set (or_other wager_sources)"
  by (simp add: bounded_def or_other_def wager_sources_def)

lemma rejected_in [simp]: "''REJECTED'' \<in> set (or_other wager_statuses)"
  by (simp add: or_other_def wager_statuses_def)

lemma metrics_New_ok: "metrics_ok (metrics_New fl)"
proof -
  have p: "labelled yss (preset zero xss) \<longleftrightarrow> list_all (label_ok yss) xss" for yss xss and zero :: 'x
    by (simp add: labelled_def dom_preset list_all_iff)
  have z: "sum_series id (preset 0 lss) = 0" "sum_series length (preset [] lss) = 0" for lss
    by (simp_all add: sum_series_preset)
  have n: "sum_series id (\<lambda>_. None) = 0" by (simp add: sum_series_def)
  show ?thesis
    unfolding metrics_ok_def metrics_New_def
    by (simp only: metrics.simps p z n) (simp add: list_all_iff or_other_def)
qed

lemma RecordWager_ok: "metrics_ok m \<Longrightarrow> metrics_ok (RecordWager fl source kind status failure replay elapsed m)"
  by (frule metrics_finite) (simp add: RecordWager_def metrics_update)

lemma RecordWagerError_ok: "metrics_ok m \<Longrightarrow> metrics_ok (RecordWagerError source c m)"
  by (simp add: RecordWagerError_def metrics_update)

text \<open>The method itself bounds nothing: whatever string it is given becomes a series.\<close>

lemma ObserveSQSProcessing_any_label:
  "dom (m_sqsProcessed (ObserveSQSProcessing fl r elapsed m)) = insert [r] (dom (m_sqsProcessed m))"
  "dom (m_sqsProcessing (ObserveSQSProcessing fl r elapsed m)) = insert [r] (dom (m_sqsProcessing m))"
  by (simp_all add: ObserveSQSProcessing_def inc_def observe_def)

lemma handled_result: "fst (handle env cl decode consumer queueURL received s) = Inr res \<Longrightarrow> res \<in> set sqs_results"
  using handle_result [OF surjective_pairing] by (metis sum.inject(2))

lemma counted_ok: "counted fl m \<Longrightarrow> metrics_ok m"
proof (induction rule: counted.induct)
  case 1
  then show ?case by (rule metrics_New_ok)
next
  case (3 m source kind status failure replay elapsed)
  then show ?case by (simp add: RecordWager_ok)
next
  case (4 m source c)
  then show ?case by (simp add: RecordWagerError_ok)
next
  case (12 m env cl decode consumer queueURL received s res elapsed)
  then have "finite (dom (m_sqsProcessed m))" "finite (dom (m_sqsProcessing m))"
    using metrics_finite by blast+
  with 12 handled_result [OF 12(2)] show ?case by (simp add: ObserveSQSProcessing_def metrics_ok_def)
qed (simp_all add: SetDLQDepth_def RecordReferenceAttempt_def RecordOutboxAttempt_def SetOutboxBacklog_def
    RecordDependencyFailure_def ObserveShutdown_def RecordReconciliation_def RecordSQSReceived_def metrics_update)

section \<open>Readiness\<close>

text \<open>\<^verbatim>\<open>Status\<close>: the flag and the registered checks.\<close>

record 'c health_status =
  hs_ready :: bool
  hs_checks :: "string \<Rightarrow> 'c option"

definition health_New :: "'c health_status" where
  "health_New = \<lparr>hs_ready = False, hs_checks = (\<lambda>_. None)\<rparr>"

definition SetReady :: "bool \<Rightarrow> 'c health_status \<Rightarrow> 'c health_status" where
  "SetReady ready st = st\<lparr>hs_ready := ready\<rparr>"

definition Register :: "string \<Rightarrow> 'c \<Rightarrow> 'c health_status \<Rightarrow> 'c health_status" where
  "Register name check st = st\<lparr>hs_checks := (hs_checks st)(name \<mapsto> check)\<rparr>"

text \<open>
  The server: what \<^verbatim>\<open>start\<close> does with the outcome of listening, the goroutine with the error with
  which \<^verbatim>\<open>Serve\<close> returned, and \<^verbatim>\<open>stop\<close> with the outcome of \<^verbatim>\<open>Shutdown\<close>.
\<close>

definition server_start :: "err option \<Rightarrow> 'c health_status \<Rightarrow> err option \<times> 'c health_status" where
  "server_start listen st = (case listen of Some e \<Rightarrow> (Some e, st) | None \<Rightarrow> (None, SetReady True st))"

datatype serve_error = ServerClosed | ServeFailed err

definition server_served :: "serve_error option \<Rightarrow> 'c health_status \<Rightarrow> 'c health_status" where
  "server_served outcome st =
     (case outcome of
        Some (ServeFailed e) \<Rightarrow> SetReady False st
      | _ \<Rightarrow> st)"

definition server_stop :: "err option \<Rightarrow> 'c health_status \<Rightarrow> err option \<times> 'c health_status" where
  "server_stop shutdown st = (shutdown, SetReady False st)"

text \<open>A server that failed to listen, stopped serving or is being stopped is never ready.\<close>

lemma server_not_ready:
  shows "Ready (hs_ready (snd (server_stop shutdown st))) checks \<noteq> None"
    and "Ready (hs_ready (server_served (Some (ServeFailed e)) st)) checks \<noteq> None"
    and "Ready (hs_ready (snd (server_start (Some e) health_New))) checks \<noteq> None"
  by (simp_all add: server_stop_def server_served_def server_start_def health_New_def SetReady_def Ready_def)

section \<open>Properties\<close>

lemma labelled_card:
  assumes "labelled lss v"
  shows "card (dom v) \<le> prod_list (map length lss)"
proof -
  have l: "length (product_lists lss) = prod_list (map length lss)"
    by (induction lss) (simp_all add: length_concat comp_def sum_list_triv)
  have "card (dom v) \<le> card (set (product_lists lss))" using labelled_product [OF assms] by (simp add: card_mono)
  also have "\<dots> \<le> prod_list (map length lss)" using card_length [of "product_lists lss"] by (simp add: l)
  finally show ?thesis .
qed

definition series_count :: "'f metrics \<Rightarrow> nat" where
  "series_count m =
     card (dom (m_sqsReceived m)) + card (dom (m_sqsProcessed m)) + card (dom (m_sqsProcessing m)) +
     card (dom (m_reconciliation m)) + card (dom (m_wagers m)) + card (dom (m_wagerDuration m)) +
     card (dom (m_wagerReplays m)) + card (dom (m_wagerFailures m)) + card (dom (m_references m)) +
     card (dom (m_outboxAttempts m)) + card (dom (m_dependencies m)) + card (dom (m_shutdown m))"

lemmas label_lists =
  sqs_results_def reconciliation_results_def wager_sources_def wager_kinds_def wager_statuses_def
  rejection_codes_def error_codes_def reference_results_def outbox_results_def dependency_names_def
  shutdown_components_def

text \<open>
  Property C32. The metrics stay of bounded size: every series of every vector has labels from fixed
  lists, so no identifier, error text or input of a client ever becomes a label, and the vectors
  together have at most 280 series. All methods but one ensure this themselves, whatever they are given.
  \<^verbatim>\<open>ObserveSQSProcessing\<close> does not look at its label; there it is the results with which the consumer
  ends the handling of a message, in whatever world and with whatever queue, that are five. The counts also
  agree with each other: every wager timed was counted either as committed or as a replay, and every
  handling of a message timed was counted.
\<close>

theorem metrics_bounded:
  assumes "counted fl m"
  shows "series_count m \<le> 280 \<and>
    sum_series length (m_wagerDuration m) = sum_series id (m_wagers m) + sum_series id (m_wagerReplays m) \<and>
    sum_series length (m_sqsProcessing m) = sum_series id (m_sqsProcessed m)"
proof -
  have ok: "metrics_ok m" by (rule counted_ok [OF assms])
  then have
    "card (dom (m_sqsReceived m)) \<le> 2" "card (dom (m_sqsProcessed m)) \<le> 5" "card (dom (m_sqsProcessing m)) \<le> 5"
    "card (dom (m_reconciliation m)) \<le> 4" "card (dom (m_wagers m)) \<le> 140" "card (dom (m_wagerDuration m)) \<le> 20"
    "card (dom (m_wagerReplays m)) \<le> 4" "card (dom (m_wagerFailures m)) \<le> 80" "card (dom (m_references m)) \<le> 5"
    "card (dom (m_outboxAttempts m)) \<le> 5" "card (dom (m_dependencies m)) \<le> 5" "card (dom (m_shutdown m)) \<le> 5"
    unfolding metrics_ok_def by (auto dest!: labelled_card simp: label_lists or_other_def)
  then have "series_count m \<le> 280" unfolding series_count_def by linarith
  with ok show ?thesis by (simp add: metrics_ok_def)
qed

definition ex_floats :: "int floats" where
  "ex_floats = \<lparr>fl_of_int64 = (\<lambda>n. n), fl_Seconds = (\<lambda>_. 1)\<rparr>"

definition ex_handled_result :: sqs_result where
  "ex_handled_result = projr (fst ex_handled)"

theorem metrics_bounded_witness:
  "series_count (ObserveSQSProcessing ex_floats ex_handled_result time_second
     (RecordWager ex_floats ''carrier pigeon'' ''BET'' ''PROCESSED'' [] False time_second (metrics_New ex_floats))) \<le> 280 \<and>
   ex_handled_result \<in> set sqs_results"
proof -
  obtain res where res: "fst ex_handled = Inr res" "res \<in> set sqs_results"
    using handle_result [OF surjective_pairing] unfolding ex_handled_def by metis
  then have "fst ex_handled = Inr ex_handled_result" by (simp add: ex_handled_result_def)
  then have h: "fst (handle ex_env ex_client (\<lambda>_. Some ex_dto) ''wallet'' ''url'' ex_received ex_node) = Inr ex_handled_result"
    by (simp add: ex_handled_def)
  have "ex_handled_result \<in> set sqs_results" using res by (simp add: ex_handled_result_def)
  with metrics_bounded [OF counted.intros(12) [OF counted.intros(3) [OF counted.intros(1)] h]] show ?thesis by blast
qed

text \<open>
  Failures of a dependency are not counted under the name the HTTP handler gives them: a
  submission that fails because the database cannot be reached is classified
  \<open>dependency_unavailable\<close>, and \<^verbatim>\<open>RecordWagerError\<close>, whose list lacks that code, adds it to the
  series of unknown codes and leaves every other series alone.
\<close>

theorem dependency_failures_miscounted:
  assumes "isTransientDependencyError e"
    and "\<not> errors_is e app_ErrIdempotencyConflict" and "\<not> errors_is e app_ErrExternalIDConflict"
    and "\<not> errors_is e app_ErrConcurrentWrite" and "\<not> errors_is e app_ErrIdentityRace"
  shows "wagerErrorMetric e = ''dependency_unavailable'' \<and>
    m_wagerFailures (RecordWagerError ''http'' (wagerErrorMetric e) m) =
      (m_wagerFailures m)([''http'', ''other''] \<mapsto> Suc (value_at 0 [''http'', ''other''] (m_wagerFailures m)))"
proof -
  have "wagerErrorMetric e = ''dependency_unavailable''" using assms by (simp add: wagerErrorMetric_def)
  then show ?thesis by (simp add: RecordWagerError_def inc_def bounded_def error_codes_def)
qed

theorem dependency_failures_miscounted_witness:
  "m_wagerFailures (RecordWagerError ''http'' (wagerErrorMetric (Transport ConnRefused)) (metrics_New ex_floats))
     [''http'', ''other''] = Some 1"
proof -
  have "m_wagerFailures (metrics_New ex_floats) = (\<lambda>_. None)" by (simp add: metrics_New_def)
  moreover have "isTransientDependencyError (Transport ConnRefused)" by (simp add: isTransientDependencyError_def)
  ultimately show ?thesis
    using dependency_failures_miscounted [of "Transport ConnRefused" "metrics_New ex_floats"] by (auto simp: value_at_def)
qed

end
