(* ===== verification/Worker_Pool.thy ===== *)
theory Worker_Pool
  imports Reference Outbox
begin

text \<open>
  The workers that settle waiting transactions and publish events: \<^verbatim>\<open>Worker\<close> of
  \<^verbatim>\<open>internal/adapters/reference/worker.go\<close> and \<^verbatim>\<open>OutboxWorker\<close> of
  \<^verbatim>\<open>internal/adapters/sqs/outbox_worker.go\<close>. Both start a number of goroutines that call
  \<^verbatim>\<open>ProcessOne\<close> until they are cancelled, and both are stopped in the same way, so both are one
  pool over a function for a round. Logging, metrics and the goroutine that only measures the backlog
  are left out.
\<close>

section \<open>Runs that end\<close>

lemma no_infinite_run:
  fixes m :: "'s \<Rightarrow> nat"
  assumes "P s" and "\<And>s t. P s \<Longrightarrow> R s t \<Longrightarrow> P t \<and> m t < m s"
  shows "\<not> (\<exists>f. f 0 = s \<and> (\<forall>i. R (f i) (f (Suc i))))"
proof
  assume "\<exists>f. f 0 = s \<and> (\<forall>i. R (f i) (f (Suc i)))"
  then obtain f where f: "f 0 = s" "\<And>i. R (f i) (f (Suc i))" by blast
  have "P (f i) \<and> m (f i) + i \<le> m s" for i
  proof (induction i)
    case 0
    then show ?case using f(1) assms(1) by simp
  next
    case (Suc i)
    then show ?case using assms(2) [of "f i" "f (Suc i)"] f(2) [of i] by force
  qed
  from this [of "Suc (m s)"] show False by simp
qed

lemma run_can_end:
  fixes m :: "'s \<Rightarrow> nat"
  assumes "P s" and step: "\<And>s t. P s \<Longrightarrow> R s t \<Longrightarrow> P t \<and> m t < m s"
  shows "\<exists>t. R\<^sup>*\<^sup>* s t \<and> (\<nexists>u. R t u)"
  using assms(1)
proof (induction "m s" arbitrary: s rule: less_induct)
  case less
  show ?case
  proof (cases "\<exists>u. R s u")
    case True
    then obtain u where u: "R s u" by blast
    then obtain t where "R\<^sup>*\<^sup>* u t" "\<nexists>v. R t v" using less step [OF less.prems u] by blast
    with u show ?thesis by (meson converse_rtranclp_into_rtranclp)
  qed blast
qed

section \<open>The pool\<close>

text \<open>
  Where a worker is in its loop: at the test of its context, in a round, waiting for the poll timer
  or the cancellation, or returned. \<open>Stopped\<close> carries the error with which \<^verbatim>\<open>stop\<close> returned, if any.
\<close>

datatype worker_pc = Checking | Processing | Waiting | Returned

datatype stop_pc = Running | Stopping | Stopped "err option"

record 's pool =
  wp_state :: 's
  wp_cancelled :: bool
  wp_workers :: "worker_pc list"
  wp_stop :: stop_pc

definition pool_start :: "nat \<Rightarrow> 's \<Rightarrow> 's pool" where
  "pool_start n s = \<lparr>wp_state = s, wp_cancelled = False, wp_workers = replicate n Checking, wp_stop = Running\<rparr>"

text \<open>A worker moves on.\<close>

definition set_worker :: "nat \<Rightarrow> worker_pc \<Rightarrow> 's pool \<Rightarrow> 's pool" where
  "set_worker i pc p = p\<lparr>wp_workers := (wp_workers p)[i := pc]\<rparr>"

definition at :: "'s pool \<Rightarrow> nat \<Rightarrow> worker_pc \<Rightarrow> bool" where
  "at p i pc \<longleftrightarrow> i < length (wp_workers p) \<and> wp_workers p ! i = pc"

text \<open>
  The steps of the workers and of \<^verbatim>\<open>stop\<close>, which cancels, waits for all workers, and returns early
  when its own context ends. A round whose outcome \<open>continues\<close> is followed by the next without waiting.
\<close>

inductive pool_step :: "('s \<Rightarrow> 'r \<times> 's) \<Rightarrow> ('r \<Rightarrow> bool) \<Rightarrow> 's pool \<Rightarrow> 's pool \<Rightarrow> bool"
  for round continues where
  check: "at p i Checking \<Longrightarrow> pool_step round continues p (set_worker i (if wp_cancelled p then Returned else Processing) p)"
| process: "at p i Processing \<Longrightarrow> round (wp_state p) = (r, s') \<Longrightarrow>
    pool_step round continues p ((set_worker i (if continues r then Checking else Waiting) p)\<lparr>wp_state := s'\<rparr>)"
| wake: "at p i Waiting \<Longrightarrow> pool_step round continues p (set_worker i Checking p)"
| leave: "at p i Waiting \<Longrightarrow> wp_cancelled p \<Longrightarrow> pool_step round continues p (set_worker i Returned p)"
| stop: "wp_stop p = Running \<Longrightarrow> pool_step round continues p (p\<lparr>wp_cancelled := True, wp_stop := Stopping\<rparr>)"
| stopped: "wp_stop p = Stopping \<Longrightarrow> list_all (\<lambda>pc. pc = Returned) (wp_workers p) \<Longrightarrow>
    pool_step round continues p (p\<lparr>wp_stop := Stopped None\<rparr>)"
| give_up: "wp_stop p = Stopping \<Longrightarrow> pool_step round continues p (p\<lparr>wp_stop := Stopped (Some e)\<rparr>)"

inductive_cases pool_stepE: "pool_step round continues p p'"

section \<open>Stopping\<close>

text \<open>What is left to do once the pool is cancelled.\<close>

fun worker_rank :: "worker_pc \<Rightarrow> nat" where
  "worker_rank Returned = 0"
| "worker_rank Checking = 1"
| "worker_rank Waiting = 2"
| "worker_rank Processing = 3"

fun stop_rank :: "stop_pc \<Rightarrow> nat" where
  "stop_rank (Stopped _) = 0"
| "stop_rank Stopping = 1"
| "stop_rank Running = 2"

definition pool_rank :: "'s pool \<Rightarrow> nat" where
  "pool_rank p = sum_list (map worker_rank (wp_workers p)) + stop_rank (wp_stop p)"

lemma sum_list_map_update:
  "i < length xs \<Longrightarrow> sum_list (map f (xs[i := x])) + f (xs ! i) = sum_list (map f xs) + (f x :: nat)"
  by (induction xs arbitrary: i) (auto split: nat.splits)

lemma set_worker_rank:
  assumes "at p i pc" and "worker_rank pc' < worker_rank pc"
  shows "pool_rank (set_worker i pc' p) < pool_rank p"
  using assms sum_list_map_update [of i "wp_workers p" worker_rank pc']
  by (simp add: pool_rank_def set_worker_def at_def)

lemma pool_step_cancelled:
  assumes "pool_step round continues p p'" and "wp_cancelled p"
  shows "wp_cancelled p' \<and> pool_rank p' < pool_rank p"
  using assms
proof (cases rule: pool_step.cases)
  case (check i)
  then show ?thesis using assms(2) set_worker_rank [of p i Checking Returned] by (simp add: set_worker_def)
next
  case (process i r s')
  let ?pc = "if continues r then Checking else Waiting"
  have "pool_rank (set_worker i ?pc p) < pool_rank p" using process(2) by (rule set_worker_rank) simp
  then show ?thesis using process(1) assms(2) by (simp add: pool_rank_def set_worker_def)
next
  case (wake i)
  then show ?thesis using assms(2) set_worker_rank [of p i Waiting Checking] by (simp add: set_worker_def)
next
  case (leave i)
  then show ?thesis using set_worker_rank [of p i Waiting Returned] by (simp add: set_worker_def)
qed (simp_all add: pool_rank_def assms(2))

text \<open>A worker that has not returned, and a \<^verbatim>\<open>stop\<close> that has not, can go on.\<close>

lemma worker_can_step:
  assumes "at p i pc" "pc \<noteq> Returned"
  shows "\<exists>p'. pool_step round continues p p'"
proof (cases pc)
  case Checking
  then show ?thesis using assms(1) pool_step.check [of p i round continues] by blast
next
  case Processing
  then show ?thesis using assms(1) pool_step.process [of p i round "fst (round (wp_state p))" "snd (round (wp_state p))" continues]
    by fastforce
next
  case Waiting
  then show ?thesis using assms(1) pool_step.wake [of p i round continues] by blast
next
  case Returned
  then show ?thesis using assms(2) by simp
qed

lemma pool_stuck:
  assumes "\<nexists>p'. pool_step round continues p p'"
  shows "list_all (\<lambda>pc. pc = Returned) (wp_workers p) \<and> (\<exists>r. wp_stop p = Stopped r)"
proof
  show "list_all (\<lambda>pc. pc = Returned) (wp_workers p)"
    using assms worker_can_step unfolding list_all_length at_def by blast
  show "\<exists>r. wp_stop p = Stopped r"
    using assms pool_step.stop [of p round continues] pool_step.give_up [of p round continues] by (cases "wp_stop p") blast+
qed

section \<open>Invariants\<close>

text \<open>The part of the invariant that does not depend on the rounds.\<close>

definition pool_ok :: "nat \<Rightarrow> 's pool \<Rightarrow> bool" where
  "pool_ok n p \<longleftrightarrow>
     length (wp_workers p) = n \<and> (wp_cancelled p \<longleftrightarrow> wp_stop p \<noteq> Running) \<and>
     (Returned \<in> set (wp_workers p) \<longrightarrow> wp_cancelled p) \<and>
     (wp_stop p = Stopped None \<longrightarrow> list_all (\<lambda>pc. pc = Returned) (wp_workers p))"

lemma pool_start_ok: "pool_ok n (pool_start n s)"
  by (simp add: pool_ok_def pool_start_def)

lemma set_worker_ok:
  assumes "pool_ok n p" "at p i pc" "pc \<noteq> Returned" "pc' = Returned \<longrightarrow> wp_cancelled p"
  shows "pool_ok n (set_worker i pc' p)"
proof -
  have "wp_stop p \<noteq> Stopped None" using assms(1-3) by (auto simp: pool_ok_def at_def list_all_length)
  moreover have "Returned \<in> set ((wp_workers p)[i := pc']) \<Longrightarrow> Returned \<in> set (wp_workers p) \<or> pc' = Returned"
    using set_update_subset_insert [of "wp_workers p" i pc'] by blast
  ultimately show ?thesis using assms by (auto simp: pool_ok_def set_worker_def)
qed

lemma pool_ok_state [simp]: "pool_ok n (p\<lparr>wp_state := s\<rparr>) = pool_ok n p"
  by (simp add: pool_ok_def)

lemma pool_step_ok:
  assumes "pool_step round continues p p'" and "pool_ok n p"
  shows "pool_ok n p'"
  using assms(1)
proof (cases rule: pool_step.cases)
  case (check i)
  have "pool_ok n (set_worker i (if wp_cancelled p then Returned else Processing) p)"
    by (rule set_worker_ok [OF assms(2) check(2)]) simp_all
  then show ?thesis using check(1) by simp
next
  case (process i r s')
  have "pool_ok n (set_worker i (if continues r then Checking else Waiting) p)"
    by (rule set_worker_ok [OF assms(2) process(2)]) simp_all
  then show ?thesis using process(1) by simp
next
  case (wake i)
  show ?thesis unfolding wake(1) by (rule set_worker_ok [OF assms(2) wake(2)]) simp_all
next
  case (leave i)
  show ?thesis unfolding leave(1) by (rule set_worker_ok [OF assms(2) leave(2)]) (simp_all add: leave(3))
qed (use assms(2) in \<open>auto simp: pool_ok_def\<close>)

text \<open>
  A pool keeps what each of its rounds keeps. The contract is met by the rounds of both workers.
\<close>

locale worker_pool =
  fixes round :: "'s \<Rightarrow> 'r \<times> 's" and continues :: "'r \<Rightarrow> bool" and inv :: "'s \<Rightarrow> bool"
  assumes round_law: "round s = (r, s') \<Longrightarrow> inv s \<Longrightarrow> inv s'"
begin

lemma pool_step_inv: "pool_step round continues p p' \<Longrightarrow> inv (wp_state p) \<Longrightarrow> inv (wp_state p')"
  by (cases rule: pool_step.cases) (auto simp: set_worker_def dest: round_law)

lemma pool_inv:
  assumes "(pool_step round continues)\<^sup>*\<^sup>* (pool_start n s) p" and "inv s"
  shows "inv (wp_state p) \<and> pool_ok n p"
  using assms(1)
proof (induction rule: rtranclp_induct)
  case base
  then show ?case using assms(2) pool_start_ok by (simp add: pool_start_def)
next
  case (step p q)
  then show ?case using pool_step_inv pool_step_ok by blast
qed

end

section \<open>The reference worker\<close>

definition reference_continues :: "(ref_outcome \<times> ref_claim option) result \<Rightarrow> bool" where
  "reference_continues r = (case r of Inr (RefCompleted, _) \<Rightarrow> True | _ \<Rightarrow> False)"

definition reference_worker_step :: "env \<Rightarrow> duration \<Rightarrow> world pool \<Rightarrow> world pool \<Rightarrow> bool" where
  "reference_worker_step env lease = pool_step (ProcessOneWithClaim env lease) reference_continues"

interpretation reference_pool: worker_pool "ProcessOneWithClaim env lease" reference_continues
    "\<lambda>w. env_ok env \<longrightarrow> books_ok (db w)" for env lease
  by unfold_locales (use ProcessOneWithClaim_round reference_round_books in blast)

section \<open>The outbox worker\<close>

definition outbox_continues :: "(outbox_outcome \<times> err option) result \<Rightarrow> bool" where
  "outbox_continues r = (case r of Inr (outcome, _) \<Rightarrow> outcome = ObPublished \<or> outcome = ObRepublished | Inl _ \<Rightarrow> False)"

definition outbox_worker_step ::
  "env \<Rightarrow> (json \<Rightarrow> string) \<Rightarrow> sqs_client \<Rightarrow> string \<Rightarrow> duration \<Rightarrow> node pool \<Rightarrow> node pool \<Rightarrow> bool" where
  "outbox_worker_step env jsonb cl name lease =
     pool_step (outbox_ProcessOne (outbox_service_of env jsonb cl name lease)) outbox_continues"

text \<open>What the queue accepted and what the outbox holds, as a state of the delivery protocol.\<close>

definition delivery_of :: "node \<Rightarrow> delivery" where
  "delivery_of s = \<lparr>dl_db = db (nd_world s), dl_sent = accepted s, dl_claims = []\<rparr>"

lemma outbox_round_ok:
  assumes run: "outbox_ProcessOne (outbox_service_of env jsonb cl name lease) s = (r, s')" and ok: "delivery_ok jsonb (delivery_of s)"
  shows "delivery_ok jsonb (delivery_of s')"
proof -
  have u: "outbox_unique (outbox (db (nd_world s)))" using ok by (simp add: delivery_ok_def delivery_of_def)
  from pgq.ProcessOne_round [OF run u] obtain out where
    "delivery_round jsonb out (db (nd_world s)) (accepted s) (db (nd_world s')) (accepted s')" by blast
  then obtain cs' where "(delivery_step jsonb)\<^sup>*\<^sup>* (delivery_of s) (delivery_of s'\<lparr>dl_claims := cs'\<rparr>)"
    using delivery_round_steps unfolding delivery_of_def by fastforce
  then have "delivery_ok jsonb (delivery_of s'\<lparr>dl_claims := cs'\<rparr>)"
    using ok by (induction rule: rtranclp_induct) (auto intro: delivery_step_ok)
  then show ?thesis by (simp add: delivery_ok_def published_sent_def delivery_of_def)
qed

interpretation outbox_pool: worker_pool "outbox_ProcessOne (outbox_service_of env jsonb cl name lease)" outbox_continues
    "\<lambda>s. delivery_ok jsonb (delivery_of s)" for env jsonb cl name lease
  by unfold_locales (rule outbox_round_ok)


section \<open>Properties\<close>

text \<open>
  Property C26. Stopping a pool of workers works, whatever their rounds do. Once the pool is cancelled
  every run ends: no worker goes on for ever, and where nothing can move any more every worker has
  returned and so has \<^verbatim>\<open>stop\<close>. From every such state the end can be reached. When \<^verbatim>\<open>stop\<close> returned
  without an error, no worker is in a round, and none will ever be again.
\<close>

theorem workers_stop:
  assumes "(pool_step round continues)\<^sup>*\<^sup>* (pool_start n s) p" and "wp_cancelled p"
  shows "\<not> (\<exists>f. f 0 = p \<and> (\<forall>i. pool_step round continues (f i) (f (Suc i)))) \<and>
    (\<forall>q. (pool_step round continues)\<^sup>*\<^sup>* p q \<and> (\<nexists>q'. pool_step round continues q q') \<longrightarrow>
       list_all (\<lambda>pc. pc = Returned) (wp_workers q) \<and> (\<exists>r. wp_stop q = Stopped r)) \<and>
    (\<exists>q. (pool_step round continues)\<^sup>*\<^sup>* p q \<and> (\<nexists>q'. pool_step round continues q q')) \<and>
    (wp_stop p = Stopped None \<longrightarrow> (\<nexists>q'. pool_step round continues p q'))"
proof (intro conjI allI impI)
  show "\<not> (\<exists>f. f 0 = p \<and> (\<forall>i. pool_step round continues (f i) (f (Suc i))))"
    by (rule no_infinite_run [of wp_cancelled _ _ pool_rank]) (use assms(2) pool_step_cancelled in blast)+
  show "\<exists>q. (pool_step round continues)\<^sup>*\<^sup>* p q \<and> (\<nexists>q'. pool_step round continues q q')"
    by (rule run_can_end [of wp_cancelled _ _ pool_rank]) (use assms(2) pool_step_cancelled in blast)+
next
  fix q
  assume q: "(pool_step round continues)\<^sup>*\<^sup>* p q \<and> (\<nexists>q'. pool_step round continues q q')"
  then show "list_all (\<lambda>pc. pc = Returned) (wp_workers q)" "\<exists>r. wp_stop q = Stopped r"
    using pool_stuck by blast+
next
  assume "wp_stop p = Stopped None"
  moreover have "pool_ok n p" using assms(1) pool_start_ok
    by (induction rule: rtranclp_induct) (auto intro: pool_step_ok)
  ultimately have "list_all (\<lambda>pc. pc = Returned) (wp_workers p)" by (simp add: pool_ok_def)
  then show "\<nexists>q'. pool_step round continues p q'"
    using \<open>wp_stop p = Stopped None\<close> by (auto simp: at_def list_all_length elim!: pool_stepE)
qed

definition ex_pool :: "world pool" where
  "ex_pool = (pool_start 2 ex_world)\<lparr>wp_cancelled := True, wp_stop := Stopping\<rparr>"

lemma ex_pool_reached: "(pool_step round continues)\<^sup>*\<^sup>* (pool_start 2 ex_world) ex_pool"
proof -
  have "pool_step round continues (pool_start 2 ex_world) ex_pool"
    using pool_step.stop [of "pool_start 2 ex_world" round continues] by (simp add: ex_pool_def pool_start_def)
  then show ?thesis by (rule r_into_rtranclp)
qed

theorem workers_stop_witness:
  "\<exists>q. (pool_step (ProcessOneWithClaim ex_env time_second) reference_continues)\<^sup>*\<^sup>* ex_pool q \<and>
    list_all (\<lambda>pc. pc = Returned) (wp_workers q) \<and> (\<exists>r. wp_stop q = Stopped r)"
proof -
  have "wp_cancelled ex_pool" by (simp add: ex_pool_def)
  from workers_stop [OF ex_pool_reached this] show ?thesis by blast
qed

text \<open>
  Pools of any size keep the stores they work on in order: while reference workers run,
  and while they are being stopped, the books hold; while outbox workers run, every published event
  was accepted by the queue and event identifiers stay unique. A worker has returned only if the pool
  was cancelled, so no replica silently loses its workers.
\<close>

theorem worker_pools_keep_order:
  assumes "env_ok env" and "books_ok (db w)" and "(reference_worker_step env lease)\<^sup>*\<^sup>* (pool_start m w) p"
    and "delivery_ok jsonb (delivery_of s)" and "(outbox_worker_step env jsonb cl name lease)\<^sup>*\<^sup>* (pool_start n s) q"
  shows "books_ok (db (wp_state p)) \<and> delivery_ok jsonb (delivery_of (wp_state q)) \<and>
    (Returned \<in> set (wp_workers p) \<longrightarrow> wp_cancelled p) \<and> (Returned \<in> set (wp_workers q) \<longrightarrow> wp_cancelled q)"
  using reference_pool.pool_inv [OF assms(3) [unfolded reference_worker_step_def]] assms(1,2)
    outbox_pool.pool_inv [OF assms(5) [unfolded outbox_worker_step_def] assms(4)]
  unfolding pool_ok_def by blast

theorem worker_pools_keep_order_witness:
  "books_ok (db (wp_state ex_pool)) \<and> delivery_ok (\<lambda>_. ''1'') (delivery_of ex_node)"
proof -
  have d: "delivery_ok (\<lambda>_. ''1'') (delivery_of ex_node)"
    by (simp add: delivery_ok_def delivery_of_def published_sent_def outbox_unique_def ex_node_def ex_event_def)
  have p: "(reference_worker_step ex_env time_second)\<^sup>*\<^sup>* (pool_start 2 ex_world) ex_pool"
    unfolding reference_worker_step_def by (rule ex_pool_reached)
  have "(outbox_worker_step ex_env (\<lambda>_. ''1'') ex_client ''output'' time_second)\<^sup>*\<^sup>* (pool_start 2 ex_node) (pool_start 2 ex_node)"
    by simp
  from worker_pools_keep_order [OF ex_env_ok ex_world_books p d this] show ?thesis by (simp add: pool_start_def)
qed

end
