(* ===== verification/Consumer_Loop.thy ===== *)
theory Consumer_Loop
  imports Consumer Worker_Pool "HOL-Library.Multiset"
begin

text \<open>
  The goroutines of the SQS consumer, \<^verbatim>\<open>run\<close> and \<^verbatim>\<open>stop\<close> of
  \<^verbatim>\<open>internal/adapters/sqs/consumer.go\<close>: one loop that receives batches and starts a handler for
  each message while a semaphore has room, any number of handlers in flight, and the caller of
  \<^verbatim>\<open>stop\<close>. What a handler does with its message is \<open>handle\<close> of the theory of the consumer; here it
  starts and ends. The query of the dead-letter queue only sets a gauge and is left out.
\<close>

section \<open>States\<close>

text \<open>
  Where the loop is: before \<^verbatim>\<open>availableBatch\<close>, waiting there for a handler to end, in a call to the queue for at most so many messages,
  begun with the poll context cancelled or not, waiting a second after an error, handing out the
  rest of a batch, or at its end.
\<close>

datatype loop_pc =
    LoopTop
  | AwaitingRoom
  | Receiving int bool
  | BackingOff
  | Dispatching "sqs_message list"
  | LoopDone

text \<open>
  Where \<^verbatim>\<open>stop\<close> is: not called, waiting for the loop, waiting for the handlers, waiting for them
  after their contexts were cancelled, or returned.
\<close>

datatype consumer_stop =
    NotStopping
  | AwaitLoop
  | AwaitHandlers
  | Draining err
  | ConsumerStopped "err option"

text \<open>The messages received, handled and given up are kept to state what becomes of each.\<close>

record consumer_state =
  cs_loop :: loop_pc
  cs_in_flight :: "sqs_message list"
  cs_poll_cancelled :: bool
  cs_work_cancelled :: bool
  cs_stop :: consumer_stop
  cs_received :: "sqs_message list"
  cs_handled :: "sqs_message list"
  cs_dropped :: "sqs_message list"

definition consumer_initial :: consumer_state where
  "consumer_initial =
     \<lparr>cs_loop = LoopTop, cs_in_flight = [], cs_poll_cancelled = False, cs_work_cancelled = False,
      cs_stop = NotStopping, cs_received = [], cs_handled = [], cs_dropped = []\<rparr>"

section \<open>Steps\<close>

definition in_flight :: "consumer_state \<Rightarrow> int" where
  "in_flight s = int (length (cs_in_flight s))"

text \<open>
  The parameters are the capacity of the semaphore and the size of a batch. A call to the queue
  returns at most as many messages as were asked for, and a call begun with a cancelled context
  fails; both are what SQS and the context package document.
\<close>

inductive consumer_step :: "int \<Rightarrow> int \<Rightarrow> consumer_state \<Rightarrow> consumer_state \<Rightarrow> bool"
  for capacity batch where
  ask: "cs_loop s = LoopTop \<Longrightarrow> in_flight s < capacity \<Longrightarrow>
    consumer_step capacity batch s
      (s\<lparr>cs_loop := Receiving (availableBatch capacity (in_flight s) batch) (cs_poll_cancelled s)\<rparr>)"
| full: "cs_loop s = LoopTop \<Longrightarrow> in_flight s \<ge> capacity \<Longrightarrow> consumer_step capacity batch s (s\<lparr>cs_loop := AwaitingRoom\<rparr>)"
| room: "cs_loop s = AwaitingRoom \<Longrightarrow> in_flight s < capacity \<Longrightarrow>
    consumer_step capacity batch s
      (s\<lparr>cs_loop := Receiving (availableBatch capacity (in_flight s) batch) (cs_poll_cancelled s)\<rparr>)"
| no_room: "cs_loop s = AwaitingRoom \<Longrightarrow> cs_poll_cancelled s \<Longrightarrow>
    consumer_step capacity batch s (s\<lparr>cs_loop := LoopDone\<rparr>)"
| receive: "cs_loop s = Receiving n False \<Longrightarrow> int (length ms) \<le> n \<Longrightarrow>
    consumer_step capacity batch s (s\<lparr>cs_loop := Dispatching ms, cs_received := cs_received s @ ms\<rparr>)"
| receive_error: "cs_loop s = Receiving n c \<Longrightarrow>
    consumer_step capacity batch s (s\<lparr>cs_loop := (if cs_poll_cancelled s then LoopDone else BackingOff)\<rparr>)"
| retry: "cs_loop s = BackingOff \<Longrightarrow> consumer_step capacity batch s (s\<lparr>cs_loop := LoopTop\<rparr>)"
| give_up_retry: "cs_loop s = BackingOff \<Longrightarrow> cs_poll_cancelled s \<Longrightarrow>
    consumer_step capacity batch s (s\<lparr>cs_loop := LoopDone\<rparr>)"
| dispatch: "cs_loop s = Dispatching (m # ms) \<Longrightarrow> in_flight s < capacity \<Longrightarrow>
    consumer_step capacity batch s (s\<lparr>cs_loop := Dispatching ms, cs_in_flight := cs_in_flight s @ [m]\<rparr>)"
| abandon: "cs_loop s = Dispatching (m # ms) \<Longrightarrow> cs_poll_cancelled s \<Longrightarrow>
    consumer_step capacity batch s (s\<lparr>cs_loop := LoopDone, cs_dropped := cs_dropped s @ m # ms\<rparr>)"
| next_batch: "cs_loop s = Dispatching [] \<Longrightarrow> consumer_step capacity batch s (s\<lparr>cs_loop := LoopTop\<rparr>)"
| finish: "cs_in_flight s = ms @ m # ns \<Longrightarrow>
    consumer_step capacity batch s (s\<lparr>cs_in_flight := ms @ ns, cs_handled := cs_handled s @ [m]\<rparr>)"
| stop: "cs_stop s = NotStopping \<Longrightarrow>
    consumer_step capacity batch s (s\<lparr>cs_poll_cancelled := True, cs_stop := AwaitLoop\<rparr>)"
| loop_stopped: "cs_stop s = AwaitLoop \<Longrightarrow> cs_loop s = LoopDone \<Longrightarrow>
    consumer_step capacity batch s (s\<lparr>cs_stop := AwaitHandlers\<rparr>)"
| loop_timeout: "cs_stop s = AwaitLoop \<Longrightarrow>
    consumer_step capacity batch s (s\<lparr>cs_work_cancelled := True, cs_stop := ConsumerStopped (Some e)\<rparr>)"
| drained: "cs_stop s = AwaitHandlers \<Longrightarrow> cs_in_flight s = [] \<Longrightarrow>
    consumer_step capacity batch s (s\<lparr>cs_work_cancelled := True, cs_stop := ConsumerStopped None\<rparr>)"
| drain_timeout: "cs_stop s = AwaitHandlers \<Longrightarrow>
    consumer_step capacity batch s (s\<lparr>cs_work_cancelled := True, cs_stop := Draining e\<rparr>)"
| drained_late: "cs_stop s = Draining e \<Longrightarrow> cs_in_flight s = [] \<Longrightarrow>
    consumer_step capacity batch s (s\<lparr>cs_stop := ConsumerStopped (Some e)\<rparr>)"

inductive_cases consumer_stepE: "consumer_step capacity batch s s'"

section \<open>What becomes of the messages\<close>

fun undispatched :: "loop_pc \<Rightarrow> sqs_message list" where
  "undispatched (Dispatching ms) = ms"
| "undispatched _ = []"

definition accounted :: "consumer_state \<Rightarrow> bool" where
  "accounted s \<longleftrightarrow>
     mset (cs_received s) = mset (cs_handled s) + mset (cs_in_flight s) + mset (undispatched (cs_loop s)) + mset (cs_dropped s)"

text \<open>What is asked for and what is still to be handed out always finds room in the semaphore.\<close>

fun room_needed :: "loop_pc \<Rightarrow> int" where
  "room_needed (Receiving n c) = n"
| "room_needed (Dispatching ms) = int (length ms)"
| "room_needed _ = 0"

definition consumer_ok :: "int \<Rightarrow> int \<Rightarrow> consumer_state \<Rightarrow> bool" where
  "consumer_ok capacity batch s \<longleftrightarrow>
     in_flight s + room_needed (cs_loop s) \<le> capacity \<and> room_needed (cs_loop s) \<le> batch \<and>
     (\<forall>n c. cs_loop s = Receiving n c \<longrightarrow> 1 \<le> n) \<and> accounted s \<and>
     (cs_poll_cancelled s \<longleftrightarrow> cs_stop s \<noteq> NotStopping) \<and>
     (cs_loop s = LoopDone \<or> cs_dropped s \<noteq> [] \<or> cs_work_cancelled s \<longrightarrow> cs_poll_cancelled s) \<and>
     (cs_stop s = AwaitHandlers \<or> (\<exists>e. cs_stop s = Draining e) \<longrightarrow> cs_loop s = LoopDone) \<and>
     (cs_stop s = ConsumerStopped None \<longrightarrow> cs_loop s = LoopDone \<and> cs_in_flight s = [])"

lemma consumer_initial_ok: "0 \<le> capacity \<Longrightarrow> 0 \<le> batch \<Longrightarrow> consumer_ok capacity batch consumer_initial"
  by (simp add: consumer_ok_def consumer_initial_def in_flight_def accounted_def)

lemma consumer_step_ok:
  assumes "consumer_step capacity batch s s'" and "consumer_ok capacity batch s" and "1 \<le> batch"
  shows "consumer_ok capacity batch s'"
  using assms(1)
proof (cases rule: consumer_step.cases)
  case ask
  then show ?thesis using assms(2,3)
    by (auto simp: consumer_ok_def in_flight_def accounted_def availableBatch_def Let_def)
next
  case room
  then show ?thesis using assms(2,3)
    by (auto simp: consumer_ok_def in_flight_def accounted_def availableBatch_def Let_def)
next
  case (receive n ms)
  then show ?thesis using assms(2) by (auto simp: consumer_ok_def in_flight_def accounted_def)
next
  case (receive_error n c)
  then show ?thesis using assms(2) by (auto simp: consumer_ok_def in_flight_def accounted_def)
next
  case (dispatch m ms)
  then show ?thesis using assms(2) by (auto simp: consumer_ok_def in_flight_def accounted_def)
next
  case (abandon m ms)
  then show ?thesis using assms(2) by (auto simp: consumer_ok_def in_flight_def accounted_def)
next
  case (finish ms m ns)
  then show ?thesis using assms(2) by (auto simp: consumer_ok_def in_flight_def accounted_def)
qed (use assms(2) in \<open>auto simp: consumer_ok_def in_flight_def accounted_def\<close>)

section \<open>Stopping\<close>

text \<open>What is left to do once polling is cancelled.\<close>

fun loop_rank :: "loop_pc \<Rightarrow> nat" where
  "loop_rank LoopDone = 0"
| "loop_rank (Receiving n True) = 1"
| "loop_rank AwaitingRoom = 2"
| "loop_rank LoopTop = 3"
| "loop_rank BackingOff = 4"
| "loop_rank (Dispatching ms) = 4 + 2 * length ms"
| "loop_rank (Receiving n False) = 5 + 2 * nat n"

fun consumer_stop_rank :: "consumer_stop \<Rightarrow> nat" where
  "consumer_stop_rank (ConsumerStopped _) = 0"
| "consumer_stop_rank (Draining _) = 1"
| "consumer_stop_rank AwaitHandlers = 2"
| "consumer_stop_rank AwaitLoop = 3"
| "consumer_stop_rank NotStopping = 4"

definition consumer_rank :: "consumer_state \<Rightarrow> nat" where
  "consumer_rank s = loop_rank (cs_loop s) + length (cs_in_flight s) + consumer_stop_rank (cs_stop s)"

lemma consumer_step_cancelled:
  assumes "consumer_step capacity batch s s'" and "cs_poll_cancelled s"
  shows "cs_poll_cancelled s' \<and> consumer_rank s' < consumer_rank s"
  using assms(1)
proof (cases rule: consumer_step.cases)
  case (receive_error n c)
  then show ?thesis using assms(2) by (cases c) (simp_all add: consumer_rank_def)
qed (use assms(2) in \<open>auto simp: consumer_rank_def\<close>)

lemma consumer_stuck:
  assumes "\<nexists>s'. consumer_step capacity batch s s'" and "cs_poll_cancelled s"
  shows "cs_loop s = LoopDone \<and> cs_in_flight s = [] \<and> (\<exists>r. cs_stop s = ConsumerStopped r)"
proof -
  note no = assms(1) [simplified not_ex]
  have f: "cs_in_flight s = []"
    using no consumer_step.finish [of s "[]" "hd (cs_in_flight s)" "tl (cs_in_flight s)" capacity batch]
    by (cases "cs_in_flight s") auto
  have l: "cs_loop s = LoopDone"
  proof (cases "cs_loop s")
    case LoopTop
    then show ?thesis using no consumer_step.ask [of s capacity batch] consumer_step.full [of s capacity batch]
      by (meson not_less)
  next
    case AwaitingRoom
    then show ?thesis using no consumer_step.no_room [of s capacity batch] assms(2) by blast
  next
    case (Receiving n c)
    then show ?thesis using no consumer_step.receive_error by blast
  next
    case BackingOff
    then show ?thesis using no consumer_step.retry by blast
  next
    case (Dispatching ms)
    then show ?thesis using no consumer_step.next_batch consumer_step.abandon assms(2) by (cases ms) blast+
  qed simp
  have "\<exists>r. cs_stop s = ConsumerStopped r"
  proof (cases "cs_stop s")
    case NotStopping
    then show ?thesis using no consumer_step.stop by blast
  next
    case AwaitLoop
    then show ?thesis using no l consumer_step.loop_stopped by blast
  next
    case AwaitHandlers
    then show ?thesis using no f consumer_step.drained by blast
  next
    case (Draining e)
    then show ?thesis using no f consumer_step.drained_late by blast
  qed blast
  with f l show ?thesis by blast
qed

lemma consumer_run_ok:
  assumes "(consumer_step capacity batch)\<^sup>*\<^sup>* consumer_initial s" and "1 \<le> capacity" and "1 \<le> batch"
  shows "consumer_ok capacity batch s"
  using assms(1)
proof (induction rule: rtranclp_induct)
  case base
  then show ?case using assms(2,3) by (simp add: consumer_initial_ok)
next
  case (step s t)
  then show ?case using consumer_step_ok assms(3) by blast
qed

section \<open>Properties\<close>

text \<open>
  Property C24. No message the consumer received is lost, and it never takes more than it can handle. In
  every reachable state at most \<^verbatim>\<open>capacity\<close> handlers are running; every message received has been
  handled, is being handled, waits its turn in the batch, or was given up, each as often as it was
  received; the rest of a batch always fits the semaphore, so the loop never blocks between the
  messages of a batch; a message is given up, and the context of a handler cancelled, only after
  \<^verbatim>\<open>stop\<close> was called; and when \<^verbatim>\<open>stop\<close> returned no error the loop has ended and no handler runs.
\<close>

theorem consumer_loop_accounts:
  assumes "(consumer_step capacity batch)\<^sup>*\<^sup>* consumer_initial s" and "1 \<le> capacity" and "1 \<le> batch"
  shows "in_flight s \<le> capacity \<and>
    mset (cs_received s) = mset (cs_handled s) + mset (cs_in_flight s) + mset (undispatched (cs_loop s)) + mset (cs_dropped s) \<and>
    in_flight s + int (length (undispatched (cs_loop s))) \<le> capacity \<and>
    (cs_dropped s \<noteq> [] \<or> cs_work_cancelled s \<longrightarrow> cs_stop s \<noteq> NotStopping) \<and>
    (cs_stop s = ConsumerStopped None \<longrightarrow> cs_loop s = LoopDone \<and> cs_in_flight s = [])"
proof -
  have ok: "consumer_ok capacity batch s" by (rule consumer_run_ok [OF assms])
  then have "int (length (undispatched (cs_loop s))) \<le> room_needed (cs_loop s)"
    by (cases "cs_loop s") (auto simp: consumer_ok_def)
  with ok show ?thesis by (auto simp: consumer_ok_def accounted_def in_flight_def)
qed

text \<open>
  Property C25. The consumer can be stopped at any moment. Once \<^verbatim>\<open>stop\<close> cancelled polling, no run goes on
  for ever, the end can be reached, and where nothing can move the loop has ended, every handler has
  returned and \<^verbatim>\<open>stop\<close> has returned. Nothing received before is left unaccounted for: at the end each
  message was handled or given up.
\<close>

theorem consumer_stops:
  assumes "(consumer_step capacity batch)\<^sup>*\<^sup>* consumer_initial s" and "1 \<le> capacity" and "1 \<le> batch"
    and "cs_stop s \<noteq> NotStopping"
  shows "\<not> (\<exists>f. f 0 = s \<and> (\<forall>i. consumer_step capacity batch (f i) (f (Suc i)))) \<and>
    (\<exists>t. (consumer_step capacity batch)\<^sup>*\<^sup>* s t \<and> (\<nexists>u. consumer_step capacity batch t u)) \<and>
    (\<forall>t. (consumer_step capacity batch)\<^sup>*\<^sup>* s t \<and> (\<nexists>u. consumer_step capacity batch t u) \<longrightarrow>
       cs_loop t = LoopDone \<and> cs_in_flight t = [] \<and> (\<exists>r. cs_stop t = ConsumerStopped r) \<and>
       mset (cs_received t) = mset (cs_handled t) + mset (cs_dropped t))"
proof (intro conjI allI impI)
  have c: "cs_poll_cancelled s"
    using consumer_run_ok [OF assms(1-3)] assms(4) by (simp add: consumer_ok_def)
  show "\<not> (\<exists>f. f 0 = s \<and> (\<forall>i. consumer_step capacity batch (f i) (f (Suc i))))"
    by (rule no_infinite_run [of cs_poll_cancelled _ _ consumer_rank]) (use c consumer_step_cancelled in blast)+
  show "\<exists>t. (consumer_step capacity batch)\<^sup>*\<^sup>* s t \<and> (\<nexists>u. consumer_step capacity batch t u)"
    by (rule run_can_end [of cs_poll_cancelled _ _ consumer_rank]) (use c consumer_step_cancelled in blast)+
  fix t
  assume t: "(consumer_step capacity batch)\<^sup>*\<^sup>* s t \<and> (\<nexists>u. consumer_step capacity batch t u)"
  then have "(consumer_step capacity batch)\<^sup>*\<^sup>* s t" by blast
  then have ct: "cs_poll_cancelled t" using c
    by (induction rule: rtranclp_induct) (auto dest: consumer_step_cancelled)
  with t have stuck: "cs_loop t = LoopDone \<and> cs_in_flight t = [] \<and> (\<exists>r. cs_stop t = ConsumerStopped r)"
    using consumer_stuck by blast
  then show "cs_loop t = LoopDone" "cs_in_flight t = []" "\<exists>r. cs_stop t = ConsumerStopped r" by blast+
  have "consumer_ok capacity batch t"
    using t assms(1) by (meson consumer_run_ok [OF _ assms(2,3)] rtranclp_trans)
  then show "mset (cs_received t) = mset (cs_handled t) + mset (cs_dropped t)"
    using stuck by (simp add: consumer_ok_def accounted_def)
qed

subsection \<open>A run\<close>

text \<open>One message is received and handed to a handler; then the consumer is stopped.\<close>

definition ex_dispatched :: consumer_state where
  "ex_dispatched = consumer_initial\<lparr>cs_loop := Dispatching [], cs_in_flight := [ex_received], cs_received := [ex_received]\<rparr>"

definition ex_stopping :: consumer_state where
  "ex_stopping = ex_dispatched\<lparr>cs_poll_cancelled := True, cs_stop := AwaitLoop\<rparr>"

lemma ex_dispatched_reached: "(consumer_step 4 2)\<^sup>*\<^sup>* consumer_initial ex_dispatched"
proof -
  let ?a = "consumer_initial\<lparr>cs_loop := Receiving 2 False\<rparr>"
  let ?b = "consumer_initial\<lparr>cs_loop := Dispatching [ex_received], cs_received := [ex_received]\<rparr>"
  have "consumer_step 4 2 consumer_initial ?a"
    using consumer_step.ask [of consumer_initial 4 2]
    by (simp add: consumer_initial_def in_flight_def availableBatch_def)
  moreover have "consumer_step 4 2 ?a ?b"
    using consumer_step.receive [of ?a 2 "[ex_received]" 4 2] by (simp add: consumer_initial_def)
  moreover have "consumer_step 4 2 ?b ex_dispatched"
    using consumer_step.dispatch [of ?b ex_received "[]" 4 2]
    by (simp add: ex_dispatched_def consumer_initial_def in_flight_def)
  ultimately show ?thesis by (meson converse_rtranclp_into_rtranclp rtranclp.rtrancl_refl)
qed

lemma ex_stopping_reached: "(consumer_step 4 2)\<^sup>*\<^sup>* consumer_initial ex_stopping"
  using consumer_step.stop [of ex_dispatched 4 2] ex_dispatched_reached
  by (auto simp: ex_stopping_def ex_dispatched_def consumer_initial_def intro: rtranclp.rtrancl_into_rtrancl)

theorem consumer_loop_accounts_witness:
  "in_flight ex_dispatched = 1 \<and> in_flight ex_dispatched \<le> 4 \<and>
   mset (cs_received ex_dispatched) =
     mset (cs_handled ex_dispatched) + mset (cs_in_flight ex_dispatched) +
     mset (undispatched (cs_loop ex_dispatched)) + mset (cs_dropped ex_dispatched)"
  using consumer_loop_accounts [OF ex_dispatched_reached]
  by (simp add: ex_dispatched_def in_flight_def)

theorem consumer_stops_witness:
  "\<exists>t. (consumer_step 4 2)\<^sup>*\<^sup>* ex_stopping t \<and> cs_loop t = LoopDone \<and> cs_in_flight t = [] \<and>
     (\<exists>r. cs_stop t = ConsumerStopped r)"
proof -
  have "cs_stop ex_stopping \<noteq> NotStopping" by (simp add: ex_stopping_def)
  from consumer_stops [OF ex_stopping_reached _ _ this] show ?thesis by fastforce
qed

end
