(* ===== verification/Process.thy ===== *)
theory Process
  imports Config Gateway Http_Effects Instrumentation Worker_Pool Consumer_Loop Delivery_Progress
begin

text \<open>
  The two processes: \<^verbatim>\<open>cmd/server\<close> and \<^verbatim>\<open>cmd/sqs-gateway\<close>, what their entry points decide, how the
  components are constructed and started, the checks they register with \<^verbatim>\<open>health.Status\<close>, and the two
  gauges that are observed from the outside. The HTTP client, the connection pool and its parser of
  URLs are parameters; the container (\<^verbatim>\<open>fx\<close>) that calls the constructors and hooks is not modelled.
\<close>

section \<open>The server process\<close>

text \<open>
  The parameter \<open>get\<close> is a GET request of the default HTTP client: the status of the response or an
  error.
\<close>

type_synonym http_get = "string \<Rightarrow> nat result"

definition get_ok :: "http_get \<Rightarrow> string \<Rightarrow> string \<Rightarrow> err option" where
  "get_ok get url what =
     (case get url of
        Inl e \<Rightarrow> Some e
      | Inr status \<Rightarrow> if status \<noteq> 200 then Some (Opaque what) else None)"

definition checkHealth :: "http_get \<Rightarrow> err option" where
  "checkHealth get = get_ok get ''http://127.0.0.1:8080/health/ready'' ''readiness returned''"

text \<open>How a process ends, or that it goes on as a server.\<close>

datatype 'a process = Finished | Exit nat | Runs 'a

definition server_main :: "string list \<Rightarrow> http_get \<Rightarrow> os \<Rightarrow> (config \<times> duration) process" where
  "server_main args get os =
     (if length args = 2 \<and> args ! 1 = ''healthcheck'' then
        (case checkHealth get of Some e \<Rightarrow> Exit 1 | None \<Rightarrow> Finished)
      else (case Load os of
          Inl e \<Rightarrow> Exit 1
        | Inr cfg \<Rightarrow> Runs (cfg, StopTimeout cfg)))"

datatype log_level = LevelInfo | LevelDebug

definition newLogger :: "config \<Rightarrow> log_level" where
  "newLogger cfg = (let level = LevelInfo in if cf_LogLevel cfg = ''debug'' then LevelDebug else level)"

section \<open>Constructors and start hooks\<close>

text \<open>
  \<^verbatim>\<open>NewPool\<close>: \<open>parse\<close> and \<open>create\<close> are the functions of the driver, \<open>ping\<close> its check of a pool. A
  pool that does not answer when it starts is closed.
\<close>

definition NewPool :: "(string \<Rightarrow> 'c result) \<Rightarrow> ('c \<Rightarrow> int \<Rightarrow> int \<Rightarrow> 'p result) \<Rightarrow> ('p \<Rightarrow> 'k) \<Rightarrow> config
    \<Rightarrow> 'k health_status \<Rightarrow> 'p result \<times> 'k health_status" where
  "NewPool parse create ping cfg st =
     (case parse (cf_DatabaseURL cfg) of
        Inl e \<Rightarrow> (Inl e, st)
      | Inr c \<Rightarrow>
          (case create c (cf_DatabaseMaxConns cfg) (cf_DatabaseMinConns cfg) of
             Inl e \<Rightarrow> (Inl e, st)
           | Inr pool \<Rightarrow> (Inr pool, Register ''postgres'' (ping pool) st)))"

record pool_state =
  ps_closed :: bool

definition pool_OnStart :: "err option \<Rightarrow> pool_state \<Rightarrow> err option \<times> pool_state" where
  "pool_OnStart ping s = (case ping of Some e \<Rightarrow> (Some e, s\<lparr>ps_closed := True\<rparr>) | None \<Rightarrow> (None, s))"

definition pool_OnStop :: "pool_state \<Rightarrow> err option \<times> pool_state" where
  "pool_OnStop s = (None, s\<lparr>ps_closed := True\<rparr>)"

text \<open>The check of the identity provider, which is also its start hook.\<close>

definition verifier_check :: "http_get \<Rightarrow> config \<Rightarrow> err option" where
  "verifier_check get cfg = get_ok get (cf_OIDCJWKSURL cfg) ''OIDC JWKS endpoint returned''"

definition NewVerifier :: "'k \<Rightarrow> 'k health_status \<Rightarrow> 'k health_status" where
  "NewVerifier check st = Register ''oidc'' check st"

definition NewConsumer :: "'k \<Rightarrow> 'k health_status \<Rightarrow> 'k health_status" where
  "NewConsumer check st = Register ''sqs'' check st"

definition NewOutboxWorker :: "'k \<Rightarrow> 'k health_status \<Rightarrow> 'k health_status" where
  "NewOutboxWorker check st = Register ''outbox_queue'' check st"

text \<open>The publication worker starts its pool when the output queue answers.\<close>

definition outbox_worker_start ::
  "sqs_client \<Rightarrow> string \<Rightarrow> config \<Rightarrow> (node, node pool) io" where
  "outbox_worker_start cl name cfg =
     io_try (sender_Check cl name) (\<lambda>_ s. (Inr (pool_start (nat (cf_OutboxWorkers cfg)) s), s))"

definition reference_worker_start :: "config \<Rightarrow> world \<Rightarrow> world pool" where
  "reference_worker_start cfg w = pool_start (nat (cf_ReferenceWorkers cfg)) w"

record http_server =
  hs_Addr :: string
  hs_ReadHeaderTimeout :: duration
  hs_ReadTimeout :: duration
  hs_WriteTimeout :: duration
  hs_IdleTimeout :: duration
  hs_shutdownTimeout :: duration

definition newServer :: "config \<Rightarrow> http_server" where
  "newServer cfg =
     \<lparr>hs_Addr = cf_HTTPAddress cfg, hs_ReadHeaderTimeout = cf_ReadHeaderTimeout cfg, hs_ReadTimeout = cf_ReadTimeout cfg,
      hs_WriteTimeout = cf_WriteTimeout cfg, hs_IdleTimeout = cf_IdleTimeout cfg, hs_shutdownTimeout = cf_ShutdownTimeout cfg\<rparr>"

section \<open>Gauges\<close>

text \<open>
  \<^verbatim>\<open>OutboxStore.Stats\<close>: the number of rows to publish and the age of the oldest, in nanoseconds here;
  \<open>fl_Seconds\<close> turns it into the \<^verbatim>\<open>double precision\<close> seconds of the query.
\<close>

definition outbox_Stats :: "env \<Rightarrow> (world, int \<times> duration) io" where
  "outbox_Stats env =
     sql env (\<lambda>n d. Inr ((int (length (unpublished d)),
        (if unpublished d = [] then 0 else max 0 (env_db_now env n - Min (xr_occurred_at ` set (unpublished d))))), d))"

definition observeBacklog :: "env \<Rightarrow> 'f floats \<Rightarrow> 'f metrics \<Rightarrow> (world, 'f metrics) io" where
  "observeBacklog env fl m =
     io_catch (outbox_Stats env) (\<lambda>r. case r of
       Inr (pending, age) \<Rightarrow> io_return (SetOutboxBacklog fl pending (fl_Seconds fl age) m)
     | Inl e \<Rightarrow> io_return m)"

definition observeDLQ :: "sqs_client \<Rightarrow> queue_urls \<Rightarrow> 'f floats \<Rightarrow> 'f metrics \<Rightarrow> (node, 'f metrics) io" where
  "observeDLQ cl urls fl m =
     io_catch (ApproximateMessages cl (qu_dlqURL urls)) (\<lambda>r. case r of
       Inl e \<Rightarrow> io_return m
     | Inr depth \<Rightarrow> io_return (SetDLQDepth fl depth m))"

text \<open>The backlog is zero exactly when there is nothing to publish.\<close>

lemma outbox_Stats_pending:
  assumes "outbox_Stats env w = (Inr (pending, age), w')"
  shows "db w' = db w" "pending = int (length (unpublished (db w)))" "0 \<le> age" "pending = 0 \<longleftrightarrow> unpublished (db w) = []"
  using assms by (auto simp: outbox_Stats_def sql_def split: option.splits if_splits)

section \<open>The gateway process\<close>

text \<open>What the gateway is built from besides its libraries, and the answer to a request it refuses.\<close>

definition newGateway :: "gateway \<Rightarrow> string \<Rightarrow> string \<Rightarrow> (string \<rightharpoonup> principal) \<Rightarrow> gateway" where
  "newGateway libraries region account principals =
     libraries\<lparr>gw_principals := principals, gw_region := region, gw_account := account\<rparr>"

definition deny :: "nat \<times> string \<times> string" where
  "deny = (403, ''application/x-amz-json-1.0'',
     ''{'' @ json_string ''__type'' @ '':'' @ json_string ''AccessDenied'' @ '','' @
     json_string ''message'' @ '':'' @ json_string ''SQS access denied'' @ ''}'')"

text \<open>
  \<open>read\<close> reads a file; \<open>decode\<close> is the JSON decoder of policies. The gateway listens until
  \<^verbatim>\<open>ListenAndServe\<close> fails.
\<close>

definition gateway_main :: "string list \<Rightarrow> http_get \<Rightarrow> (string \<Rightarrow> string) \<Rightarrow> (string \<Rightarrow> string result)
    \<Rightarrow> (string \<Rightarrow> statement list option) \<Rightarrow> gateway \<Rightarrow> gateway process" where
  "gateway_main args get environ read decode libraries =
     (if length args > 1 \<and> args ! 1 = ''healthcheck'' then
        (case get ''http://127.0.0.1:4566/healthz'' of
           Inl e \<Rightarrow> Exit 1
         | Inr status \<Rightarrow> if status \<noteq> 200 then Exit 1 else Finished)
      else
        let region = getenv environ ''SQS_GATEWAY_REGION'' ''us-east-1'';
            account = ''000000000000''
        in (case readPolicy decode (read ''/policies/iam-policy-app.json'') region account of
              Inl e \<Rightarrow> Exit 1
            | Inr appPolicy \<Rightarrow>
                (case readPolicy decode (read ''/policies/iam-policy-ingest-producer.json'') region account of
                   Inl e \<Rightarrow> Exit 1
                 | Inr producerPolicy \<Rightarrow>
                     Runs (newGateway libraries region account (main_principals environ appPolicy producerPolicy)))))"

lemma readPolicy_Inr: "readPolicy decode contents region account = Inr statements \<Longrightarrow> statements \<noteq> []"
  by (auto simp: readPolicy_def and_then_eq_Inr split: option.splits if_splits)

text \<open>
  A gateway that runs answers its own health check, and serves nobody but the four principals, all
  of whose policies have statements.
\<close>

lemma gateway_main_runs:
  assumes "gateway_main args get environ read decode libraries = Runs g"
  obtains app producer where "app \<noteq> []" "producer \<noteq> []"
    "gw_principals g = main_principals environ app producer" "gw_account g = ''000000000000''"
proof -
  define region where "region = getenv environ ''SQS_GATEWAY_REGION'' ''us-east-1''"
  define policy where "policy = (\<lambda>file. readPolicy decode (read file) region ''000000000000'')"
  have runs: "(case policy ''/policies/iam-policy-app.json'' of Inl e \<Rightarrow> Exit 1
      | Inr app \<Rightarrow> (case policy ''/policies/iam-policy-ingest-producer.json'' of Inl e \<Rightarrow> Exit 1
         | Inr producer \<Rightarrow> Runs (newGateway libraries region ''000000000000'' (main_principals environ app producer)))) = Runs g"
    using assms unfolding gateway_main_def Let_def region_def [symmetric] policy_def
    by (cases "length args > 1 \<and> args ! 1 = ''healthcheck''")
      (simp_all split: sum.splits if_splits del: not_less)
  obtain app where app: "policy ''/policies/iam-policy-app.json'' = Inr app"
    using runs by (cases "policy ''/policies/iam-policy-app.json''") simp_all
  obtain producer where producer: "policy ''/policies/iam-policy-ingest-producer.json'' = Inr producer"
    using runs app by (cases "policy ''/policies/iam-policy-ingest-producer.json''") simp_all
  have g: "g = newGateway libraries region ''000000000000'' (main_principals environ app producer)"
    using runs app producer by simp
  show thesis
    by (rule that [of app producer]) (use app producer readPolicy_Inr g in \<open>auto simp: policy_def newGateway_def\<close>)
qed

lemma gateway_healthy: "qr_method r = ''GET'' \<Longrightarrow> qr_path r = ''/healthz'' \<Longrightarrow> gateway_ServeHTTP g r = Healthy"
  by (simp add: gateway_ServeHTTP_def)

section \<open>What the probe and the gauges say\<close>

lemmas checks_defs = NewOutboxWorker_def NewConsumer_def NewVerifier_def Register_def

lemma NewPool_Inr:
  assumes "NewPool parse create ping cfg health_New = (Inr pool, st)"
  shows "st = Register ''postgres'' (ping pool) health_New"
  using assms by (auto simp: NewPool_def split: sum.splits)

text \<open>The checks of the application, however the container orders the constructors.\<close>

lemma Register_commute: "n \<noteq> m \<Longrightarrow> Register n c (Register m d st) = Register m d (Register n c st)"
  by (simp add: Register_def fun_upd_twist)

lemma application_checks:
  assumes "st = NewOutboxWorker outq (NewConsumer inq (NewVerifier idp (Register ''postgres'' pg health_New)))"
  shows "dom (hs_checks st) = set dependency_names" "hs_checks st ''postgres'' = Some pg" "hs_checks st ''oidc'' = Some idp"
    "hs_checks st ''sqs'' = Some inq" "hs_checks st ''outbox_queue'' = Some outq"
  using assms by (auto simp: checks_defs health_New_def dependency_names_def)

lemma Ready_simps:
  "Ready False checks = Some (None, Opaque ''service is not accepting traffic'')"
  "Ready True [] = None"
  "Ready True ((n, outcome) # checks) = (case outcome of Some e \<Rightarrow> Some (Some n, e) | None \<Rightarrow> Ready True checks)"
  by (simp_all add: Ready_def split: option.splits)

lemma Ready_None: "Ready ready checks = None \<longleftrightarrow> ready \<and> (\<forall>(n, outcome) \<in> set checks. outcome = None)"
proof (cases ready)
  case True
  have "Ready True checks = None \<longleftrightarrow> (\<forall>(n, outcome) \<in> set checks. outcome = None)"
    by (induction checks) (auto simp: Ready_simps split: option.splits)
  with True show ?thesis by simp
qed (simp add: Ready_simps)

lemma Ready_names: "Ready ready checks = Some (Some n, e) \<Longrightarrow> n \<in> fst ` set checks"
proof (cases ready)
  case True
  have "Ready True checks = Some (Some n, e) \<Longrightarrow> n \<in> fst ` set checks"
    by (induction checks) (auto simp: Ready_simps split: option.splits)
  with True show "Ready ready checks = Some (Some n, e) \<Longrightarrow> n \<in> fst ` set checks" by simp
qed (simp add: Ready_simps)

lemma readiness_status:
  assumes "endpoint r = Some Readiness"
  shows "rs_status (fst (newMux api r w)) = 200 \<longleftrightarrow> Ready (api_ready api) (api_checks api) = None"
  using assms by (simp add: newMux_def split: option.splits)

text \<open>
  Property C31. The health probe of the container is truthful. When the probe reaches the server, it
  succeeds exactly when the server serves and the database, the identity provider, the input queue
  and the output queue pass their checks, in whatever order they are asked; and a failed dependency is
  always one the metrics have a series for.
\<close>

theorem health_probe_truthful:
  assumes "NewPool parse create ping cfg health_New = (Inr pool, st0)"
    and "st = NewOutboxWorker outq (NewConsumer inq (NewVerifier idp st0))"
    and "set names = dom (hs_checks st)" and "api_checks api = map (\<lambda>n. (n, run (the (hs_checks st n)))) names"
    and "endpoint r = Some Readiness"
    and "get ''http://127.0.0.1:8080/health/ready'' = Inr (rs_status (fst (newMux api r w)))"
  shows "(server_main [program, ''healthcheck''] get os = Finished \<longleftrightarrow>
      api_ready api \<and> run (ping pool) = None \<and> run idp = None \<and> run inq = None \<and> run outq = None) \<and>
    (\<forall>name e. Ready (api_ready api) (api_checks api) = Some (Some name, e) \<longrightarrow> name \<in> set dependency_names)"
proof -
  have st: "st = NewOutboxWorker outq (NewConsumer inq (NewVerifier idp (Register ''postgres'' (ping pool) health_New)))"
    using assms(2) NewPool_Inr [OF assms(1)] by simp
  note c = application_checks [OF st]
  have names: "set names = set dependency_names" using assms(3) c(1) by simp
  have "(\<forall>(n, outcome) \<in> set (api_checks api). outcome = None) \<longleftrightarrow> (\<forall>n \<in> set dependency_names. run (the (hs_checks st n)) = None)"
    unfolding assms(4) using names by auto
  also have "\<dots> \<longleftrightarrow> run (ping pool) = None \<and> run idp = None \<and> run inq = None \<and> run outq = None"
    using c by (simp add: dependency_names_def)
  finally have ready: "Ready (api_ready api) (api_checks api) = None \<longleftrightarrow>
      api_ready api \<and> run (ping pool) = None \<and> run idp = None \<and> run inq = None \<and> run outq = None"
    by (simp add: Ready_None)
  have "server_main [program, ''healthcheck''] get os = Finished \<longleftrightarrow> rs_status (fst (newMux api r w)) = 200"
    using assms(6) by (simp add: server_main_def checkHealth_def get_ok_def)
  moreover have "name \<in> set dependency_names" if "Ready (api_ready api) (api_checks api) = Some (Some name, e)" for name e
    using Ready_names [OF that] names by (simp add: assms(4) image_image)
  ultimately show ?thesis using ready readiness_status [OF assms(5), of api w] by simp
qed

definition ex_probe :: request where
  "ex_probe = ex_request ''GET'' [''health'', ''ready''] []"

definition ex_checked_api :: "err option \<Rightarrow> api" where
  "ex_checked_api database = ex_api\<lparr>api_checks := map (\<lambda>n. (n, if n = ''postgres'' then database else None)) dependency_names\<rparr>"

definition ex_get :: "err option \<Rightarrow> http_get" where
  "ex_get database = (\<lambda>_. Inr (rs_status (fst (newMux (ex_checked_api database) ex_probe ex_world))))"

theorem health_probe_truthful_witness:
  "server_main [''server'', ''healthcheck''] (ex_get None) (ex_os (ex_environment None None)) = Finished \<and>
   server_main [''server'', ''healthcheck''] (ex_get (Some (Opaque ''down''))) (ex_os (ex_environment None None)) \<noteq> Finished"
proof -
  let ?st = "\<lambda>database. NewOutboxWorker None (NewConsumer None (NewVerifier None (Register ''postgres'' database health_New)))"
  have pool: "NewPool Inr (\<lambda>c _ _. Inr c) (\<lambda>_. database) cfg health_New =
      (Inr (cf_DatabaseURL cfg), Register ''postgres'' database health_New)" for database :: "err option" and cfg
    by (simp add: NewPool_def)
  have names: "set dependency_names = dom (hs_checks (?st database))" for database :: "err option"
    by (rule application_checks(1) [OF refl, symmetric])
  have checks: "api_checks (ex_checked_api database) = map (\<lambda>n. (n, id (the (hs_checks (?st database) n)))) dependency_names" for database
    by (simp add: ex_checked_api_def dependency_names_def checks_defs health_New_def)
  have e: "endpoint ex_probe = Some Readiness" by (simp add: endpoint_def endpoint_of_path_def ex_probe_def ex_request_def)
  have get: "ex_get database ''http://127.0.0.1:8080/health/ready'' =
      Inr (rs_status (fst (newMux (ex_checked_api database) ex_probe ex_world)))" for database
    by (simp add: ex_get_def)
  have ready: "api_ready (ex_checked_api database)" for database by (simp add: ex_checked_api_def ex_api_def)
  have "server_main [''server'', ''healthcheck''] (ex_get database) (ex_os (ex_environment None None)) = Finished \<longleftrightarrow> database = None" for database
    using health_probe_truthful [where run = id and ping = "\<lambda>_. database" and st = "?st database"
          and get = "ex_get database" and names = dependency_names, OF pool [of database] refl names checks [of database] e get [of database],
        of "''server''" "ex_os (ex_environment None None)"] ready [of database] by simp
  then show ?thesis by simp
qed

end
