(* ===== verification/Spec2Isabelle.thy ===== *)
theory Spec2Isabelle
  imports Concurrency Process
begin

text \<open>
  A wallet and wagering service written in Go: game providers submit bets, wins, losses, refunds and
  rollbacks over HTTP or through an SQS queue; each is settled at most once against a wallet in
  PostgreSQL, booked in an append-only ledger and announced through an outbox. This development
  models the service and proves what makes it correct.

  \<^bold>\<open>The program and its parts.\<close> Amounts, wallets, ledger entries and transactions are values
  with checking constructors (\<^verbatim>\<open>internal/domain\<close>). Application services (\<^verbatim>\<open>internal/application\<close>) work
  on them through interfaces, which the PostgreSQL stores (\<^verbatim>\<open>internal/adapters/postgres\<close>) implement
  with transactions, row locks, unique indexes and triggers (\<^verbatim>\<open>migrations\<close>). Requests enter through
  the HTTP interface or the SQS consumer. Two pools of background workers resume transactions that wait
  for their reference and publish the events of the outbox. A separate command, the SQS gateway, guards
  the local queue engine.

  \<^bold>\<open>State and effects.\<close> A Go function that reads a clock, draws random bytes or talks to the database
  is a function from the state of the world to a result or an error and the next state
  (\<open>io\<close> of \<open>Prelude\<close>). A \<open>world\<close> is a database of tables, lists of records, and a tick that counts
  the external calls; an \<open>env\<close> gives the outcome of every such call by its tick, so every failure of
  the database, every clock and every cancellation can happen at every call. The error values of Go,
  with \<^verbatim>\<open>errors.Is\<close> and joined errors, are the type \<open>err\<close>; the text behind a wrapped error is dropped.
  A \<open>node\<close> adds what the queue was asked and what it accepted. Integers of 64 bits are words, and their
  overflow is part of the model.

  \<^bold>\<open>Theories, and the code they model.\<close>
    \<^item> \<open>Prelude\<close>: errors, results, \<open>io\<close>, time, text functions of the standard library, and lemmas.
    \<^item> \<open>Money\<close>, \<open>Ledger\<close>, \<open>Wallet\<close>, \<open>Wagering\<close>, \<open>Event\<close>: the packages of \<^verbatim>\<open>internal/domain\<close>. Each
      constructor and method is a definition; the lemmas say when it succeeds and what it returns.
      The locale \<open>movement\<close> is what a credit and a debit share.
    \<^item> \<open>Uuid\<close>: \<^verbatim>\<open>internal/platform/id\<close>.
    \<^item> \<open>Schema\<close>: the tables of \<^verbatim>\<open>migrations\<close> with their checks, keys, indexes and triggers.
    \<^item> \<open>Postgres\<close>: \<^verbatim>\<open>unit_of_work.go\<close>, the repositories, and the lemma that a transaction, with its
      retries, is atomic (\<open>atomic_outcome\<close>).
    \<^item> \<open>Canonical\<close>, \<open>Wager_Service\<close>: \<^verbatim>\<open>internal/application/wagering\<close> with \<^verbatim>\<open>wager_store.go\<close>.
    \<^item> \<open>Books\<close>: the system invariant \<open>books_ok\<close> of wallets, ledger and transactions.
    \<^item> \<open>Settlement\<close>: the abstract steps \<open>settled\<close>, \<open>submitted\<close>, the contract of a database session as the
      locale \<open>wager_session\<close>, and the refinement of submissions to these steps.
    \<^item> \<open>Wallet_Service\<close>, \<open>Pages\<close>: \<^verbatim>\<open>internal/application/wallet\<close> with \<^verbatim>\<open>wallet_store.go\<close>; opening a
      wallet as one step, and reading the ledger page by page.
    \<^item> \<open>Ingestion\<close>: \<^verbatim>\<open>internal/application/ingestion\<close>, on the locale \<open>inbox_session\<close>.
    \<^item> \<open>Reference\<close>, \<open>Backoff\<close>: \<^verbatim>\<open>internal/application/reference\<close> and the delays of both workers.
    \<^item> \<open>Outbox\<close>: \<^verbatim>\<open>internal/application/outbox\<close>, the delivery protocol of any number of workers, and the
      refinement of a round to it through the locale \<open>delivery_service\<close>.
    \<^item> \<open>Reconciliation\<close>: \<^verbatim>\<open>internal/application/reconciliation\<close>.
    \<^item> \<open>Failures\<close>: \<^verbatim>\<open>internal/platform/safeerror\<close> and \<^verbatim>\<open>dependency_errors.go\<close>.
    \<^item> \<open>Broker\<close>, \<open>Consumer\<close>, \<open>Consumer_Loop\<close>: \<^verbatim>\<open>internal/adapters/sqs\<close>; what is done with one
      message, and the goroutines that receive, handle and stop.
    \<^item> \<open>Worker_Pool\<close>: \<^verbatim>\<open>internal/adapters/reference/worker.go\<close> and \<^verbatim>\<open>outbox_worker.go\<close>, one pool of
      goroutines over a function for a round; the locale \<open>worker_pool\<close> carries the invariants of rounds
      to pools.
    \<^item> \<open>Auth\<close>, \<open>Http\<close>, \<open>Http_Effects\<close>: \<^verbatim>\<open>internal/adapters/auth\<close> and \<^verbatim>\<open>internal/adapters/http\<close>; routing,
      decoding, handlers and answers, and what a request does to the database.
    \<^item> \<open>Config\<close>: \<^verbatim>\<open>internal/platform/config\<close>, and what an accepted configuration guarantees the others.
    \<^item> \<open>Instrumentation\<close>: \<^verbatim>\<open>internal/platform/metrics\<close>, \<^verbatim>\<open>internal/platform/health\<close>, \<^verbatim>\<open>server.go\<close>.
    \<^item> \<open>Gateway\<close>: \<^verbatim>\<open>cmd/sqs-gateway\<close> with the policies of \<^verbatim>\<open>deploy/aws\<close>.
    \<^item> \<open>System\<close>: the composition; \<open>system_step\<close> interleaves the committed operations of any number of
      replicas, and the invariants of reachable states are proved here.
    \<^item> \<open>Delivery_Progress\<close>: how far the rounds of one publication worker bring the outbox.
    \<^item> \<open>Process\<close>: the entry points of \<^verbatim>\<open>cmd/server\<close> and \<^verbatim>\<open>cmd/sqs-gateway\<close>, the constructors and start
      hooks that decide something (\<^verbatim>\<open>module.go\<close>, \<^verbatim>\<open>pool.go\<close>, \<^verbatim>\<open>NewVerifier\<close>, \<^verbatim>\<open>NewConsumer\<close>,
      \<^verbatim>\<open>NewOutboxWorker\<close>, \<^verbatim>\<open>newServer\<close>), and the two gauges observed from outside.
    \<^item> \<open>Program\<close>: the composition on the side of the code; \<open>program_step\<close> runs whole HTTP requests, whole
      messages and rounds of both workers as the code does, with what was answered and acknowledged, and
      every step of it is a run of \<open>system_step\<close>.
    \<^item> \<open>Concurrency\<close>: publication rounds that run at the same time. The definition of \<^verbatim>\<open>ProcessOne\<close> is run
      call by call, each call in a state given from outside (\<open>calls_of\<close>), and \<open>concurrent_step\<close> interleaves
      the calls of any number of rounds with the steps of \<open>Program\<close>; such a run is a run of \<open>system_step\<close>.
    \<^item> \<open>Example\<close>, \<open>Example_Run\<close>, \<open>Example_Bet\<close>: concrete inputs on which theorems are instantiated;
      \<open>Example_Bet\<close> evaluates an opening and a bet over HTTP and the same bet as a message.

  \<^bold>\<open>What the lemmas show.\<close> Bottom up: each operation of the domain is characterised on all of its
  branches; each repository operation keeps the constraints of the schema; each service operation is
  one abstract step on the books or changes nothing, whatever fails, the only exception being a commit
  whose outcome the caller cannot know; every step queues the events that announce it, and the payload
  of each is compared with the row it speaks of (\<open>announced\<close>, \<open>entry_announced\<close>); the steps keep \<open>books_ok\<close>, the outbox's delivery invariant
  and the history; so do workers, consumers and requests, which are made of these operations. Last,
  \<open>Program\<close> gives the invariants to every state the code can reach through its requests, messages and
  workers, so that what a client was told and what was acknowledged to the queue can be compared with
  the database at any later time. The properties of this theory are the end of that chain.

  \<^bold>\<open>Bounds.\<close> A transaction is tried three times, as in \<^verbatim>\<open>ReadCommittedWithRetry\<close>; the count is the
  code's and not a limit of the model. No other fuel is used: loops recurse on their data or have
  a termination proof, and the goroutines, which may run for ever, are step relations.

  \<^bold>\<open>Assumptions.\<close> Transactions that touch the same rows are serialised by the row locks the code takes,
  so the committed operations of replicas interleave as whole steps; a publication round is not one such
  step but several, and its calls interleave one by one. A failed statement or commit is
  rolled back, unless the commit's answer was lost, in which case it may have happened or not. The
  assumptions on an environment are \<open>env_ok\<close>: the clocks are not before 1970, storing a time keeps the
  order of times, random reads yield 16 bytes and hashes 32, the database generates UUIDs, the jitter
  lies in its range, and a commit that happened although it failed reports an ambiguous error.

  \<^bold>\<open>Parameters.\<close> Code outside the repository is an argument of the definitions: the JSON decoder and the
  text of JSON values, SHA-256, the OIDC library, the AWS signature, the clients of SQS, the URL parser,
  the base64 form of a cursor (decoding must give back what is encoded), and floating point numbers.

  \<^bold>\<open>Not modelled.\<close> The container that calls the constructors (\<^verbatim>\<open>fx\<close>, with the lists of providers in
  \<^verbatim>\<open>internal/bootstrap\<close> and the \<^verbatim>\<open>module.go\<close> files, which hold no logic of their own), the construction
  of the SDK clients, the server of the HTTP library with its timeouts and its shutdown, the reverse proxy
  of the gateway, and the text of the log: they only call libraries. The goroutines that observe the
  backlog and the dead-letter queue are modelled by one observation and not by their timers. Database roles
  and grants are not part of the schema's model.
\<close>

section \<open>Properties of the system\<close>

text \<open>
  Property C1. Money is conserved in every state the system can reach: the stored balance of a wallet
  is the sum of its ledger movements, it is never negative, and the entries of the wallet form an
  unbroken chain of balances and versions that ends at the stored ones. This holds whatever
  operations the replicas ran, in whatever order, with whatever failures.
\<close>

theorem balances_conserved:
  assumes "(system_step jsonb)\<^sup>*\<^sup>* empty_system s" and "r \<in> set (wallets (dl_db s))"
  shows "0 \<le> sint (wr_balance_minor r) \<and>
    sint (wr_balance_minor r) = (\<Sum>e \<leftarrow> entries_of (wr_id r) (dl_db s). row_delta e) \<and>
    wallet_books r (entries_of (wr_id r) (dl_db s))"
proof -
  have "books_ok (dl_db s)" using reachable_ok [OF assms(1)] by (simp add: system_ok_def tables_ok_def)
  then have b: "wallet_row_ok r" "wallet_books r (entries_of (wr_id r) (dl_db s))"
    using assms(2) by (auto simp: books_ok_def)
  then show ?thesis using wallet_books_sum by (auto simp: wallet_row_ok_def wallet_checks_def)
qed

theorem balances_conserved_witness:
  "wallets (dl_db ex_system) = [wallet_row_of ex_env ex_account] \<and>
    (\<Sum>e \<leftarrow> entries_of (ex_uuid 0) (dl_db ex_system). row_delta e) = 5000"
proof -
  have "wallet_row_of ex_env ex_account \<in> set (wallets (dl_db ex_system))" by (simp add: ex_system_tables)
  from balances_conserved [OF ex_system_reachable this] show ?thesis
    by (simp add: ex_system_tables wallet_row_of_def ex_account_def brl_def)
qed

text \<open>
  Property C2. Nothing that was committed is undone: along any run of the system from a reachable
  state, the ledger only grows at its end, every transaction keeps its identity and request and is
  unchanged once it is processed or rejected, every wallet keeps its owner, its currency and a
  version that never decreases, a completed message stays completed, every event of the outbox keeps
  its contents, and the queue's messages are only appended to.
\<close>

theorem history_preserved:
  assumes "(system_step jsonb)\<^sup>*\<^sup>* empty_system s" and "(system_step jsonb)\<^sup>*\<^sup>* s s'"
  shows "prefix (ledger (dl_db s)) (ledger (dl_db s')) \<and>
    (\<forall>g \<in> set (wagers (dl_db s)). \<exists>g' \<in> set (wagers (dl_db s')). wager_kept g g') \<and>
    (\<forall>r \<in> set (wallets (dl_db s)). \<exists>r' \<in> set (wallets (dl_db s')). wallet_kept r r') \<and>
    (\<forall>q \<in> set (inbox (dl_db s)). ir_completed_at q \<noteq> None \<longrightarrow> q \<in> set (inbox (dl_db s'))) \<and>
    outbox_evolves (outbox (dl_db s)) (outbox (dl_db s')) \<and> prefix (dl_sent s) (dl_sent s')"
  using system_steps_ok [OF assms(2) reachable_ok [OF assms(1)]]
  unfolding system_kept_def history_kept_def by blast

theorem history_preserved_witness:
  "\<exists>r' \<in> set (wallets (dl_db \<lparr>dl_db = db (snd (Submit ex_env ex_input ex_opened)), dl_sent = [], dl_claims = []\<rparr>)).
     wallet_kept (wallet_row_of ex_env ex_account) r'"
proof -
  have "(system_step (\<lambda>_. []))\<^sup>*\<^sup>* ex_system
      \<lparr>dl_db = db (snd (Submit ex_env ex_input ex_opened)), dl_sent = [], dl_claims = []\<rparr>"
    unfolding ex_system_def using sys_submit [OF ex_env_ok surjective_pairing] by blast
  from history_preserved [OF ex_system_reachable this] show ?thesis by (simp add: ex_system_tables)
qed

text \<open>
  Property C3. No two committed transactions stand for the same thing: two rows of a reachable
  state with the same identifier, two external rows of one provider with the same idempotency key or
  the same external identifier, two openings of one wallet, or two processed reversals (refund or
  rollback) of one transaction, are the same row.
\<close>

theorem no_double_processing:
  assumes "(system_step jsonb)\<^sup>*\<^sup>* empty_system s"
    and "q \<in> set (wagers (dl_db s))" and "r \<in> set (wagers (dl_db s))"
    and "gr_id q = gr_id r \<or>
      (gr_origin q = OriginExternal \<and> gr_origin r = OriginExternal \<and> same_key (gr_provider_id q) (gr_provider_id r) \<and>
        (same_key (gr_idempotency_key q) (gr_idempotency_key r) \<or>
         same_key (gr_external_transaction_id q) (gr_external_transaction_id r))) \<or>
      (gr_kind q = KindOpening \<and> gr_kind r = KindOpening \<and> gr_wallet_id q = gr_wallet_id r) \<or>
      (gr_status q = StatusProcessed \<and> gr_kind q \<in> {KindRefund, KindRollback} \<and>
       gr_status r = StatusProcessed \<and> gr_kind r \<in> {KindRefund, KindRollback} \<and>
       same_key (gr_reference_transaction_id q) (gr_reference_transaction_id r))"
  shows "q = r"
proof -
  have "wagers_unique (wagers (dl_db s))"
    using reachable_ok [OF assms(1)] by (simp add: system_ok_def tables_ok_def books_ok_def)
  moreover have "wager_clash q r" using assms(4) unfolding wager_clash_def is_reversal_def by blast
  ultimately show ?thesis using wagers_unique_eq assms(2,3) by blast
qed

theorem no_double_processing_witness:
  "wager_row_of ex_env ex_transaction None = hd (wagers (dl_db ex_system))"
  by (rule no_double_processing [OF ex_system_reachable]) (simp_all add: ex_system_tables)

text \<open>
  Property C4. What happened is announced with its contents, and what is marked as published was
  delivered. In every state that requests, messages, workers and any number of interleaved publication
  rounds can reach: for every transaction the outbox holds an event whose payload states its identifier,
  its provider and kind, its current status, its amount and its resulting balance or failure; if it moved
  money, also a balance event whose payload names the transaction, its amount and the balance after it;
  for every ledger entry the outbox holds a balance event whose payload is that entry; and an event is
  marked as published only if the queue has accepted a message with its identifier and payload.
\<close>

theorem announced_and_delivered:
  assumes "(concurrent_step jsonb)\<^sup>*\<^sup>* started c"
  shows "(\<forall>g \<in> set (wagers (pg_db (cc_program c))). announced g (outbox (pg_db (cc_program c)))) \<and>
    (\<forall>e \<in> set (ledger (pg_db (cc_program c))). entry_announced e (outbox (pg_db (cc_program c)))) \<and>
    (\<forall>x \<in> set (outbox (pg_db (cc_program c))). xr_published_at x \<noteq> None \<longrightarrow>
      (\<exists>m \<in> set (pg_sent (cc_program c)). fst m = xr_event_id x \<and> snd (snd m) = jsonb (xr_payload x)))"
proof -
  obtain cs where "(system_step jsonb)\<^sup>*\<^sup>* empty_system (with_claims (cc_program c) cs)"
    using concurrent_reachable [OF assms] by blast
  from reachable_ok [OF this] show ?thesis
    by (simp add: system_ok_def tables_ok_def all_announced_def delivery_ok_def published_sent_def message_of_def with_claims_def)
qed

theorem announced_and_delivered_witness:
  "\<exists>c. (concurrent_step (\<lambda>_. ''1''))\<^sup>*\<^sup>* started c \<and> length (cc_rounds c) = 2 \<and>
     announced (wager_row_of ex_env ex_transaction None) (outbox (pg_db (cc_program c))) \<and>
     entry_announced (ledger_row_of ex_env ex_credit) (outbox (pg_db (cc_program c))) \<and>
     (\<exists>m \<in> set (pg_sent (cc_program c)). fst m = ex_uuid 4 \<and> snd (snd m) = ''1'')"
proof -
  obtain c0 c x where run: "(concurrent_step (\<lambda>_. ''1''))\<^sup>*\<^sup>* started c0" "(concurrent_step (\<lambda>_. ''1''))\<^sup>*\<^sup>* c0 c"
    and x: "length (cc_rounds c) = 2" "x \<in> set (outbox (pg_db (cc_program c)))" "xr_published_at x \<noteq> None" "xr_event_id x = ex_uuid 4"
    and rows: "wagers (pg_db (cc_program c)) = [wager_row_of ex_env ex_transaction None]"
      "ledger (pg_db (cc_program c)) = [ledger_row_of ex_env ex_credit]"
    using ex_concurrent_run by blast
  have c: "(concurrent_step (\<lambda>_. ''1''))\<^sup>*\<^sup>* started c" using run by (rule rtranclp_trans)
  note p = announced_and_delivered [OF c, unfolded rows]
  have "\<exists>m \<in> set (pg_sent (cc_program c)). fst m = ex_uuid 4 \<and> snd (snd m) = ''1''"
    using p x(2-4) by metis
  moreover have "announced (wager_row_of ex_env ex_transaction None) (outbox (pg_db (cc_program c)))"
    "entry_announced (ledger_row_of ex_env ex_credit) (outbox (pg_db (cc_program c)))"
    using p by simp_all
  ultimately show ?thesis using c x(1) by blast
qed

text \<open>
  Property C5. The books agree with each other in every reachable state: every ledger entry books
  exactly one processed transaction of the same wallet, currency and amount, every transaction that
  moved money has its entry, no transaction has two, and a reconciliation at any time reports
  no difference.
\<close>

theorem ledger_and_transactions_agree:
  assumes "(system_step jsonb)\<^sup>*\<^sup>* empty_system s"
  shows "(\<forall>e \<in> set (ledger (dl_db s)). \<exists>!g. g \<in> set (wagers (dl_db s)) \<and> books_transaction e g) \<and>
    (\<forall>g \<in> set (wagers (dl_db s)). gr_status g = StatusProcessed \<and> gr_kind g \<noteq> KindLoss \<longrightarrow>
      (\<exists>!e. e \<in> set (ledger (dl_db s)) \<and> lr_transaction_id e = gr_id g)) \<and>
    (\<forall>env i w c w'. db w = dl_db s \<longrightarrow> Reconcile env i w = (Inr c, w') \<longrightarrow>
      rc_Consistent c \<and> sint (minor (rc_Difference c)) = 0)"
proof (intro conjI ballI allI impI)
  have b: "books_ok (dl_db s)" using reachable_ok [OF assms] by (simp add: system_ok_def tables_ok_def)
  show "\<exists>!g. g \<in> set (wagers (dl_db s)) \<and> books_transaction e g" if "e \<in> set (ledger (dl_db s))" for e
  proof -
    have "q = g" if "q \<in> set (wagers (dl_db s))" "g \<in> set (wagers (dl_db s))" "books_transaction e q" "books_transaction e g" for q g
      using that wagers_unique_eq [of "wagers (dl_db s)" q g] b
      by (simp add: books_ok_def books_transaction_def wager_clash_def)
    then show ?thesis using that b unfolding books_ok_def by blast
  qed
  show "\<exists>!e. e \<in> set (ledger (dl_db s)) \<and> lr_transaction_id e = gr_id g"
    if "g \<in> set (wagers (dl_db s))" "gr_status g = StatusProcessed \<and> gr_kind g \<noteq> KindLoss" for g
  proof -
    have "\<exists>e \<in> set (ledger (dl_db s)). lr_transaction_id e = gr_id g" "inj_on lr_transaction_id (set (ledger (dl_db s)))"
      using that b by (simp_all add: books_ok_def moves_money_def distinct_map)
    then show ?thesis by (metis inj_onD)
  qed
  fix env i w c w'
  assume w: "db w = dl_db s" and r: "Reconcile env i w = (Inr c, w')"
  from Reconcile_outcome [OF r] obtain q where q: "q \<in> set (wallets (db w))" "wr_id q = i"
    "sint (minor (rc_Difference c)) = sint (wr_balance_minor q) - (\<Sum>e \<leftarrow> entries_of i (db w). row_delta e)"
    "rc_Consistent c \<longleftrightarrow> sint (wr_balance_minor q) = (\<Sum>e \<leftarrow> entries_of i (db w). row_delta e)"
    by blast
  have "sint (wr_balance_minor q) = (\<Sum>e \<leftarrow> entries_of i (db w). row_delta e)"
    using b q(1,2) wallet_books_sum unfolding w books_ok_def by blast
  with q(3,4) show "rc_Consistent c" "sint (minor (rc_Difference c)) = 0" by simp_all
qed

theorem ledger_and_transactions_agree_witness:
  "\<exists>!e. e \<in> set (ledger (dl_db ex_system)) \<and> lr_transaction_id e = ex_uuid 2"
  using ledger_and_transactions_agree [OF ex_system_reachable]
  by (simp add: ex_system_tables wager_row_of_def ex_transaction_def)

section \<open>Properties of the program\<close>

text \<open>
  Property C6. The program refines the system of operations. Every run of any number of replicas,
  through the HTTP interface, the message handler and the workers, is a run of the system, for some
  claims held by the workers, so every property of the reachable states of the system holds for the
  program. From any state on, the program only appends to the ledger, keeps final transactions,
  completed messages and wallets, and never takes back a message it sent.
\<close>

theorem program_refines_system:
  assumes "(program_step jsonb)\<^sup>*\<^sup>* empty_program p" and "(program_step jsonb)\<^sup>*\<^sup>* p q"
  shows "(\<exists>cs. (system_step jsonb)\<^sup>*\<^sup>* empty_system (with_claims q cs)) \<and> books_ok (pg_db q) \<and>
    history_kept (pg_db p) (pg_db q) \<and> prefix (pg_sent p) (pg_sent q)"
proof -
  have "(program_step jsonb)\<^sup>*\<^sup>* empty_program q" using assms by (rule rtranclp_trans)
  then show ?thesis
    using program_reachable program_tables_ok program_kept [OF assms] by (auto simp: tables_ok_def)
qed

theorem program_refines_system_witness:
  "\<exists>ys. (\<exists>cs. (system_step (\<lambda>_. ''1''))\<^sup>*\<^sup>* empty_system (with_claims (ex_final ys) cs)) \<and> books_ok (pg_db (ex_final ys)) \<and>
    history_kept (pg_db ex_program) (pg_db (ex_final ys))"
proof -
  obtain ys where "program_step (\<lambda>_. ''1'') ex_program (ex_program\<lparr>pg_db := ex_after ys\<rparr>)" using ex_program_answers by blast
  then have "(program_step (\<lambda>_. ''1''))\<^sup>*\<^sup>* ex_program (ex_final ys)" using ex_program_consumes [of "\<lambda>_. ''1''" ys] by simp
  from program_refines_system [OF ex_program_reachable this] show ?thesis by blast
qed

text \<open>
  Property C7. What a client was answered stays true. Once any replica has answered a submission with
  200 or 202, in every later state of the program, whatever requests, messages and rounds of workers
  come in between, the transaction of the answer is stored for the provider of the caller under the
  idempotency key of the request and is announced in the outbox; if the answer was final, the row has
  the status and the balance of the answer for ever; and if it moved money, exactly one ledger entry
  books it.
\<close>

theorem http_answers_last:
  assumes "(program_step jsonb)\<^sup>*\<^sup>* empty_program p" and "env_ok (api_env api)"
    and "newMux api r w = (resp, w')" and "db w = pg_db p"
    and "endpoint r = Some SubmitWager" and "rs_status resp \<in> {200, 202}"
    and "(program_step jsonb)\<^sup>*\<^sup>* (p\<lparr>pg_db := db w'\<rparr>) q"
  shows "\<exists>i t replay g. resp = writeWagerResponse t replay \<and>
    authenticated (api_oidc api) (rq_header r ''Authorization'') = Inr i \<and>
    g \<in> set (wagers (pg_db q)) \<and> gr_id g = t_id t \<and> gr_provider_id g = Some (ai_ProviderID i) \<and>
    gr_idempotency_key g = Some (rq_header r ''Idempotency-Key'') \<and> announced g (outbox (pg_db q)) \<and>
    (rs_status resp = 200 \<longrightarrow> told t g) \<and>
    (moves_money g \<longrightarrow> (\<exists>!e. e \<in> set (ledger (pg_db q)) \<and> lr_transaction_id e = t_id t))"
proof -
  let ?p = "p\<lparr>pg_db := db w'\<rparr>"
  have ok: "books_ok (db w)" using program_tables_ok [OF assms(1)] assms(4) by (simp add: tables_ok_def)
  obtain i where i: "authenticated (api_oidc api) (rq_header r ''Authorization'') = Inr i"
    and eff: "submit_effect (api_env api) i (rq_header r ''Idempotency-Key'') resp (db w) (db w')"
    using assms(2) ok assms(3) by (rule newMux_cases) (use assms(5,6) in \<open>auto simp: route_effect_def\<close>)
  from eff assms(6) obtain res where res: "submits (api_env api) i (rq_header r ''Idempotency-Key'') res (db w) (db w')"
    and resp: "resp = writeWagerResponse (sr_Transaction res) (sr_Replay res)"
    unfolding submit_effect_def by auto
  from res obtain g where g: "g \<in> set (wagers (db w'))" "told (sr_Transaction res) g" "gr_provider_id g = Some (ai_ProviderID i)"
    "gr_idempotency_key g = Some (rq_header r ''Idempotency-Key'')"
    by (auto simp: submits_def request_row_def dest!: submitted_told)
  have "program_step jsonb p ?p"
    using prog_request [OF assms(2,3), of jsonb "pg_sent p"] assms(4) by (cases p) simp
  with assms(1) have "(program_step jsonb)\<^sup>*\<^sup>* empty_program ?p" by simp
  from told_later [OF this assms(7) _ g(2)] g(1) obtain g' where g': "g' \<in> set (wagers (pg_db q))" "wager_kept g g'"
    "announced g' (outbox (pg_db q))" "t_status (sr_Transaction res) \<noteq> StatusPendingReference \<longrightarrow> told (sr_Transaction res) g'"
    "moves_money g' \<longrightarrow> (\<exists>!e. e \<in> set (ledger (pg_db q)) \<and> lr_transaction_id e = t_id (sr_Transaction res))"
    by auto
  have "rs_status resp = 200 \<longrightarrow> told (sr_Transaction res) g'"
    using g'(4) resp by (auto simp: writeWagerResponse_def)
  moreover have "gr_id g' = t_id (sr_Transaction res)" "gr_provider_id g' = Some (ai_ProviderID i)"
    "gr_idempotency_key g' = Some (rq_header r ''Idempotency-Key'')"
    using g(2-4) g'(2) by (simp_all add: wager_kept_def told_def wager_identity_def)
  ultimately show ?thesis using i resp g' by blast
qed

theorem http_answers_last_witness:
  "\<exists>ys t replay g. writeWagerResponse ex_settlement False = writeWagerResponse t replay \<and>
    g \<in> set (wagers (pg_db (ex_final ys))) \<and> told t g \<and> gr_idempotency_key g = Some ''k1'' \<and>
    announced g (outbox (pg_db (ex_final ys)))"
proof -
  obtain xs ys w where a: "newMux ex_server ex_submission (ex_begin xs) = (writeWagerResponse ex_settlement False, w)"
    "db (ex_begin xs) = pg_db ex_program" "db w = ex_after ys" using ex_program_answers by blast
  have e: "endpoint ex_submission = Some SubmitWager" "rq_header ex_submission ''Idempotency-Key'' = ''k1''"
    by (simp_all add: endpoint_def endpoint_of_path_def ex_submission_def ex_request_def)
  have final: "rs_status (writeWagerResponse ex_settlement False) = 200"
    by (simp add: writeWagerResponse_def ex_settlement_def)
  have later: "(program_step jsonb)\<^sup>*\<^sup>* (ex_program\<lparr>pg_db := db w\<rparr>) (ex_final ys)"
    using ex_program_consumes [of jsonb ys] a(3) by simp
  from http_answers_last [OF ex_program_reachable ex_server_env a(1,2) e(1) wager_response_status later] final e(2)
  show ?thesis by metis
qed

text \<open>
  Property C8. A message the consumer deleted stays applied, exactly once. When handling a message
  asked the queue to delete anything, then in every later state of the program, whatever requests,
  messages and rounds of workers come in between, the inbox records the message as completed, and
  consuming it again, on any replica, changes nothing.
\<close>

theorem deleted_messages_stay_applied:
  assumes "(program_step jsonb)\<^sup>*\<^sup>* empty_program p" and "env_ok env"
    and "handle env cl decode consumer queueURL received s = (r, s')" and "db (nd_world s) = pg_db p"
    and "CalledDeleteMessage url h ok \<in> set (calls_since s s')"
    and "(program_step jsonb)\<^sup>*\<^sup>* (p\<lparr>pg_db := db (nd_world s')\<rparr>) q"
  shows "\<exists>m. DecodeMessage env decode (mg_Body received) = Inr m \<and> acknowledged consumer m (pg_db q) \<and>
    (\<forall>env' w res w'. env_ok env' \<and> db w = pg_db q \<and> Consume env' consumer m w = (res, w') \<longrightarrow> db w' = pg_db q)"
proof -
  let ?p = "p\<lparr>pg_db := db (nd_world s')\<rparr>"
  have ok: "books_ok (db (nd_world s))" "inbox_unique (db (nd_world s))"
    using program_tables_ok [OF assms(1)] assms(4) by (simp_all add: tables_ok_def)
  obtain m where m: "DecodeMessage env decode (mg_Body received) = Inr m" "acknowledged consumer m (db (nd_world s'))"
    using handle_acknowledges_committed [OF assms(2) ok assms(3)] assms(5) by blast
  have "program_step jsonb p ?p"
    using prog_message [OF assms(2,3), of jsonb "pg_sent p"] assms(4) by (cases p) simp
  with assms(1) have reach: "(program_step jsonb)\<^sup>*\<^sup>* empty_program ?p" by simp
  have a: "acknowledged consumer m (pg_db q)"
    using acknowledged_kept [OF m(2)] program_kept [OF reach assms(6)] by simp
  have t: "tables_ok (pg_db q)" using program_tables_ok rtranclp_trans [OF reach assms(6)] by blast
  have "db w' = pg_db q" if "env_ok env'" "db w = pg_db q" "Consume env' consumer m w = (res, w')" for env' w res w'
    using acknowledged_again [OF that(1,3)] that(2) a t by (simp add: tables_ok_def)
  then show ?thesis using m(1) a by blast
qed

theorem deleted_messages_stay_applied_witness:
  "\<exists>ys. acknowledged ''wallet'' ex_order_message (pg_db (ex_final ys)) \<and>
    db (snd (Consume ex_env ''wallet'' ex_order_message \<lparr>tick = 0, db = pg_db (ex_final ys)\<rparr>)) = pg_db (ex_final ys)"
proof -
  obtain ys where "program_step jsonb ex_program (ex_program\<lparr>pg_db := ex_after ys\<rparr>)" using ex_program_answers by blast
  with ex_program_reachable have p: "(program_step jsonb)\<^sup>*\<^sup>* empty_program (ex_program\<lparr>pg_db := ex_after ys\<rparr>)"
    by (rule rtranclp.rtrancl_into_rtrancl)
  obtain s where h: "handle ex_env ex_client (\<lambda>_. Some ex_order) ''wallet'' ''url'' ex_delivery (ex_consumer_node ys) = (Inr SQSResultReplay, s)"
    and d: "db (nd_world s) = (ex_after ys)\<lparr>inbox := [ex_receipt]\<rparr>"
    "calls_since (ex_consumer_node ys) s = [CalledDeleteMessage ''url'' ''h1'' True]"
    using ex_order_handled by blast
  have d': "CalledDeleteMessage ''url'' ''h1'' True \<in> set (calls_since (ex_consumer_node ys) s)"
    and w: "db (nd_world (ex_consumer_node ys)) = pg_db (ex_program\<lparr>pg_db := ex_after ys\<rparr>)"
    using d(2) by (simp_all add: ex_consumer_node_def)
  have q: "(program_step jsonb)\<^sup>*\<^sup>* (ex_program\<lparr>pg_db := ex_after ys\<rparr>\<lparr>pg_db := db (nd_world s)\<rparr>) (ex_final ys)"
    by (simp add: d(1) ex_final_def ex_program_def)
  from deleted_messages_stay_applied [OF p ex_env_ok h w d' q] ex_order_decoded show ?thesis
    using ex_env_ok by (metis Inr_inject snd_conv surj_pair world.select_convs(2))
qed

end
